(* ===== verification/Primus_Prelude.thy ===== *)
theory Primus_Prelude
  imports Main "HOL-Library.Word" "HOL-Library.List_Lexorder"
begin

text \<open>
  Shared vocabulary of the development: machine integers and byte strings, Rust results,
  the checked and saturating integer operations of the Rust standard library, little- and
  big-endian encodings, and \<open>std::collections::BTreeMap\<close> as a list of key/value pairs in
  strictly increasing key order, which is the order in which Rust iterates over it.
  The lemmas are collected in the simpset, or in the named collections below, and carry the
  proofs of the component theories.
\<close>

unbundle bit_operations_syntax

named_theorems result_simps \<open>rewrite rules and inversions for Rust results\<close>
named_theorems sat_simps \<open>values of the checked and saturating word operations\<close>
named_theorems btree_simps \<open>lookup in ordered maps\<close>

section \<open>Machine integers and byte strings\<close>

type_synonym u8 = "8 word"
type_synonym u16 = "16 word"
type_synonym u32 = "32 word"
type_synonym u64 = "64 word"
type_synonym u128 = "128 word"
type_synonym bytes = "u8 list"
type_synonym hash32 = bytes

section \<open>Results\<close>

text \<open>
  A \<open>Result<T, E>\<close> of the source is \<open>'e + 'a\<close>; \<open>and_then\<close> is the \<open>?\<close> operator. It abbreviates
  a case distinction, so that evaluation does not enter the continuation before the result is known.
\<close>

abbreviation and_then :: "'e + 'a \<Rightarrow> ('a \<Rightarrow> 'e + 'b) \<Rightarrow> 'e + 'b" where
  "and_then r f \<equiv> (case r of Inl e \<Rightarrow> Inl e | Inr x \<Rightarrow> f x)"

definition ok_or :: "'e \<Rightarrow> 'a option \<Rightarrow> 'e + 'a" where
  "ok_or e x = (case x of None \<Rightarrow> Inl e | Some y \<Rightarrow> Inr y)"

definition is_ok :: "'e + 'a \<Rightarrow> bool" where
  "is_ok r = (case r of Inl _ \<Rightarrow> False | Inr _ \<Rightarrow> True)"

lemma and_then_eq_Inr [result_simps]:
  "and_then r f = Inr y \<longleftrightarrow> (\<exists>x. r = Inr x \<and> f x = Inr y)"
  by (cases r) auto

lemma and_then_eq_Inl [result_simps]:
  "and_then r f = Inl e \<longleftrightarrow> r = Inl e \<or> (\<exists>x. r = Inr x \<and> f x = Inl e)"
  by (cases r) auto

lemma ok_or_simps [simp, result_simps]:
  "ok_or e None = Inl e"
  "ok_or e (Some x) = Inr x"
  "ok_or e v = Inr x \<longleftrightarrow> v = Some x"
  by (auto simp: ok_or_def split: option.splits)

lemma is_ok_simps [simp, result_simps]:
  "\<not> is_ok (Inl e)"
  "is_ok (Inr x)"
  by (simp_all add: is_ok_def)

lemma is_ok_iff: "is_ok r \<longleftrightarrow> (\<exists>x. r = Inr x)"
  by (cases r) auto

section \<open>Checked and saturating arithmetic\<close>

definition checked_add :: "'a::len word \<Rightarrow> 'a word \<Rightarrow> 'a word option" where
  "checked_add a b = (if uint a + uint b < 2 ^ LENGTH('a) then Some (a + b) else None)"

definition checked_sub :: "'a::len word \<Rightarrow> 'a word \<Rightarrow> 'a word option" where
  "checked_sub a b = (if b \<le> a then Some (a - b) else None)"

definition saturating_add :: "'a::len word \<Rightarrow> 'a word \<Rightarrow> 'a word" where
  "saturating_add a b = (if uint a + uint b < 2 ^ LENGTH('a) then a + b else - 1)"

definition saturating_sub :: "'a::len word \<Rightarrow> 'a word \<Rightarrow> 'a word" where
  "saturating_sub a b = (if b \<le> a then a - b else 0)"

definition saturating_mul :: "'a::len word \<Rightarrow> 'a word \<Rightarrow> 'a word" where
  "saturating_mul a b = (if uint a * uint b < 2 ^ LENGTH('a) then a * b else - 1)"

lemma unat_max_word: "unat (- 1 :: 'a::len word) = 2 ^ LENGTH('a) - 1"
  by (simp add: unsigned_minus_1_eq_mask mask_eq_exp_minus_1)

lemma uint_fits:
  fixes a b :: "'a::len word"
  shows "uint a + uint b < 2 ^ LENGTH('a) \<longleftrightarrow> unat a + unat b < 2 ^ LENGTH('a)"
    and "uint a * uint b < 2 ^ LENGTH('a) \<longleftrightarrow> unat a * unat b < 2 ^ LENGTH('a)"
  using of_nat_less_iff [where ?'a = int, of "unat a + unat b" "2 ^ LENGTH('a)"]
    of_nat_less_iff [where ?'a = int, of "unat a * unat b" "2 ^ LENGTH('a)"]
  by simp_all

lemma checked_add_Some [sat_simps]:
  "checked_add a b = Some c \<Longrightarrow> unat c = unat a + unat b"
  by (auto simp: checked_add_def uint_fits unat_word_ariths split: if_splits)

lemma checked_sub_Some [sat_simps]:
  "checked_sub a b = Some c \<Longrightarrow> unat a = unat c + unat b"
  by (auto simp: checked_sub_def unat_sub word_le_nat_alt split: if_splits)

lemma checked_sub_None [sat_simps]: "checked_sub a b = None \<longleftrightarrow> a < b"
  by (auto simp: checked_sub_def not_le)

lemma unat_saturating_add [sat_simps]:
  "unat (saturating_add a (b :: 'a::len word)) = min (unat a + unat b) (2 ^ LENGTH('a) - 1)"
  by (auto simp: saturating_add_def uint_fits unat_word_ariths unat_max_word)

lemma unat_saturating_sub [sat_simps]:
  "unat (saturating_sub a b) = unat a - unat b"
  by (auto simp: saturating_sub_def unat_sub word_le_nat_alt)

lemma unat_saturating_mul [sat_simps]:
  "unat (saturating_mul a (b :: 'a::len word)) = min (unat a * unat b) (2 ^ LENGTH('a) - 1)"
  by (auto simp: saturating_mul_def uint_fits unat_word_ariths unat_max_word)

lemma saturating_add_le: "unat (saturating_add a b) \<le> unat a + unat b"
  by (simp add: sat_simps)

lemma saturating_sub_le: "saturating_sub a b \<le> a"
  by (simp add: word_le_nat_alt sat_simps)

section \<open>Byte encodings\<close>

definition to_le_bytes :: "nat \<Rightarrow> 'a::len word \<Rightarrow> bytes" where
  "to_le_bytes n w = map (\<lambda>i. ucast (drop_bit (8 * i) w)) [0..<n]"

definition to_be_bytes :: "nat \<Rightarrow> 'a::len word \<Rightarrow> bytes" where
  "to_be_bytes n w = rev (to_le_bytes n w)"

fun from_le_bytes :: "bytes \<Rightarrow> 'a::len word" where
  "from_le_bytes [] = 0"
| "from_le_bytes (b # bs) = ucast b + 256 * from_le_bytes bs"

definition from_be_bytes :: "bytes \<Rightarrow> 'a::len word" where
  "from_be_bytes bs = from_le_bytes (rev bs)"

lemma length_to_le_bytes [simp]: "length (to_le_bytes n w) = n"
  by (simp add: to_le_bytes_def)

lemma length_to_be_bytes [simp]: "length (to_be_bytes n w) = n"
  by (simp add: to_be_bytes_def)

lemma to_le_bytes_inj:
  assumes "to_le_bytes n v = to_le_bytes n (w :: 'a::len word)" and "LENGTH('a) \<le> 8 * n"
  shows "v = w"
proof (rule bit_word_eqI)
  fix i assume i: "i < LENGTH('a)"
  have "to_le_bytes n v ! (i div 8) = to_le_bytes n w ! (i div 8)" using assms(1) by simp
  moreover have "i div 8 < n" using i assms(2) by linarith
  ultimately have "bit (ucast (drop_bit (8 * (i div 8)) v) :: u8) (i mod 8)
                 = bit (ucast (drop_bit (8 * (i div 8)) w) :: u8) (i mod 8)"
    by (simp add: to_le_bytes_def)
  then show "bit v i = bit w i" by (simp add: bit_simps)
qed

lemma to_le_bytes_Suc: "to_le_bytes (Suc n) w = ucast w # to_le_bytes n (drop_bit 8 w)"
proof -
  have "[0..<Suc n] = 0 # map Suc [0..<n]" by (simp add: upt_conv_Cons map_Suc_upt del: upt_Suc)
  then show ?thesis by (simp add: to_le_bytes_def o_def add.commute del: upt_Suc)
qed

lemma from_to_le_bytes: "from_le_bytes (to_le_bytes n w) = take_bit (8 * n) (w :: 'a::len word)"
proof (induction n arbitrary: w)
  case (Suc n)
  have "from_le_bytes (to_le_bytes (Suc n) w) = take_bit 8 w + push_bit 8 (take_bit (8 * n) (drop_bit 8 w))"
    using Suc by (simp add: to_le_bytes_Suc push_bit_eq_mult mult.commute, simp add: unsigned_ucast_eq flip: take_bit_eq_mask)
  also have "\<dots> = take_bit 8 w OR push_bit 8 (take_bit (8 * n) (drop_bit 8 w))"
    by (rule disjunctive_add) (auto simp: bit_simps)
  also have "\<dots> = take_bit (8 * Suc n) w"
    by (rule bit_word_eqI) (auto simp: bit_simps)
  finally show ?case .
qed (simp add: to_le_bytes_def)

lemma from_to_le_bytes_u64 [simp]: "from_le_bytes (to_le_bytes 8 (w :: u64)) = w"
  by (simp add: from_to_le_bytes take_bit_word_eq_self)
text \<open>Bytewise exclusive or, truncated to the shorter operand like Rust's \<open>zip\<close>.\<close>

definition xor_bytes :: "bytes \<Rightarrow> bytes \<Rightarrow> bytes" where
  "xor_bytes a b = map2 (\<lambda>x y. x XOR y) a b"

lemma length_xor_bytes [simp]: "length (xor_bytes a b) = min (length a) (length b)"
  by (simp add: xor_bytes_def)

lemma nth_xor_bytes [simp]:
  "i < length a \<Longrightarrow> i < length b \<Longrightarrow> xor_bytes a b ! i = a ! i XOR b ! i"
  by (simp add: xor_bytes_def)

lemma xor_bytes_commute: "xor_bytes a b = xor_bytes b a"
  by (rule nth_equalityI) (auto simp: xor.commute)

lemma xor_bytes_assoc: "xor_bytes (xor_bytes a b) c = xor_bytes a (xor_bytes b c)"
  by (rule nth_equalityI) (auto simp: xor.assoc)

lemma xor_bytes_self: "xor_bytes a a = replicate (length a) 0"
  by (rule nth_equalityI) auto

lemma xor_bytes_zero: "length a = n \<Longrightarrow> xor_bytes a (replicate n 0) = a"
  by (rule nth_equalityI) auto

lemma xor_bytes_cancel:
  assumes "length a = length b" shows "xor_bytes (xor_bytes a b) b = a"
  using assms by (simp add: xor_bytes_assoc xor_bytes_self xor_bytes_zero)

section \<open>Ordered maps\<close>

type_synonym ('k, 'v) btree = "('k \<times> 'v) list"

abbreviation bt_get :: "('k, 'v) btree \<Rightarrow> 'k \<Rightarrow> 'v option" where
  "bt_get \<equiv> map_of"

fun bt_insert :: "'k::linorder \<Rightarrow> 'v \<Rightarrow> ('k, 'v) btree \<Rightarrow> ('k, 'v) btree" where
  "bt_insert k v [] = [(k, v)]"
| "bt_insert k v ((k', v') # m) =
     (if k < k' then (k, v) # (k', v') # m
      else if k = k' then (k, v) # m
      else (k', v') # bt_insert k v m)"

fun bt_remove :: "'k \<Rightarrow> ('k, 'v) btree \<Rightarrow> ('k, 'v) btree" where
  "bt_remove k [] = []"
| "bt_remove k ((k', v') # m) = (if k = k' then bt_remove k m else (k', v') # bt_remove k m)"

definition bt_ordered :: "('k::linorder, 'v) btree \<Rightarrow> bool" where
  "bt_ordered m = sorted_wrt (<) (map fst m)"

definition bt_sum :: "('v \<Rightarrow> nat) \<Rightarrow> ('k, 'v) btree \<Rightarrow> nat" where
  "bt_sum f m = sum_list (map (f \<circ> snd) m)"

lemma bt_get_insert [simp, btree_simps]: "bt_get (bt_insert k v m) = (bt_get m)(k \<mapsto> v)"
  by (induction k v m rule: bt_insert.induct) auto

lemma bt_get_remove [simp, btree_simps]: "bt_get (bt_remove k m) = (bt_get m)(k := None)"
  by (induction k m rule: bt_remove.induct) auto

lemma fst_set_bt_insert: "fst ` set (bt_insert k v m) = insert k (fst ` set m)"
  by (induction k v m rule: bt_insert.induct) auto

lemma fst_set_bt_remove: "fst ` set (bt_remove k m) = fst ` set m - {k}"
  by (induction k m rule: bt_remove.induct) auto

lemma bt_ordered_Nil [simp]: "bt_ordered []"
  by (simp add: bt_ordered_def)

lemma bt_ordered_Cons [simp]:
  "bt_ordered ((k, v) # m) \<longleftrightarrow> (\<forall>k' \<in> fst ` set m. k < k') \<and> bt_ordered m"
  by (simp add: bt_ordered_def)

lemma bt_ordered_insert [simp]: "bt_ordered m \<Longrightarrow> bt_ordered (bt_insert k v m)"
proof (induction k v m rule: bt_insert.induct)
  case (2 k v k' v' m)
  then show ?case by (auto simp: fst_set_bt_insert)
qed simp

lemma bt_ordered_remove [simp]: "bt_ordered m \<Longrightarrow> bt_ordered (bt_remove k m)"
proof (induction k m rule: bt_remove.induct)
  case (2 k k' v' m)
  then show ?case by (auto simp: fst_set_bt_remove)
qed simp

lemma bt_ordered_distinct: "bt_ordered m \<Longrightarrow> distinct (map fst m)"
  by (simp add: bt_ordered_def strict_sorted_iff)

lemma bt_get_None_less:
  "\<forall>k' \<in> fst ` set m. k < k' \<Longrightarrow> bt_get m (k :: 'k::linorder) = None"
  by (force simp: map_of_eq_None_iff)

lemma bt_eqI:
  assumes "bt_ordered m" and "bt_ordered m'" and "bt_get m = bt_get m'"
  shows "m = m'"
proof (rule map_sorted_distinct_set_unique [where f = fst])
  have d: "distinct (map fst m)" "distinct (map fst m')"
    using assms(1,2) by (simp_all add: bt_ordered_distinct)
  then show "distinct (map fst m)" "distinct (map fst m')" by simp_all
  show "set m = set m'"
    using d assms(3) by (metis map_of_inject_set)
  then show "inj_on fst (set m \<union> set m')"
    using d(1) by (simp add: distinct_map)
  show "sorted (map fst m)" "sorted (map fst m')"
    using assms(1,2) by (simp_all add: bt_ordered_def strict_sorted_iff)
qed

lemma bt_sum_Nil [simp]: "bt_sum f [] = 0"
  by (simp add: bt_sum_def)

lemma bt_sum_Cons [simp]: "bt_sum f ((k, v) # m) = f v + bt_sum f m"
  by (simp add: bt_sum_def)

lemma bt_sum_insert:
  assumes "bt_ordered m"
  shows "bt_sum f (bt_insert k v m) + (case bt_get m k of None \<Rightarrow> 0 | Some w \<Rightarrow> f w)
       = bt_sum f m + f v"
  using assms
proof (induction k v m rule: bt_insert.induct)
  case (2 k v k' v' m)
  consider "k < k'" | "k = k'" | "k' < k" by fastforce
  then show ?case
  proof cases
    case 1
    then have "\<forall>x \<in> fst ` set m. k < x" using 2(2) by fastforce
    then have "bt_get m k = None" by (rule bt_get_None_less)
    with 1 show ?thesis by auto
  next
    case 2
    then show ?thesis by simp
  next
    case 3
    with 2 have "bt_sum f (bt_insert k v m) + (case bt_get m k of None \<Rightarrow> 0 | Some w \<Rightarrow> f w)
        = bt_sum f m + f v" by auto
    moreover have "\<not> k < k'" "k \<noteq> k'" using 3 by auto
    ultimately show ?thesis by simp
  qed
qed simp

lemma bt_sum_ge: "bt_get m k = Some v \<Longrightarrow> f v \<le> bt_sum f m"
  by (induction m) (auto split: if_splits)

end
