(* ===== verification/Rust_Float.thy ===== *)
theory Rust_Float
  imports Complex_Main Primus_Prelude
begin

text \<open>
  The \<open>f32\<close> and \<open>f64\<close> types of Rust: IEEE 754 binary32 and binary64 with rounding to
  nearest, ties to even. A finite value is a sign, an integer mantissa and the exponent of its
  last bit; results of the operations are in the canonical form of their format (mantissa below
  \<open>2 ^ prec\<close>, and at least \<open>2 ^ (prec - 1)\<close> unless the exponent is minimal), so a value
  determines its bit pattern. All operations are integer computations and evaluate.
  Casts to integers truncate and saturate and send NaN to zero, as the language defines \<open>as\<close>.
  The lemmas show that rounding never crosses a representable number, which gives the bounds the
  components need.
\<close>

section \<open>Formats and values\<close>

record float_format =
  prec :: int
  emin :: int
  emax :: int

definition binary32 :: float_format where
  "binary32 = \<lparr>prec = 24, emin = - 149, emax = 104\<rparr>"

definition binary64 :: float_format where
  "binary64 = \<lparr>prec = 53, emin = - 1074, emax = 971\<rparr>"

lemma format_fields [simp]:
  "prec binary32 = 24" "emin binary32 = - 149" "emax binary32 = 104"
  "prec binary64 = 53" "emin binary64 = - 1074" "emax binary64 = 971"
  by (simp_all add: binary32_def binary64_def)

datatype rfloat = NaN | Inf bool | Fin bool int int

type_synonym f32 = rfloat
type_synonym f64 = rfloat

function bit_length :: "int \<Rightarrow> int" where
  "bit_length m = (if m \<le> 0 then 0 else 1 + bit_length (m div 2))"
  by pat_completeness auto
termination
  by (relation "measure nat") auto

declare bit_length.simps [simp del]

section \<open>Rounding\<close>

text \<open>
  \<open>round_mant p lo m e\<close> rounds the value \<open>m * 2 ^ e\<close> (with \<open>0 < m\<close>) to a mantissa of at
  most \<open>p\<close> bits with an exponent of at least \<open>lo\<close>.
\<close>

definition round_exp :: "int \<Rightarrow> int \<Rightarrow> int \<Rightarrow> int \<Rightarrow> int" where
  "round_exp p lo m e = max (e + bit_length m - p) lo"

definition round_half_even :: "int \<Rightarrow> nat \<Rightarrow> int" where
  "round_half_even m k =
     (let q = m div 2 ^ k; r = m mod 2 ^ k; h = 2 ^ (k - 1)
      in if h < r \<or> (r = h \<and> odd q) then q + 1 else q)"

definition round_mant :: "int \<Rightarrow> int \<Rightarrow> int \<Rightarrow> int \<Rightarrow> int \<times> int" where
  "round_mant p lo m e =
     (let e' = round_exp p lo m e
      in if e' \<le> e then (m * 2 ^ nat (e - e'), e')
         else (let q = round_half_even m (nat (e' - e))
               in if q = 2 ^ nat p then (2 ^ nat (p - 1), e' + 1) else (q, e')))"

definition fround :: "float_format \<Rightarrow> bool \<Rightarrow> int \<Rightarrow> int \<Rightarrow> rfloat" where
  "fround F s m e =
     (if m \<le> 0 then Fin s 0 (emin F)
      else (case round_mant (prec F) (emin F) m e of
              (m', e') \<Rightarrow> if emax F < e' then Inf s else Fin s m' e'))"

text \<open>A quotient \<open>n / d * 2 ^ e\<close>: enough quotient bits, with the remainder as a sticky bit.\<close>

definition fround_ratio :: "float_format \<Rightarrow> bool \<Rightarrow> int \<Rightarrow> int \<Rightarrow> int \<Rightarrow> rfloat" where
  "fround_ratio F s n d e =
     (let k = prec F + 2 + bit_length d; a = n * 2 ^ nat k
      in fround F s (2 * (a div d) + (if a mod d = 0 then 0 else 1)) (e - k - 1))"

text \<open>The value of the decimal literal \<open>n / d\<close>, which Rust rounds to nearest.\<close>

definition flit :: "float_format \<Rightarrow> int \<Rightarrow> int \<Rightarrow> rfloat" where
  "flit F n d = fround_ratio F (n < 0) \<bar>n\<bar> d 0"

abbreviation f32_lit :: "int \<Rightarrow> int \<Rightarrow> f32" where
  "f32_lit \<equiv> flit binary32"

abbreviation f64_lit :: "int \<Rightarrow> int \<Rightarrow> f64" where
  "f64_lit \<equiv> flit binary64"

section \<open>Arithmetic\<close>

definition signed_mant :: "bool \<Rightarrow> int \<Rightarrow> int" where
  "signed_mant s m = (if s then - m else m)"

definition fneg :: "rfloat \<Rightarrow> rfloat" where
  "fneg x = (case x of NaN \<Rightarrow> NaN | Inf s \<Rightarrow> Inf (\<not> s) | Fin s m e \<Rightarrow> Fin (\<not> s) m e)"

fun fadd :: "float_format \<Rightarrow> rfloat \<Rightarrow> rfloat \<Rightarrow> rfloat" where
  "fadd F NaN y = NaN"
| "fadd F x NaN = NaN"
| "fadd F (Inf s) (Inf t) = (if s = t then Inf s else NaN)"
| "fadd F (Inf s) (Fin t m e) = Inf s"
| "fadd F (Fin t m e) (Inf s) = Inf s"
| "fadd F (Fin s m e) (Fin t n f) =
     (let g = min e f; v = signed_mant s m * 2 ^ nat (e - g) + signed_mant t n * 2 ^ nat (f - g)
      in if v = 0 then Fin (s \<and> t) 0 (emin F) else fround F (v < 0) \<bar>v\<bar> g)"

definition fsub :: "float_format \<Rightarrow> rfloat \<Rightarrow> rfloat \<Rightarrow> rfloat" where
  "fsub F x y = fadd F x (fneg y)"

fun fmul :: "float_format \<Rightarrow> rfloat \<Rightarrow> rfloat \<Rightarrow> rfloat" where
  "fmul F NaN y = NaN"
| "fmul F x NaN = NaN"
| "fmul F (Inf s) (Inf t) = Inf (s \<noteq> t)"
| "fmul F (Inf s) (Fin t m e) = (if m = 0 then NaN else Inf (s \<noteq> t))"
| "fmul F (Fin t m e) (Inf s) = (if m = 0 then NaN else Inf (s \<noteq> t))"
| "fmul F (Fin s m e) (Fin t n f) = fround F (s \<noteq> t) (m * n) (e + f)"

fun fdiv :: "float_format \<Rightarrow> rfloat \<Rightarrow> rfloat \<Rightarrow> rfloat" where
  "fdiv F NaN y = NaN"
| "fdiv F x NaN = NaN"
| "fdiv F (Inf s) (Inf t) = NaN"
| "fdiv F (Inf s) (Fin t m e) = Inf (s \<noteq> t)"
| "fdiv F (Fin t m e) (Inf s) = Fin (s \<noteq> t) 0 (emin F)"
| "fdiv F (Fin s m e) (Fin t n f) =
     (if n = 0 then (if m = 0 then NaN else Inf (s \<noteq> t))
      else fround_ratio F (s \<noteq> t) m n (e - f))"

function isqrt :: "int \<Rightarrow> int" where
  "isqrt n = (if n \<le> 0 then 0
     else let r = 2 * isqrt (n div 4) in if (r + 1) * (r + 1) \<le> n then r + 1 else r)"
  by pat_completeness auto
termination
  by (relation "measure nat") auto

declare isqrt.simps [simp del]

fun fsqrt :: "float_format \<Rightarrow> rfloat \<Rightarrow> rfloat" where
  "fsqrt F NaN = NaN"
| "fsqrt F (Inf s) = (if s then NaN else Inf s)"
| "fsqrt F (Fin s m e) =
     (if m = 0 then Fin s 0 (emin F)
      else if s then NaN
      else let k = prec F + 2; a = m * 2 ^ nat (2 * k + e mod 2); r = isqrt a
           in fround F False (2 * r + (if r * r = a then 0 else 1)) (e div 2 - k - 1))"

section \<open>Comparison, selection and casts\<close>

fun flt :: "rfloat \<Rightarrow> rfloat \<Rightarrow> bool" where
  "flt NaN y = False"
| "flt x NaN = False"
| "flt (Inf s) (Inf t) = (s \<and> \<not> t)"
| "flt (Inf s) (Fin t m e) = s"
| "flt (Fin t m e) (Inf s) = (\<not> s)"
| "flt (Fin s m e) (Fin t n f) =
     (let g = min e f in signed_mant s m * 2 ^ nat (e - g) < signed_mant t n * 2 ^ nat (f - g))"

definition fle :: "rfloat \<Rightarrow> rfloat \<Rightarrow> bool" where
  "fle x y = (x \<noteq> NaN \<and> y \<noteq> NaN \<and> \<not> flt y x)"

text \<open>\<open>f32::max\<close> and \<open>f32::min\<close> ignore a NaN operand.\<close>

definition fmax :: "rfloat \<Rightarrow> rfloat \<Rightarrow> rfloat" where
  "fmax x y = (if x = NaN then y else if y = NaN then x else if flt x y then y else x)"

definition fmin :: "rfloat \<Rightarrow> rfloat \<Rightarrow> rfloat" where
  "fmin x y = (if x = NaN then y else if y = NaN then x else if flt y x then y else x)"

definition fabs :: "rfloat \<Rightarrow> rfloat" where
  "fabs x = (case x of NaN \<Rightarrow> NaN | Inf s \<Rightarrow> Inf False | Fin s m e \<Rightarrow> Fin False m e)"

text \<open>\<open>x.clamp(lo, hi)\<close> for constant bounds \<open>lo <= hi\<close>; NaN stays NaN.\<close>

definition fclamp :: "rfloat \<Rightarrow> rfloat \<Rightarrow> rfloat \<Rightarrow> rfloat" where
  "fclamp x lo hi = (if flt x lo then lo else if flt hi x then hi else x)"

definition fcast :: "float_format \<Rightarrow> rfloat \<Rightarrow> rfloat" where
  "fcast F x = (case x of NaN \<Rightarrow> NaN | Inf s \<Rightarrow> Inf s | Fin s m e \<Rightarrow> fround F s m e)"

definition float_of_int :: "float_format \<Rightarrow> int \<Rightarrow> rfloat" where
  "float_of_int F n = fround F (n < 0) \<bar>n\<bar> 0"

definition float_of_word :: "float_format \<Rightarrow> 'a::len word \<Rightarrow> rfloat" where
  "float_of_word F w = float_of_int F (uint w)"

definition trunc_mant :: "int \<Rightarrow> int \<Rightarrow> int" where
  "trunc_mant m e = (if 0 \<le> e then m * 2 ^ nat e else m div 2 ^ nat (- e))"

text \<open>\<open>x as uN\<close>: truncate towards zero, saturate, NaN to zero.\<close>

definition float_to_uint :: "nat \<Rightarrow> rfloat \<Rightarrow> int" where
  "float_to_uint w x =
     (case x of NaN \<Rightarrow> 0
      | Inf s \<Rightarrow> if s then 0 else 2 ^ w - 1
      | Fin s m e \<Rightarrow> if s then 0 else min (trunc_mant m e) (2 ^ w - 1))"

definition float_to_u64 :: "rfloat \<Rightarrow> u64" where
  "float_to_u64 x = word_of_int (float_to_uint 64 x)"

definition float_to_u8 :: "rfloat \<Rightarrow> u8" where
  "float_to_u8 x = word_of_int (float_to_uint 8 x)"

definition f32_bits :: "f32 \<Rightarrow> u32" where
  "f32_bits x =
     (case x of NaN \<Rightarrow> 0x7FC00000
      | Inf s \<Rightarrow> (if s then 0xFF800000 else 0x7F800000)
      | Fin s m e \<Rightarrow>
          (if s then 0x80000000 else 0)
            + word_of_int (if m < 2 ^ 23 then m else (e + 150) * 2 ^ 23 + (m - 2 ^ 23)))"

abbreviation f32_zero :: f32 where "f32_zero \<equiv> Fin False 0 (- 149)"
abbreviation f64_zero :: f64 where "f64_zero \<equiv> Fin False 0 (- 1074)"

section \<open>Bounds on rounding\<close>

lemma bit_length_nonneg: "0 \<le> bit_length m"
  by (induction m rule: bit_length.induct) (subst bit_length.simps, auto)

lemma bit_length_pos: "0 < m \<Longrightarrow> 1 \<le> bit_length m"
  using bit_length_nonneg [of "m div 2"] by (subst bit_length.simps) simp

lemma bit_length_lower: "0 < m \<Longrightarrow> 2 ^ nat (bit_length m - 1) \<le> m"
proof (induction m rule: bit_length.induct)
  case (1 m)
  show ?case
  proof (cases "m = 1")
    case True
    then show ?thesis by (simp add: bit_length.simps [of 1] bit_length.simps [of 0])
  next
    case False
    with 1(2) have pos: "0 < m div 2" by auto
    with 1 have IH: "2 ^ nat (bit_length (m div 2) - 1) \<le> m div 2" by auto
    have "nat (bit_length m - 1) = Suc (nat (bit_length (m div 2) - 1))"
      using bit_length_pos [OF pos] 1(2) bit_length.simps [of m] by auto
    with IH show ?thesis by auto
  qed
qed

lemma bit_length_upper: "m < 2 ^ nat (bit_length m)"
proof (induction m rule: bit_length.induct)
  case (1 m)
  show ?case
  proof (cases "m \<le> 0")
    case True
    then show ?thesis by (metis order.strict_trans1 zero_less_numeral zero_less_power)
  next
    case False
    with 1 have IH: "m div 2 < 2 ^ nat (bit_length (m div 2))" by auto
    have "nat (bit_length m) = Suc (nat (bit_length (m div 2)))"
      using False bit_length_nonneg [of "m div 2"] bit_length.simps [of m] by auto
    with IH show ?thesis by auto
  qed
qed

definition rval :: "int \<Rightarrow> int \<Rightarrow> real" where
  "rval m e = real_of_int m * 2 powi e"

definition fval :: "rfloat \<Rightarrow> real" where
  "fval x = (case x of Fin s m e \<Rightarrow> rval (signed_mant s m) e | _ \<Rightarrow> 0)"

lemma rval_shift: "0 \<le> k \<Longrightarrow> rval (m * 2 ^ nat k) e = rval m (e + k)"
proof -
  assume "0 \<le> k"
  then have "(2::real) powi k = 2 ^ nat k" by (simp add: power_int_def)
  then show ?thesis by (simp add: rval_def power_int_add)
qed

lemma rval_less_iff: "rval m e < rval n e \<longleftrightarrow> m < n"
  by (simp add: rval_def)

lemma rval_le_iff: "rval m e \<le> rval n e \<longleftrightarrow> m \<le> n"
  by (simp add: rval_def)

lemma flt_Fin_iff: "flt (Fin s m e) (Fin t n f) \<longleftrightarrow> fval (Fin s m e) < fval (Fin t n f)"
proof -
  have "rval (signed_mant s m) e = rval (signed_mant s m * 2 ^ nat (e - min e f)) (min e f)"
    "rval (signed_mant t n) f = rval (signed_mant t n * 2 ^ nat (f - min e f)) (min e f)"
    by (simp_all add: rval_shift)
  then show ?thesis by (simp add: fval_def rval_less_iff Let_def)
qed

lemma round_half_even_cases:
  "round_half_even m k = m div 2 ^ k \<or> (round_half_even m k = m div 2 ^ k + 1 \<and> 0 < m mod 2 ^ k)"
  by (auto simp: round_half_even_def Let_def zero_less_power)
    (smt (verit) zero_less_power)+

text \<open>The mantissa cut to the exponent of the result keeps at least \<open>p - 1\<close> bits.\<close>

lemma round_exp_top:
  assumes "0 < m" and "e < round_exp p lo m e" and "lo < round_exp p lo m e" and "1 \<le> p"
  shows "2 ^ nat (p - 1) \<le> m div 2 ^ nat (round_exp p lo m e - e)"
proof -
  have k: "round_exp p lo m e - e = bit_length m - p" "0 < bit_length m - p"
    using assms by (auto simp: round_exp_def)
  have "(2::int) ^ nat (bit_length m - 1) div 2 ^ nat (bit_length m - p) \<le> m div 2 ^ nat (bit_length m - p)"
    using bit_length_lower [OF assms(1)] by (intro zdiv_mono1) auto
  moreover have "nat (bit_length m - 1) = nat (p - 1) + nat (bit_length m - p)"
    using k assms by linarith
  ultimately show ?thesis unfolding k(1) by (simp add: power_add)
qed

text \<open>
  Rounding never crosses a representable number \<open>n * 2 ^ f\<close>: if the exact value lies on one
  side of it, so does the rounded value.
\<close>

lemma round_half_even_grid:
  assumes m: "0 < m" and p: "1 \<le> p" and n: "0 \<le> n" "n \<le> 2 ^ nat p" and f: "lo \<le> f"
    and e0: "e0 = round_exp p lo m e" "e < e0"
  shows "rval n f \<le> rval m e \<Longrightarrow> rval n f \<le> rval (round_half_even m (nat (e0 - e))) e0"
    and "rval m e \<le> rval n f \<Longrightarrow> rval (round_half_even m (nat (e0 - e))) e0 \<le> rval n f"
proof -
  define D :: int where "D = 2 ^ nat (e0 - e)"
  define q where "q = round_half_even m (nat (e0 - e))"
  have D: "0 < D" by (simp add: D_def)
  have mD: "m = m div D * D + m mod D" "0 \<le> m mod D" using D by simp_all
  have q: "q = m div D \<or> (q = m div D + 1 \<and> 0 < m mod D)"
    using round_half_even_cases [of m "nat (e0 - e)"] by (simp add: q_def D_def)
  have up: "rval x e0 = rval (x * D) e" for x
    using e0(2) rval_shift [of "e0 - e" x e] by (simp add: D_def)
  have low: "rval n f \<le> rval (m div D) e0" if "f < e0"
  proof -
    have "2 ^ nat (p - 1) \<le> m div D"
      using round_exp_top [of m e p lo] e0 that f m p by (simp add: D_def)
    moreover have "rval n f \<le> rval (2 ^ nat (p - 1) * 2 ^ nat (e0 - f)) f"
    proof (subst rval_le_iff)
      have "n \<le> 2 ^ nat p" by (fact n(2))
      also have "\<dots> = 2 ^ nat (p - 1) * 2 ^ 1" using p by (simp flip: power_Suc2 add: Suc_nat_eq_nat_zadd1)
      also have "\<dots> \<le> 2 ^ nat (p - 1) * 2 ^ nat (e0 - f)"
        using that by (intro mult_left_mono power_increasing) auto
      finally show "n \<le> 2 ^ nat (p - 1) * 2 ^ nat (e0 - f)" .
    qed
    moreover have "rval (2 ^ nat (p - 1) * 2 ^ nat (e0 - f)) f = rval (2 ^ nat (p - 1)) e0"
      using that rval_shift [of "e0 - f" "2 ^ nat (p - 1)" f] by simp
    ultimately show ?thesis by (smt (verit) rval_le_iff)
  qed
  have grid: "rval n f = rval (n * 2 ^ nat (f - e0) * D) e" if "e0 \<le> f"
    using that rval_shift [of "f - e0" n e0] by (simp flip: up)
  show "rval n f \<le> rval q e0" if le: "rval n f \<le> rval m e"
  proof (cases "e0 \<le> f")
    case True
    with le grid have "n * 2 ^ nat (f - e0) * D \<le> m" by (simp add: rval_le_iff)
    then have "n * 2 ^ nat (f - e0) \<le> m div D"
      using D zdiv_mono1 [of "n * 2 ^ nat (f - e0) * D" m D] by simp
    with True show ?thesis using q up grid rval_le_iff by (smt (verit) D mult_right_mono)
  next
    case False
    then show ?thesis using low q rval_le_iff by (smt (verit))
  qed
  show "rval q e0 \<le> rval n f" if ge: "rval m e \<le> rval n f"
  proof (cases "0 < m mod D")
    case False
    with mD q have "q * D = m" by auto
    with ge show ?thesis by (simp add: up)
  next
    case True
    then have "m div D * D < m" using mD(1) by linarith
    then have lt: "rval (m div D) e0 < rval m e" by (simp add: up rval_less_iff)
    then have f: "e0 \<le> f" using low ge by fastforce
    then have "m div D * D < n * 2 ^ nat (f - e0) * D"
      using lt ge grid by (simp add: up rval_less_iff) (smt (verit) rval_less_iff)
    then have "m div D + 1 \<le> n * 2 ^ nat (f - e0)" using D by simp
    then have "q * D \<le> n * 2 ^ nat (f - e0) * D" using q D by (intro mult_right_mono) auto
    then show ?thesis using grid [OF f] by (simp add: up rval_le_iff)
  qed
qed


lemma round_mant_grid:
  assumes m: "0 < m" and p: "1 \<le> p" and n: "0 \<le> n" "n \<le> 2 ^ nat p" and f: "lo \<le> f"
    and r: "round_mant p lo m e = (m', e')"
  shows "rval n f \<le> rval m e \<Longrightarrow> rval n f \<le> rval m' e'"
    and "rval m e \<le> rval n f \<Longrightarrow> rval m' e' \<le> rval n f"
proof -
  define e0 where "e0 = round_exp p lo m e"
  consider "e0 \<le> e" "rval m' e' = rval m e"
    | "e < e0" "rval m' e' = rval (round_half_even m (nat (e0 - e))) e0"
  proof (cases "e0 \<le> e")
    case True
    with r show ?thesis
      using that(1) rval_shift [of "e - e0" m e0]
      by (auto simp: round_mant_def Let_def simp flip: e0_def)
  next
    case False
    have "rval (2 ^ nat (p - 1)) (e0 + 1) = rval (2 ^ nat p) e0"
      using p rval_shift [of 1 "2 ^ nat (p - 1)" e0]
      by (simp flip: power_Suc2 add: Suc_nat_eq_nat_zadd1)
    with False r show ?thesis
      using that(2) by (auto simp: round_mant_def Let_def split: if_splits simp flip: e0_def)
  qed
  note c = this
  show "rval n f \<le> rval m' e'" if "rval n f \<le> rval m e"
    using c round_half_even_grid(1) [OF m p n f e0_def] that by cases auto
  show "rval m' e' \<le> rval n f" if "rval m e \<le> rval n f"
    using c round_half_even_grid(2) [OF m p n f e0_def] that by cases auto
qed

lemma fround_cases:
  "fround F s m e = Inf s \<or> (\<exists>m' e'. fround F s m e = Fin s m' e')"
  by (auto simp: fround_def split: prod.splits)

lemma fround_grid:
  assumes "fround F s m e = Fin s' m' e'" and "0 \<le> m" and "1 \<le> prec F"
    and "0 \<le> n" and "n \<le> 2 ^ nat (prec F)" and "emin F \<le> f"
  shows "rval n f \<le> rval m e \<Longrightarrow> rval n f \<le> rval m' e'"
    and "rval m e \<le> rval n f \<Longrightarrow> rval m' e' \<le> rval n f"
  using assms round_mant_grid [of m "prec F" n "emin F" f e m' e']
  by (auto simp: fround_def rval_def split: if_splits prod.splits)

lemma fround_nonneg_mant: "0 \<le> m \<Longrightarrow> fround F s m e = Fin s' m' e' \<Longrightarrow> 0 \<le> m' \<and> s' = s"
  by (auto simp: fround_def round_mant_def round_half_even_def Let_def pos_imp_zdiv_nonneg_iff
      split: if_splits prod.splits)

lemma trunc_mant_floor: "trunc_mant m e = \<lfloor>rval m e\<rfloor>"
proof (cases "0 \<le> e")
  case True
  then have "rval m e = real_of_int (m * 2 ^ nat e)" by (simp add: rval_def power_int_def)
  then have "\<lfloor>rval m e\<rfloor> = m * 2 ^ nat e" by (simp only: floor_of_int)
  then show ?thesis using True by (simp add: trunc_mant_def)
next
  case False
  then have "rval m e = real_of_int m / real_of_int (2 ^ nat (- e))"
    by (simp add: rval_def power_int_def field_simps power_one_over)
  then have "\<lfloor>rval m e\<rfloor> = m div 2 ^ nat (- e)" by (simp only: floor_divide_of_int_eq)
  then show ?thesis using False by (simp add: trunc_mant_def)
qed

text \<open>The integers up to \<open>2 ^ prec\<close> are exact.\<close>

lemma bit_length_le: "m \<le> 2 ^ n \<Longrightarrow> bit_length m \<le> int n + 1"
proof (rule ccontr)
  assume m: "m \<le> 2 ^ n" and "\<not> bit_length m \<le> int n + 1"
  then have b: "n + 1 \<le> nat (bit_length m - 1)" by linarith
  then have "0 < m" using bit_length.simps [of m] by (cases "m \<le> 0") auto
  then have "(2::int) ^ (n + 1) \<le> m"
    using bit_length_lower [of m] power_increasing [OF b, of "2::int"] by auto
  moreover have "(2::int) ^ n < 2 ^ (n + 1)" by simp
  ultimately show False using m by linarith
qed

definition format_ok :: "float_format \<Rightarrow> bool" where
  "format_ok F = (1 \<le> prec F \<and> emin F \<le> 0 \<and> 2 \<le> emax F)"

lemma format_ok_simps [simp]: "format_ok binary32" "format_ok binary64"
  by (simp_all add: format_ok_def)

lemma fround_finite:
  assumes F: "format_ok F" and m: "0 \<le> m" and n: "rval m e \<le> 2 ^ nat (prec F)"
  shows "fround F s m e \<noteq> Inf s"
proof (cases "m = 0")
  case False
  with m have m: "0 < m" by simp
  have "(2::real) powi (bit_length m - 1) = of_int (2 ^ nat (bit_length m - 1))"
    using bit_length_pos [OF m] by (simp add: power_int_def)
  also have "\<dots> \<le> real_of_int m" using bit_length_lower [OF m] by linarith
  finally have "(2::real) powi (bit_length m - 1) * 2 powi e \<le> rval m e" by (simp add: rval_def)
  also have "\<dots> \<le> 2 powi (prec F)"
    using n F by (simp add: power_int_def format_ok_def)
  finally have "(2::real) powi (bit_length m - 1 + e) \<le> 2 powi (prec F)"
    by (simp add: power_int_add)
  then have "bit_length m - 1 + e \<le> prec F"
    by (meson not_le one_less_numeral_iff power_int_strict_increasing semiring_norm(76))
  then have "round_exp (prec F) (emin F) m e + 1 \<le> emax F"
    using F by (auto simp: round_exp_def format_ok_def)
  then show ?thesis
    by (auto simp: fround_def round_mant_def Let_def split: if_splits prod.splits)
qed (simp add: fround_def)

lemma fround_exact:
  assumes F: "format_ok F" and m: "0 \<le> m" and n: "rval m e = real_of_int n" "n \<le> 2 ^ nat (prec F)"
  shows "\<exists>m' e'. fround F s m e = Fin s m' e' \<and> rval m' e' = real_of_int n \<and> 0 \<le> m'"
proof -
  have n0: "0 \<le> n" using n(1) m by (simp add: rval_def) (metis mult_nonneg_nonneg of_int_0_le_iff
        zero_le_power_int zero_le_numeral)
  have "rval m e \<le> real_of_int (2 ^ nat (prec F))" using n by simp
  then have "fround F s m e \<noteq> Inf s" using fround_finite [OF F m] by simp
  then obtain m' e' where r: "fround F s m e = Fin s m' e'" using fround_cases by metis
  have v: "rval n 0 = real_of_int n" by (simp add: rval_def)
  have "rval n 0 \<le> rval m' e'" "rval m' e' \<le> rval n 0"
    using fround_grid [OF r m _ n0 n(2), of 0] F n(1) v by (auto simp: format_ok_def)
  then show ?thesis using r v fround_nonneg_mant [OF m r] by auto
qed

lemma float_of_int_exact:
  assumes "format_ok F" and "0 \<le> n" and "n \<le> 2 ^ nat (prec F)"
  shows "\<exists>m e. float_of_int F n = Fin False m e \<and> rval m e = real_of_int n \<and> 0 \<le> m"
  using fround_exact [OF assms(1,2), of 0 n False] assms by (simp add: float_of_int_def rval_def)

lemma fcast_exact:
  assumes "format_ok F" and "0 \<le> m" and "rval m e = real_of_int n" and "n \<le> 2 ^ nat (prec F)"
  shows "\<exists>m' e'. fcast F (Fin s m e) = Fin s m' e' \<and> rval m' e' = real_of_int n \<and> 0 \<le> m'"
  using fround_exact [OF assms] by (simp add: fcast_def)

lemma rval_mult: "rval (m * n) (e + f) = rval m e * rval n f"
  by (simp add: rval_def power_int_add)

lemma fmul_exact:
  assumes "format_ok F" and "0 \<le> m" "rval m e = real_of_int a" and "0 \<le> n" "rval n f = real_of_int b"
    and "a * b \<le> 2 ^ nat (prec F)"
  shows "\<exists>m' e'. fmul F (Fin s m e) (Fin s n f) = Fin False m' e' \<and> rval m' e' = real_of_int (a * b) \<and> 0 \<le> m'"
  using fround_exact [OF assms(1), of "m * n" "e + f" "a * b" False] assms
  by (simp add: rval_mult)

lemma float_to_uint_bounds: "0 \<le> float_to_uint w (Fin s m e) \<or> m < 0"
  and float_to_uint_less: "float_to_uint w x < 2 ^ w"
  by (auto simp: float_to_uint_def trunc_mant_def pos_imp_zdiv_nonneg_iff split: rfloat.splits)

lemma float_to_u64_Fin:
  assumes "0 \<le> m"
  shows "uint (float_to_u64 (Fin False m e)) = min \<lfloor>rval m e\<rfloor> (2 ^ 64 - 1)"
proof -
  have pos: "0 \<le> rval m e" using assms by (simp add: rval_def)
  then have "0 \<le> \<lfloor>rval m e\<rfloor>" by simp
  then have "take_bit 64 (min \<lfloor>rval m e\<rfloor> (2 ^ 64 - 1)) = min \<lfloor>rval m e\<rfloor> (2 ^ 64 - 1)"
    by (simp add: take_bit_int_eq_self_iff)
  then show ?thesis
    using pos by (simp add: float_to_u64_def float_to_uint_def trunc_mant_floor unsigned_of_int)
qed

section \<open>Nonnegative values\<close>

lemma fround_Fin_nonneg: "fround F s m e = Fin s' m' e' \<Longrightarrow> 0 \<le> m' \<and> s' = s"
  using fround_nonneg_mant [of m F s e s' m' e'] by (cases "0 \<le> m") (auto simp: fround_def)

definition fnonneg :: "rfloat \<Rightarrow> bool" where
  "fnonneg x = (case x of NaN \<Rightarrow> False | Inf s \<Rightarrow> \<not> s | Fin s m e \<Rightarrow> 0 \<le> signed_mant s m)"

lemma fval_nonneg_iff: "0 \<le> fval (Fin s m e) \<longleftrightarrow> 0 \<le> signed_mant s m"
  using rval_le_iff [of 0 e "signed_mant s m"] by (simp add: fval_def rval_def)

lemma fnonneg_fround: "fnonneg (fround F False m e)"
  using fround_cases [of F False m e]
  by (auto simp: fnonneg_def signed_mant_def dest: fround_Fin_nonneg)

lemma fnonneg_fround_ratio: "fnonneg (fround_ratio F False n d e)"
  by (simp add: fround_ratio_def Let_def fnonneg_fround)

lemma fnonneg_float_of_word: "fnonneg (float_of_word F w)"
  by (simp add: float_of_word_def float_of_int_def fnonneg_fround)

lemma fnonneg_fadd: "fnonneg x \<Longrightarrow> fnonneg y \<Longrightarrow> fnonneg (fadd F x y)"
proof (induction F x y rule: fadd.induct)
  case (6 F s m e t n f)
  then have "0 \<le> signed_mant s m * 2 ^ nat (e - min e f) + signed_mant t n * 2 ^ nat (f - min e f)"
    by (simp add: fnonneg_def)
  then show ?case using fnonneg_fround
    by (auto simp: fnonneg_def signed_mant_def Let_def not_less)
qed (auto simp: fnonneg_def)

lemma fnonneg_fmax_zero: "fnonneg (fmax x (Fin False 0 e))"
proof (cases x)
  case (Fin s m f)
  have "fval (Fin False 0 e) = 0" by (simp add: fval_def rval_def signed_mant_def)
  then show ?thesis
    using Fin flt_Fin_iff [of s m f False 0 e] fval_nonneg_iff [of s m f]
    by (auto simp: fmax_def fnonneg_def signed_mant_def not_less)
qed (auto simp: fmax_def fnonneg_def signed_mant_def)

lemma fnonneg_bounded:
  assumes "fnonneg x" and "\<not> flt (Fin t n f) x"
  obtains s m e where "x = Fin s m e" "0 \<le> fval x" "fval x \<le> fval (Fin t n f)"
  using assms flt_Fin_iff [of t n f]
  by (cases x) (auto simp: fnonneg_def fval_nonneg_iff not_less split: if_splits)

lemma fnonneg_div_word:
  assumes "0 < n"
  shows "fnonneg (fdiv F (float_of_word G w) (Fin False n f))"
  using fround_cases [of G False "uint w" 0] assms
  by (auto simp: float_of_word_def float_of_int_def fnonneg_fround_ratio fnonneg_def [of "Inf _"])

lemma fnonneg_fcast: "fnonneg x \<Longrightarrow> fnonneg (fcast F x)"
proof (cases x)
  case (Fin s m e)
  moreover assume "fnonneg x"
  ultimately have "s = False \<or> m \<le> 0" by (auto simp: fnonneg_def signed_mant_def)
  then show ?thesis
  proof
    assume "m \<le> 0"
    then show ?thesis using Fin by (simp add: fcast_def fround_def fnonneg_def signed_mant_def)
  qed (use Fin fnonneg_fround [of F m e] in \<open>simp add: fcast_def\<close>)
qed (auto simp: fcast_def fnonneg_def)

lemma fcast_le:
  assumes "fval (Fin False m e) \<le> real_of_int n" and "0 \<le> m" and "0 \<le> n" and "n \<le> 2 ^ nat (prec F)"
    and "format_ok F" and "fcast F (Fin False m e) = Fin s' m' e'"
  shows "fval (Fin s' m' e') \<le> real_of_int n"
  using fround_grid(2) [of F False m e s' m' e' n 0] fround_Fin_nonneg [of F False m e s' m' e'] assms
  by (auto simp: fcast_def fval_def signed_mant_def format_ok_def rval_def)

lemma fnonneg_fmin:
  "fnonneg x \<Longrightarrow> fnonneg y \<Longrightarrow> fnonneg (fmin x y)"
  by (simp add: fmin_def)

lemma fmin_not_above: "y \<noteq> NaN \<Longrightarrow> \<not> flt y (fmin x y)"
  by (cases y) (auto simp: fmin_def)

end
