(* ===== verification/Primus_Types.thy ===== *)
theory Primus_Types
  imports Rust_Float
begin

text \<open>
  The crate \<open>primus-types\<close>: atoms, payloads, signed reactions, crystals, node records, Merkle
  proofs, the fixed-point encoder and the structural validation every ingress path runs.
  SHA3-256 and ML-DSA-87 are third-party crates and appear as arguments: \<open>sha3\<close> maps bytes to
  bytes, an \<open>mldsa\<close> record holds the signature decoder and the verification function.
  A \<open>[u8; 32]\<close> is a byte list; where its length matters the statement says so.
\<close>

section \<open>Constants\<close>

definition PK_BYTES :: nat where "PK_BYTES = 2592"
definition SIG_BYTES :: nat where "SIG_BYTES = 4627"
definition REACTION_HASH_BYTES :: nat where "REACTION_HASH_BYTES = 32"
definition PROTOCOL_MIN_FEE :: u64 where "PROTOCOL_MIN_FEE = 10"
definition MINING_REWARD_AMOUNT :: u64 where "MINING_REWARD_AMOUNT = 10"

definition ascii :: "string \<Rightarrow> bytes" where
  "ascii s = map (\<lambda>c. of_nat (of_char c)) s"

definition MINING_REWARD_TAG :: bytes where
  "MINING_REWARD_TAG = ascii ''PRIMUS_MINING_REWARD_V1''"

definition zero_hash :: hash32 where
  "zero_hash = replicate 32 0"

lemma length_zero_hash [simp]: "length zero_hash = 32"
  by (simp add: zero_hash_def)

section \<open>Atoms\<close>

datatype Element = Hydrogen | Carbon | Oxygen | Gold

definition initial_charge :: "Element \<Rightarrow> f32" where
  "initial_charge el = (case el of
     Hydrogen \<Rightarrow> f32_lit 220 100
   | Carbon \<Rightarrow> f32_lit 255 100
   | Oxygen \<Rightarrow> f32_lit 344 100
   | Gold \<Rightarrow> f32_lit 254 100)"

definition base_mass :: "Element \<Rightarrow> u64" where
  "base_mass el = (case el of Hydrogen \<Rightarrow> 1000 | Carbon \<Rightarrow> 6000 | Oxygen \<Rightarrow> 4000 | Gold \<Rightarrow> 50000)"

datatype QuantumState = Stable | Entangled hash32 | Superposition u64

record Atom =
  public_key :: bytes
  element :: Element
  neutron_count :: u32
  mass :: u64
  charge :: f32
  last_reaction_hash :: hash32
  last_active_index :: u64
  nonce :: u64
  quantum_state :: QuantumState

definition new_materialized :: "bytes \<Rightarrow> Element \<Rightarrow> Atom" where
  "new_materialized pk el =
     \<lparr>public_key = pk, element = el, neutron_count = 0, mass = 0, charge = initial_charge el,
      last_reaction_hash = zero_hash, last_active_index = 0, nonce = 0, quantum_state = Stable\<rparr>"

definition sender_snapshot ::
  "bytes \<Rightarrow> Element \<Rightarrow> u64 \<Rightarrow> hash32 \<Rightarrow> u64 \<Rightarrow> u32 \<Rightarrow> u64 \<Rightarrow> Atom" where
  "sender_snapshot pk el ms last_hash nc neutrons last_active =
     \<lparr>public_key = pk, element = el, neutron_count = neutrons, mass = ms,
      charge = initial_charge el, last_reaction_hash = last_hash,
      last_active_index = last_active, nonce = nc, quantum_state = Stable\<rparr>"

definition new_receiver :: "bytes \<Rightarrow> Atom" where
  "new_receiver pk = new_materialized pk Hydrogen"

definition sector :: "Atom \<Rightarrow> u8" where
  "sector a = (case public_key a of [] \<Rightarrow> 0 | b # _ \<Rightarrow> b)"

section \<open>Payloads\<close>

datatype Payload =
    Generic
  | Transfer (transfer_amount_of: u64)
  | is_MiningReward: MiningReward (reward_amount_of: u64)
  | Contract (contract_code: bytes)
  | is_ContractCall: ContractCall (call_address: bytes) (call_data: bytes)
  | Unknown

definition transfer_amount :: "Payload \<Rightarrow> u64 option" where
  "transfer_amount p = (case p of Transfer a \<Rightarrow> Some a | MiningReward a \<Rightarrow> Some a | _ \<Rightarrow> None)"

abbreviation amount_or_zero :: "Payload \<Rightarrow> u64" where
  "amount_or_zero p \<equiv> (case transfer_amount p of None \<Rightarrow> 0 | Some a \<Rightarrow> a)"

definition requires_signature_verification :: "Payload \<Rightarrow> bool" where
  "requires_signature_verification p =
     (\<not> (case p of MiningReward _ \<Rightarrow> True | Unknown \<Rightarrow> True | _ \<Rightarrow> False))"

section \<open>Fixed-point encoding\<close>

definition FIXED_POINT_SCALE :: u64 where "FIXED_POINT_SCALE = 1000000000"

definition canon_encode :: "f32 \<Rightarrow> u64" where
  "canon_encode value =
     (let scaled = fmax (fmul binary64 (fcast binary64 value) (float_of_word binary64 FIXED_POINT_SCALE))
                        f64_zero
      in if fle (float_of_word binary64 (- 1 :: u64)) scaled then - 1 else float_to_u64 scaled)"

definition canon_decode :: "u64 \<Rightarrow> f32" where
  "canon_decode encoded =
     fcast binary32 (fdiv binary64 (float_of_word binary64 encoded)
                                   (float_of_word binary64 FIXED_POINT_SCALE))"

section \<open>Signed reactions\<close>

datatype PrimusError =
    InvalidPublicKeyLength nat nat
  | InvalidSignatureLength nat nat
  | FeeBelowMinimum u64 u64
  | ReactionHashMismatch hash32 hash32
  | DeserializationFailed string
  | UnknownPayloadError

record SignedReaction =
  sender :: Atom
  receiver :: Atom
  reaction_hash :: hash32
  energy :: f32
  timestamp :: u64
  signature :: bytes
  payload :: Payload

definition signing_input :: "SignedReaction \<Rightarrow> bytes" where
  "signing_input rx =
     public_key (sender rx) @ public_key (receiver rx)
       @ to_le_bytes 8 (amount_or_zero (payload rx))
       @ to_le_bytes 8 (canon_encode (energy rx))
       @ last_reaction_hash (sender rx)"

definition signing_digest :: "(bytes \<Rightarrow> bytes) \<Rightarrow> SignedReaction \<Rightarrow> hash32" where
  "signing_digest sha3 rx = sha3 (signing_input rx)"

definition compute_reaction_hash :: "(bytes \<Rightarrow> bytes) \<Rightarrow> SignedReaction \<Rightarrow> hash32" where
  "compute_reaction_hash sha3 rx = signing_digest sha3 rx"

definition mining_reward_hash :: "(bytes \<Rightarrow> bytes) \<Rightarrow> u64 \<Rightarrow> bytes \<Rightarrow> hash32" where
  "mining_reward_hash sha3 idx architect = sha3 (MINING_REWARD_TAG @ to_le_bytes 8 idx @ architect)"

definition validate_structure :: "(bytes \<Rightarrow> bytes) \<Rightarrow> SignedReaction \<Rightarrow> PrimusError + unit" where
  "validate_structure sha3 rx =
     (if length (public_key (sender rx)) \<noteq> PK_BYTES then
        Inl (InvalidPublicKeyLength PK_BYTES (length (public_key (sender rx))))
      else if length (public_key (receiver rx)) \<noteq> PK_BYTES then
        Inl (InvalidPublicKeyLength PK_BYTES (length (public_key (receiver rx))))
      else if requires_signature_verification (payload rx) \<and> length (signature rx) \<noteq> SIG_BYTES then
        Inl (InvalidSignatureLength SIG_BYTES (length (signature rx)))
      else if canon_encode (energy rx) < PROTOCOL_MIN_FEE then
        Inl (FeeBelowMinimum PROTOCOL_MIN_FEE (canon_encode (energy rx)))
      else let expected = compute_reaction_hash sha3 rx
           in if reaction_hash rx \<noteq> expected then
                Inl (ReactionHashMismatch expected (reaction_hash rx))
              else Inr ())"

text \<open>The archived (zero-copy) view of a reaction has the same fields; its methods are separate code.\<close>

definition archived_signing_digest :: "(bytes \<Rightarrow> bytes) \<Rightarrow> SignedReaction \<Rightarrow> hash32" where
  "archived_signing_digest sha3 rx =
     (let amount = (amount_or_zero (payload rx));
          fee = canon_encode (energy rx)
      in sha3 (public_key (sender rx) @ public_key (receiver rx) @ to_le_bytes 8 amount
               @ to_le_bytes 8 fee @ last_reaction_hash (sender rx)))"

definition archived_validate_structure ::
  "(bytes \<Rightarrow> bytes) \<Rightarrow> SignedReaction \<Rightarrow> PrimusError + unit" where
  "archived_validate_structure sha3 rx =
     (if length (public_key (sender rx)) \<noteq> PK_BYTES then
        Inl (InvalidPublicKeyLength PK_BYTES (length (public_key (sender rx))))
      else if length (public_key (receiver rx)) \<noteq> PK_BYTES then
        Inl (InvalidPublicKeyLength PK_BYTES (length (public_key (receiver rx))))
      else if requires_signature_verification (payload rx) \<and> length (signature rx) \<noteq> SIG_BYTES then
        Inl (InvalidSignatureLength SIG_BYTES (length (signature rx)))
      else let fee_encoded = canon_encode (energy rx)
           in if fee_encoded < PROTOCOL_MIN_FEE then
                Inl (FeeBelowMinimum PROTOCOL_MIN_FEE fee_encoded)
              else let expected = archived_signing_digest sha3 rx
                   in if reaction_hash rx \<noteq> expected then
                        Inl (ReactionHashMismatch expected (reaction_hash rx))
                      else Inr ())"

text \<open>\<open>from_bytes_zero_copy\<close>: the check of the rkyv crate is the argument \<open>check_archived_root\<close>.\<close>

definition from_bytes_zero_copy ::
  "(bytes \<Rightarrow> SignedReaction option) \<Rightarrow> bytes \<Rightarrow> PrimusError + SignedReaction" where
  "from_bytes_zero_copy check_archived_root bs =
     ok_or (DeserializationFailed ''rkyv structural validation (check_bytes) failed'')
           (check_archived_root bs)"

section \<open>Crystals\<close>

record Crystal =
  cr_index :: u64
  prev_hash :: hash32
  cr_timestamp :: u64
  cr_nonce :: u64
  reactions :: "hash32 list"
  reactions_data :: "SignedReaction list"
  cumulative_energy :: f32
  state_root :: hash32
  final_temp :: f32
  final_entropy :: f32

definition crystal_new :: "u64 \<Rightarrow> hash32 \<Rightarrow> Crystal" where
  "crystal_new idx prev =
     \<lparr>cr_index = idx, prev_hash = prev, cr_timestamp = 0, cr_nonce = 0, reactions = [],
      reactions_data = [], cumulative_energy = f32_zero, state_root = zero_hash,
      final_temp = f32_zero, final_entropy = f32_zero\<rparr>"

section \<open>Chain status and synchronisation messages\<close>

record GalacticStatus =
  gs_crystal_index :: u64
  gs_current_entropy :: f32
  gs_sector_drift :: u8
  gs_cumulative_energy :: f32

definition status_from_state :: "u64 \<Rightarrow> f32 \<Rightarrow> GalacticStatus" where
  "status_from_state idx entropy =
     \<lparr>gs_crystal_index = idx, gs_current_entropy = entropy, gs_sector_drift = ucast (idx mod 256),
      gs_cumulative_energy = f32_zero\<rparr>"

definition status_from_engine :: "u64 \<Rightarrow> f32 \<Rightarrow> f32 \<Rightarrow> GalacticStatus" where
  "status_from_engine idx entropy cum =
     \<lparr>gs_crystal_index = idx, gs_current_entropy = entropy, gs_sector_drift = ucast (idx mod 256),
      gs_cumulative_energy = cum\<rparr>"

definition F32_EPSILON :: f32 where
  "F32_EPSILON = Fin False (2 ^ 23) (- 46)"

definition is_more_dominant_than :: "GalacticStatus \<Rightarrow> GalacticStatus \<Rightarrow> bool" where
  "is_more_dominant_than a b =
     (if gs_crystal_index b < gs_crystal_index a then True
      else if gs_crystal_index a = gs_crystal_index b then
        (if flt (gs_cumulative_energy b) (gs_cumulative_energy a) then True
         else if flt (fabs (fsub binary32 (gs_cumulative_energy a) (gs_cumulative_energy b))) F32_EPSILON
                 \<and> flt (gs_current_entropy b) (gs_current_entropy a) then True
         else False)
      else False)"

datatype SyncMessage =
    Handshake GalacticStatus
  | RequestCrystals u64 u64
  | InventoryResponse "bytes list"

section \<open>Node records\<close>

record 'sg mldsa =
  decode_sig :: "bytes \<Rightarrow> 'sg option"
  verify_sig :: "bytes \<Rightarrow> bytes \<Rightarrow> 'sg \<Rightarrow> bool"

record PrimusNR =
  nr_public_key :: bytes
  addr_ip :: u128
  addr_port :: u16
  nr_signature :: bytes
  nr_timestamp :: u64

datatype IpAddr = V4 u32 | V6 u128

type_synonym SocketAddr = "IpAddr \<times> u16"

definition node_id :: "(bytes \<Rightarrow> bytes) \<Rightarrow> PrimusNR \<Rightarrow> hash32" where
  "node_id sha3 nr = sha3 (nr_public_key nr)"

text \<open>\<open>Ipv6Addr::to_ipv4_mapped\<close>: the last 32 bits when the first 96 are \<open>::ffff:0:0/96\<close>.\<close>

definition to_ipv4_mapped :: "u128 \<Rightarrow> u32 option" where
  "to_ipv4_mapped ip = (if drop_bit 32 ip = 0xFFFF then Some (ucast ip) else None)"

definition to_ipv6_mapped :: "u32 \<Rightarrow> u128" where
  "to_ipv6_mapped v4 = push_bit 32 0xFFFF OR ucast v4"

definition nr_addr :: "PrimusNR \<Rightarrow> SocketAddr" where
  "nr_addr nr =
     ((case to_ipv4_mapped (addr_ip nr) of Some v4 \<Rightarrow> V4 v4 | None \<Rightarrow> V6 (addr_ip nr)),
      addr_port nr)"

definition from_socket_addr :: "bytes \<Rightarrow> SocketAddr \<Rightarrow> bytes \<Rightarrow> u64 \<Rightarrow> PrimusNR" where
  "from_socket_addr pk sa sig ts =
     \<lparr>nr_public_key = pk,
      addr_ip = (case fst sa of V4 v4 \<Rightarrow> to_ipv6_mapped v4 | V6 v6 \<Rightarrow> v6),
      addr_port = snd sa, nr_signature = sig, nr_timestamp = ts\<rparr>"

definition nr_message :: "PrimusNR \<Rightarrow> bytes" where
  "nr_message nr = nr_public_key nr @ to_be_bytes 16 (addr_ip nr) @ to_be_bytes 2 (addr_port nr)
                     @ to_le_bytes 8 (nr_timestamp nr)"

definition nr_verify :: "'sg mldsa \<Rightarrow> PrimusNR \<Rightarrow> bool" where
  "nr_verify D nr =
     (if length (nr_public_key nr) \<noteq> PK_BYTES then False
      else if length (nr_signature nr) \<noteq> SIG_BYTES then False
      else (case decode_sig D (nr_signature nr) of
              None \<Rightarrow> False
            | Some sig \<Rightarrow> verify_sig D (nr_public_key nr) (nr_message nr) sig))"

record NoiseHandshakePayload =
  hs_nr :: PrimusNR
  ephemeral_sig :: bytes

section \<open>Merkle proofs\<close>

datatype PathStep = BranchStep u8 | ExtensionStep u8 | LeafStep

record MerkleProof =
  trie_key :: hash32
  mp_value :: "bytes option"
  mp_root :: hash32
  siblings :: "hash32 list"
  mp_path :: "PathStep list"

section \<open>Administrative messages\<close>

datatype IpcRequest =
    Status
  | GetChallenge
  | AdminShutdown bytes
  | AdminConnectPeer string bytes
  | GetProof bytes

datatype IpcResponse =
    IpcOk
  | IpcError string
  | Challenge bytes
  | StatusReport u64 nat nat u64
  | ProofResponse MerkleProof

section \<open>Properties\<close>

definition example_reaction :: SignedReaction where
  "example_reaction =
     \<lparr>sender = (new_receiver [1])\<lparr>mass := 500, nonce := 3\<rparr>, receiver = new_receiver [2],
      reaction_hash = zero_hash, energy = f32_lit 10 1, timestamp = 0, signature = [],
      payload = Transfer 7\<rparr>"

lemma canon_encode_special [simp]:
  "canon_encode NaN = 0"
  "canon_encode (Inf True) = 0"
  "canon_encode (Inf False) = - 1"
  by code_simp+

lemma fle_exact_int:
  assumes "rval m e = real_of_int a" and "rval n f = real_of_int b" and "0 \<le> m" and "0 \<le> n"
  shows "fle (Fin False m e) (Fin False n f) \<longleftrightarrow> a \<le> b"
  using assms flt_Fin_iff [of False n f False m e]
  by (auto simp: fle_def fval_def signed_mant_def)

lemma uint_eq_of_nat:
  fixes x :: "'a::len word"
  assumes "uint x = int n"
  shows "x = of_nat n"
  using arg_cong [OF assms, of "word_of_int :: int \<Rightarrow> 'a word"] by simp

lemma u64_max_float: "float_of_word binary64 (- 1 :: u64) = Fin False (2 ^ 52) 12"
  by code_simp

lemma scale_float: "\<exists>m e. float_of_word binary64 FIXED_POINT_SCALE = Fin False m e
    \<and> rval m e = 1000000000 \<and> 0 \<le> m"
  using float_of_int_exact [of binary64 1000000000]
  by (simp add: float_of_word_def FIXED_POINT_SCALE_def)

text \<open>An integral fee of up to nine million mass units is encoded exactly: the fixed-point
  code hashed and compared by every node is the fee times ten to the ninth.\<close>

theorem canon_encode_integral:
  assumes "n \<le> 9000000"
  shows "canon_encode (float_of_int binary32 (int n)) = of_nat (n * 1000000000)"
proof -
  obtain m e where x: "float_of_int binary32 (int n) = Fin False m e" "rval m e = real_of_int (int n)" "0 \<le> m"
    using float_of_int_exact [of binary32 "int n"] assms by auto
  obtain m1 e1 where c: "fcast binary64 (Fin False m e) = Fin False m1 e1"
      "rval m1 e1 = real_of_int (int n)" "0 \<le> m1"
    using fcast_exact [OF _ x(3,2), of binary64 False] assms by auto
  obtain m2 e2 where g: "float_of_word binary64 FIXED_POINT_SCALE = Fin False m2 e2"
      "rval m2 e2 = real_of_int 1000000000" "0 \<le> m2"
    using scale_float by auto
  obtain m3 e3 where p: "fmul binary64 (Fin False m1 e1) (Fin False m2 e2) = Fin False m3 e3"
      "rval m3 e3 = real_of_int (int n * 1000000000)" "0 \<le> m3"
    using fmul_exact [OF _ c(3,2) g(3,2), of binary64 False] assms by auto
  have "\<not> flt (Fin False m3 e3) f64_zero"
    using p(2,3) flt_Fin_iff [of False m3 e3 False 0 "- 1074"]
    by (simp add: fval_def signed_mant_def rval_def)
  then have mx: "fmax (Fin False m3 e3) f64_zero = Fin False m3 e3" by (simp add: fmax_def)
  have "rval (2 ^ 52) 12 = real_of_int (2 ^ 64)" by (simp add: rval_def power_int_def)
  then have "\<not> fle (Fin False (2 ^ 52) 12) (Fin False m3 e3)"
    using fle_exact_int [of "2 ^ 52" 12 "2 ^ 64" m3 e3 "int n * 1000000000"] p(2,3) assms by simp
  then have "canon_encode (float_of_int binary32 (int n)) = float_to_u64 (Fin False m3 e3)"
    by (simp only: canon_encode_def x(1) c(1) g(1) p(1) mx u64_max_float Let_def if_False)
  moreover have "uint (float_to_u64 (Fin False m3 e3)) = int n * 1000000000"
    using float_to_u64_Fin [OF p(3), of e3] p(2) assms by (simp only: floor_of_int) simp
  ultimately show ?thesis
    using uint_eq_of_nat [of "float_to_u64 (Fin False m3 e3)" "n * 1000000000"] by simp
qed

theorem canon_encode_integral_witness:
  "(10::nat) \<le> 9000000 \<and> canon_encode (float_of_int binary32 (int 10)) = of_nat (10 * 1000000000)"
  using canon_encode_integral [of 10] by simp

text \<open>\<open>validate_structure\<close> accepts a reaction exactly when both keys and, where the payload
  needs one, the signature have the protocol lengths, the encoded fee reaches the floor and the
  stored reaction hash is the hash of the signed fields.\<close>

theorem validate_structure_ok_iff:
  "validate_structure sha3 rx = Inr () \<longleftrightarrow>
     length (public_key (sender rx)) = PK_BYTES \<and> length (public_key (receiver rx)) = PK_BYTES
   \<and> (length (signature rx) = SIG_BYTES \<or> is_MiningReward (payload rx) \<or> payload rx = Unknown)
   \<and> PROTOCOL_MIN_FEE \<le> canon_encode (energy rx)
   \<and> reaction_hash rx = sha3 (signing_input rx)"
  by (auto simp: validate_structure_def compute_reaction_hash_def signing_digest_def Let_def
      not_less requires_signature_verification_def split: Payload.splits)

lemma archived_signing_digest_eq [simp]: "archived_signing_digest sha3 rx = signing_digest sha3 rx"
  by (simp add: archived_signing_digest_def signing_digest_def signing_input_def)

text \<open>The zero-copy validation of the mempool hot path returns the same verdict, error
  included, as the validation of the owned struct.\<close>

theorem archived_validate_structure_eq:
  "archived_validate_structure sha3 rx = validate_structure sha3 rx"
  by (simp add: archived_validate_structure_def validate_structure_def compute_reaction_hash_def
      Let_def)

text \<open>The signed bytes of two reactions with keys of protocol length agree only if sender,
  receiver, amount, encoded fee and the sender's last reaction hash agree: no two different
  transfers share a signing input.\<close>

theorem signing_input_binds:
  assumes "length (public_key (sender r)) = PK_BYTES" "length (public_key (sender r')) = PK_BYTES"
    and "length (public_key (receiver r)) = PK_BYTES" "length (public_key (receiver r')) = PK_BYTES"
    and "signing_input r = signing_input r'"
  shows "public_key (sender r) = public_key (sender r')
    \<and> public_key (receiver r) = public_key (receiver r')
    \<and> amount_or_zero (payload r) = amount_or_zero (payload r')
    \<and> canon_encode (energy r) = canon_encode (energy r')
    \<and> last_reaction_hash (sender r) = last_reaction_hash (sender r')"
proof -
  from assms have "public_key (sender r) = public_key (sender r')"
    and "public_key (receiver r) = public_key (receiver r')"
    and le: "to_le_bytes 8 (amount_or_zero (payload r)) = to_le_bytes 8 (amount_or_zero (payload r'))"
      "to_le_bytes 8 (canon_encode (energy r)) = to_le_bytes 8 (canon_encode (energy r'))"
    and "last_reaction_hash (sender r) = last_reaction_hash (sender r')"
    by (auto simp: signing_input_def)
  moreover have "amount_or_zero (payload r) = amount_or_zero (payload r')" "canon_encode (energy r) = canon_encode (energy r')"
    using le by (auto dest!: to_le_bytes_inj)
  ultimately show ?thesis by simp
qed

definition full_length_reaction :: SignedReaction where
  "full_length_reaction = example_reaction\<lparr>sender := new_receiver (replicate 2592 1),
                            receiver := new_receiver (replicate 2592 2)\<rparr>"

theorem signing_input_binds_witness:
  "amount_or_zero (payload full_length_reaction)
     = amount_or_zero (payload (full_length_reaction\<lparr>timestamp := 9\<rparr>))"
  using signing_input_binds [of full_length_reaction "full_length_reaction\<lparr>timestamp := 9\<rparr>"]
  by (simp add: full_length_reaction_def PK_BYTES_def new_receiver_def new_materialized_def signing_input_def)

text \<open>The signature covers neither the nonce nor the rest of the sender snapshot, nor the
  timestamp, nor the code or call data of a contract payload: changing any of them leaves the
  signing digest, and with it the validity of the signature, unchanged.\<close>

theorem signing_digest_ignores:
  assumes "public_key s = public_key (sender rx)"
    and "last_reaction_hash s = last_reaction_hash (sender rx)"
    and "public_key r = public_key (receiver rx)"
    and "amount_or_zero p = amount_or_zero (payload rx)"
  shows "signing_digest sha3 (rx\<lparr>sender := s, receiver := r, timestamp := t, payload := p\<rparr>)
       = signing_digest sha3 rx"
  using assms by (simp add: signing_digest_def signing_input_def)

theorem signing_digest_ignores_witness:
  "signing_digest id (example_reaction\<lparr>sender := (sender example_reaction)\<lparr>nonce := 4\<rparr>,
     receiver := (receiver example_reaction)\<lparr>mass := 9\<rparr>, timestamp := 1, payload := Transfer 7\<rparr>)
   = signing_digest id example_reaction"
  by (rule signing_digest_ignores) (simp_all add: example_reaction_def)

text \<open>The fee floor is compared with the fixed-point code, which is ten to the ninth times the
  fee: a fee of two hundred-millionths of a mass unit, of which the virtual machine burns zero,
  passes the check against \<open>PROTOCOL_MIN_FEE\<close>.\<close>

theorem fee_floor_admits_zero_burn:
  "PROTOCOL_MIN_FEE \<le> canon_encode (f32_lit 2 100000000) \<and> float_to_u64 (f32_lit 2 100000000) = 0"
  by code_simp

lemma to_ipv4_mapped_of_v4: "to_ipv4_mapped (to_ipv6_mapped v4) = Some v4"
proof -
  have "unat (ucast v4 :: u128) < 2 ^ 32"
    using order.strict_trans1 [OF mod_less_eq_dividend [of "unat v4" "2 ^ 128"] unsigned_less [of v4]]
    by (simp add: unsigned_ucast_eq take_bit_eq_mod)
  then have "drop_bit 32 (ucast v4 :: u128) = 0"
    by (simp add: drop_bit_eq_div word_arith_nat_div)
  moreover have "drop_bit 32 (push_bit 32 0xFFFF :: u128) = 0xFFFF" by code_simp
  ultimately have "drop_bit 32 (to_ipv6_mapped v4) = 0xFFFF"
    by (simp only: to_ipv6_mapped_def drop_bit_or or.right_neutral)
  moreover have "(ucast (push_bit 32 k OR ucast v4 :: u128) :: u32) = v4" for k
    by (rule bit_word_eqI) (auto simp: bit_simps)
  then have "(ucast (to_ipv6_mapped v4) :: u32) = v4" by (simp only: to_ipv6_mapped_def)
  ultimately show ?thesis by (simp add: to_ipv4_mapped_def)
qed

text \<open>A node record built from a socket address gives the address back, except that an IPv6
  address in the IPv4-mapped range comes back as the IPv4 address it denotes.\<close>

theorem node_record_addr_roundtrip:
  "nr_addr (from_socket_addr pk (ip, port) sig ts) =
     ((case ip of V4 v4 \<Rightarrow> V4 v4
       | V6 v6 \<Rightarrow> (case to_ipv4_mapped v6 of Some v4 \<Rightarrow> V4 v4 | None \<Rightarrow> V6 v6)), port)"
  by (cases ip) (simp_all add: nr_addr_def from_socket_addr_def to_ipv4_mapped_of_v4 split: option.split)

lemma flt_irrefl: "\<not> flt x x"
  by (cases x) auto

text \<open>Dominance of chain status is irreflexive and follows the crystal index whenever the
  indices differ; but for equal indices it is not antisymmetric: two statuses whose energies differ
  by less than epsilon can dominate each other.\<close>

theorem dominance_properties:
  "\<not> is_more_dominant_than a a
   \<and> (gs_crystal_index a = gs_crystal_index b
        \<or> is_more_dominant_than a b = (gs_crystal_index b < gs_crystal_index a))
   \<and> (\<exists>a b. is_more_dominant_than a b \<and> is_more_dominant_than b a)"
proof (intro conjI)
  show "\<not> is_more_dominant_than a a" by (simp add: is_more_dominant_than_def flt_irrefl)
  show "gs_crystal_index a = gs_crystal_index b
     \<or> is_more_dominant_than a b = (gs_crystal_index b < gs_crystal_index a)"
    by (auto simp: is_more_dominant_than_def)
  have "is_more_dominant_than (status_from_engine 5 f32_zero (f32_lit 1 100000000))
          (status_from_engine 5 (f32_lit 1 1) f32_zero)
      \<and> is_more_dominant_than (status_from_engine 5 (f32_lit 1 1) f32_zero)
          (status_from_engine 5 f32_zero (f32_lit 1 100000000))"
    by code_simp
  then show "\<exists>a b. is_more_dominant_than a b \<and> is_more_dominant_than b a" by blast
qed

end
