(* ===== verification/Primus_Pvm.thy ===== *)
theory Primus_Pvm
  imports Primus_Types
begin

text \<open>
  The native execution path of the crate \<open>primus-vm\<close> (\<open>physics.rs\<close>, \<open>context.rs\<close>,
  \<open>error.rs\<close>, \<open>pvm.rs\<close>) with the write set of \<open>primus-storage\<close> (\<open>changeset.rs\<close>).
  The traits \<open>StateView\<close> and \<open>CryptoVerifier\<close> are records of functions, so that the state tree
  and the ML-DSA verifier of \<open>primus-core\<close> can be plugged in; SHA3-256 is the argument \<open>sha3\<close>.
  The mutable counters of a batch (heat, entropy) and its change set form the record \<open>ExecState\<close>.
\<close>

section \<open>Change sets\<close>

record Changeset =
  inner :: "(bytes, Atom) btree"
  contracts :: "(hash32, bytes) btree"

definition changeset_new :: Changeset where
  "changeset_new = \<lparr>inner = [], contracts = []\<rparr>"

definition changeset_insert :: "bytes \<Rightarrow> Atom \<Rightarrow> Changeset \<Rightarrow> Changeset" where
  "changeset_insert pk a cs = cs\<lparr>inner := bt_insert pk a (inner cs)\<rparr>"

definition insert_contract :: "hash32 \<Rightarrow> bytes \<Rightarrow> Changeset \<Rightarrow> Changeset" where
  "insert_contract h code cs = cs\<lparr>contracts := bt_insert h code (contracts cs)\<rparr>"

definition changeset_get :: "Changeset \<Rightarrow> bytes \<Rightarrow> Atom option" where
  "changeset_get cs pk = bt_get (inner cs) pk"

definition sorted_keys :: "Changeset \<Rightarrow> bytes list" where
  "sorted_keys cs = map fst (inner cs)"

definition changeset_is_empty :: "Changeset \<Rightarrow> bool" where
  "changeset_is_empty cs = (inner cs = [] \<and> contracts cs = [])"

definition changeset_len :: "Changeset \<Rightarrow> nat" where
  "changeset_len cs = length (inner cs)"

section \<open>Context\<close>

record StateView =
  get_atom :: "bytes \<Rightarrow> Atom option"
  sv_crystal_index :: u64
  load_contract :: "hash32 \<Rightarrow> bytes option"

record ExecutionContext =
  ctx_state :: StateView
  architect_pk :: bytes
  current_temp :: f32
  ctx_crystal_index :: u64
  ctx_verify :: "bytes \<Rightarrow> bytes \<Rightarrow> bytes \<Rightarrow> bool"

datatype PvmError =
    SignatureRejected bytes bytes
  | NonceMismatch (err_on_chain: u64) (err_tx_nonce: u64)
  | InsufficientMass (err_has: u64) (err_needs: u64)
  | ThermalLimitExceeded
  | QuantumCollapse
  | InvalidRewardRecipient
  | UnknownPayload
  | NegativeEnergy
  | AtomNotFound
  | ArithmeticOverflow
  | OutOfGas u64 u64
  | WasmTrap string
  | ContractNotFound hash32
  | CompilationFailed string
  | InvalidModule string
  | HostViolation string
  | GasOverflow
  | WasmBackendError string
  | OtherError string

section \<open>Physics\<close>

definition THERMAL_CAPACITY :: f32 where "THERMAL_CAPACITY = f32_lit 1000 1"
definition GRAVITY_SHIELD_GATE :: f32 where "GRAVITY_SHIELD_GATE = f32_lit 150 1"
definition MACRO_SHIFT_CRITICAL :: f32 where "MACRO_SHIFT_CRITICAL = f32_lit 250 1"
definition MAX_GRAVITY_PULL :: f32 where "MAX_GRAVITY_PULL = f32_lit 25 1"
definition MAX_SAFE_COMPLEXITY :: u64 where "MAX_SAFE_COMPLEXITY = 2 ^ 53"
definition MAX_MODULE_SIZE_BYTES :: nat where "MAX_MODULE_SIZE_BYTES = 4 * 1024 * 1024"

definition get_galactic_drift :: "u64 \<Rightarrow> u8" where
  "get_galactic_drift crystal_index = ucast (crystal_index mod 256)"

definition calculate_orbital_resonance :: "bytes \<Rightarrow> u8 \<Rightarrow> f32" where
  "calculate_orbital_resonance atom_id drift =
     (if atom_id \<noteq> [] \<and> hd atom_id = drift then f32_lit 30 1 else f32_zero)"

fun gravity_pull :: "(bytes \<times> Atom) list \<Rightarrow> bytes \<Rightarrow> f64 \<Rightarrow> f64" where
  "gravity_pull [] atom_id pull = pull"
| "gravity_pull ((pk, star) # atoms) atom_id pull =
     gravity_pull atoms atom_id
       (if 45000 < mass star \<and> pk \<noteq> [] \<and> atom_id \<noteq> [] \<and> hd pk = hd atom_id
        then fmin (fadd binary64 pull
                    (fdiv binary64 (float_of_word binary64 (mass star)) (f64_lit 12000 1)))
               (fcast binary64 MAX_GRAVITY_PULL)
        else pull)"

definition calculate_gravity_assist_from_iter :: "(bytes \<times> Atom) list \<Rightarrow> bytes \<Rightarrow> f32" where
  "calculate_gravity_assist_from_iter atoms atom_id =
     fcast binary32 (gravity_pull atoms atom_id f64_zero)"

text \<open>A reaction hash is an array of 32 bytes, so indexing its first byte never fails.\<close>

definition get_spacetime_curvature :: "hash32 \<Rightarrow> f32 \<Rightarrow> f32" where
  "get_spacetime_curvature rx_hash base_temp =
     fcast binary32 (fadd binary64
       (fmul binary64 (fdiv binary64 (float_of_word binary64 (hd rx_hash)) (f64_lit 255 1)) (f64_lit 15 1))
       (fcast binary64 base_temp))"

definition calculate_macro_shift :: "f32 \<Rightarrow> f32" where
  "calculate_macro_shift temp =
     (if flt MACRO_SHIFT_CRITICAL temp
      then fdiv binary32 (fsub binary32 temp MACRO_SHIFT_CRITICAL) (f32_lit 100 1)
      else f32_zero)"

definition calculate_entropy_tax :: "u64 \<Rightarrow> f32 \<Rightarrow> u64" where
  "calculate_entropy_tax complexity local_temp =
     (let heat = fmax (fdiv binary64 (fcast binary64 local_temp) (f64_lit 50 1)) (f64_lit 1 1)
      in float_to_u64 (fmul binary64 (float_of_word binary64 complexity) heat))"

section \<open>Atom evolution\<close>

definition decay_amount :: "Atom \<Rightarrow> u64" where
  "decay_amount a =
     (let decay_rate = fadd binary32 (f32_lit 1 1000)
                         (fmul binary32 (float_of_word binary32 (neutron_count a)) (f32_lit 5 10000))
      in float_to_u64 (fmul binary32 (float_of_word binary32 (mass a)) decay_rate))"

definition apply_decay :: "Atom \<Rightarrow> u64 \<Rightarrow> Atom \<times> u64" where
  "apply_decay a current_index =
     (let age = saturating_sub current_index (last_active_index a);
          stability_threshold = saturating_sub 100 (ucast (neutron_count a) * 5)
      in if stability_threshold < age \<and> 0 < decay_amount a
         then (a\<lparr>mass := saturating_sub (mass a) (decay_amount a)\<rparr>, decay_amount a)
         else (a, 0))"

definition evolve :: "Atom \<Rightarrow> Atom" where
  "evolve a =
     (case element a of
        Hydrogen \<Rightarrow> if 4000 \<le> mass a then a\<lparr>element := Oxygen, charge := f32_lit 344 100\<rparr> else a
      | Oxygen \<Rightarrow> if 6000 \<le> mass a then a\<lparr>element := Carbon, charge := f32_lit 255 100\<rparr> else a
      | Carbon \<Rightarrow> if 50000 \<le> mass a then a\<lparr>element := Gold, charge := f32_lit 254 100\<rparr> else a
      | Gold \<Rightarrow> a)"

section \<open>Execution of one reaction\<close>

record ExecState =
  changeset :: Changeset
  total_crystal_heat :: f32
  total_consumed_entropy :: f32

definition lookup_atom :: "Changeset \<Rightarrow> StateView \<Rightarrow> bytes \<Rightarrow> Atom option" where
  "lookup_atom cs sv pk =
     (case changeset_get cs pk of Some a \<Rightarrow> Some a | None \<Rightarrow> get_atom sv pk)"

definition exec_mining_reward ::
  "ExecutionContext \<Rightarrow> SignedReaction \<Rightarrow> u64 \<Rightarrow> Changeset \<Rightarrow> PvmError + Changeset" where
  "exec_mining_reward ctx rx amount cs =
     (if public_key (receiver rx) \<noteq> architect_pk ctx then Inl InvalidRewardRecipient
      else (case lookup_atom cs (ctx_state ctx) (architect_pk ctx) of
              Some arch \<Rightarrow>
                Inr (changeset_insert (architect_pk ctx)
                       (arch\<lparr>mass := saturating_add (mass arch) amount,
                             last_reaction_hash := reaction_hash rx\<rparr>) cs)
            | None \<Rightarrow> Inl AtomNotFound))"

definition signature_gate ::
  "(bytes \<Rightarrow> bytes) \<Rightarrow> ExecutionContext \<Rightarrow> SignedReaction \<Rightarrow> PvmError + unit" where
  "signature_gate sha3 ctx rx =
     (let digest = signing_digest sha3 rx;
          is_owner = ctx_verify ctx (public_key (sender rx)) digest (signature rx);
          is_architect = ctx_verify ctx (architect_pk ctx) digest (signature rx)
      in if \<not> is_owner \<and> \<not> is_architect
         then Inl (SignatureRejected (take 4 (public_key (sender rx))) (take 4 digest))
         else Inr ())"

definition local_curvature ::
  "ExecutionContext \<Rightarrow> SignedReaction \<Rightarrow> (bytes \<times> Atom) list \<Rightarrow> u8 \<Rightarrow> f32" where
  "local_curvature ctx rx atoms_iter galactic_drift =
     (let resonance = calculate_orbital_resonance (public_key (sender rx)) galactic_drift;
          gravity_assist = calculate_gravity_assist_from_iter atoms_iter (public_key (sender rx))
      in fmax (fsub binary32
                (fsub binary32 (get_spacetime_curvature (reaction_hash rx) (current_temp ctx))
                   gravity_assist)
                resonance) f32_zero)"

definition quantum_complexity ::
  "ExecutionContext \<Rightarrow> SignedReaction \<Rightarrow> SignedReaction list \<Rightarrow> PvmError + u64" where
  "quantum_complexity ctx rx rxs =
     (case get_atom (ctx_state ctx) (public_key (sender rx)) of
        None \<Rightarrow> Inr 100
      | Some a \<Rightarrow>
          (case quantum_state a of
             Entangled partner_id \<Rightarrow>
               if \<exists>r \<in> set rxs. public_key (sender r) = partner_id \<or> public_key (receiver r) = partner_id
               then Inr 600 else Inl QuantumCollapse
           | Superposition _ \<Rightarrow> Inr 350
           | Stable \<Rightarrow> Inr 100))"

definition scale_complexity :: "u64 \<Rightarrow> f32 \<Rightarrow> u64" where
  "scale_complexity operation_complexity local_macro_shift =
     (if flt f32_zero local_macro_shift
      then float_to_u64 (fmul binary32 (float_of_word binary32 operation_complexity)
                          (fadd binary32 (f32_lit 1 1) local_macro_shift))
      else operation_complexity)"

definition nonce_check :: "Atom option \<Rightarrow> SignedReaction \<Rightarrow> PvmError + unit" where
  "nonce_check on_chain_sender rx =
     (case on_chain_sender of
        Some on_chain \<Rightarrow>
          if nonce on_chain \<noteq> nonce (sender rx)
          then Inl (NonceMismatch (nonce on_chain) (nonce (sender rx))) else Inr ()
      | None \<Rightarrow> Inr ())"

definition debit_sender :: "ExecutionContext \<Rightarrow> SignedReaction \<Rightarrow> u64 \<Rightarrow> Atom \<Rightarrow> Atom" where
  "debit_sender ctx rx total_cost a =
     evolve (fst (apply_decay
       (a\<lparr>mass := mass a - total_cost, last_reaction_hash := reaction_hash rx,
          nonce := saturating_add (nonce a) 1\<rparr>)
       (ctx_crystal_index ctx)))"

definition credit_receiver :: "ExecutionContext \<Rightarrow> u64 \<Rightarrow> Atom \<Rightarrow> Atom" where
  "credit_receiver ctx amount a =
     (let decayed = fst (apply_decay a (ctx_crystal_index ctx))
      in evolve (decayed\<lparr>mass := saturating_add (mass decayed) amount\<rparr>))"

definition exec_transfer ::
  "ExecutionContext \<Rightarrow> SignedReaction \<Rightarrow> u64 \<Rightarrow> Atom option \<Rightarrow> Changeset \<Rightarrow> PvmError + Changeset" where
  "exec_transfer ctx rx amount on_chain_sender cs =
     and_then (ok_or ArithmeticOverflow (checked_add amount (float_to_u64 (energy rx)))) (\<lambda>total_cost.
     and_then (ok_or AtomNotFound on_chain_sender) (\<lambda>snd0.
       if mass snd0 < total_cost then Inl (InsufficientMass (mass snd0) total_cost)
       else
         let snd1 = debit_sender ctx rx total_cost snd0;
             cs1 = changeset_insert (public_key snd1) snd1 cs;
             rcv0 = (case lookup_atom cs1 (ctx_state ctx) (public_key (receiver rx)) of
                       Some a \<Rightarrow> a | None \<Rightarrow> (receiver rx)\<lparr>mass := 0\<rparr>);
             rcv1 = credit_receiver ctx amount rcv0
         in Inr (changeset_insert (public_key rcv1) rcv1 cs1)))"

definition generic_debit ::
  "ExecutionContext \<Rightarrow> SignedReaction \<Rightarrow> u64 \<Rightarrow> Atom option \<Rightarrow> Changeset \<Rightarrow> PvmError + Changeset" where
  "generic_debit ctx rx tax on_chain_sender cs =
     (case on_chain_sender of
        Some on_chain \<Rightarrow>
          and_then (ok_or ArithmeticOverflow (checked_add (float_to_u64 (energy rx)) tax)) (\<lambda>total_cost.
          and_then (ok_or (InsufficientMass (mass on_chain) total_cost)
                          (checked_sub (mass on_chain) total_cost)) (\<lambda>m.
            Inr (changeset_insert (public_key on_chain)
                   (on_chain\<lparr>mass := m, last_reaction_hash := reaction_hash rx,
                             nonce := saturating_add (nonce on_chain) 1\<rparr>) cs)))
      | None \<Rightarrow>
          if public_key (sender rx) = architect_pk ctx
          then Inr (changeset_insert (public_key (sender rx))
                      ((sender rx)\<lparr>mass := 1000000000, last_reaction_hash := reaction_hash rx\<rparr>) cs)
          else Inl AtomNotFound)"

definition exec_generic ::
  "ExecutionContext \<Rightarrow> SignedReaction \<Rightarrow> u64 \<Rightarrow> Atom option \<Rightarrow> Changeset \<Rightarrow> PvmError + Changeset" where
  "exec_generic ctx rx tax on_chain_sender cs =
     and_then (generic_debit ctx rx tax on_chain_sender cs) (\<lambda>cs1.
       let rcv = (case lookup_atom cs1 (ctx_state ctx) (public_key (receiver rx)) of
                    Some a \<Rightarrow> a | None \<Rightarrow> receiver rx);
           cs2 = changeset_insert (public_key rcv)
                   (rcv\<lparr>mass := saturating_add (mass rcv) (float_to_u64 (energy rx))\<rparr>) cs1
       in Inr (if 0 < tax then
                 (case lookup_atom cs2 (ctx_state ctx) (architect_pk ctx) of
                    Some arch \<Rightarrow> changeset_insert (architect_pk ctx)
                                   (arch\<lparr>mass := saturating_add (mass arch) tax\<rparr>) cs2
                  | None \<Rightarrow> cs2)
               else cs2))"

definition exec_contract ::
  "(bytes \<Rightarrow> bytes) \<Rightarrow> SignedReaction \<Rightarrow> bytes \<Rightarrow> Atom option \<Rightarrow> Changeset \<Rightarrow> PvmError + Changeset" where
  "exec_contract sha3 rx code on_chain_sender cs =
     (if MAX_MODULE_SIZE_BYTES < length code then Inl (WasmBackendError ''Module too large'')
      else and_then (ok_or AtomNotFound on_chain_sender) (\<lambda>snd0.
        let storage_cost = of_nat (length code) * 100
        in if mass snd0 < storage_cost then Inl (InsufficientMass (mass snd0) storage_cost)
           else Inr (insert_contract (sha3 code) code
                  (changeset_insert (public_key snd0)
                     (snd0\<lparr>mass := mass snd0 - storage_cost,
                           nonce := saturating_add (nonce snd0) 1,
                           last_reaction_hash := reaction_hash rx\<rparr>) cs))))"

definition payload_dispatch ::
  "(bytes \<Rightarrow> bytes) \<Rightarrow> ExecutionContext \<Rightarrow> SignedReaction \<Rightarrow> u64 \<Rightarrow> Atom option \<Rightarrow> Changeset
     \<Rightarrow> PvmError + Changeset" where
  "payload_dispatch sha3 ctx rx tax on_chain_sender cs =
     (case payload rx of
        Transfer amount \<Rightarrow> exec_transfer ctx rx amount on_chain_sender cs
      | Generic \<Rightarrow> exec_generic ctx rx tax on_chain_sender cs
      | Contract code \<Rightarrow> exec_contract sha3 rx code on_chain_sender cs
      | ContractCall _ _ \<Rightarrow>
          Inl (WasmBackendError ''ContractCall must be handled by PayloadDispatcher'')
      | MiningReward amount \<Rightarrow> exec_mining_reward ctx rx amount cs
      | Unknown \<Rightarrow> Inl UnknownPayload)"

text \<open>
  The steps of \<open>execute_single\<close> between the reward path and the payload dispatch: signature,
  heat, complexity and tax, nonce. The result holds the updated counters and the tax.
\<close>

definition pre_dispatch ::
  "(bytes \<Rightarrow> bytes) \<Rightarrow> ExecutionContext \<Rightarrow> SignedReaction \<Rightarrow> ExecState \<Rightarrow> (bytes \<times> Atom) list \<Rightarrow> u8
     \<Rightarrow> SignedReaction list \<Rightarrow> PvmError + f32 \<times> f32 \<times> u64" where
  "pre_dispatch sha3 ctx rx st atoms_iter galactic_drift rxs =
     and_then (signature_gate sha3 ctx rx) (\<lambda>_.
       let curv = local_curvature ctx rx atoms_iter galactic_drift;
           heat = fadd binary32 (total_crystal_heat st) curv
       in if flt THERMAL_CAPACITY heat then Inl ThermalLimitExceeded
          else and_then (quantum_complexity ctx rx rxs) (\<lambda>operation_complexity.
            let complexity_scaled = scale_complexity operation_complexity (calculate_macro_shift curv)
            in if MAX_SAFE_COMPLEXITY < complexity_scaled then Inl ArithmeticOverflow
               else let tax = calculate_entropy_tax complexity_scaled curv;
                        entropy = fadd binary32 (total_consumed_entropy st)
                                    (fmul binary32 (float_of_word binary32 tax) (f32_lit 1 100))
                    in and_then (nonce_check (lookup_atom (changeset st) (ctx_state ctx)
                                                (public_key (sender rx))) rx) (\<lambda>_.
                         Inr (heat, entropy, tax))))"

definition execute_single ::
  "(bytes \<Rightarrow> bytes) \<Rightarrow> ExecutionContext \<Rightarrow> SignedReaction \<Rightarrow> ExecState \<Rightarrow> (bytes \<times> Atom) list \<Rightarrow> u8
     \<Rightarrow> SignedReaction list \<Rightarrow> PvmError + ExecState" where
  "execute_single sha3 ctx rx st atoms_iter galactic_drift rxs =
     (if flt (energy rx) f32_zero then Inl NegativeEnergy
      else (case payload rx of
        MiningReward amount \<Rightarrow>
          and_then (exec_mining_reward ctx rx amount (changeset st)) (\<lambda>cs. Inr (st\<lparr>changeset := cs\<rparr>))
      | _ \<Rightarrow>
          and_then (pre_dispatch sha3 ctx rx st atoms_iter galactic_drift rxs) (\<lambda>(heat, entropy, tax).
          and_then (payload_dispatch sha3 ctx rx tax
                      (lookup_atom (changeset st) (ctx_state ctx) (public_key (sender rx)))
                      (changeset st)) (\<lambda>cs.
            Inr \<lparr>changeset = cs, total_crystal_heat = heat, total_consumed_entropy = entropy\<rparr>))))"

section \<open>Execution of a batch\<close>

fun execute_all ::
  "(bytes \<Rightarrow> bytes) \<Rightarrow> ExecutionContext \<Rightarrow> (bytes \<times> Atom) list \<Rightarrow> u8 \<Rightarrow> SignedReaction list
     \<Rightarrow> SignedReaction list \<Rightarrow> ExecState \<Rightarrow> PvmError + ExecState" where
  "execute_all sha3 ctx atoms_iter drift rxs [] st = Inr st"
| "execute_all sha3 ctx atoms_iter drift rxs (rx # rest) st =
     and_then (execute_single sha3 ctx rx st atoms_iter drift rxs)
              (execute_all sha3 ctx atoms_iter drift rxs rest)"

definition exec_start :: ExecState where
  "exec_start = \<lparr>changeset = changeset_new, total_crystal_heat = f32_zero,
                 total_consumed_entropy = f32_zero\<rparr>"

definition execute_payload ::
  "(bytes \<Rightarrow> bytes) \<Rightarrow> ExecutionContext \<Rightarrow> SignedReaction list \<Rightarrow> (bytes \<times> Atom) list
     \<Rightarrow> PvmError + Changeset \<times> f32" where
  "execute_payload sha3 ctx rxs atoms_iter =
     and_then (execute_all sha3 ctx atoms_iter (get_galactic_drift (ctx_crystal_index ctx)) rxs rxs exec_start)
       (\<lambda>st. Inr (changeset st, total_consumed_entropy st))"

section \<open>Atom stores\<close>

text \<open>
  What the virtual machine and the state tree need of a store of atoms: a lookup sees exactly the
  last update. The accounting lemmas are proved once from this law and reach the change set laid
  over a state view through the interpretation below.
\<close>

definition mass_at :: "(bytes \<Rightarrow> Atom option) \<Rightarrow> bytes \<Rightarrow> nat" where
  "mass_at look pk = (case look pk of None \<Rightarrow> 0 | Some a \<Rightarrow> unat (mass a))"

definition total_mass :: "(bytes \<Rightarrow> Atom option) \<Rightarrow> bytes set \<Rightarrow> nat" where
  "total_mass look K = (\<Sum>pk \<in> K. mass_at look pk)"

definition keyed :: "(bytes \<Rightarrow> Atom option) \<Rightarrow> bool" where
  "keyed look = (\<forall>pk a. look pk = Some a \<longrightarrow> public_key a = pk)"

lemma keyedD: "keyed look \<Longrightarrow> look pk = Some a \<Longrightarrow> public_key a = pk"
  by (auto simp: keyed_def)

locale atom_store =
  fixes look :: "'s \<Rightarrow> bytes \<Rightarrow> Atom option"
    and upd :: "bytes \<Rightarrow> Atom \<Rightarrow> 's \<Rightarrow> 's"
  assumes look_upd: "look (upd k a s) = (look s)(k \<mapsto> a)"
begin

lemma mass_at_upd:
  "mass_at (look (upd k a s)) pk = (if pk = k then unat (mass a) else mass_at (look s) pk)"
  by (simp add: mass_at_def look_upd)

lemma keyed_upd: "keyed (look s) \<Longrightarrow> public_key a = k \<Longrightarrow> keyed (look (upd k a s))"
  by (auto simp: keyed_def look_upd)

lemma total_mass_upd:
  assumes "finite K" and "k \<in> K"
  shows "total_mass (look (upd k a s)) K + mass_at (look s) k = total_mass (look s) K + unat (mass a)"
proof -
  have "total_mass (look (upd k a s)) K = unat (mass a) + (\<Sum>pk \<in> K - {k}. mass_at (look s) pk)"
    using assms by (simp add: total_mass_def sum.remove mass_at_upd)
  then show ?thesis using assms by (simp add: total_mass_def sum.remove)
qed

lemma total_mass_credit:
  assumes "finite K" and "k \<in> K"
    and "unat (mass a) \<le> mass_at (look s) k + d"
  shows "total_mass (look (upd k a s)) K \<le> total_mass (look s) K + d"
  using total_mass_upd [OF assms(1,2), of a s] assms(3) by linarith

lemma total_mass_debit:
  assumes "finite K" and "k \<in> K"
    and "unat (mass a) + d \<le> mass_at (look s) k"
  shows "total_mass (look (upd k a s)) K + d \<le> total_mass (look s) K"
  using total_mass_upd [OF assms(1,2), of a s] assms(3) by linarith

end

lemma lookup_insert [simp]:
  "lookup_atom (changeset_insert k a cs) sv = (lookup_atom cs sv)(k \<mapsto> a)"
  by (auto simp: lookup_atom_def changeset_get_def changeset_insert_def)

lemma lookup_insert_contract [simp]:
  "lookup_atom (insert_contract h code cs) sv = lookup_atom cs sv"
  by (auto simp: lookup_atom_def changeset_get_def insert_contract_def)

lemma lookup_new [simp]: "lookup_atom changeset_new sv = get_atom sv"
  by (auto simp: lookup_atom_def changeset_get_def changeset_new_def)

interpretation overlay: atom_store "\<lambda>cs. lookup_atom cs sv" changeset_insert for sv
  by unfold_locales simp

section \<open>Decay and evolution\<close>

lemma apply_decay_fields [simp]:
  "public_key (fst (apply_decay a i)) = public_key a"
  "nonce (fst (apply_decay a i)) = nonce a"
  by (simp_all add: apply_decay_def Let_def)

lemma apply_decay_mass: "unat (mass (fst (apply_decay a i))) \<le> unat (mass a)"
  by (simp add: apply_decay_def Let_def sat_simps)

lemma evolve_fields [simp]:
  "public_key (evolve a) = public_key a"
  "nonce (evolve a) = nonce a"
  "mass (evolve a) = mass a"
  by (simp_all add: evolve_def split: Element.split)

section \<open>What a successful execution establishes\<close>

lemma execute_single_cases:
  assumes "execute_single sha3 ctx rx st atoms d rxs = Inr st'"
  obtains (reward) amount where "payload rx = MiningReward amount"
      "exec_mining_reward ctx rx amount (changeset st) = Inr (changeset st')"
      "total_crystal_heat st' = total_crystal_heat st"
  | (native) tax where "\<not> is_MiningReward (payload rx)"
      "signature_gate sha3 ctx rx = Inr ()"
      "total_crystal_heat st' = fadd binary32 (total_crystal_heat st) (local_curvature ctx rx atoms d)"
      "\<not> flt THERMAL_CAPACITY (total_crystal_heat st')"
      "nonce_check (lookup_atom (changeset st) (ctx_state ctx) (public_key (sender rx))) rx = Inr ()"
      "payload_dispatch sha3 ctx rx tax
         (lookup_atom (changeset st) (ctx_state ctx) (public_key (sender rx))) (changeset st)
       = Inr (changeset st')"
proof (cases "is_MiningReward (payload rx)")
  case True
  then obtain amount where "payload rx = MiningReward amount" by (auto simp: is_MiningReward_def)
  then show ?thesis
    using assms by (intro reward) (auto simp: execute_single_def result_simps split: if_splits)
next
  case False
  then obtain heat entropy tax cs where
      pre: "pre_dispatch sha3 ctx rx st atoms d rxs = Inr (heat, entropy, tax)"
    and dis: "payload_dispatch sha3 ctx rx tax
         (lookup_atom (changeset st) (ctx_state ctx) (public_key (sender rx))) (changeset st) = Inr cs"
    and st': "st' = \<lparr>changeset = cs, total_crystal_heat = heat, total_consumed_entropy = entropy\<rparr>"
    using assms by (auto simp: execute_single_def result_simps split: if_splits Payload.splits)
  from pre have "signature_gate sha3 ctx rx = Inr ()"
      "heat = fadd binary32 (total_crystal_heat st) (local_curvature ctx rx atoms d)"
      "\<not> flt THERMAL_CAPACITY heat"
      "nonce_check (lookup_atom (changeset st) (ctx_state ctx) (public_key (sender rx))) rx = Inr ()"
    by (auto simp: pre_dispatch_def result_simps Let_def split: if_splits)
  with False dis st' show ?thesis by (intro native [of tax]) auto
qed

text \<open>The dispatch succeeds only for transfers, generic reactions and deployments.\<close>

lemma payload_dispatch_cases:
  assumes "payload_dispatch sha3 ctx rx tax src cs = Inr cs'" and "\<not> is_MiningReward (payload rx)"
  obtains amount where "payload rx = Transfer amount" "exec_transfer ctx rx amount src cs = Inr cs'"
  | "payload rx = Generic" "exec_generic ctx rx tax src cs = Inr cs'"
  | code where "payload rx = Contract code" "exec_contract sha3 rx code src cs = Inr cs'"
  using assms by (auto simp: payload_dispatch_def split: Payload.splits)

lemma debit_sender_fields [simp]:
  "public_key (debit_sender ctx rx c a) = public_key a"
  "nonce (debit_sender ctx rx c a) = saturating_add (nonce a) 1"
  by (simp_all add: debit_sender_def)

lemma debit_sender_mass:
  "c \<le> mass a \<Longrightarrow> unat (mass (debit_sender ctx rx c a)) + unat c \<le> unat (mass a)"
  using apply_decay_mass [of "a\<lparr>mass := mass a - c, last_reaction_hash := reaction_hash rx,
      nonce := saturating_add (nonce a) 1\<rparr>" "ctx_crystal_index ctx"]
  by (simp add: debit_sender_def unat_sub word_le_nat_alt)

lemma credit_receiver_fields [simp]:
  "public_key (credit_receiver ctx amount a) = public_key a"
  "nonce (credit_receiver ctx amount a) = nonce a"
  by (simp_all add: credit_receiver_def Let_def)

lemma credit_receiver_mass:
  "unat (mass (credit_receiver ctx amount a)) \<le> unat (mass a) + unat amount"
  using apply_decay_mass [of a "ctx_crystal_index ctx"]
    saturating_add_le [of "mass (fst (apply_decay a (ctx_crystal_index ctx)))" amount]
  by (simp add: credit_receiver_def Let_def)

lemma exec_transfer_cases:
  assumes "exec_transfer ctx rx amount src cs = Inr cs'"
  obtains c a cs1 r where
    "checked_add amount (float_to_u64 (energy rx)) = Some c" "src = Some a" "c \<le> mass a"
    "cs1 = changeset_insert (public_key a) (debit_sender ctx rx c a) cs"
    "r = (case lookup_atom cs1 (ctx_state ctx) (public_key (receiver rx)) of
            Some b \<Rightarrow> b | None \<Rightarrow> (receiver rx)\<lparr>mass := 0\<rparr>)"
    "cs' = changeset_insert (public_key r) (credit_receiver ctx amount r) cs1"
  using assms by (auto simp: exec_transfer_def result_simps not_less Let_def simp del: lookup_insert
      split: if_splits)

lemma exec_contract_cases:
  assumes "exec_contract sha3 rx code src cs = Inr cs'"
  obtains a where "src = Some a" "of_nat (length code) * 100 \<le> mass a"
    "length code \<le> MAX_MODULE_SIZE_BYTES"
    "cs' = insert_contract (sha3 code) code (changeset_insert (public_key a)
      (a\<lparr>mass := mass a - of_nat (length code) * 100, nonce := saturating_add (nonce a) 1,
         last_reaction_hash := reaction_hash rx\<rparr>) cs)"
  using assms by (auto simp: exec_contract_def result_simps Let_def not_less split: if_splits)

lemma exec_mining_reward_cases:
  assumes "exec_mining_reward ctx rx amount cs = Inr cs'"
  obtains a where "lookup_atom cs (ctx_state ctx) (architect_pk ctx) = Some a"
    "public_key (receiver rx) = architect_pk ctx"
    "cs' = changeset_insert (architect_pk ctx)
      (a\<lparr>mass := saturating_add (mass a) amount, last_reaction_hash := reaction_hash rx\<rparr>) cs"
  using assms by (auto simp: exec_mining_reward_def split: if_splits option.splits)

lemma exec_generic_cases:
  assumes "exec_generic ctx rx tax src cs = Inr cs'"
  obtains cs1 r cs2 where "generic_debit ctx rx tax src cs = Inr cs1"
    "r = (case lookup_atom cs1 (ctx_state ctx) (public_key (receiver rx)) of
            Some b \<Rightarrow> b | None \<Rightarrow> receiver rx)"
    "cs2 = changeset_insert (public_key r)
       (r\<lparr>mass := saturating_add (mass r) (float_to_u64 (energy rx))\<rparr>) cs1"
    "cs' = cs2 \<or> (\<exists>a. lookup_atom cs2 (ctx_state ctx) (architect_pk ctx) = Some a
              \<and> cs' = changeset_insert (architect_pk ctx) (a\<lparr>mass := saturating_add (mass a) tax\<rparr>) cs2)"
  using assms by (auto simp: exec_generic_def result_simps Let_def simp del: lookup_insert
      split: if_splits option.splits)

lemma generic_debit_cases:
  assumes "generic_debit ctx rx tax src cs = Inr cs'"
  obtains a c m where "src = Some a" "checked_add (float_to_u64 (energy rx)) tax = Some c"
    "checked_sub (mass a) c = Some m"
    "cs' = changeset_insert (public_key a) (a\<lparr>mass := m, last_reaction_hash := reaction_hash rx,
              nonce := saturating_add (nonce a) 1\<rparr>) cs"
  | "src = None" "public_key (sender rx) = architect_pk ctx"
    "cs' = changeset_insert (public_key (sender rx))
              ((sender rx)\<lparr>mass := 1000000000, last_reaction_hash := reaction_hash rx\<rparr>) cs"
  using assms by (auto simp: generic_debit_def result_simps split: if_splits option.splits)

section \<open>Accounting\<close>

lemma exec_transfer_account:
  assumes "exec_transfer ctx rx amount src cs = Inr cs'"
    and src: "lookup_atom cs (ctx_state ctx) (public_key (sender rx)) = src"
    and k: "keyed (lookup_atom cs (ctx_state ctx))"
    and K: "finite K" "public_key (sender rx) \<in> K" "public_key (receiver rx) \<in> K"
  shows "total_mass (lookup_atom cs' (ctx_state ctx)) K + unat (float_to_u64 (energy rx))
       \<le> total_mass (lookup_atom cs (ctx_state ctx)) K"
  using assms(1)
proof (cases rule: exec_transfer_cases)
  case (1 c a cs1 r)
  let ?sv = "ctx_state ctx"
  have pk: "public_key a = public_key (sender rx)" using src k 1(2) by (metis keyedD)
  have "total_mass (lookup_atom cs1 ?sv) K + unat c \<le> total_mass (lookup_atom cs ?sv) K"
    unfolding 1(4) using K pk src 1(2) debit_sender_mass [OF 1(3), of ctx rx]
    by (intro overlay.total_mass_debit) (auto simp: mass_at_def)
  moreover have "keyed (lookup_atom cs1 ?sv)"
    unfolding 1(4) using k by (intro overlay.keyed_upd) auto
  then have r: "public_key r = public_key (receiver rx)" "unat (mass r) = mass_at (lookup_atom cs1 ?sv) (public_key r)"
    by (auto simp: 1(5) mass_at_def dest: keyedD split: option.split)
  then have "total_mass (lookup_atom cs' ?sv) K \<le> total_mass (lookup_atom cs1 ?sv) K + unat amount"
    unfolding 1(6) using K credit_receiver_mass [of ctx amount r]
    by (intro overlay.total_mass_credit) auto
  ultimately show ?thesis using 1(1) by (auto dest: checked_add_Some)
qed

lemma exec_contract_account:
  assumes "exec_contract sha3 rx code src cs = Inr cs'"
    and src: "lookup_atom cs sv (public_key (sender rx)) = src"
    and k: "keyed (lookup_atom cs sv)" and K: "finite K" "public_key (sender rx) \<in> K"
  shows "total_mass (lookup_atom cs' sv) K + 100 * length code \<le> total_mass (lookup_atom cs sv) K"
  using assms(1)
proof (cases rule: exec_contract_cases)
  case (1 a)
  let ?c = "of_nat (length code) * 100 :: u64"
  have pk: "public_key a = public_key (sender rx)" using src k 1(1) by (metis keyedD)
  have "unat ?c = 100 * length code"
    using 1(3) by (simp add: unat_word_ariths unsigned_of_nat take_bit_eq_mod MAX_MODULE_SIZE_BYTES_def)
  then have "unat (mass a - ?c) + 100 * length code = mass_at (lookup_atom cs sv) (public_key a)"
    using 1(1,2) src pk by (simp add: unat_sub word_le_nat_alt mass_at_def)
  then show ?thesis
    unfolding 1(4) lookup_insert_contract using K pk by (intro overlay.total_mass_debit) auto
qed

lemma exec_mining_reward_account:
  assumes "exec_mining_reward ctx rx amount cs = Inr cs'" and K: "finite K"
    "public_key (receiver rx) \<in> K"
  shows "total_mass (lookup_atom cs' (ctx_state ctx)) K
       \<le> total_mass (lookup_atom cs (ctx_state ctx)) K + unat amount"
  using assms(1)
proof (cases rule: exec_mining_reward_cases)
  case (1 a)
  then show ?thesis
    unfolding 1(3) using K saturating_add_le [of "mass a" amount]
    by (intro overlay.total_mass_credit) (auto simp: mass_at_def)
qed

lemma generic_debit_keyed:
  assumes "generic_debit ctx rx tax src cs = Inr cs'" and "keyed (lookup_atom cs sv)"
  shows "keyed (lookup_atom cs' sv)"
  using assms(1)
  by (cases rule: generic_debit_cases) (auto intro!: overlay.keyed_upd assms(2) simp del: lookup_insert)

text \<open>The credit of a generic reaction: one or two atoms gain mass, nothing else changes.\<close>

lemma generic_credit_keyed:
  assumes k: "keyed (lookup_atom cs1 sv)"
    and r: "r = (case lookup_atom cs1 sv rpk of Some b \<Rightarrow> b | None \<Rightarrow> r0)" "public_key r0 = rpk"
    and cs2: "cs2 = changeset_insert (public_key r) (r\<lparr>mass := m\<rparr>) cs1"
    and cs': "cs' = cs2 \<or> (\<exists>a. lookup_atom cs2 sv arch = Some a
              \<and> cs' = changeset_insert arch (a\<lparr>mass := m' a\<rparr>) cs2)"
  shows "keyed (lookup_atom cs' sv)"
    and "lookup_atom cs1 sv pk = Some a1 \<Longrightarrow>
           \<exists>a2. lookup_atom cs' sv pk = Some a2 \<and> nonce a2 = nonce a1"
proof -
  have rpk: "public_key r = rpk" using k r by (auto dest: keyedD split: option.split)
  have k2: "keyed (lookup_atom cs2 sv)" unfolding cs2 using k by (intro overlay.keyed_upd) auto
  with cs' show "keyed (lookup_atom cs' sv)"
    by (auto intro!: overlay.keyed_upd dest: keyedD simp del: lookup_insert)
  assume a1: "lookup_atom cs1 sv pk = Some a1"
  have "\<exists>a2. lookup_atom cs2 sv pk = Some a2 \<and> nonce a2 = nonce a1"
    using a1 r(1) rpk by (auto simp: cs2)
  with cs' show "\<exists>a2. lookup_atom cs' sv pk = Some a2 \<and> nonce a2 = nonce a1" by auto
qed

lemma exec_generic_keyed:
  assumes "exec_generic ctx rx tax src cs = Inr cs'" and k: "keyed (lookup_atom cs (ctx_state ctx))"
  shows "keyed (lookup_atom cs' (ctx_state ctx))"
  using assms(1)
proof (cases rule: exec_generic_cases)
  case (1 cs1 r cs2)
  show ?thesis
    by (rule generic_credit_keyed(1) [OF generic_debit_keyed [OF 1(1) k] 1(2) refl 1(3,4)])
qed

lemma exec_generic_nonce:
  assumes "exec_generic ctx rx tax src cs = Inr cs'"
    and src: "lookup_atom cs (ctx_state ctx) (public_key (sender rx)) = src"
    and k: "keyed (lookup_atom cs (ctx_state ctx))" and a: "lookup_atom cs (ctx_state ctx) pk = Some a"
  shows "\<exists>a'. lookup_atom cs' (ctx_state ctx) pk = Some a'
        \<and> nonce a' = (if public_key (sender rx) = pk then saturating_add (nonce a) 1 else nonce a)"
  using assms(1)
proof (cases rule: exec_generic_cases)
  case (1 cs1 r cs2)
  from 1(1) have "\<exists>a1. lookup_atom cs1 (ctx_state ctx) pk = Some a1
        \<and> nonce a1 = (if public_key (sender rx) = pk then saturating_add (nonce a) 1 else nonce a)"
    by (cases rule: generic_debit_cases) (use a k src in \<open>auto dest: keyedD\<close>)
  then show ?thesis
    using generic_credit_keyed(2) [OF generic_debit_keyed [OF 1(1) k] 1(2) refl 1(3,4)] by fastforce
qed

text \<open>Every operation files an atom under its own public key.\<close>

lemma exec_keyed:
  assumes "execute_single sha3 ctx rx st atoms d rxs = Inr st'"
    and k: "keyed (lookup_atom (changeset st) (ctx_state ctx))"
  shows "keyed (lookup_atom (changeset st') (ctx_state ctx))"
  using assms(1)
proof (cases rule: execute_single_cases)
  case (reward amount)
  from reward(2) show ?thesis
  proof (cases rule: exec_mining_reward_cases)
    case (1 a)
    then show ?thesis unfolding 1(3) using k by (intro overlay.keyed_upd) (auto dest: keyedD)
  qed
next
  case (native tax)
  from native(6,1) show ?thesis
  proof (cases rule: payload_dispatch_cases)
    case (1 amount)
    from 1(2) show ?thesis
      by (cases rule: exec_transfer_cases) (auto intro!: overlay.keyed_upd k simp del: lookup_insert)
  next
    case 2
    from 2(2) k show ?thesis by (rule exec_generic_keyed)
  next
    case (3 code)
    from 3(2) show ?thesis
      by (cases rule: exec_contract_cases)
        (auto simp only: lookup_insert_contract intro!: overlay.keyed_upd k, simp)
  qed
qed

text \<open>
  The nonce of an atom on the chain advances by one with every reaction it sends and with nothing
  else, and a reaction of its own is accepted only with the current nonce.
\<close>

lemma exec_nonce:
  assumes "execute_single sha3 ctx rx st atoms d rxs = Inr st'"
    and k: "keyed (lookup_atom (changeset st) (ctx_state ctx))"
    and a: "lookup_atom (changeset st) (ctx_state ctx) pk = Some a"
  defines "sends \<equiv> \<not> is_MiningReward (payload rx) \<and> public_key (sender rx) = pk"
  shows "\<exists>a'. lookup_atom (changeset st') (ctx_state ctx) pk = Some a'
        \<and> nonce a' = (if sends then saturating_add (nonce a) 1 else nonce a)"
    and "sends \<Longrightarrow> nonce (sender rx) = nonce a"
proof -
  show "nonce (sender rx) = nonce a" if sends
    using assms(1)
  proof (cases rule: execute_single_cases)
    case (native tax)
    then show ?thesis using a that by (auto simp: nonce_check_def sends_def split: if_splits)
  qed (use that in \<open>simp add: sends_def\<close>)
  show "\<exists>a'. lookup_atom (changeset st') (ctx_state ctx) pk = Some a'
        \<and> nonce a' = (if sends then saturating_add (nonce a) 1 else nonce a)"
    using assms(1)
  proof (cases rule: execute_single_cases)
    case (reward amount)
    from reward(2) show ?thesis
      by (cases rule: exec_mining_reward_cases) (use a reward(1) in \<open>auto simp: sends_def\<close>)
  next
    case (native tax)
    from native(6,1) show ?thesis
    proof (cases rule: payload_dispatch_cases)
      case (1 amount)
      from 1(2) show ?thesis
        by (cases rule: exec_transfer_cases)
          (use a native(1) k in \<open>auto simp: sends_def dest: keyedD split: option.splits\<close>)
    next
      case 2
      show ?thesis
        using exec_generic_nonce [OF 2(2) refl k a] native(1) by (simp add: sends_def)
    next
      case (3 code)
      from 3(2) show ?thesis
        by (cases rule: exec_contract_cases) (use a native(1) k in \<open>auto simp: sends_def dest: keyedD\<close>)
    qed
  qed
qed

section \<open>Batches\<close>

lemma execute_payload_all:
  assumes "execute_payload sha3 ctx rxs atoms = Inr (cs, ent)"
  obtains st where "execute_all sha3 ctx atoms (get_galactic_drift (ctx_crystal_index ctx)) rxs rxs exec_start = Inr st"
    "cs = changeset st" "ent = total_consumed_entropy st"
  using assms by (auto simp: execute_payload_def result_simps)

lemma start_view [simp]: "lookup_atom (changeset exec_start) sv = get_atom sv"
  by (simp add: exec_start_def)

lemma execute_all_signed:
  assumes "execute_all sha3 ctx atoms d rxs todo st = Inr st'" and "rx \<in> set todo"
  shows "is_MiningReward (payload rx) \<or> signature_gate sha3 ctx rx = Inr ()"
  using assms
proof (induction todo arbitrary: st)
  case (Cons r todo)
  then obtain st1 where "execute_single sha3 ctx r st atoms d rxs = Inr st1"
    and "execute_all sha3 ctx atoms d rxs todo st1 = Inr st'" by (auto simp: result_simps)
  with Cons show ?case by (auto elim: execute_single_cases)
qed simp

text \<open>C2. No reaction but a mining reward takes effect unsigned: when a batch executes, every other
  reaction in it carries a signature over its signing digest that verifies under the sender's key
  or under the architect's key.\<close>

theorem batch_signatures:
  assumes "execute_payload sha3 ctx rxs atoms = Inr res" and "rx \<in> set rxs"
  shows "is_MiningReward (payload rx)
    \<or> ctx_verify ctx (public_key (sender rx)) (signing_digest sha3 rx) (signature rx)
    \<or> ctx_verify ctx (architect_pk ctx) (signing_digest sha3 rx) (signature rx)"
proof -
  obtain cs ent where "res = (cs, ent)" by fastforce
  with assms have "is_MiningReward (payload rx) \<or> signature_gate sha3 ctx rx = Inr ()"
    by (auto elim!: execute_payload_all dest: execute_all_signed)
  then show ?thesis by (auto simp: signature_gate_def Let_def split: if_splits)
qed

text \<open>A chain of three atoms for the witnesses: the architect, a holder of mass and a newcomer.\<close>

definition demo_architect :: Atom where
  "demo_architect = (new_receiver [9])\<lparr>mass := 1000\<rparr>"

definition demo_holder :: Atom where
  "demo_holder = (new_receiver [1])\<lparr>mass := 500, nonce := 3\<rparr>"

definition demo_ctx :: ExecutionContext where
  "demo_ctx = \<lparr>ctx_state = \<lparr>get_atom = (\<lambda>pk. if pk = [9] then Some demo_architect
                                          else if pk = [1] then Some demo_holder else None),
                 sv_crystal_index = 5, load_contract = (\<lambda>_. None)\<rparr>,
              architect_pk = [9], current_temp = f32_lit 20 1, ctx_crystal_index = 5,
              ctx_verify = (\<lambda>pk digest sig. pk = [1] \<and> sig = 7 # digest)\<rparr>"

definition demo_transfer :: SignedReaction where
  "demo_transfer =
     \<lparr>sender = demo_holder, receiver = new_receiver [2], reaction_hash = zero_hash,
      energy = f32_lit 10 1, timestamp = 0,
      signature = 7 # signing_input (example_reaction\<lparr>sender := demo_holder, receiver := new_receiver [2]\<rparr>),
      payload = Transfer 7\<rparr>"

definition demo_reward :: SignedReaction where
  "demo_reward = example_reaction\<lparr>receiver := new_receiver [9], payload := MiningReward 10, signature := []\<rparr>"

lemma demo_keyed: "keyed (get_atom (ctx_state demo_ctx))"
  by (auto simp: keyed_def demo_ctx_def demo_architect_def demo_holder_def new_receiver_def
      new_materialized_def split: if_splits)

lemma demo_ok:
  "is_ok (execute_payload id demo_ctx [demo_transfer, demo_reward] [])"
  by code_simp

theorem batch_signatures_witness:
  "ctx_verify demo_ctx [1] (signing_digest id demo_transfer) (signature demo_transfer)"
proof -
  obtain res where "execute_payload id demo_ctx [demo_transfer, demo_reward] [] = Inr res"
    using demo_ok by (auto simp: is_ok_iff)
  from batch_signatures [OF this, of demo_transfer] show ?thesis
    by (simp add: demo_transfer_def demo_ctx_def demo_holder_def new_receiver_def new_materialized_def)
qed

definition sent_by :: "bytes \<Rightarrow> SignedReaction \<Rightarrow> bool" where
  "sent_by pk rx = (\<not> is_MiningReward (payload rx) \<and> public_key (sender rx) = pk)"

lemma execute_all_nonces:
  assumes "execute_all sha3 ctx atoms d rxs todo st = Inr st'"
    and "keyed (lookup_atom (changeset st) (ctx_state ctx))"
    and "lookup_atom (changeset st) (ctx_state ctx) pk = Some a"
    and "unat (nonce a) + length todo < 2 ^ 64"
  shows "map (\<lambda>rx. unat (nonce (sender rx))) (filter (sent_by pk) todo)
       = [unat (nonce a)..<unat (nonce a) + length (filter (sent_by pk) todo)]"
  using assms
proof (induction todo arbitrary: st a)
  case (Cons r todo)
  then obtain st1 where 1: "execute_single sha3 ctx r st atoms d rxs = Inr st1"
    and 2: "execute_all sha3 ctx atoms d rxs todo st1 = Inr st'" by (auto simp: result_simps)
  obtain a' where a': "lookup_atom (changeset st1) (ctx_state ctx) pk = Some a'"
    "nonce a' = (if sent_by pk r then saturating_add (nonce a) 1 else nonce a)"
    using exec_nonce(1) [OF 1 Cons.prems(2,3)] by (auto simp: sent_by_def)
  then have n: "unat (nonce a') = (if sent_by pk r then Suc (unat (nonce a)) else unat (nonce a))"
    using Cons.prems(4) by (simp add: sat_simps)
  have "map (\<lambda>rx. unat (nonce (sender rx))) (filter (sent_by pk) todo)
      = [unat (nonce a')..<unat (nonce a') + length (filter (sent_by pk) todo)]"
    using Cons.IH [OF 2 exec_keyed [OF 1 Cons.prems(2)] a'(1)] Cons.prems(4) n by (simp split: if_splits)
  moreover have "nonce (sender r) = nonce a" if "sent_by pk r"
    using exec_nonce(2) [OF 1 Cons.prems(2,3)] that by (auto simp: sent_by_def)
  ultimately show ?case using n by (auto simp: upt_conv_Cons simp del: upt_Suc split: if_splits)
qed simp

text \<open>C3. Anti-replay: in a batch that executes, the reactions of an account on the chain carry
  consecutive nonces, in order, from the account's nonce on. In particular no reaction of the
  account can occur twice in the batch or be executed out of order.\<close>

theorem batch_nonces_consecutive:
  assumes "execute_payload sha3 ctx rxs atoms = Inr res"
    and "keyed (get_atom (ctx_state ctx))" and "get_atom (ctx_state ctx) pk = Some a"
    and "unat (nonce a) + length rxs < 2 ^ 64"
  shows "map (\<lambda>rx. unat (nonce (sender rx))) (filter (sent_by pk) rxs)
       = [unat (nonce a)..<unat (nonce a) + length (filter (sent_by pk) rxs)]"
proof -
  obtain cs ent where "res = (cs, ent)" by fastforce
  with assms show ?thesis by (auto elim!: execute_payload_all dest!: execute_all_nonces)
qed

theorem batch_nonces_consecutive_witness:
  "map (\<lambda>rx. unat (nonce (sender rx))) (filter (sent_by [1]) [demo_transfer, demo_reward]) = [3..<4]"
proof -
  obtain res where r: "execute_payload id demo_ctx [demo_transfer, demo_reward] [] = Inr res"
    using demo_ok by (auto simp: is_ok_iff)
  have a: "get_atom (ctx_state demo_ctx) [1] = Some demo_holder" by (simp add: demo_ctx_def)
  show ?thesis
    using batch_nonces_consecutive [OF r demo_keyed a]
    by (simp add: sent_by_def demo_transfer_def demo_reward_def demo_holder_def example_reaction_def
        new_receiver_def new_materialized_def is_MiningReward_def)
qed

text \<open>Supply: what a reaction destroys and what it creates.\<close>

definition burned :: "SignedReaction \<Rightarrow> nat" where
  "burned rx = (case payload rx of Transfer _ \<Rightarrow> unat (float_to_u64 (energy rx))
                | Contract code \<Rightarrow> 100 * length code | _ \<Rightarrow> 0)"

definition minted :: "SignedReaction \<Rightarrow> nat" where
  "minted rx = (case payload rx of MiningReward amount \<Rightarrow> unat amount | _ \<Rightarrow> 0)"

definition parties :: "SignedReaction \<Rightarrow> bytes set" where
  "parties rx = {public_key (sender rx), public_key (receiver rx)}"

lemma execute_single_account:
  assumes "execute_single sha3 ctx rx st atoms d rxs = Inr st'" and ng: "payload rx \<noteq> Generic"
    and k: "keyed (lookup_atom (changeset st) (ctx_state ctx))"
    and K: "finite K" "parties rx \<subseteq> K"
  shows "total_mass (lookup_atom (changeset st') (ctx_state ctx)) K + burned rx
       \<le> total_mass (lookup_atom (changeset st) (ctx_state ctx)) K + minted rx"
  using assms(1)
proof (cases rule: execute_single_cases)
  case (reward amount)
  then show ?thesis using exec_mining_reward_account [OF reward(2) K(1)] K(2)
    by (simp add: burned_def minted_def parties_def)
next
  case (native tax)
  from native(6,1) show ?thesis
  proof (cases rule: payload_dispatch_cases)
    case (1 amount)
    then show ?thesis using exec_transfer_account [OF 1(2) refl k K(1)] K(2)
      by (simp add: burned_def minted_def parties_def)
  next
    case (3 code)
    then show ?thesis using exec_contract_account [OF 3(2) refl k K(1)] K(2)
      by (simp add: burned_def minted_def parties_def)
  qed (use ng in simp)
qed

lemma execute_all_account:
  assumes "execute_all sha3 ctx atoms d rxs todo st = Inr st'"
    and "\<forall>rx \<in> set todo. payload rx \<noteq> Generic"
    and "keyed (lookup_atom (changeset st) (ctx_state ctx))"
    and K: "finite K" "\<forall>rx \<in> set todo. parties rx \<subseteq> K"
  shows "total_mass (lookup_atom (changeset st') (ctx_state ctx)) K + sum_list (map burned todo)
       \<le> total_mass (lookup_atom (changeset st) (ctx_state ctx)) K + sum_list (map minted todo)"
  using assms
proof (induction todo arbitrary: st)
  case (Cons r todo)
  then obtain st1 where 1: "execute_single sha3 ctx r st atoms d rxs = Inr st1"
    and 2: "execute_all sha3 ctx atoms d rxs todo st1 = Inr st'" by (auto simp: result_simps)
  have "total_mass (lookup_atom (changeset st1) (ctx_state ctx)) K + burned r
      \<le> total_mass (lookup_atom (changeset st) (ctx_state ctx)) K + minted r"
    using execute_single_account [OF 1 _ Cons.prems(3) K(1)] Cons.prems(2,5) by simp
  moreover have "total_mass (lookup_atom (changeset st') (ctx_state ctx)) K + sum_list (map burned todo)
      \<le> total_mass (lookup_atom (changeset st1) (ctx_state ctx)) K + sum_list (map minted todo)"
    using Cons.IH [OF 2 _ exec_keyed [OF 1 Cons.prems(3)] K(1)] Cons.prems(2,5) by simp
  ultimately show ?case by simp
qed simp

text \<open>C1. Conservation of mass: a batch of transfers, deployments and mining rewards never creates
  mass beyond its rewards, and it destroys at least the fees of its transfers and the storage
  cost of its deployments. Decay and saturation can only lower the total further.\<close>

theorem batch_conserves_mass:
  assumes "execute_payload sha3 ctx rxs atoms = Inr (cs, ent)"
    and "\<forall>rx \<in> set rxs. payload rx \<noteq> Generic"
    and "keyed (get_atom (ctx_state ctx))"
    and "finite K" and "\<forall>rx \<in> set rxs. parties rx \<subseteq> K"
  shows "total_mass (lookup_atom cs (ctx_state ctx)) K + sum_list (map burned rxs)
       \<le> total_mass (get_atom (ctx_state ctx)) K + sum_list (map minted rxs)"
  using assms by (auto elim!: execute_payload_all dest!: execute_all_account)

theorem batch_conserves_mass_witness:
  "\<exists>cs ent. execute_payload id demo_ctx [demo_transfer, demo_reward] [] = Inr (cs, ent)
     \<and> total_mass (lookup_atom cs (ctx_state demo_ctx)) {[1], [2], [9]} + 10
       \<le> total_mass (get_atom (ctx_state demo_ctx)) {[1], [2], [9]} + 10"
proof -
  obtain cs ent where r: "execute_payload id demo_ctx [demo_transfer, demo_reward] [] = Inr (cs, ent)"
    using demo_ok by (auto simp: is_ok_iff)
  have b: "burned demo_transfer = 10" "minted demo_transfer = 0" "burned demo_reward = 0"
    "minted demo_reward = 10"
    by (code_simp, simp_all add: burned_def minted_def demo_transfer_def demo_reward_def)
  have p: "parties demo_transfer = {[1], [2]}" "parties demo_reward = {[1], [9]}"
    "payload demo_transfer \<noteq> Generic" "payload demo_reward \<noteq> Generic"
    by (simp_all add: parties_def demo_transfer_def demo_reward_def demo_holder_def
        example_reaction_def new_receiver_def new_materialized_def)
  show ?thesis
    using r batch_conserves_mass [OF r _ demo_keyed, of "{[1], [2], [9]}"] by (auto simp: b p)
qed

section \<open>Heat, gravity and tax\<close>

lemma thermal_capacity_value: "THERMAL_CAPACITY = Fin False 16384000 (- 14)"
  by code_simp

lemma execute_single_heat:
  assumes "execute_single sha3 ctx rx st atoms d rxs = Inr st'"
    and h: "fnonneg (total_crystal_heat st)" "\<not> flt THERMAL_CAPACITY (total_crystal_heat st)"
  shows "fnonneg (total_crystal_heat st') \<and> \<not> flt THERMAL_CAPACITY (total_crystal_heat st')"
  using assms(1)
proof (cases rule: execute_single_cases)
  case (native tax)
  then show ?thesis using h
    by (auto intro!: fnonneg_fadd simp: local_curvature_def Let_def fnonneg_fmax_zero)
qed (use h in simp)

lemma execute_all_heat:
  assumes "execute_all sha3 ctx atoms d rxs todo st = Inr st'"
    and "fnonneg (total_crystal_heat st)" "\<not> flt THERMAL_CAPACITY (total_crystal_heat st)"
  shows "fnonneg (total_crystal_heat st') \<and> \<not> flt THERMAL_CAPACITY (total_crystal_heat st')"
  using assms
proof (induction todo arbitrary: st)
  case (Cons r todo)
  then show ?case by (auto simp: result_simps dest!: execute_single_heat)
qed simp

text \<open>C35. The thermal budget holds for every context, also with a temperature that is infinite or
  not a number: the heat of a batch that executes is a finite number between 0 and 1000.\<close>

theorem batch_heat_bounded:
  assumes "execute_all sha3 ctx atoms d rxs todo exec_start = Inr st"
  shows "\<exists>s m e. total_crystal_heat st = Fin s m e
     \<and> 0 \<le> fval (total_crystal_heat st) \<and> fval (total_crystal_heat st) \<le> 1000"
proof -
  have "fnonneg (total_crystal_heat exec_start)" "\<not> flt THERMAL_CAPACITY (total_crystal_heat exec_start)"
    by (simp_all add: exec_start_def fnonneg_def signed_mant_def thermal_capacity_value)
  with assms have "fnonneg (total_crystal_heat st) \<and> \<not> flt THERMAL_CAPACITY (total_crystal_heat st)"
    by (rule execute_all_heat)
  moreover have "fval (Fin False 16384000 (- 14)) = 1000"
    by (simp add: fval_def rval_def signed_mant_def power_int_def field_simps)
  ultimately show ?thesis by (metis fnonneg_bounded thermal_capacity_value)
qed

theorem batch_heat_bounded_witness:
  "\<exists>st. execute_all id demo_ctx [] 5 [demo_reward] [demo_reward] exec_start = Inr st
     \<and> fval (total_crystal_heat st) \<le> 1000"
proof -
  have "is_ok (execute_all id demo_ctx [] 5 [demo_reward] [demo_reward] exec_start)" by code_simp
  then obtain st where "execute_all id demo_ctx [] 5 [demo_reward] [demo_reward] exec_start = Inr st"
    by (auto simp: is_ok_iff)
  with batch_heat_bounded [OF this] show ?thesis by blast
qed

definition pull_ok :: "rfloat \<Rightarrow> bool" where
  "pull_ok x = (\<exists>m e. x = Fin False m e \<and> 0 \<le> m \<and> fval x \<le> 25)"

lemma max_pull_value: "fcast binary64 MAX_GRAVITY_PULL = Fin False 7036874417766400 (- 48)"
  by code_simp

lemma lit_12000: "f64_lit 12000 1 = Fin False 6597069766656000 (- 39)"
  by code_simp

lemma fval_max_pull: "fval (Fin False 7036874417766400 (- 48)) = 25"
  by (simp add: fval_def rval_def signed_mant_def power_int_def field_simps)

lemma fadd_Fin_False:
  assumes "0 \<le> m" and "fnonneg y" and "\<And>s n f. y = Fin s n f \<Longrightarrow> s = False"
  shows "fadd F (Fin False m e) y = Inf False
    \<or> (\<exists>m' e'. fadd F (Fin False m e) y = Fin False m' e' \<and> 0 \<le> m')"
proof (cases y)
  case (Fin t n f)
  with assms(3) have t: "t = False" by simp
  define v where "v = m * 2 ^ nat (e - min e f) + n * 2 ^ nat (f - min e f)"
  have "0 \<le> v" using assms(1,2) Fin t by (simp add: v_def fnonneg_def signed_mant_def)
  moreover have "fadd F (Fin False m e) y =
      (if v = 0 then Fin False 0 (emin F) else fround F (v < 0) \<bar>v\<bar> (min e f))"
    using Fin t by (simp add: v_def signed_mant_def Let_def)
  ultimately show ?thesis
    using fround_cases [of F False v "min e f"] by (auto dest: fround_Fin_nonneg)
qed (use assms(2) in \<open>auto simp: fnonneg_def\<close>)

lemma div_word_sign: "0 < n \<Longrightarrow> fdiv F (float_of_word G w) (Fin False n f) = Fin s m e \<Longrightarrow> s = False"
  using fround_cases [of G False "uint w" 0]
  by (auto simp: float_of_word_def float_of_int_def fround_ratio_def Let_def dest: fround_Fin_nonneg)

lemma pull_step:
  assumes "pull_ok p" and "0 < n"
  shows "pull_ok (fmin (fadd binary64 p (fdiv binary64 (float_of_word binary64 w) (Fin False n f)))
                    (Fin False 7036874417766400 (- 48)))"
proof -
  let ?y = "fdiv binary64 (float_of_word binary64 w) (Fin False n f)"
  obtain m e where p: "p = Fin False m e" "0 \<le> m" using assms by (auto simp: pull_ok_def)
  have "fadd binary64 p ?y = Inf False
    \<or> (\<exists>m' e'. fadd binary64 p ?y = Fin False m' e' \<and> 0 \<le> m')"
    unfolding p(1) using p(2) assms(2) by (intro fadd_Fin_False) (auto simp: fnonneg_div_word dest: div_word_sign)
  then show ?thesis
  proof (elim disjE exE conjE)
    fix m' e' assume y: "fadd binary64 p ?y = Fin False m' e'" "0 \<le> m'"
    then show ?thesis
      using fval_max_pull flt_Fin_iff [of False 7036874417766400 "- 48" False m' e']
      by (auto simp: fmin_def pull_ok_def not_less simp del: flt.simps)
  qed (use fval_max_pull in \<open>simp add: fmin_def pull_ok_def\<close>)
qed

lemma gravity_pull_ok: "pull_ok p \<Longrightarrow> pull_ok (gravity_pull atoms atom_id p)"
proof (induction atoms atom_id p rule: gravity_pull.induct)
  case (2 pk star atoms atom_id pull)
  then show ?case
    using pull_step [of pull 6597069766656000 "mass star" "- 39"] by (simp add: max_pull_value lit_12000)
qed simp

text \<open>The discount on curvature from nearby stars is a finite number between 0 and the
  protocol cap of 25, whatever the masses in the state.\<close>

theorem gravity_assist_bounded:
  "\<exists>m e. calculate_gravity_assist_from_iter atoms atom_id = Fin False m e
     \<and> 0 \<le> fval (Fin False m e) \<and> fval (Fin False m e) \<le> 25"
proof -
  have "pull_ok f64_zero" by (simp add: pull_ok_def fval_def rval_def signed_mant_def)
  then obtain m e where g: "gravity_pull atoms atom_id f64_zero = Fin False m e" "0 \<le> m"
      "fval (Fin False m e) \<le> 25"
    using gravity_pull_ok [of f64_zero atoms atom_id] by (auto simp: pull_ok_def)
  then have "fround binary32 False m e \<noteq> Inf False"
    by (intro fround_finite) (auto simp: fval_def signed_mant_def)
  then obtain m' e' where c: "fcast binary32 (Fin False m e) = Fin False m' e'"
    using fround_cases [of binary32 False m e] by (auto simp: fcast_def)
  then have "0 \<le> m'" using fround_Fin_nonneg by (auto simp: fcast_def)
  moreover have "fval (Fin False m' e') \<le> 25"
    using fcast_le [of m e 25 binary32 False m' e'] g c by simp
  ultimately show ?thesis
    using g(1) c by (simp add: calculate_gravity_assist_from_iter_def fval_nonneg_iff signed_mant_def)
qed

lemma lit_one: "f64_lit 1 1 = Fin False 4503599627370496 (- 52)"
  by code_simp

lemma fval_lit_one: "fval (Fin False 4503599627370496 (- 52)) = 1"
  by (simp add: fval_def rval_def signed_mant_def power_int_def field_simps)

lemma fdiv_Fin_mant: "fdiv F x y = Fin s m e \<Longrightarrow> 0 \<le> m"
  by (induction F x y rule: fdiv.induct)
    (auto simp: fround_ratio_def Let_def dest: fround_Fin_nonneg split: if_splits)

lemma heat_factor_cases:
  "fmax (fdiv F x y) (f64_lit 1 1) = Inf False
   \<or> (\<exists>n f. fmax (fdiv F x y) (f64_lit 1 1) = Fin False n f \<and> 0 \<le> n \<and> 1 \<le> rval n f)"
proof (cases "fdiv F x y")
  case (Fin s n f)
  have n: "0 \<le> n" by (rule fdiv_Fin_mant [OF Fin])
  show ?thesis
  proof (cases "flt (Fin s n f) (f64_lit 1 1)")
    case True
    then show ?thesis using Fin fval_lit_one by (simp add: fmax_def lit_one fval_def signed_mant_def)
  next
    case False
    then have "1 \<le> fval (Fin s n f)"
      using flt_Fin_iff [of s n f False 4503599627370496 "- 52"] by (simp add: lit_one fval_lit_one not_less)
    moreover have "rval (- n) f \<le> 0" using n rval_le_iff [of "- n" f 0] by (simp add: rval_def)
    ultimately have "\<not> s" "1 \<le> rval n f" by (auto simp: fval_def signed_mant_def split: if_splits)
    with False Fin n show ?thesis by (simp add: fmax_def lit_one)
  qed
qed (use fval_lit_one in \<open>auto simp: fmax_def lit_one fval_def signed_mant_def\<close>)

lemma float_to_u64_ge:
  assumes "0 \<le> m" and "real_of_int c \<le> rval m e" and "c < 2 ^ 64"
  shows "c \<le> uint (float_to_u64 (Fin False m e))"
  using assms float_to_u64_Fin [OF assms(1), of e] by (simp add: le_floor_iff)

text \<open>The entropy tax is at least the complexity of the operation for every complexity that the
  virtual machine admits (at most \<open>2 ^ 53\<close>) and every temperature, NaN and infinities included:
  neither the conversion nor the multiplication in \<open>f64\<close> rounds below it.\<close>

theorem entropy_tax_at_least_complexity:
  assumes "complexity \<le> MAX_SAFE_COMPLEXITY"
  shows "complexity \<le> calculate_entropy_tax complexity local_temp"
proof -
  define h where "h = fmax (fdiv binary64 (fcast binary64 local_temp) (f64_lit 50 1)) (f64_lit 1 1)"
  define c where "c = uint complexity"
  have "uint MAX_SAFE_COMPLEXITY = 2 ^ 53" by code_simp
  then have c: "0 \<le> c" "c \<le> 2 ^ 53" using assms by (simp_all add: c_def word_le_def)
  then obtain m e where m: "float_of_word binary64 complexity = Fin False m e"
      "rval m e = real_of_int c" "0 \<le> m"
    using float_of_int_exact [of binary64 c] by (auto simp: float_of_word_def c_def)
  have "c \<le> uint (float_to_u64 (fmul binary64 (Fin False m e) h))"
    using heat_factor_cases [of binary64 "fcast binary64 local_temp" "f64_lit 50 1"]
    unfolding h_def [symmetric]
  proof (elim disjE exE conjE)
    assume "h = Inf False"
    then show ?thesis using m c by (auto simp: float_to_u64_def float_to_uint_def rval_def)
  next
    fix n f assume h: "h = Fin False n f" "0 \<le> n" "1 \<le> rval n f"
    have "real_of_int c * 1 \<le> rval m e * rval n f" using m(2) h(3) c(1) by (intro mult_mono) auto
    then have le: "rval c 0 \<le> rval (m * n) (e + f)" by (simp add: rval_mult) (simp add: rval_def)
    have mn: "0 \<le> m * n" using m(3) h(2) by simp
    have mul: "fmul binary64 (Fin False m e) h = fround binary64 False (m * n) (e + f)" using h(1) by simp
    consider "fround binary64 False (m * n) (e + f) = Inf False"
      | m' e' where "fround binary64 False (m * n) (e + f) = Fin False m' e'"
      using fround_cases by metis
    then show ?thesis
    proof cases
      case 1
      then show ?thesis using mul c by (simp add: float_to_u64_def float_to_uint_def)
    next
      case (2 m' e')
      have "rval c 0 \<le> rval m' e'"
        using fround_grid(1) [OF 2 mn _ c(1) _ _ le] c(2) by simp
      then show ?thesis
        using 2 mul float_to_u64_ge [of m' c e'] fround_Fin_nonneg [OF 2] c(2)
        by (simp add: rval_def)
    qed
  qed
  then show ?thesis by (simp add: calculate_entropy_tax_def m(1) h_def c_def word_le_def Let_def)
qed

theorem entropy_tax_at_least_complexity_witness:
  "(600::u64) \<le> MAX_SAFE_COMPLEXITY \<and> 600 \<le> calculate_entropy_tax 600 NaN"
  using entropy_tax_at_least_complexity [of 600 NaN] by (simp add: MAX_SAFE_COMPLEXITY_def word_le_nat_alt)

section \<open>Success of a transfer\<close>

text \<open>The limits on heat and complexity of a reaction, as \<open>pre_dispatch\<close> checks them.\<close>

definition within_limits ::
  "ExecutionContext \<Rightarrow> SignedReaction \<Rightarrow> ExecState \<Rightarrow> (bytes \<times> Atom) list \<Rightarrow> u8 \<Rightarrow> SignedReaction list \<Rightarrow> bool" where
  "within_limits ctx rx st atoms d rxs \<longleftrightarrow>
     (let curv = local_curvature ctx rx atoms d
      in \<not> flt THERMAL_CAPACITY (fadd binary32 (total_crystal_heat st) curv)
         \<and> (case quantum_complexity ctx rx rxs of
              Inl _ \<Rightarrow> False | Inr k \<Rightarrow> scale_complexity k (calculate_macro_shift curv) \<le> MAX_SAFE_COMPLEXITY))"

lemma pre_dispatch_ok_iff:
  "(\<exists>x. pre_dispatch sha3 ctx rx st atoms d rxs = Inr x) \<longleftrightarrow>
     signature_gate sha3 ctx rx = Inr () \<and> within_limits ctx rx st atoms d rxs
     \<and> nonce_check (lookup_atom (changeset st) (ctx_state ctx) (public_key (sender rx))) rx = Inr ()"
  by (auto simp: pre_dispatch_def within_limits_def Let_def result_simps not_less split: if_splits sum.splits)

lemma debit_sender_quantum: "quantum_state (debit_sender ctx rx c a) = quantum_state a"
  by (simp add: debit_sender_def evolve_def apply_decay_def Let_def split: Element.split)

text \<open>The receiver of a transfer as the ledger has it: an unknown one starts without mass.\<close>

definition receiver_before :: "(bytes \<Rightarrow> Atom option) \<Rightarrow> SignedReaction \<Rightarrow> Atom" where
  "receiver_before look rx = (case look (public_key (receiver rx)) of Some b \<Rightarrow> b | None \<Rightarrow> (receiver rx)\<lparr>mass := 0\<rparr>)"

lemma transfer_executes:
  assumes "payload rx = Transfer amount" and "\<not> flt (energy rx) f32_zero" and "signature_gate sha3 ctx rx = Inr ()"
    and "within_limits ctx rx exec_start atoms (get_galactic_drift (ctx_crystal_index ctx)) [rx]"
    and "keyed (get_atom (ctx_state ctx))" and "get_atom (ctx_state ctx) (public_key (sender rx)) = Some a"
    and "nonce a = nonce (sender rx)" and "checked_add amount (float_to_u64 (energy rx)) = Some c" and "c \<le> mass a"
    and "public_key (receiver rx) \<noteq> public_key (sender rx)"
  shows "\<exists>cs ent. execute_payload sha3 ctx [rx] atoms = Inr (cs, ent)
    \<and> lookup_atom cs (ctx_state ctx) =
        (get_atom (ctx_state ctx))(public_key (sender rx) \<mapsto> debit_sender ctx rx c a,
           public_key (receiver rx) \<mapsto> credit_receiver ctx amount (receiver_before (get_atom (ctx_state ctx)) rx))"
proof -
  let ?d = "get_galactic_drift (ctx_crystal_index ctx)" and ?r = "receiver_before (get_atom (ctx_state ctx)) rx"
  have pk: "public_key a = public_key (sender rx)" using assms(5,6) by (rule keyedD)
  have rk: "public_key ?r = public_key (receiver rx)"
    using assms(5) by (auto simp: receiver_before_def keyed_def split: option.split)
  have v: "lookup_atom (changeset exec_start) (ctx_state ctx) = get_atom (ctx_state ctx)" by simp
  have "nonce_check (Some a) rx = Inr ()" using assms(7) by (simp add: nonce_check_def)
  then obtain h e t where pre: "pre_dispatch sha3 ctx rx exec_start atoms ?d [rx] = Inr (h, e, t)"
    using assms(3,4,6) pre_dispatch_ok_iff [of sha3 ctx rx exec_start atoms ?d "[rx]"] unfolding v by auto
  let ?cs = "changeset_insert (public_key ?r) (credit_receiver ctx amount ?r)
    (changeset_insert (public_key a) (debit_sender ctx rx c a) (changeset exec_start))"
  have "lookup_atom (changeset_insert (public_key a) (debit_sender ctx rx c a) (changeset exec_start)) (ctx_state ctx) (public_key (receiver rx))
      = get_atom (ctx_state ctx) (public_key (receiver rx))"
    using assms(10) pk by (simp add: overlay.look_upd)
  then have "payload_dispatch sha3 ctx rx t (Some a) (changeset exec_start) = Inr ?cs"
    using assms(1,8,9) by (simp add: payload_dispatch_def exec_transfer_def Let_def receiver_before_def not_less)
  then have "execute_payload sha3 ctx [rx] atoms = Inr (?cs, e)"
    using assms(1,2,6) pre v by (simp add: execute_payload_def execute_single_def result_simps)
  moreover have "lookup_atom ?cs (ctx_state ctx) = (get_atom (ctx_state ctx))(public_key (sender rx) \<mapsto> debit_sender ctx rx c a,
       public_key (receiver rx) \<mapsto> credit_receiver ctx amount ?r)"
    using pk rk by (simp add: overlay.look_upd)
  ultimately show ?thesis by blast
qed

text \<open>What the execution of a single transfer had to pass.\<close>

lemma transfer_executed:
  assumes "execute_payload sha3 ctx [rx] atoms = Inr (cs, ent)" and "payload rx = Transfer amount"
  obtains a c where "\<not> flt (energy rx) f32_zero" "signature_gate sha3 ctx rx = Inr ()"
    "within_limits ctx rx exec_start atoms (get_galactic_drift (ctx_crystal_index ctx)) [rx]"
    "get_atom (ctx_state ctx) (public_key (sender rx)) = Some a" "nonce a = nonce (sender rx)"
    "checked_add amount (float_to_u64 (energy rx)) = Some c" "c \<le> mass a"
proof -
  let ?d = "get_galactic_drift (ctx_crystal_index ctx)"
  have v: "lookup_atom (changeset exec_start) (ctx_state ctx) = get_atom (ctx_state ctx)" by simp
  obtain st where st: "execute_single sha3 ctx rx exec_start atoms ?d [rx] = Inr st"
    using assms(1) by (auto simp: execute_payload_def result_simps)
  then obtain x where pre: "pre_dispatch sha3 ctx rx exec_start atoms ?d [rx] = Inr x"
    and "\<not> flt (energy rx) f32_zero"
    using assms(2) by (auto simp: execute_single_def result_simps split: if_splits)
  then have p: "signature_gate sha3 ctx rx = Inr ()" "within_limits ctx rx exec_start atoms ?d [rx]"
      "nonce_check (get_atom (ctx_state ctx) (public_key (sender rx))) rx = Inr ()"
    using pre_dispatch_ok_iff [of sha3 ctx rx exec_start atoms ?d "[rx]"] unfolding v by blast+
  have "exec_transfer ctx rx amount (get_atom (ctx_state ctx) (public_key (sender rx))) (changeset exec_start) = Inr (changeset st)"
    using st assms(2) v by (auto simp: execute_single_def payload_dispatch_def result_simps split: if_splits)
  then obtain c a where "checked_add amount (float_to_u64 (energy rx)) = Some c"
      "get_atom (ctx_state ctx) (public_key (sender rx)) = Some a" "c \<le> mass a"
    by (cases rule: exec_transfer_cases)
  with that p \<open>\<not> flt (energy rx) f32_zero\<close> show thesis by (auto simp: nonce_check_def split: if_splits)
qed

text \<open>C39. The signature of a transfer does not cover its nonce: whenever a block that holds one transfer executes, the
  same signature is accepted once more on the resulting ledger, with nothing but the nonce counted up, as
  long as the sender can still pay. The copy passes the structural check as the original did, and
  debits the sender and credits the receiver a second time.\<close>

theorem replay_with_next_nonce:
  assumes "execute_payload sha3 ctx [rx] atoms = Inr (cs, ent)" and "payload rx = Transfer amount"
    and "keyed (get_atom (ctx_state ctx))" and "public_key (receiver rx) \<noteq> public_key (sender rx)"
    and "lookup_atom cs (ctx_state ctx) (public_key (sender rx)) = Some a1"
    and "unat amount + unat (float_to_u64 (energy rx)) \<le> unat (mass a1)"
    and "ctx1 = ctx\<lparr>ctx_state := (ctx_state ctx)\<lparr>get_atom := lookup_atom cs (ctx_state ctx)\<rparr>\<rparr>"
    and "rx1 = rx\<lparr>sender := (sender rx)\<lparr>nonce := saturating_add (nonce (sender rx)) 1\<rparr>\<rparr>"
  shows "validate_structure sha3 rx1 = validate_structure sha3 rx
    \<and> (\<exists>cs1 ent1. execute_payload sha3 ctx1 [rx1] atoms = Inr (cs1, ent1)
         \<and> lookup_atom cs1 (ctx_state ctx1) =
             (lookup_atom cs (ctx_state ctx))(public_key (sender rx) \<mapsto> debit_sender ctx1 rx1 (amount + float_to_u64 (energy rx)) a1,
                public_key (receiver rx) \<mapsto> credit_receiver ctx1 amount (receiver_before (lookup_atom cs (ctx_state ctx)) rx)))"
proof -
  let ?d = "get_galactic_drift (ctx_crystal_index ctx)"
  obtain a c where t: "\<not> flt (energy rx) f32_zero" "signature_gate sha3 ctx rx = Inr ()"
      "within_limits ctx rx exec_start atoms ?d [rx]"
      "get_atom (ctx_state ctx) (public_key (sender rx)) = Some a" "nonce a = nonce (sender rx)"
      "checked_add amount (float_to_u64 (energy rx)) = Some c" "c \<le> mass a"
    using transfer_executed [OF assms(1,2)] by metis
  have c: "c = amount + float_to_u64 (energy rx)" "c \<le> mass a1"
    using t(6) assms(6) checked_add_Some [OF t(6)] by (auto simp: checked_add_def word_le_nat_alt split: if_splits)
  have look: "lookup_atom cs (ctx_state ctx) = (get_atom (ctx_state ctx))(public_key (sender rx) \<mapsto> debit_sender ctx rx c a,
       public_key (receiver rx) \<mapsto> credit_receiver ctx amount (receiver_before (get_atom (ctx_state ctx)) rx))"
    using transfer_executes [OF assms(2) t(1-3) assms(3) t(4-7) assms(4)] assms(1) by auto
  have a1: "a1 = debit_sender ctx rx c a" using assms(4,5) by (simp add: look)
  have same: "public_key (sender rx1) = public_key (sender rx)" "receiver rx1 = receiver rx" "energy rx1 = energy rx"
      "payload rx1 = payload rx" "reaction_hash rx1 = reaction_hash rx" "signature rx1 = signature rx"
      "signing_input rx1 = signing_input rx" "nonce (sender rx1) = saturating_add (nonce (sender rx)) 1"
    by (simp_all add: assms(8) signing_input_def)
  have ctx1: "get_atom (ctx_state ctx1) = lookup_atom cs (ctx_state ctx)" "ctx_crystal_index ctx1 = ctx_crystal_index ctx"
      "current_temp ctx1 = current_temp ctx" "architect_pk ctx1 = architect_pk ctx" "ctx_verify ctx1 = ctx_verify ctx"
    by (simp_all add: assms(7))
  have "public_key (receiver_before (get_atom (ctx_state ctx)) rx) = public_key (receiver rx)" "public_key a = public_key (sender rx)"
    using assms(3) t(4) by (auto simp: receiver_before_def keyed_def split: option.split)
  then have "keyed (get_atom (ctx_state ctx1))"
    using assms(3) unfolding ctx1 look by (auto simp: keyed_def)
  moreover have "quantum_state a1 = quantum_state a" by (simp add: a1 debit_sender_quantum)
  then have "quantum_complexity ctx1 rx1 [rx1] = quantum_complexity ctx rx [rx]"
    using t(4) assms(5) by (simp add: quantum_complexity_def same ctx1 split: QuantumState.split)
  then have "within_limits ctx1 rx1 exec_start atoms ?d [rx1]"
    using t(3) by (simp add: within_limits_def local_curvature_def same ctx1 Let_def)
  moreover have "signature_gate sha3 ctx1 rx1 = Inr ()"
    using t(2) by (simp add: signature_gate_def signing_digest_def same ctx1 Let_def split: if_splits)
  moreover have "nonce a1 = nonce (sender rx1)" using t(5) by (simp add: a1 same)
  ultimately have "\<exists>cs1 ent1. execute_payload sha3 ctx1 [rx1] atoms = Inr (cs1, ent1)
      \<and> lookup_atom cs1 (ctx_state ctx1) = (get_atom (ctx_state ctx1))(public_key (sender rx1) \<mapsto> debit_sender ctx1 rx1 c a1,
           public_key (receiver rx1) \<mapsto> credit_receiver ctx1 amount (receiver_before (get_atom (ctx_state ctx1)) rx1))"
    using assms(2,4,5) t(1,6) c(2) by (intro transfer_executes) (simp_all add: same ctx1)
  moreover have "validate_structure sha3 rx1 = validate_structure sha3 rx"
    by (simp add: validate_structure_def compute_reaction_hash_def signing_digest_def same Let_def)
  moreover have "receiver_before look rx1 = receiver_before look rx" for look by (simp add: receiver_before_def same cong: option.case_cong)
  ultimately show ?thesis unfolding c(1) by (simp add: same ctx1)
qed

theorem replay_with_next_nonce_witness:
  "\<exists>cs ent cs1 ent1. execute_payload id demo_ctx [demo_transfer] [] = Inr (cs, ent)
     \<and> execute_payload id (demo_ctx\<lparr>ctx_state := (ctx_state demo_ctx)\<lparr>get_atom := lookup_atom cs (ctx_state demo_ctx)\<rparr>\<rparr>)
         [demo_transfer\<lparr>sender := (sender demo_transfer)\<lparr>nonce := saturating_add (nonce (sender demo_transfer)) 1\<rparr>\<rparr>] [] = Inr (cs1, ent1)"
proof -
  have "(case execute_payload id demo_ctx [demo_transfer] [] of
      Inl _ \<Rightarrow> False
    | Inr (cs, ent) \<Rightarrow>
        (case lookup_atom cs (ctx_state demo_ctx) [1] of
           None \<Rightarrow> False
         | Some a1 \<Rightarrow> unat (7 :: u64) + unat (float_to_u64 (energy demo_transfer)) \<le> unat (mass a1)))"
    by code_simp
  then obtain cs ent a1 where x: "execute_payload id demo_ctx [demo_transfer] [] = Inr (cs, ent)"
      and a1: "lookup_atom cs (ctx_state demo_ctx) [1] = Some a1"
      and m: "unat (7 :: u64) + unat (float_to_u64 (energy demo_transfer)) \<le> unat (mass a1)"
    by (auto split: sum.splits option.splits)
  have d: "payload demo_transfer = Transfer 7" "public_key (receiver demo_transfer) = [2]" "public_key (sender demo_transfer) = [1]"
    by (simp_all add: demo_transfer_def demo_holder_def new_receiver_def new_materialized_def)
  have ne: "[2] \<noteq> [1 :: u8]" by simp
  from replay_with_next_nonce [OF x d(1) demo_keyed, unfolded d(2,3), OF ne a1 m refl refl] x show ?thesis by blast
qed

section \<open>Generic reactions\<close>

text \<open>A generic reaction to an address that is not on the chain adopts the receiver snapshot of
  the reaction with its claimed mass, whereas a transfer starts a new receiver at zero: the sender
  pays the fee and the tax, and the total mass grows by whatever the snapshot claims.\<close>

theorem generic_mints_claimed_mass:
  "\<exists>cs ent. execute_payload id demo_ctx
       [demo_transfer\<lparr>payload := Generic, receiver := (new_receiver [2])\<lparr>mass := 999999\<rparr>,
          signature := 7 # signing_input (demo_transfer\<lparr>payload := Generic\<rparr>)\<rparr>] [] = Inr (cs, ent)
     \<and> map_option mass (lookup_atom cs (ctx_state demo_ctx) [2]) = Some (999999 + 10)
     \<and> map_option mass (lookup_atom cs (ctx_state demo_ctx) [1]) = Some (500 - 110)
     \<and> map_option mass (lookup_atom cs (ctx_state demo_ctx) [9]) = Some (1000 + 100)"
proof -
  have "(case execute_payload id demo_ctx
       [demo_transfer\<lparr>payload := Generic, receiver := (new_receiver [2])\<lparr>mass := 999999\<rparr>,
          signature := 7 # signing_input (demo_transfer\<lparr>payload := Generic\<rparr>)\<rparr>] [] of
       Inl _ \<Rightarrow> False
     | Inr (cs, ent) \<Rightarrow> map_option mass (lookup_atom cs (ctx_state demo_ctx) [2]) = Some (999999 + 10)
         \<and> map_option mass (lookup_atom cs (ctx_state demo_ctx) [1]) = Some (500 - 110)
         \<and> map_option mass (lookup_atom cs (ctx_state demo_ctx) [9]) = Some (1000 + 100))"
    by code_simp
  then show ?thesis by (auto split: sum.splits)
qed

end
