(* ===== verification/Primus_Wasm.thy ===== *)
theory Primus_Wasm
  imports Primus_Pvm
begin

text \<open>
  The WASM side of \<open>primus-vm\<close>: gas metering (\<open>wasm/gas.rs\<close>), host state and resource limits
  (\<open>wasm/host.rs\<close>, \<open>wasm/limits.rs\<close>), the host functions a contract can call and the
  runtime around them (\<open>wasm/wasmtime_backend.rs\<close>), and the dispatcher of payloads
  (\<open>dispatch.rs\<close>). The wasmtime engine and the module cache of the \<open>lru\<close> crate are third-party
  code: they are the functions of the record \<open>wasmtime\<close>. A contract is untrusted; what it can
  do to its host is the step relation \<open>guest_step\<close>: write its own memory and call host functions
  with any arguments.
\<close>

section \<open>Gas\<close>

definition GET_ATOM_MASS :: u64 where "GET_ATOM_MASS = 100"
definition GET_ATOM_NONCE :: u64 where "GET_ATOM_NONCE = 100"
definition GET_CRYSTAL_INDEX :: u64 where "GET_CRYSTAL_INDEX = 10"
definition GET_CALLER_PK :: u64 where "GET_CALLER_PK = 50"
definition TRANSFER_MASS :: u64 where "TRANSFER_MASS = 500"
definition EMIT_EVENT :: u64 where "EMIT_EVENT = 200"
definition VERIFY_SIGNATURE :: u64 where "VERIFY_SIGNATURE = 5000"

definition BASE_CONTRACT_GAS :: u64 where "BASE_CONTRACT_GAS = 10000"
definition GAS_PER_ENERGY :: u64 where "GAS_PER_ENERGY = 100"
definition MAX_GAS_PER_REACTION :: u64 where "MAX_GAS_PER_REACTION = 1000000"

record GasMeter =
  limit :: u64
  consumed :: u64

definition from_energy :: "f32 \<Rightarrow> GasMeter" where
  "from_energy en =
     \<lparr>limit = max (min (saturating_mul (float_to_u64 en) GAS_PER_ENERGY) MAX_GAS_PER_REACTION)
                 BASE_CONTRACT_GAS,
      consumed = 0\<rparr>"

definition gas_charge :: "u64 \<Rightarrow> GasMeter \<Rightarrow> (PvmError + unit) \<times> GasMeter" where
  "gas_charge amount g =
     (case checked_add (consumed g) amount of
        None \<Rightarrow> (Inl GasOverflow, g)
      | Some c \<Rightarrow> ((if limit g < c then Inl (OutOfGas (limit g) c) else Inr ()), g\<lparr>consumed := c\<rparr>))"

definition gas_remaining :: "GasMeter \<Rightarrow> u64" where
  "gas_remaining g = saturating_sub (limit g) (consumed g)"

section \<open>Host state\<close>

record ContractEvent =
  topic :: bytes
  event_data :: bytes

record ContractDelta =
  transfers :: "(bytes \<times> bytes \<times> u64) list"
  events :: "ContractEvent list"

definition empty_delta :: ContractDelta where
  "empty_delta = \<lparr>transfers = [], events = []\<rparr>"

record HostState =
  atoms :: StateView
  caller_pk :: bytes
  host_crystal_index :: u64
  delta :: ContractDelta
  gas :: GasMeter
  host_architect_pk :: bytes
  verify_fn :: "bytes \<Rightarrow> bytes \<Rightarrow> bytes \<Rightarrow> bool"

definition MAX_WASM_MEMORY_PAGES :: u32 where "MAX_WASM_MEMORY_PAGES = 256"
definition MAX_CONTRACT_EVENTS :: nat where "MAX_CONTRACT_EVENTS = 64"
definition MAX_EVENT_SIZE_BYTES :: nat where "MAX_EVENT_SIZE_BYTES = 1024"
definition GAS_HEAT_DIVISOR :: f32 where "GAS_HEAT_DIVISOR = f32_lit 1000 1"

definition memory_growing :: "nat \<Rightarrow> bool" where
  "memory_growing desired = (\<not> unat MAX_WASM_MEMORY_PAGES * 65536 < desired)"

definition table_growing :: "u32 \<Rightarrow> bool" where
  "table_growing desired = (\<not> 1024 < desired)"

definition charge_gas :: "u64 \<Rightarrow> HostState \<Rightarrow> (PvmError + unit) \<times> HostState" where
  "charge_gas amount h = (case gas_charge amount (gas h) of (r, g) \<Rightarrow> (r, h\<lparr>gas := g\<rparr>))"

section \<open>Linear memory\<close>

text \<open>
  The exported memory of a module is a byte list, or absent. The pointers are \<open>i32\<close> values; the
  casts to \<open>usize\<close> happen after the sign checks.
\<close>

type_synonym i32 = "32 word"
type_synonym i64 = "64 word"

definition read_wasm_bytes :: "bytes \<Rightarrow> i32 \<Rightarrow> i32 \<Rightarrow> bytes option" where
  "read_wasm_bytes mem ptr len =
     (if sint ptr < 0 \<or> sint len < 0 then None
      else let start = nat (sint ptr); stop = start + nat (sint len)
           in if stop \<le> length mem then Some (take (stop - start) (drop start mem)) else None)"

definition write_wasm_bytes :: "bytes \<Rightarrow> i32 \<Rightarrow> bytes \<Rightarrow> bytes option" where
  "write_wasm_bytes mem ptr bs =
     (if sint ptr < 0 then None
      else let start = nat (sint ptr); stop = start + length bs
           in if stop \<le> length mem then Some (take start mem @ bs @ drop stop mem) else None)"

section \<open>Host functions\<close>

text \<open>
  Each host function charges its gas first. The result is the value returned to the contract, the
  memory and the host state. A failed charge is reported to the contract as an error code.
\<close>

type_synonym guest = "bytes option \<times> HostState"

definition read_mem :: "bytes option \<Rightarrow> i32 \<Rightarrow> i32 \<Rightarrow> bytes option" where
  "read_mem mem ptr len = Option.bind mem (\<lambda>m. read_wasm_bytes m ptr len)"

definition get_atom_mass :: "i32 \<Rightarrow> i32 \<Rightarrow> guest \<Rightarrow> i64 \<times> guest" where
  "get_atom_mass pk_ptr pk_len = (\<lambda>(mem, h).
     case charge_gas GET_ATOM_MASS h of
       (Inl _, h1) \<Rightarrow> (- 1, mem, h1)
     | (Inr _, h1) \<Rightarrow>
         (case read_mem mem pk_ptr pk_len of
            None \<Rightarrow> (- 1, mem, h1)
          | Some pk \<Rightarrow> ((case get_atom (atoms h1) pk of Some a \<Rightarrow> mass a | None \<Rightarrow> - 1), mem, h1)))"

definition get_atom_nonce :: "i32 \<Rightarrow> i32 \<Rightarrow> guest \<Rightarrow> i64 \<times> guest" where
  "get_atom_nonce pk_ptr pk_len = (\<lambda>(mem, h).
     case charge_gas GET_ATOM_NONCE h of
       (Inl _, h1) \<Rightarrow> (- 1, mem, h1)
     | (Inr _, h1) \<Rightarrow>
         (case read_mem mem pk_ptr pk_len of
            None \<Rightarrow> (- 1, mem, h1)
          | Some pk \<Rightarrow> ((case get_atom (atoms h1) pk of Some a \<Rightarrow> nonce a | None \<Rightarrow> - 1), mem, h1)))"

definition get_crystal_index :: "guest \<Rightarrow> i64 \<times> guest" where
  "get_crystal_index = (\<lambda>(mem, h).
     case charge_gas GET_CRYSTAL_INDEX h of
       (Inl _, h1) \<Rightarrow> (- 1, mem, h1)
     | (Inr _, h1) \<Rightarrow> (host_crystal_index h1, mem, h1))"

definition get_caller_pk :: "i32 \<Rightarrow> guest \<Rightarrow> i32 \<times> guest" where
  "get_caller_pk out_ptr = (\<lambda>(mem, h).
     case charge_gas GET_CALLER_PK h of
       (Inl _, h1) \<Rightarrow> (- 1, mem, h1)
     | (Inr _, h1) \<Rightarrow>
         (case mem of
            None \<Rightarrow> (- 1, mem, h1)
          | Some m \<Rightarrow>
              (case write_wasm_bytes m out_ptr (caller_pk h1) of
                 Some m' \<Rightarrow> (of_nat (length (caller_pk h1)), Some m', h1)
               | None \<Rightarrow> (- 1, mem, h1))))"

fun pending_from :: "bytes \<Rightarrow> (bytes \<times> bytes \<times> u64) list \<Rightarrow> u64 \<Rightarrow> u64" where
  "pending_from pk [] acc = acc"
| "pending_from pk ((f, t, amt) # ts) acc =
     pending_from pk ts (if f = pk then saturating_add acc amt else acc)"

definition transfer_mass :: "i32 \<Rightarrow> i32 \<Rightarrow> i32 \<Rightarrow> i32 \<Rightarrow> i64 \<Rightarrow> guest \<Rightarrow> i32 \<times> guest" where
  "transfer_mass from_ptr from_len to_ptr to_len amount = (\<lambda>(mem, h).
     case charge_gas TRANSFER_MASS h of
       (Inl _, h1) \<Rightarrow> (4, mem, h1)
     | (Inr _, h1) \<Rightarrow>
         if sint amount \<le> 0 then (3, mem, h1)
         else (case read_mem mem from_ptr from_len of
             None \<Rightarrow> (3, mem, h1)
           | Some from_pk \<Rightarrow>
               (case read_mem mem to_ptr to_len of
                  None \<Rightarrow> (3, mem, h1)
                | Some to_pk \<Rightarrow>
                    if from_pk \<noteq> caller_pk h1 then (2, mem, h1)
                    else
                      let base = (case get_atom (atoms h1) from_pk of Some a \<Rightarrow> mass a | None \<Rightarrow> 0);
                          pending_out = pending_from from_pk (transfers (delta h1)) 0;
                          current_mass = saturating_sub base pending_out
                      in if current_mass < amount then (1, mem, h1)
                         else (0, mem, h1\<lparr>delta := (delta h1)\<lparr>transfers :=
                                 transfers (delta h1) @ [(from_pk, to_pk, amount)]\<rparr>\<rparr>))))"

definition emit_event :: "i32 \<Rightarrow> i32 \<Rightarrow> i32 \<Rightarrow> i32 \<Rightarrow> guest \<Rightarrow> i32 \<times> guest" where
  "emit_event topic_ptr topic_len data_ptr data_len = (\<lambda>(mem, h).
     case charge_gas EMIT_EVENT h of
       (Inl _, h1) \<Rightarrow> (1, mem, h1)
     | (Inr _, h1) \<Rightarrow>
         if MAX_CONTRACT_EVENTS \<le> length (events (delta h1)) then (2, mem, h1)
         else (case read_mem mem topic_ptr topic_len of
             None \<Rightarrow> (3, mem, h1)
           | Some tp \<Rightarrow>
               (case read_mem mem data_ptr data_len of
                  None \<Rightarrow> (3, mem, h1)
                | Some dt \<Rightarrow>
                    if MAX_EVENT_SIZE_BYTES < length tp + length dt then (2, mem, h1)
                    else (0, mem, h1\<lparr>delta := (delta h1)\<lparr>events :=
                            events (delta h1) @ [\<lparr>topic = tp, event_data = dt\<rparr>]\<rparr>\<rparr>))))"

definition verify_signature ::
  "i32 \<Rightarrow> i32 \<Rightarrow> i32 \<Rightarrow> i32 \<Rightarrow> i32 \<Rightarrow> i32 \<Rightarrow> guest \<Rightarrow> i32 \<times> guest" where
  "verify_signature pk_ptr pk_len msg_ptr msg_len sig_ptr sig_len = (\<lambda>(mem, h).
     case charge_gas VERIFY_SIGNATURE h of
       (Inl _, h1) \<Rightarrow> (- 1, mem, h1)
     | (Inr _, h1) \<Rightarrow>
         (case (read_mem mem pk_ptr pk_len, read_mem mem msg_ptr msg_len, read_mem mem sig_ptr sig_len) of
            (Some pk, Some msg, Some sig) \<Rightarrow> ((if verify_fn h1 pk msg sig then 1 else 0), mem, h1)
          | _ \<Rightarrow> (- 1, mem, h1)))"

definition remaining_gas :: "guest \<Rightarrow> i64 \<times> guest" where
  "remaining_gas = (\<lambda>(mem, h). (gas_remaining (gas h), mem, h))"

datatype HostCall =
    GetAtomMass i32 i32
  | GetAtomNonce i32 i32
  | GetCrystalIndex
  | GetCallerPk i32
  | TransferMass i32 i32 i32 i32 i64
  | EmitEvent i32 i32 i32 i32
  | VerifySignature i32 i32 i32 i32 i32 i32
  | RemainingGas

text \<open>The import table \<open>primus_v1\<close> of the linker; results are shown at 64 bits.\<close>

definition host_call :: "HostCall \<Rightarrow> guest \<Rightarrow> i64 \<times> guest" where
  "host_call c g =
     (case c of
        GetAtomMass p l \<Rightarrow> get_atom_mass p l g
      | GetAtomNonce p l \<Rightarrow> get_atom_nonce p l g
      | GetCrystalIndex \<Rightarrow> get_crystal_index g
      | GetCallerPk p \<Rightarrow> (case get_caller_pk p g of (r, g') \<Rightarrow> (scast r, g'))
      | TransferMass p l q k a \<Rightarrow> (case transfer_mass p l q k a g of (r, g') \<Rightarrow> (scast r, g'))
      | EmitEvent p l q k \<Rightarrow> (case emit_event p l q k g of (r, g') \<Rightarrow> (scast r, g'))
      | VerifySignature p l q k s n \<Rightarrow> (case verify_signature p l q k s n g of (r, g') \<Rightarrow> (scast r, g'))
      | RemainingGas \<Rightarrow> remaining_gas g)"

text \<open>What a contract does: change its memory within the limiter's bound, or call the host.\<close>

inductive guest_step :: "guest \<Rightarrow> guest \<Rightarrow> bool" where
  compute: "memory_growing (length m') \<Longrightarrow> guest_step (Some m, h) (Some m', h)"
| call: "host_call c g = (r, g') \<Longrightarrow> guest_step g g'"

inductive_cases guest_stepE: "guest_step g g'"

abbreviation guest_run :: "guest \<Rightarrow> guest \<Rightarrow> bool" where
  "guest_run \<equiv> guest_step\<^sup>*\<^sup>*"

section \<open>The runtime\<close>

record ContractOutput =
  return_data :: bytes
  gas_used :: u64
  state_delta :: ContractDelta

record 'r WasmRuntime =
  load_module :: "hash32 \<Rightarrow> bytes \<Rightarrow> 'r \<Rightarrow> (PvmError + unit) \<times> 'r"
  execute_module :: "hash32 \<Rightarrow> bytes \<Rightarrow> HostState \<Rightarrow> u64 \<Rightarrow> 'r \<Rightarrow> (PvmError + ContractOutput) \<times> 'r"

text \<open>
  The wasmtime engine and the module cache. \<open>run_export_call\<close> instantiates a module with the host
  functions and calls its export \<open>call\<close> with the given fuel; it gives an error message or the
  fuel left (if it can be read) and the final host state.
\<close>

record ('m, 'c) wasmtime =
  compile_module :: "bytes \<Rightarrow> string + 'm"
  cache_contains :: "hash32 \<Rightarrow> 'c \<Rightarrow> bool"
  cache_put :: "hash32 \<Rightarrow> 'm \<Rightarrow> 'c \<Rightarrow> 'c"
  cache_get :: "hash32 \<Rightarrow> 'c \<Rightarrow> 'm option \<times> 'c"
  run_export_call :: "'m \<Rightarrow> HostState \<Rightarrow> u64 \<Rightarrow> string + u64 option \<times> HostState"

definition wasmtime_load_module ::
  "('m, 'c) wasmtime \<Rightarrow> hash32 \<Rightarrow> bytes \<Rightarrow> 'c \<Rightarrow> (PvmError + unit) \<times> 'c" where
  "wasmtime_load_module W code_hash wasm_bytes cache =
     (if cache_contains W code_hash cache then (Inr (), cache)
      else (case compile_module W wasm_bytes of
              Inl e \<Rightarrow> (Inl (WasmBackendError (''Module compilation failed: '' @ e)), cache)
            | Inr m \<Rightarrow> (Inr (), cache_put W code_hash m cache)))"

definition wasmtime_execute ::
  "('m, 'c) wasmtime \<Rightarrow> hash32 \<Rightarrow> bytes \<Rightarrow> HostState \<Rightarrow> u64 \<Rightarrow> 'c \<Rightarrow> (PvmError + ContractOutput) \<times> 'c" where
  "wasmtime_execute W code_hash calldata h gas_limit cache =
     (case cache_get W code_hash cache of (found, cache') \<Rightarrow>
       ((case found of
           None \<Rightarrow> Inl (WasmBackendError ''Module not found in cache'')
         | Some m \<Rightarrow>
             (case run_export_call W m h gas_limit of
                Inl e \<Rightarrow> Inl (WasmBackendError e)
              | Inr (fuel, h') \<Rightarrow>
                  Inr \<lparr>return_data = [],
                       gas_used = saturating_sub gas_limit (case fuel of None \<Rightarrow> 0 | Some f \<Rightarrow> f),
                       state_delta = delta h'\<rparr>)), cache'))"

definition wasmtime_runtime :: "('m, 'c) wasmtime \<Rightarrow> 'c WasmRuntime" where
  "wasmtime_runtime W = \<lparr>load_module = wasmtime_load_module W, execute_module = wasmtime_execute W\<rparr>"

section \<open>The dispatcher\<close>

definition apply_transfer ::
  "StateView \<Rightarrow> bytes \<times> bytes \<times> u64 \<Rightarrow> Changeset \<Rightarrow> PvmError + Changeset" where
  "apply_transfer sv = (\<lambda>(from_pk, to_pk, amount) cs.
     and_then (ok_or AtomNotFound (lookup_atom cs sv from_pk)) (\<lambda>snd0.
     and_then (ok_or (InsufficientMass (mass snd0) amount) (checked_sub (mass snd0) amount)) (\<lambda>m.
       let cs1 = changeset_insert from_pk (snd0\<lparr>mass := m\<rparr>) cs;
           rcv = (case lookup_atom cs1 sv to_pk of Some a \<Rightarrow> a | None \<Rightarrow> new_receiver to_pk)
       in Inr (changeset_insert to_pk (rcv\<lparr>mass := saturating_add (mass rcv) amount\<rparr>) cs1))))"

fun apply_transfers ::
  "StateView \<Rightarrow> (bytes \<times> bytes \<times> u64) list \<Rightarrow> Changeset \<Rightarrow> PvmError + Changeset" where
  "apply_transfers sv [] cs = Inr cs"
| "apply_transfers sv (t # ts) cs = and_then (apply_transfer sv t cs) (apply_transfers sv ts)"

definition host_state_for :: "ExecutionContext \<Rightarrow> SignedReaction \<Rightarrow> HostState" where
  "host_state_for ctx rx =
     \<lparr>atoms = ctx_state ctx, caller_pk = public_key (sender rx),
      host_crystal_index = ctx_crystal_index ctx, delta = empty_delta,
      gas = from_energy (energy rx), host_architect_pk = architect_pk ctx,
      verify_fn = ctx_verify ctx\<rparr>"

definition dispatch_contract ::
  "'r WasmRuntime option \<Rightarrow> ExecutionContext \<Rightarrow> SignedReaction \<Rightarrow> hash32 \<Rightarrow> bytes \<Rightarrow> Changeset \<Rightarrow> 'r
     \<Rightarrow> (PvmError + f32 \<times> Changeset) \<times> 'r" where
  "dispatch_contract runtime ctx rx code_hash calldata cs rt =
     (case load_contract (ctx_state ctx) code_hash of
        None \<Rightarrow> (Inl (ContractNotFound code_hash), rt)
      | Some wasm_bytes \<Rightarrow>
          (case runtime of
             None \<Rightarrow> (Inl (WasmTrap ''No WASM runtime configured''), rt)
           | Some R \<Rightarrow>
               (case load_module R code_hash wasm_bytes rt of
                  (Inl e, rt1) \<Rightarrow> (Inl e, rt1)
                | (Inr _, rt1) \<Rightarrow>
                    (case execute_module R code_hash calldata (host_state_for ctx rx)
                            (limit (from_energy (energy rx))) rt1 of
                       (Inl e, rt2) \<Rightarrow> (Inl e, rt2)
                     | (Inr out, rt2) \<Rightarrow>
                         (and_then (apply_transfers (ctx_state ctx) (transfers (state_delta out)) cs) (\<lambda>cs1.
                          and_then (ok_or AtomNotFound
                                      (lookup_atom cs1 (ctx_state ctx) (public_key (sender rx)))) (\<lambda>snd0.
                            Inr (fdiv binary32 (float_of_word binary32 (gas_used out)) GAS_HEAT_DIVISOR,
                                 changeset_insert (public_key (sender rx))
                                   (snd0\<lparr>nonce := saturating_add (nonce snd0) 1,
                                         last_reaction_hash := reaction_hash rx\<rparr>) cs1))), rt2)))))"

fun dispatch_all ::
  "(bytes \<Rightarrow> bytes) \<Rightarrow> 'r WasmRuntime option \<Rightarrow> ExecutionContext \<Rightarrow> (bytes \<times> Atom) list \<Rightarrow> u8
     \<Rightarrow> SignedReaction list \<Rightarrow> SignedReaction list \<Rightarrow> ExecState \<Rightarrow> 'r \<Rightarrow> PvmError + ExecState" where
  "dispatch_all sha3 runtime ctx atoms_iter drift rxs [] st rt = Inr st"
| "dispatch_all sha3 runtime ctx atoms_iter drift rxs (rx # rest) st rt =
     (case payload rx of
        ContractCall address data \<Rightarrow>
          if length address \<noteq> 32 then Inl (WasmBackendError ''Invalid contract address'')
          else (case dispatch_contract runtime ctx rx address data (changeset st) rt of
                  (Inl e, rt') \<Rightarrow> Inl e
                | (Inr (contract_heat, cs), rt') \<Rightarrow>
                    let heat = fadd binary32 (total_crystal_heat st) contract_heat
                    in if flt THERMAL_CAPACITY heat then Inl ThermalLimitExceeded
                       else dispatch_all sha3 runtime ctx atoms_iter drift rxs rest
                              (st\<lparr>changeset := cs, total_crystal_heat := heat\<rparr>) rt')
      | _ \<Rightarrow> and_then (execute_single sha3 ctx rx st atoms_iter drift rxs) (\<lambda>st'.
               dispatch_all sha3 runtime ctx atoms_iter drift rxs rest st' rt))"

definition dispatcher_execute ::
  "(bytes \<Rightarrow> bytes) \<Rightarrow> 'r WasmRuntime option \<Rightarrow> ExecutionContext \<Rightarrow> SignedReaction list
     \<Rightarrow> (bytes \<times> Atom) list \<Rightarrow> 'r \<Rightarrow> PvmError + Changeset \<times> f32" where
  "dispatcher_execute sha3 runtime ctx rxs atoms_iter rt =
     and_then (dispatch_all sha3 runtime ctx atoms_iter (get_galactic_drift (ctx_crystal_index ctx))
                 rxs rxs exec_start rt)
       (\<lambda>st. Inr (changeset st, total_consumed_entropy st))"

section \<open>What a contract can do to its host\<close>

text \<open>The parts of the host state that no host function writes.\<close>

definition same_session :: "HostState \<Rightarrow> HostState \<Rightarrow> bool" where
  "same_session h h' = (atoms h' = atoms h \<and> caller_pk h' = caller_pk h \<and> limit (gas h') = limit (gas h))"

definition chain_mass :: "HostState \<Rightarrow> nat" where
  "chain_mass h = mass_at (get_atom (atoms h)) (caller_pk h)"

definition outgoing :: "(bytes \<times> bytes \<times> u64) list \<Rightarrow> nat" where
  "outgoing ts = sum_list (map (\<lambda>(f, t, a). unat a) ts)"

definition only_gas :: "HostState \<Rightarrow> HostState \<Rightarrow> bool" where
  "only_gas h h' = (same_session h h' \<and> delta h' = delta h
     \<and> unat (consumed (gas h)) \<le> unat (consumed (gas h')))"

definition paid :: "nat \<Rightarrow> HostState \<Rightarrow> HostState \<Rightarrow> bool" where
  "paid n h h' = (same_session h h' \<and> unat (consumed (gas h')) = unat (consumed (gas h)) + n
     \<and> consumed (gas h') \<le> limit (gas h))"

lemma charge_gas_only: "charge_gas n h = (r, h') \<Longrightarrow> only_gas h h'"
  by (auto simp: charge_gas_def gas_charge_def only_gas_def same_session_def dest: checked_add_Some
      split: option.splits prod.splits)

lemma charge_gas_ok: "charge_gas n h = (Inr u, h') \<Longrightarrow> paid (unat n) h h'"
  by (auto simp: charge_gas_def gas_charge_def paid_def same_session_def not_less dest: checked_add_Some
      split: option.splits prod.splits if_splits)

lemma sint_pos_unat: "\<not> sint (a :: i64) \<le> 0 \<Longrightarrow> 0 < unat a"
  by (metis gr0I sint_0 unat_eq_zero order_refl)

text \<open>The three effects a host call can have: gas alone, one transfer, one event.\<close>

definition transfer_effect :: "HostState \<Rightarrow> HostState \<Rightarrow> bool" where
  "transfer_effect h h' = (paid 500 h h' \<and> (\<exists>to_pk amount.
     delta h' = (delta h)\<lparr>transfers := transfers (delta h) @ [(caller_pk h, to_pk, amount)]\<rparr>
     \<and> 0 < unat amount
     \<and> unat amount \<le> chain_mass h - unat (pending_from (caller_pk h) (transfers (delta h)) 0)))"

definition event_effect :: "HostState \<Rightarrow> HostState \<Rightarrow> bool" where
  "event_effect h h' = (paid 200 h h' \<and> (\<exists>ev.
     delta h' = (delta h)\<lparr>events := events (delta h) @ [ev]\<rparr>
     \<and> length (events (delta h)) < MAX_CONTRACT_EVENTS
     \<and> length (topic ev) + length (event_data ev) \<le> MAX_EVENT_SIZE_BYTES))"

lemma transfer_mass_effect:
  assumes "transfer_mass p l q k a (mem, h) = (r, mem', h')"
  shows "only_gas h h' \<or> transfer_effect h h'"
proof (cases "only_gas h h'")
  case False
  obtain rc h1 where c: "charge_gas TRANSFER_MASS h = (rc, h1)" by fastforce
  note only = charge_gas_only [OF c]
  have "h' \<noteq> h1" using False only by auto
  with assms c obtain to_pk u where "rc = Inr u" "\<not> sint a \<le> 0"
    and le: "a \<le> saturating_sub (case get_atom (atoms h1) (caller_pk h1) of Some a \<Rightarrow> mass a | None \<Rightarrow> 0)
              (pending_from (caller_pk h1) (transfers (delta h1)) 0)"
    and h': "h' = h1\<lparr>delta := (delta h1)\<lparr>transfers := transfers (delta h1) @ [(caller_pk h1, to_pk, a)]\<rparr>\<rparr>"
    by (auto simp: transfer_mass_def Let_def not_less split: sum.splits if_splits option.splits)
  then have "paid 500 h h1" using charge_gas_ok [of TRANSFER_MASS h u h1] c
    by (simp add: TRANSFER_MASS_def)
  moreover have "unat a \<le> chain_mass h1 - unat (pending_from (caller_pk h1) (transfers (delta h1)) 0)"
    using le by (auto simp: chain_mass_def mass_at_def word_le_nat_alt sat_simps split: option.splits)
  ultimately show ?thesis
    using only h' sint_pos_unat [OF \<open>\<not> sint a \<le> 0\<close>]
    by (auto simp: transfer_effect_def paid_def only_gas_def same_session_def chain_mass_def)
qed simp

lemma emit_event_effect:
  assumes "emit_event p l q k (mem, h) = (r, mem', h')"
  shows "only_gas h h' \<or> event_effect h h'"
proof (cases "only_gas h h'")
  case False
  obtain rc h1 where c: "charge_gas EMIT_EVENT h = (rc, h1)" by fastforce
  note only = charge_gas_only [OF c]
  have "unat EMIT_EVENT = 200" by (simp add: EMIT_EVENT_def)
  with c only assms False charge_gas_ok [of EMIT_EVENT h _ h1] show ?thesis
    by (auto simp: emit_event_def not_less not_le
        event_effect_def paid_def only_gas_def same_session_def
        split: sum.splits if_splits option.splits)
qed simp

lemma host_call_effect:
  assumes "host_call c (mem, h) = (r, mem', h')"
  shows "only_gas h h' \<or> transfer_effect h h' \<or> event_effect h h'"
proof (cases c)
  case (TransferMass p l q k a)
  then show ?thesis
    using assms transfer_mass_effect [of p l q k a mem h _ mem' h']
    by (auto simp: host_call_def split: prod.splits)
next
  case (EmitEvent p l q k)
  then show ?thesis
    using assms emit_event_effect [of p l q k mem h _ mem' h']
    by (auto simp: host_call_def split: prod.splits)
qed (use assms in \<open>auto simp: host_call_def get_atom_mass_def get_atom_nonce_def get_crystal_index_def
      get_caller_pk_def verify_signature_def remaining_gas_def dest: charge_gas_only
      split: prod.splits sum.splits option.splits\<close>,
    (simp add: only_gas_def same_session_def)?)

definition host_inv :: "HostState \<Rightarrow> bool" where
  "host_inv h =
     ((\<forall>(f, t, a) \<in> set (transfers (delta h)). f = caller_pk h)
    \<and> outgoing (transfers (delta h)) \<le> chain_mass h
    \<and> length (events (delta h)) \<le> MAX_CONTRACT_EVENTS
    \<and> (\<forall>ev \<in> set (events (delta h)). length (topic ev) + length (event_data ev) \<le> MAX_EVENT_SIZE_BYTES)
    \<and> 500 * length (transfers (delta h)) + 200 * length (events (delta h))
        \<le> min (unat (consumed (gas h))) (unat (limit (gas h))))"

lemma outgoing_simps [simp]:
  "outgoing [] = 0" "outgoing (ts @ us) = outgoing ts + outgoing us"
  "outgoing ((f, t, a) # ts) = unat a + outgoing ts"
  by (simp_all add: outgoing_def)

lemma unat_u64_max: "unat (w :: u64) \<le> 18446744073709551615"
  using unsigned_less [of w, where ?'a = nat] by simp

lemma unat_pending_from:
  "\<forall>(f, t, a) \<in> set ts. f = pk \<Longrightarrow>
     unat (pending_from pk ts acc) = min (unat acc + outgoing ts) (2 ^ 64 - 1)"
  by (induction pk ts acc rule: pending_from.induct)
    (auto simp: sat_simps min_absorb1 unat_u64_max)

lemma chain_mass_less: "chain_mass h \<le> 2 ^ 64 - 1"
  using unat_u64_max by (auto simp: chain_mass_def mass_at_def split: option.split)

lemma same_session_chain_mass: "same_session h h' \<Longrightarrow> chain_mass h' = chain_mass h"
  by (simp add: same_session_def chain_mass_def)

lemma host_inv_start: "host_inv (host_state_for ctx rx)"
  by (simp add: host_inv_def host_state_for_def empty_delta_def)

lemma host_inv_call:
  assumes "host_call c (mem, h) = (r, mem', h')" and inv: "host_inv h"
  shows "host_inv h'"
  using host_call_effect [OF assms(1)]
proof (elim disjE)
  assume "only_gas h h'"
  then show ?thesis using inv same_session_chain_mass [of h h']
    by (auto simp: host_inv_def only_gas_def same_session_def)
next
  assume "transfer_effect h h'"
  then obtain to_pk a where p: "paid 500 h h'"
    and d: "delta h' = (delta h)\<lparr>transfers := transfers (delta h) @ [(caller_pk h, to_pk, a)]\<rparr>"
    and pos: "0 < unat a"
    and le: "unat a \<le> chain_mass h - unat (pending_from (caller_pk h) (transfers (delta h)) 0)"
    by (auto simp: transfer_effect_def)
  have "unat (pending_from (caller_pk h) (transfers (delta h)) 0) = outgoing (transfers (delta h))"
    using inv unat_pending_from [of "transfers (delta h)" "caller_pk h" 0] chain_mass_less [of h]
    by (auto simp: host_inv_def)
  with le pos have "outgoing (transfers (delta h')) \<le> chain_mass h'"
    using d p same_session_chain_mass [of h h'] by (auto simp: paid_def)
  then show ?thesis using inv d p
    by (auto simp: host_inv_def paid_def same_session_def word_le_nat_alt)
next
  assume "event_effect h h'"
  then show ?thesis using inv same_session_chain_mass [of h h']
    by (auto simp: event_effect_def host_inv_def paid_def same_session_def word_le_nat_alt)
qed

lemma host_inv_run:
  assumes "guest_run (mem, h) (mem', h')" and "host_inv h"
  shows "host_inv h' \<and> same_session h h'"
  using assms
proof (induction g \<equiv> "(mem', h')" arbitrary: mem' h' rule: rtranclp_induct)
  case base
  then show ?case by (simp add: same_session_def)
next
  case (step g)
  obtain m1 h1 where g: "g = (m1, h1)" by fastforce
  with step have inv: "host_inv h1" "same_session h h1" by auto
  from step(2) g show ?case
  proof (cases rule: guest_step.cases)
    case (call c r)
    then have hc: "host_call c (m1, h1) = (r, mem', h')" using g step by simp
    have "same_session h1 h'"
      using host_call_effect [OF hc] by (auto simp: only_gas_def transfer_effect_def event_effect_def paid_def)
    then show ?thesis using host_inv_call [OF hc inv(1)] inv(2) by (simp add: same_session_def)
  qed (use inv g step in auto)
qed

text \<open>The gas limit of a contract call lies between the base allowance and the protocol cap for
  every energy value, negative, infinite and NaN included.\<close>

theorem gas_limit_bounds:
  "10000 \<le> unat (limit (from_energy en)) \<and> unat (limit (from_energy en)) \<le> 1000000"
  by (simp add: from_energy_def BASE_CONTRACT_GAS_def MAX_GAS_PER_REACTION_def max_def min_def
      word_le_nat_alt)

text \<open>C32. Whatever a contract computes and whichever host functions it calls with whatever
  arguments, the effects it collects stay bounded: every transfer debits the caller, all of them
  together take at most the caller's mass on the chain, there are at most 64 events of at most
  1024 bytes each, and the gas limit pays 500 for every transfer and 200 for every event.\<close>

theorem contract_effects_bounded:
  assumes "guest_run (mem, host_state_for ctx rx) (mem', h)"
  shows "(\<forall>(f, t, a) \<in> set (transfers (delta h)). f = public_key (sender rx))
    \<and> outgoing (transfers (delta h)) \<le> mass_at (get_atom (ctx_state ctx)) (public_key (sender rx))
    \<and> length (events (delta h)) \<le> 64
    \<and> (\<forall>ev \<in> set (events (delta h)). length (topic ev) + length (event_data ev) \<le> 1024)
    \<and> 500 * length (transfers (delta h)) + 200 * length (events (delta h))
        \<le> unat (limit (from_energy (energy rx)))"
proof -
  from assms have "host_inv h" "same_session (host_state_for ctx rx) h"
    using host_inv_start by (auto dest: host_inv_run)
  then show ?thesis
    using same_session_chain_mass [of "host_state_for ctx rx" h]
    by (auto simp: host_inv_def same_session_def chain_mass_def host_state_for_def
        MAX_CONTRACT_EVENTS_def MAX_EVENT_SIZE_BYTES_def)
qed

definition demo_call :: SignedReaction where
  "demo_call = demo_transfer\<lparr>payload := ContractCall (replicate 32 5) [], signature := []\<rparr>"

definition demo_guest :: "i64 \<times> guest" where
  "demo_guest = host_call (TransferMass 0 1 1 1 40) (Some [1, 2], host_state_for demo_ctx demo_call)"

lemma demo_guest_ok:
  "transfers (delta (snd (snd demo_guest))) = [([1], [2], 40)]"
  by code_simp

theorem contract_effects_bounded_witness:
  "transfers (delta (snd (snd demo_guest))) = [([1], [2], 40)]
   \<and> outgoing (transfers (delta (snd (snd demo_guest)))) \<le> mass_at (get_atom (ctx_state demo_ctx)) [1]"
proof -
  have "guest_run (Some [1, 2], host_state_for demo_ctx demo_call) (snd demo_guest)"
    by (rule r_into_rtranclp, rule guest_step.call [of "TransferMass 0 1 1 1 40" _ "fst demo_guest"])
      (simp add: demo_guest_def)
  then have "guest_run (Some [1, 2], host_state_for demo_ctx demo_call) (fst (snd demo_guest), snd (snd demo_guest))"
    by simp
  from contract_effects_bounded [OF this] show ?thesis
    using demo_guest_ok by (simp add: demo_call_def demo_transfer_def demo_holder_def new_receiver_def new_materialized_def)
qed

lemma run_out_of_gas_step:
  assumes "host_call c (mem, h) = (r, mem', h')" and "limit (gas h) < consumed (gas h)"
  shows "delta h' = delta h \<and> limit (gas h') < consumed (gas h')"
  using host_call_effect [OF assms(1)] assms(2)
  by (auto simp: only_gas_def transfer_effect_def event_effect_def paid_def same_session_def
      word_less_nat_alt word_le_nat_alt)

text \<open>Running out of gas is final for effects, but it is not a trap: once the consumed gas
  exceeds the limit no host call adds an effect any more, while the contract goes on running and
  the effects it has collected before are kept.\<close>

theorem out_of_gas_freezes_effects:
  assumes "guest_run (mem, h) (mem', h')" and "limit (gas h) < consumed (gas h)"
  shows "delta h' = delta h \<and> limit (gas h') < consumed (gas h')"
  using assms
proof (induction g \<equiv> "(mem', h')" arbitrary: mem' h' rule: rtranclp_induct)
  case (step g)
  obtain m1 h1 where g: "g = (m1, h1)" by fastforce
  with step have inv: "delta h1 = delta h" "limit (gas h1) < consumed (gas h1)" by auto
  from step(2) g show ?case
  proof (cases rule: guest_step.cases)
    case (call c r)
    then show ?thesis using g step run_out_of_gas_step [of c m1 h1 r mem' h'] inv by simp
  qed (use inv g step in auto)
qed auto

theorem out_of_gas_freezes_effects_witness:
  "delta (snd (snd (host_call (TransferMass 0 1 1 1 40)
     (Some [1, 2], (snd (snd demo_guest))\<lparr>gas := \<lparr>limit = 10, consumed = 11\<rparr>\<rparr>))))
   = delta (snd (snd demo_guest))"
proof -
  let ?g = "(Some [1, 2], (snd (snd demo_guest))\<lparr>gas := \<lparr>limit = 10, consumed = 11\<rparr>\<rparr>)"
  let ?g' = "snd (host_call (TransferMass 0 1 1 1 40) ?g)"
  have "guest_run ?g (fst ?g', snd ?g')"
    by (rule r_into_rtranclp, rule guest_step.call [of "TransferMass 0 1 1 1 40" _ "fst (host_call (TransferMass 0 1 1 1 40) ?g)"])
      simp
  from out_of_gas_freezes_effects [OF this] show ?thesis by simp
qed

section \<open>Contract calls\<close>

text \<open>
  What is assumed of wasmtime: a call returns the host state it was given, as changed by host
  functions that the contract called in some order.
\<close>

definition engine_sound :: "('m, 'c) wasmtime \<Rightarrow> bool" where
  "engine_sound W = (\<forall>m h f fuel h'. run_export_call W m h f = Inr (fuel, h') \<longrightarrow>
     (\<exists>mem mem'. guest_run (mem, h) (mem', h')))"

lemma apply_transfer_cases:
  assumes "apply_transfer sv (pk, t, a) cs = Inr cs'"
  obtains s m cs1 r where "lookup_atom cs sv pk = Some s" "unat (mass s) = unat m + unat a"
    "cs1 = changeset_insert pk (s\<lparr>mass := m\<rparr>) cs"
    "r = (case lookup_atom cs1 sv t of Some b \<Rightarrow> b | None \<Rightarrow> new_receiver t)"
    "cs' = changeset_insert t (r\<lparr>mass := saturating_add (mass r) a\<rparr>) cs1"
  using assms
  by (auto simp: apply_transfer_def result_simps Let_def simp del: lookup_insert dest: checked_sub_Some)

lemma new_receiver_mass [simp]: "mass (new_receiver pk) = 0"
  by (simp add: new_receiver_def new_materialized_def)

text \<open>Mass moves out of \<open>pk\<close> only, at most \<open>n\<close> of it, and the total over any set that contains
  the accounts \<open>D\<close> does not grow.\<close>

definition moves :: "StateView \<Rightarrow> bytes \<Rightarrow> bytes set \<Rightarrow> nat \<Rightarrow> Changeset \<Rightarrow> Changeset \<Rightarrow> bool" where
  "moves sv pk D n cs cs' =
     ((\<forall>K. finite K \<and> D \<subseteq> K \<longrightarrow> total_mass (lookup_atom cs' sv) K \<le> total_mass (lookup_atom cs sv) K)
    \<and> (\<forall>q. q \<noteq> pk \<longrightarrow> mass_at (lookup_atom cs sv) q \<le> mass_at (lookup_atom cs' sv) q)
    \<and> mass_at (lookup_atom cs sv) pk \<le> mass_at (lookup_atom cs' sv) pk + n)"

lemma moves_refl: "moves sv pk D 0 cs cs"
  by (simp add: moves_def)

lemma moves_trans:
  assumes "moves sv pk D n cs cs1" and "moves sv pk E k cs1 cs2"
  shows "moves sv pk (D \<union> E) (n + k) cs cs2"
  using assms unfolding moves_def by (meson Un_subset_iff order.trans add_le_mono1)
    (smt (verit) Un_subset_iff add.commute add.left_commute add_le_cancel_left order.trans)

lemma apply_transfer_moves:
  assumes "apply_transfer sv (pk, t, a) cs = Inr cs'"
  shows "moves sv pk {pk, t} (unat a) cs cs'"
  using assms
proof (cases rule: apply_transfer_cases)
  case (1 s m cs1 r)
  have r: "unat (mass r) = mass_at (lookup_atom cs1 sv) t"
    by (simp add: 1(4) mass_at_def split: option.split)
  have cr: "unat (mass r) \<le> unat (saturating_add (mass r) a)"
    using unat_u64_max [of "mass r"] by (simp add: sat_simps)
  have "total_mass (lookup_atom cs' sv) K \<le> total_mass (lookup_atom cs sv) K"
    if "finite K" "{pk, t} \<subseteq> K" for K
  proof -
    have "total_mass (lookup_atom cs1 sv) K + unat a \<le> total_mass (lookup_atom cs sv) K"
      unfolding 1(3) using that 1(1,2) by (intro overlay.total_mass_debit) (auto simp: mass_at_def)
    moreover have "total_mass (lookup_atom cs' sv) K \<le> total_mass (lookup_atom cs1 sv) K + unat a"
      unfolding 1(5) using that r saturating_add_le [of "mass r" a]
      by (intro overlay.total_mass_credit) auto
    ultimately show ?thesis by linarith
  qed
  moreover have up: "mass_at (lookup_atom cs1 sv) q \<le> mass_at (lookup_atom cs' sv) q" for q
    unfolding 1(5) overlay.mass_at_upd using r cr by auto
  moreover have "mass_at (lookup_atom cs1 sv) q = (if q = pk then unat m else mass_at (lookup_atom cs sv) q)" for q
    unfolding 1(3) overlay.mass_at_upd by simp
  moreover have "mass_at (lookup_atom cs sv) pk = unat m + unat a" using 1(1,2) by (simp add: mass_at_def)
  ultimately show ?thesis unfolding moves_def by (metis add_right_mono)
qed

lemma apply_transfers_moves:
  assumes "apply_transfers sv ts cs = Inr cs'" and "\<forall>(f, t, a) \<in> set ts. f = pk"
  shows "moves sv pk (insert pk ((fst \<circ> snd) ` set ts)) (outgoing ts) cs cs'"
  using assms
proof (induction ts arbitrary: cs)
  case (Cons x ts)
  then obtain t a where x: "x = (pk, t, a)" by (cases x) auto
  with Cons.prems obtain cs1 where 1: "apply_transfer sv (pk, t, a) cs = Inr cs1"
    and 2: "apply_transfers sv ts cs1 = Inr cs'" by (auto simp: result_simps)
  have "moves sv pk ({pk, t} \<union> insert pk ((fst \<circ> snd) ` set ts)) (unat a + outgoing ts) cs cs'"
    using apply_transfer_moves [OF 1] Cons.IH [OF 2] Cons.prems(2) by (intro moves_trans) auto
  then show ?case by (simp add: x insert_commute)
qed (simp add: moves_def)

text \<open>C33. A contract call moves mass but does not create any: with an engine that respects its
  interface, the total mass over the accounts involved does not grow, no account but the caller's
  loses mass, and the caller loses at most the mass it has on the chain.\<close>

theorem contract_call_conserves_mass:
  assumes "engine_sound W"
    and "dispatch_contract (Some (wasmtime_runtime W)) ctx rx code_hash calldata cs c = (Inr (heat, cs'), c')"
  shows "\<exists>D. finite D \<and> moves (ctx_state ctx) (public_key (sender rx)) D
           (mass_at (get_atom (ctx_state ctx)) (public_key (sender rx))) cs cs'"
proof -
  let ?sv = "ctx_state ctx" and ?pk = "public_key (sender rx)"
  from assms(2) obtain m fuel h out cs1 a where
      run: "run_export_call W m (host_state_for ctx rx) (limit (from_energy (energy rx))) = Inr (fuel, h)"
    and ts: "apply_transfers ?sv (transfers (delta h)) cs = Inr cs1"
    and a: "lookup_atom cs1 ?sv ?pk = Some a"
    and cs': "cs' = changeset_insert ?pk (a\<lparr>nonce := saturating_add (nonce a) 1,
                last_reaction_hash := reaction_hash rx\<rparr>) cs1"
    by (auto simp: dispatch_contract_def wasmtime_runtime_def wasmtime_execute_def result_simps
        split: option.splits sum.splits prod.splits)
  obtain mem mem' where "guest_run (mem, host_state_for ctx rx) (mem', h)"
    using assms(1) run unfolding engine_sound_def by blast
  then have "host_inv h" "same_session (host_state_for ctx rx) h"
    using host_inv_start by (auto dest: host_inv_run)
  then have b: "\<forall>(f, t, a) \<in> set (transfers (delta h)). f = ?pk"
      "outgoing (transfers (delta h)) \<le> mass_at (get_atom ?sv) ?pk"
    by (auto simp: host_inv_def same_session_def chain_mass_def host_state_for_def)
  have same: "mass_at (lookup_atom cs' ?sv) q = mass_at (lookup_atom cs1 ?sv) q" for q
    using a unfolding cs' overlay.mass_at_upd by (simp add: mass_at_def)
  then have "total_mass (lookup_atom cs' ?sv) K = total_mass (lookup_atom cs1 ?sv) K" for K
    by (simp add: total_mass_def)
  with same b(2) have "moves ?sv ?pk (insert ?pk ((fst \<circ> snd) ` set (transfers (delta h))))
      (mass_at (get_atom ?sv) ?pk) cs cs'"
    using apply_transfers_moves [OF ts b(1)] unfolding moves_def by fastforce
  then show ?thesis by (intro exI conjI) auto
qed

text \<open>An engine for the witnesses: the module bytes are its memory, and it makes one host call.\<close>

definition script_engine :: "(bytes, bytes option) wasmtime" where
  "script_engine =
     \<lparr>compile_module = Inr, cache_contains = (\<lambda>k c. c \<noteq> None), cache_put = (\<lambda>k m c. Some m),
      cache_get = (\<lambda>k c. (c, c)),
      run_export_call = (\<lambda>m h f. Inr (Some 9000, snd (snd (host_call (TransferMass 0 1 1 1 40) (Some m, h)))))\<rparr>"

lemma script_engine_sound: "engine_sound script_engine"
proof -
  have "\<exists>mem mem'. guest_run (mem, h) (mem', snd (snd (host_call (TransferMass 0 1 1 1 40) (Some m, h))))"
    for m h
    by (intro exI [of _ "Some m"] exI [of _ "fst (snd (host_call (TransferMass 0 1 1 1 40) (Some m, h)))"]
        r_into_rtranclp guest_step.call [of "TransferMass 0 1 1 1 40"]) (simp add: prod_eq_iff)
  then show ?thesis by (auto simp: engine_sound_def script_engine_def)
qed

definition contract_ctx :: ExecutionContext where
  "contract_ctx = demo_ctx\<lparr>ctx_state := (ctx_state demo_ctx)\<lparr>load_contract := (\<lambda>_. Some [1, 2])\<rparr>\<rparr>"

lemma contract_demo:
  "map_sum id (map_option mass \<circ> (\<lambda>(heat, cs). lookup_atom cs (ctx_state contract_ctx) [2]))
     (fst (dispatch_contract (Some (wasmtime_runtime script_engine)) contract_ctx demo_call
        (replicate 32 5) [] changeset_new None))
   = Inr (Some 40)"
  by code_simp

theorem contract_call_conserves_mass_witness:
  "\<exists>heat cs c. dispatch_contract (Some (wasmtime_runtime script_engine)) contract_ctx demo_call
        (replicate 32 5) [] changeset_new None = (Inr (heat, cs), c)
     \<and> (\<exists>D. finite D \<and> moves (ctx_state contract_ctx) [1] D
           (mass_at (get_atom (ctx_state contract_ctx)) [1]) changeset_new cs)"
proof -
  obtain heat cs c where d: "dispatch_contract (Some (wasmtime_runtime script_engine)) contract_ctx demo_call
        (replicate 32 5) [] changeset_new None = (Inr (heat, cs), c)"
    using contract_demo by (cases "dispatch_contract (Some (wasmtime_runtime script_engine)) contract_ctx
        demo_call (replicate 32 5) [] changeset_new None") (auto simp: map_sum_def split: sum.splits)
  from contract_call_conserves_mass [OF script_engine_sound this] show ?thesis
    using d by (simp add: demo_call_def demo_transfer_def demo_holder_def new_receiver_def new_materialized_def)
qed

text \<open>A contract call is dispatched without any look at its signature or its nonce: replacing
  either leaves the outcome, debits of the named sender included, as it is.\<close>

theorem contract_call_ignores_signature:
  "dispatch_contract runtime ctx (rx\<lparr>signature := s, sender := (sender rx)\<lparr>nonce := n\<rparr>\<rparr>) code_hash calldata cs c
   = dispatch_contract runtime ctx rx code_hash calldata cs c"
  unfolding dispatch_contract_def host_state_for_def
  by (simp cong: option.case_cong sum.case_cong prod.case_cong)

text \<open>C34. Batches without contract calls are executed by the dispatcher exactly as by
  \<open>PVM::execute_payload\<close>, whatever runtime is configured.\<close>

theorem dispatcher_refines_pvm:
  assumes "\<forall>rx \<in> set rxs. \<not> is_ContractCall (payload rx)"
  shows "dispatcher_execute sha3 runtime ctx rxs atoms_iter rt = execute_payload sha3 ctx rxs atoms_iter"
proof -
  have "dispatch_all sha3 runtime ctx atoms_iter d rxs' todo st rt
      = execute_all sha3 ctx atoms_iter d rxs' todo st"
    if "\<forall>rx \<in> set todo. \<not> is_ContractCall (payload rx)" for d rxs' todo st
    using that
  proof (induction todo arbitrary: st)
    case (Cons r todo)
    then have "payload r \<noteq> ContractCall a b" for a b by auto
    with Cons show ?case by (auto split: Payload.split sum.split)
  qed simp
  with assms show ?thesis by (simp add: dispatcher_execute_def execute_payload_def)
qed

theorem dispatcher_refines_pvm_witness:
  "dispatcher_execute id (None :: unit WasmRuntime option) demo_ctx [demo_transfer, demo_reward] [] ()
   = execute_payload id demo_ctx [demo_transfer, demo_reward] []"
  by (rule dispatcher_refines_pvm) (simp add: demo_transfer_def demo_reward_def)

end
