(* ===== verification/Primus_Mpt.thy ===== *)
theory Primus_Mpt
  imports Primus_Types
begin

text \<open>
  The Merkle-Patricia trie of \<open>primus-storage\<close> (\<open>mpt.rs\<close>), its sled-backed node store
  (\<open>mpt_store.rs\<close>) and the verifier of proofs. Nodes live in a store under their hash; the trie
  operations follow hashes through the store. BLAKE3, the bincode codec of nodes and the sled tree
  are third-party code: the record \<open>node_codec\<close> holds the first two, the record \<open>sled\<close> the third.
  The trait \<open>MptStore\<close> is the record of that name. A store operation may fail; its result is an
  error message or a value, together with the store. Recursion over the store is bounded by
  \<open>MPT_FUEL\<close> calls, which \<open>Mpt_Correct\<close> shows to be enough for keys of 32 bytes.
\<close>

section \<open>Nodes and their hashes\<close>

type_synonym nibbles = bytes

datatype MptNode =
    Leaf (key_suffix: nibbles) (leaf_value: bytes)
  | Extension (ext_prefix: nibbles) (ext_child: hash32)
  | Branch (children: "hash32 option list") (branch_value: "bytes option")

record node_codec =
  blake3 :: "bytes \<Rightarrow> hash32"
  ser_node :: "MptNode \<Rightarrow> bytes"
  de_node :: "bytes \<Rightarrow> MptNode option"

fun xor_all :: "hash32 option list \<Rightarrow> hash32 \<Rightarrow> hash32" where
  "xor_all [] acc = acc"
| "xor_all (None # hs) acc = xor_all hs acc"
| "xor_all (Some h # hs) acc = xor_all hs (xor_bytes acc h)"

definition xor_value :: "node_codec \<Rightarrow> bytes option \<Rightarrow> hash32 \<Rightarrow> hash32" where
  "xor_value C v acc = (case v of None \<Rightarrow> acc | Some b \<Rightarrow> xor_bytes acc (blake3 C b))"

definition branch_digest :: "node_codec \<Rightarrow> hash32 \<Rightarrow> hash32" where
  "branch_digest C combined_xor = blake3 C (ascii ''BRANCH'' @ combined_xor)"

definition node_hash :: "node_codec \<Rightarrow> MptNode \<Rightarrow> hash32" where
  "node_hash C n =
     (case n of
        Leaf _ _ \<Rightarrow> blake3 C (ser_node C n)
      | Extension _ _ \<Rightarrow> blake3 C (ser_node C n)
      | Branch cs v \<Rightarrow> branch_digest C (xor_value C v (xor_all cs zero_hash)))"

fun key_to_nibbles :: "bytes \<Rightarrow> nibbles" where
  "key_to_nibbles [] = []"
| "key_to_nibbles (b # key) = drop_bit 4 b # (b AND 0x0F) # key_to_nibbles key"

fun common_prefix :: "bytes \<Rightarrow> bytes \<Rightarrow> nat" where
  "common_prefix (a # as) (b # bs) = (if a = b then Suc (common_prefix as bs) else 0)"
| "common_prefix _ _ = 0"

definition starts_with :: "bytes \<Rightarrow> bytes \<Rightarrow> bool" where
  "starts_with xs p = (take (length p) xs = p)"

section \<open>Node stores\<close>

type_synonym ('s, 'a) io = "(string + 'a) \<times> 's"

abbreviation io_then :: "('s, 'a) io \<Rightarrow> ('a \<Rightarrow> 's \<Rightarrow> ('s, 'b) io) \<Rightarrow> ('s, 'b) io" where
  "io_then r f \<equiv> (case r of (x, s) \<Rightarrow> (case x of Inl e \<Rightarrow> (Inl e, s) | Inr y \<Rightarrow> f y s))"

record 's MptStore =
  get_node :: "'s \<Rightarrow> hash32 \<Rightarrow> string + MptNode option"
  put_node :: "MptNode \<Rightarrow> 's \<Rightarrow> ('s, hash32) io"
  delete_node :: "hash32 \<Rightarrow> 's \<Rightarrow> ('s, unit) io"

record 't sled =
  sled_get :: "'t \<Rightarrow> bytes \<Rightarrow> string + bytes option"
  sled_insert :: "bytes \<Rightarrow> bytes \<Rightarrow> 't \<Rightarrow> ('t, unit) io"
  sled_remove :: "bytes \<Rightarrow> 't \<Rightarrow> ('t, unit) io"

definition sled_get_node :: "node_codec \<Rightarrow> 't sled \<Rightarrow> 't \<Rightarrow> hash32 \<Rightarrow> string + MptNode option" where
  "sled_get_node C K tree h =
     and_then (sled_get K tree h) (\<lambda>found.
       case found of
         Some bs \<Rightarrow> and_then (ok_or ''bincode: invalid node'' (de_node C bs)) (\<lambda>n. Inr (Some n))
       | None \<Rightarrow> Inr None)"

definition sled_put_node :: "node_codec \<Rightarrow> 't sled \<Rightarrow> MptNode \<Rightarrow> 't \<Rightarrow> ('t, hash32) io" where
  "sled_put_node C K n tree =
     io_then (sled_insert K (node_hash C n) (ser_node C n) tree) (\<lambda>_ tree'. (Inr (node_hash C n), tree'))"

definition sled_delete_node :: "'t sled \<Rightarrow> hash32 \<Rightarrow> 't \<Rightarrow> ('t, unit) io" where
  "sled_delete_node K h tree = sled_remove K h tree"

definition SledMptStore :: "node_codec \<Rightarrow> 't sled \<Rightarrow> 't MptStore" where
  "SledMptStore C K =
     \<lparr>get_node = sled_get_node C K, put_node = sled_put_node C K, delete_node = sled_delete_node K\<rparr>"

section \<open>Lookup\<close>

definition MPT_FUEL :: nat where "MPT_FUEL = 66"

abbreviation fuel_error :: string where "fuel_error \<equiv> ''recursion bound exceeded''"

definition load_node :: "'s MptStore \<Rightarrow> 's \<Rightarrow> hash32 \<Rightarrow> string + MptNode" where
  "load_node S s h = and_then (get_node S s h) (\<lambda>found. ok_or ''Node not found'' found)"

text \<open>An index out of range panics in the source; keys give nibbles below 16 only.\<close>

definition child_at :: "hash32 option list \<Rightarrow> u8 \<Rightarrow> string + hash32 option" where
  "child_at cs nb = (if unat nb < length cs then Inr (cs ! unat nb) else Inl ''index out of bounds'')"

fun get_recursive :: "nat \<Rightarrow> 's MptStore \<Rightarrow> 's \<Rightarrow> hash32 option \<Rightarrow> nibbles \<Rightarrow> string + bytes option" where
  "get_recursive 0 S s rt ns = Inl fuel_error"
| "get_recursive (Suc fuel) S s rt ns =
     (case rt of
        None \<Rightarrow> Inr None
      | Some h \<Rightarrow>
          and_then (load_node S s h) (\<lambda>node.
            case node of
              Leaf suffix v \<Rightarrow> Inr (if suffix = ns then Some v else None)
            | Extension p c \<Rightarrow>
                if starts_with ns p then get_recursive fuel S s (Some c) (drop (length p) ns) else Inr None
            | Branch cs v \<Rightarrow>
                (case ns of
                   [] \<Rightarrow> Inr v
                 | nb # rest \<Rightarrow> and_then (child_at cs nb) (\<lambda>c. get_recursive fuel S s c rest))))"

section \<open>Insertion\<close>

text \<open>The end of both splitting cases: a branch, below an extension when a prefix is shared.\<close>

definition put_branch_under ::
  "'s MptStore \<Rightarrow> nibbles \<Rightarrow> hash32 option list \<Rightarrow> bytes option \<Rightarrow> 's \<Rightarrow> ('s, hash32) io" where
  "put_branch_under S p cs v s =
     io_then (put_node S (Branch cs v) s) (\<lambda>branch_hash s1.
       if p \<noteq> [] then put_node S (Extension p branch_hash) s1 else (Inr branch_hash, s1))"

text \<open>Either the value ends at the branch or a leaf for the rest of its key hangs below it.\<close>

definition hang_value ::
  "'s MptStore \<Rightarrow> nibbles \<Rightarrow> bytes \<Rightarrow> hash32 option list \<Rightarrow> bytes option \<Rightarrow> 's
     \<Rightarrow> ('s, hash32 option list \<times> bytes option) io" where
  "hang_value S rest v cs bv s =
     (case rest of
        [] \<Rightarrow> (Inr (cs, Some v), s)
      | nb # suffix \<Rightarrow>
          if unat nb < length cs
          then io_then (put_node S (Leaf suffix v) s) (\<lambda>h s1. (Inr (cs[unat nb := Some h], bv), s1))
          else (Inl ''index out of bounds'', s))"

definition empty_children :: "hash32 option list" where
  "empty_children = replicate 16 None"

definition split_leaf ::
  "'s MptStore \<Rightarrow> nibbles \<Rightarrow> bytes \<Rightarrow> nibbles \<Rightarrow> bytes \<Rightarrow> 's \<Rightarrow> ('s, hash32) io" where
  "split_leaf S suffix old_value ns v s =
     (let match_len = common_prefix suffix ns
      in if match_len = length suffix \<and> match_len = length ns then put_node S (Leaf suffix v) s
         else io_then (hang_value S (drop match_len suffix) old_value empty_children None s) (\<lambda>(cs, bv) s1.
              io_then (hang_value S (drop match_len ns) v cs bv s1) (\<lambda>(cs', bv') s2.
                put_branch_under S (take match_len ns) cs' bv' s2)))"

definition split_extension ::
  "'s MptStore \<Rightarrow> nibbles \<Rightarrow> hash32 \<Rightarrow> nibbles \<Rightarrow> bytes \<Rightarrow> 's \<Rightarrow> ('s, hash32) io" where
  "split_extension S p c ns v s =
     (let match_len = common_prefix p ns
      in if unat (p ! match_len) < 16
         then io_then (if match_len + 1 = length p then (Inr c, s)
                       else put_node S (Extension (drop (match_len + 1) p) c) s) (\<lambda>old_child s1.
              io_then (hang_value S (drop match_len ns) v
                         (empty_children[unat (p ! match_len) := Some old_child]) None s1) (\<lambda>(cs, bv) s2.
                put_branch_under S (take match_len ns) cs bv s2))
         else (Inl ''index out of bounds'', s))"

fun insert_recursive ::
  "nat \<Rightarrow> 's MptStore \<Rightarrow> hash32 option \<Rightarrow> nibbles \<Rightarrow> bytes \<Rightarrow> 's \<Rightarrow> ('s, hash32) io" where
  "insert_recursive 0 S rt ns v s = (Inl fuel_error, s)"
| "insert_recursive (Suc fuel) S rt ns v s =
     (case rt of
        None \<Rightarrow> put_node S (Leaf ns v) s
      | Some h \<Rightarrow>
          (case load_node S s h of
             Inl e \<Rightarrow> (Inl e, s)
           | Inr node \<Rightarrow>
               (case node of
                  Leaf suffix old_value \<Rightarrow> split_leaf S suffix old_value ns v s
                | Extension p c \<Rightarrow>
                    if common_prefix p ns = length p
                    then io_then (insert_recursive fuel S (Some c) (drop (length p) ns) v s) (\<lambda>h' s1.
                           put_node S (Extension p h') s1)
                    else split_extension S p c ns v s
                | Branch cs old_value \<Rightarrow>
                    (case ns of
                       [] \<Rightarrow> put_node S (Branch cs (Some v)) s
                     | nb # rest \<Rightarrow>
                         (case child_at cs nb of
                            Inl e \<Rightarrow> (Inl e, s)
                          | Inr c \<Rightarrow>
                              io_then (insert_recursive fuel S c rest v s) (\<lambda>h' s1.
                                put_node S (Branch (cs[unat nb := Some h']) old_value) s1))))))"

section \<open>Deletion\<close>

definition prepend_node :: "'s MptStore \<Rightarrow> nibbles \<Rightarrow> hash32 \<Rightarrow> 's \<Rightarrow> ('s, hash32 option) io" where
  "prepend_node S p h s =
     (case get_node S s h of
        Inl e \<Rightarrow> (Inl e, s)
      | Inr child \<Rightarrow>
          io_then (put_node S
                     (case child of
                        Some (Leaf suffix v) \<Rightarrow> Leaf (p @ suffix) v
                      | Some (Extension q c) \<Rightarrow> Extension (p @ q) c
                      | _ \<Rightarrow> Extension p h) s) (\<lambda>h' s1. (Inr (Some h'), s1)))"

definition remaining :: "hash32 option list \<Rightarrow> (nat \<times> hash32) list" where
  "remaining cs = [(i, the c). (i, c) \<leftarrow> enumerate 0 cs, c \<noteq> None]"

definition canonical_branch ::
  "'s MptStore \<Rightarrow> hash32 option list \<Rightarrow> bytes option \<Rightarrow> 's \<Rightarrow> ('s, hash32 option) io" where
  "canonical_branch S cs bv s =
     (case (remaining cs, bv) of
        ([], None) \<Rightarrow> (Inr None, s)
      | ([], Some v) \<Rightarrow> io_then (put_node S (Leaf [] v) s) (\<lambda>h s1. (Inr (Some h), s1))
      | ([(i, h)], None) \<Rightarrow> prepend_node S [of_nat i] h s
      | _ \<Rightarrow> io_then (put_node S (Branch cs bv) s) (\<lambda>h s1. (Inr (Some h), s1)))"

fun delete_recursive ::
  "nat \<Rightarrow> 's MptStore \<Rightarrow> hash32 option \<Rightarrow> nibbles \<Rightarrow> 's \<Rightarrow> ('s, hash32 option) io" where
  "delete_recursive 0 S rt ns s = (Inl fuel_error, s)"
| "delete_recursive (Suc fuel) S rt ns s =
     (case rt of
        None \<Rightarrow> (Inr None, s)
      | Some h \<Rightarrow>
          (case load_node S s h of
             Inl e \<Rightarrow> (Inl e, s)
           | Inr node \<Rightarrow>
               (case node of
                  Leaf suffix v \<Rightarrow> (Inr (if suffix = ns then None else Some h), s)
                | Extension p c \<Rightarrow>
                    if starts_with ns p
                    then io_then (delete_recursive fuel S (Some c) (drop (length p) ns) s) (\<lambda>c' s1.
                           case c' of None \<Rightarrow> (Inr None, s1) | Some h' \<Rightarrow> prepend_node S p h' s1)
                    else (Inr (Some h), s)
                | Branch cs v \<Rightarrow>
                    (case ns of
                       [] \<Rightarrow> canonical_branch S cs None s
                     | nb # rest \<Rightarrow>
                         (case child_at cs nb of
                            Inl e \<Rightarrow> (Inl e, s)
                          | Inr c \<Rightarrow>
                              io_then (delete_recursive fuel S c rest s) (\<lambda>c' s1.
                                canonical_branch S (cs[unat nb := c']) v s1))))))"

section \<open>The trie\<close>

record 's MerklePatriciaTrie =
  mpt_root :: "hash32 option"
  mpt_store :: 's

definition trie_new :: "'s \<Rightarrow> 's MerklePatriciaTrie" where
  "trie_new s = \<lparr>mpt_root = None, mpt_store = s\<rparr>"

definition trie_with_root :: "'s \<Rightarrow> hash32 \<Rightarrow> 's MerklePatriciaTrie" where
  "trie_with_root s r = \<lparr>mpt_root = Some r, mpt_store = s\<rparr>"

definition trie_with_root_opt :: "'s \<Rightarrow> hash32 option \<Rightarrow> 's MerklePatriciaTrie" where
  "trie_with_root_opt s r = \<lparr>mpt_root = r, mpt_store = s\<rparr>"

definition trie_get :: "'s MptStore \<Rightarrow> 's MerklePatriciaTrie \<Rightarrow> bytes \<Rightarrow> string + bytes option" where
  "trie_get S t key = get_recursive MPT_FUEL S (mpt_store t) (mpt_root t) (key_to_nibbles key)"

definition trie_insert ::
  "'s MptStore \<Rightarrow> bytes \<Rightarrow> bytes \<Rightarrow> 's MerklePatriciaTrie \<Rightarrow> (string + hash32) \<times> 's MerklePatriciaTrie" where
  "trie_insert S key v t =
     (case insert_recursive MPT_FUEL S (mpt_root t) (key_to_nibbles key) v (mpt_store t) of
        (Inl e, s) \<Rightarrow> (Inl e, t\<lparr>mpt_store := s\<rparr>)
      | (Inr h, s) \<Rightarrow> (Inr h, \<lparr>mpt_root = Some h, mpt_store = s\<rparr>))"

definition trie_delete ::
  "'s MptStore \<Rightarrow> bytes \<Rightarrow> 's MerklePatriciaTrie \<Rightarrow> (string + hash32) \<times> 's MerklePatriciaTrie" where
  "trie_delete S key t =
     (case delete_recursive MPT_FUEL S (mpt_root t) (key_to_nibbles key) (mpt_store t) of
        (Inl e, s) \<Rightarrow> (Inl e, t\<lparr>mpt_store := s\<rparr>)
      | (Inr r, s) \<Rightarrow> (Inr (case r of Some h \<Rightarrow> h | None \<Rightarrow> zero_hash), \<lparr>mpt_root = r, mpt_store = s\<rparr>))"

section \<open>Garbage collection\<close>

text \<open>The set of live hashes is a list without duplicates.\<close>

fun collect_reachable ::
    "nat \<Rightarrow> 's MptStore \<Rightarrow> 's \<Rightarrow> hash32 option \<Rightarrow> hash32 list \<Rightarrow> string + hash32 list"
  and collect_children ::
    "nat \<Rightarrow> 's MptStore \<Rightarrow> 's \<Rightarrow> hash32 option list \<Rightarrow> hash32 list \<Rightarrow> string + hash32 list" where
  "collect_reachable 0 S s rt live = Inl fuel_error"
| "collect_reachable (Suc fuel) S s rt live =
     (case rt of
        None \<Rightarrow> Inr live
      | Some h \<Rightarrow>
          if List.member live h then Inr live
          else and_then (get_node S s h) (\<lambda>found.
            case found of
              None \<Rightarrow> Inr (h # live)
            | Some (Leaf _ _) \<Rightarrow> Inr (h # live)
            | Some (Extension _ c) \<Rightarrow> collect_reachable fuel S s (Some c) (h # live)
            | Some (Branch cs _) \<Rightarrow> collect_children fuel S s cs (h # live)))"
| "collect_children fuel S s [] live = Inr live"
| "collect_children fuel S s (None # cs) live = collect_children fuel S s cs live"
| "collect_children fuel S s (Some c # cs) live =
     and_then (collect_reachable fuel S s (Some c) live) (collect_children fuel S s cs)"

fun delete_unreachable ::
    "nat \<Rightarrow> 's MptStore \<Rightarrow> hash32 list \<Rightarrow> hash32 option \<Rightarrow> nat \<Rightarrow> 's \<Rightarrow> ('s, nat) io"
  and delete_children ::
    "nat \<Rightarrow> 's MptStore \<Rightarrow> hash32 list \<Rightarrow> hash32 option list \<Rightarrow> nat \<Rightarrow> 's \<Rightarrow> ('s, nat) io" where
  "delete_unreachable 0 S live rt deleted s = (Inl fuel_error, s)"
| "delete_unreachable (Suc fuel) S live rt deleted s =
     (case rt of
        None \<Rightarrow> (Inr deleted, s)
      | Some h \<Rightarrow>
          if List.member live h then (Inr deleted, s)
          else (case get_node S s h of
             Inl e \<Rightarrow> (Inl e, s)
           | Inr None \<Rightarrow> (Inr deleted, s)
           | Inr (Some node) \<Rightarrow>
               io_then (case node of
                          Leaf _ _ \<Rightarrow> (Inr deleted, s)
                        | Extension _ c \<Rightarrow> delete_unreachable fuel S live (Some c) deleted s
                        | Branch cs _ \<Rightarrow> delete_children fuel S live cs deleted s) (\<lambda>d s1.
               io_then (delete_node S h s1) (\<lambda>_ s2. (Inr (Suc d), s2)))))"
| "delete_children fuel S live [] deleted s = (Inr deleted, s)"
| "delete_children fuel S live (None # cs) deleted s = delete_children fuel S live cs deleted s"
| "delete_children fuel S live (Some c # cs) deleted s =
     io_then (delete_unreachable fuel S live (Some c) deleted s) (\<lambda>d s1.
       delete_children fuel S live cs d s1)"

definition gc_since ::
  "'s MptStore \<Rightarrow> hash32 \<Rightarrow> 's MerklePatriciaTrie \<Rightarrow> (string + nat) \<times> 's MerklePatriciaTrie" where
  "gc_since S old_root t =
     (case mpt_root t of
        None \<Rightarrow> (Inr 0, t)
      | Some r \<Rightarrow>
          (case collect_reachable MPT_FUEL S (mpt_store t) (Some r) [] of
             Inl e \<Rightarrow> (Inl e, t)
           | Inr live \<Rightarrow>
               (case delete_unreachable MPT_FUEL S live (Some old_root) 0 (mpt_store t) of
                  (res, s) \<Rightarrow> (res, t\<lparr>mpt_store := s\<rparr>))))"

section \<open>Proofs\<close>

definition branch_sibling_hash ::
  "node_codec \<Rightarrow> hash32 option list \<Rightarrow> bytes option \<Rightarrow> nat \<Rightarrow> hash32" where
  "branch_sibling_hash C cs v skip_nibble = xor_value C v (xor_all (cs[skip_nibble := None]) zero_hash)"

fun get_with_proof ::
  "nat \<Rightarrow> node_codec \<Rightarrow> 's MptStore \<Rightarrow> 's \<Rightarrow> hash32 option \<Rightarrow> nibbles \<Rightarrow> hash32 list \<Rightarrow> PathStep list
     \<Rightarrow> string + bytes option \<times> hash32 list \<times> PathStep list" where
  "get_with_proof 0 C S s rt ns sibs path = Inl fuel_error"
| "get_with_proof (Suc fuel) C S s rt ns sibs path =
     (case rt of
        None \<Rightarrow> Inr (None, sibs, path)
      | Some h \<Rightarrow>
          and_then (load_node S s h) (\<lambda>node.
            case node of
              Leaf suffix v \<Rightarrow>
                if suffix = ns then Inr (Some v, sibs, path @ [LeafStep])
                else Inr (None, sibs @ [node_hash C node], path @ [LeafStep])
            | Extension p c \<Rightarrow>
                if starts_with ns p
                then get_with_proof fuel C S s (Some c) (drop (length p) ns) sibs
                       (path @ [ExtensionStep (of_nat (length p))])
                else Inr (None, sibs @ [node_hash C node], path @ [ExtensionStep (of_nat (length p))])
            | Branch cs v \<Rightarrow>
                (case ns of
                   [] \<Rightarrow> Inr (v, sibs @ [xor_all cs zero_hash], path @ [BranchStep 16])
                 | nb # rest \<Rightarrow>
                     and_then (child_at cs nb) (\<lambda>c.
                       get_with_proof fuel C S s c rest (sibs @ [branch_sibling_hash C cs v (unat nb)])
                         (path @ [BranchStep nb])))))"

definition prove ::
  "node_codec \<Rightarrow> 's MptStore \<Rightarrow> 's MerklePatriciaTrie \<Rightarrow> bytes \<Rightarrow> string + MerkleProof" where
  "prove C S t key =
     and_then (get_with_proof MPT_FUEL C S (mpt_store t) (mpt_root t) (key_to_nibbles key) [] [])
       (\<lambda>(v, sibs, path).
         Inr \<lparr>trie_key = key, mp_value = v,
              mp_root = (case mpt_root t of Some r \<Rightarrow> r | None \<Rightarrow> zero_hash),
              siblings = sibs, mp_path = path\<rparr>)"

definition step_len :: "PathStep \<Rightarrow> nat" where
  "step_len st = (case st of
     BranchStep nb \<Rightarrow> (if nb < 16 then 1 else 0)
   | ExtensionStep l \<Rightarrow> unat l
   | LeafStep \<Rightarrow> 0)"

text \<open>
  The verifier. \<open>terminal_hash\<close> computes the hash of the last node and the siblings left to use
  (the source walks them from the back with an index); \<open>walk_up\<close> folds the remaining steps, last
  first. A \<open>None\<close> is an early \<open>return false\<close>.
\<close>

definition terminal_hash :: "node_codec \<Rightarrow> MerkleProof \<Rightarrow> (hash32 \<times> hash32 list) option" where
  "terminal_hash C pf =
     (case last (mp_path pf) of
        LeafStep \<Rightarrow>
          (case mp_value pf of
             Some v \<Rightarrow>
               let suffix_start = sum_list (map step_len (mp_path pf));
                   ns = key_to_nibbles (trie_key pf)
               in if length ns < suffix_start then None
                  else Some (node_hash C (Leaf (drop suffix_start ns) v), siblings pf)
           | None \<Rightarrow>
               if siblings pf = [] then None else Some (last (siblings pf), butlast (siblings pf)))
      | ExtensionStep _ \<Rightarrow>
          if mp_value pf \<noteq> None \<or> siblings pf = [] then None
          else Some (last (siblings pf), butlast (siblings pf))
      | BranchStep nb \<Rightarrow>
          if siblings pf = [] then None
          else if nb = 16
               then Some (branch_digest C (xor_value C (mp_value pf) (last (siblings pf))), butlast (siblings pf))
               else if mp_value pf \<noteq> None then None
               else Some (branch_digest C (last (siblings pf)), butlast (siblings pf)))"

text \<open>The start of an extension's prefix: the steps before the first step equal to it.\<close>

definition prefix_start :: "PathStep list \<Rightarrow> PathStep \<Rightarrow> nat" where
  "prefix_start path st = sum_list (map step_len (takeWhile (\<lambda>s. s \<noteq> st) path))"

fun walk_up ::
  "node_codec \<Rightarrow> PathStep list \<Rightarrow> nibbles \<Rightarrow> PathStep list \<Rightarrow> hash32 \<Rightarrow> hash32 list \<Rightarrow> hash32 option" where
  "walk_up C path ns [] h sibs = Some h"
| "walk_up C path ns (BranchStep nb # todo) h sibs =
     (if sibs = [] then None
      else walk_up C path ns todo (branch_digest C (xor_bytes (last sibs) h)) (butlast sibs))"
| "walk_up C path ns (ExtensionStep l # todo) h sibs =
     (let start = prefix_start path (ExtensionStep l)
      in if length ns < start + unat l then None
         else walk_up C path ns todo (node_hash C (Extension (take (unat l) (drop start ns)) h)) sibs)"
| "walk_up C path ns (LeafStep # todo) h sibs = None"

definition verify_proof :: "node_codec \<Rightarrow> MerkleProof \<Rightarrow> bool" where
  "verify_proof C pf =
     (if mp_path pf = [] then mp_root pf = zero_hash \<and> mp_value pf = None
      else (case terminal_hash C pf of
              None \<Rightarrow> False
            | Some (h, sibs) \<Rightarrow>
                walk_up C (mp_path pf) (key_to_nibbles (trie_key pf)) (tl (rev (mp_path pf))) h sibs
                  = Some (mp_root pf)))"

definition ProofBuilder_verify :: "node_codec \<Rightarrow> MerkleProof \<Rightarrow> bool" where
  "ProofBuilder_verify C pf = verify_proof C pf"

end
