(* ===== verification/Mpt_Tree.thy ===== *)
theory Mpt_Tree
  imports Primus_Mpt
begin

text \<open>
  The specification of the trie: a tree that owns its children instead of naming them by hash.
  \<open>tlookup\<close> gives it the meaning of a finite map from nibble strings to values, \<open>tinsert\<close> is the
  insertion of \<open>mpt.rs\<close> on trees, and \<open>good n\<close> is the invariant of the trees that insertion
  builds from keys of at most \<open>n\<close> nibbles. The tree of a given map is unique.
\<close>

section \<open>Trees\<close>

datatype tree =
    TLeaf nibbles bytes
  | TExt nibbles tree
  | TBranch "tree option list" "bytes option"

lemma size_child [termination_simp]:
  "i < length cs \<Longrightarrow> cs ! i = Some t \<Longrightarrow> size t < Suc (size_list (size_option size) cs + k)"
proof -
  assume "i < length cs" "cs ! i = Some t"
  then have "Some t \<in> set cs" by (metis nth_mem)
  then have "size_option size (Some t) \<le> size_list (size_option size) cs"
    by (rule size_list_estimation') simp
  then show ?thesis by simp
qed

fun tlookup :: "tree \<Rightarrow> nibbles \<Rightarrow> bytes option" where
  "tlookup (TLeaf k v) ns = (if k = ns then Some v else None)"
| "tlookup (TExt p c) ns = (if starts_with ns p then tlookup c (drop (length p) ns) else None)"
| "tlookup (TBranch cs v) ns =
     (case ns of
        [] \<Rightarrow> v
      | nb # rest \<Rightarrow>
          if unat nb < length cs
          then (case cs ! unat nb of None \<Rightarrow> None | Some t \<Rightarrow> tlookup t rest) else None)"

definition olookup :: "tree option \<Rightarrow> nibbles \<Rightarrow> bytes option" where
  "olookup t ns = (case t of None \<Rightarrow> None | Some u \<Rightarrow> tlookup u ns)"

lemma olookup_simps [simp]: "olookup None ns = None" "olookup (Some t) ns = tlookup t ns"
  by (simp_all add: olookup_def)

section \<open>Insertion\<close>

definition hang :: "nibbles \<Rightarrow> bytes \<Rightarrow> tree option list \<times> bytes option \<Rightarrow> tree option list \<times> bytes option" where
  "hang rest v = (\<lambda>(cs, bv).
     case rest of [] \<Rightarrow> (cs, Some v) | nb # suffix \<Rightarrow> (cs[unat nb := Some (TLeaf suffix v)], bv))"

definition no_children :: "tree option list" where
  "no_children = replicate 16 None"

definition ext_opt :: "nibbles \<Rightarrow> tree \<Rightarrow> tree" where
  "ext_opt p c = (if p = [] then c else TExt p c)"

definition under :: "nibbles \<Rightarrow> tree option list \<times> bytes option \<Rightarrow> tree" where
  "under p X = ext_opt p (TBranch (fst X) (snd X))"

fun tinsert :: "tree \<Rightarrow> nibbles \<Rightarrow> bytes \<Rightarrow> tree" where
  "tinsert (TLeaf k w) ns v =
     (let m = common_prefix k ns
      in if m = length k \<and> m = length ns then TLeaf k v
         else under (take m ns) (hang (drop m ns) v (hang (drop m k) w (no_children, None))))"
| "tinsert (TExt p c) ns v =
     (let m = common_prefix p ns
      in if m = length p then TExt p (tinsert c (drop m ns) v)
         else under (take m ns)
                (hang (drop m ns) v
                  (no_children[unat (p ! m) := Some (ext_opt (drop (Suc m) p) c)], None)))"
| "tinsert (TBranch cs w) ns v =
     (case ns of
        [] \<Rightarrow> TBranch cs (Some v)
      | nb # rest \<Rightarrow>
          if unat nb < length cs
          then TBranch (cs[unat nb := Some (case cs ! unat nb of
                             None \<Rightarrow> TLeaf rest v | Some t \<Rightarrow> tinsert t rest v)]) w
          else TBranch cs w)"

definition oinsert :: "tree option \<Rightarrow> nibbles \<Rightarrow> bytes \<Rightarrow> tree" where
  "oinsert t ns v = (case t of None \<Rightarrow> TLeaf ns v | Some u \<Rightarrow> tinsert u ns v)"

section \<open>The invariant\<close>

definition nib :: "nibbles \<Rightarrow> bool" where
  "nib ns = (\<forall>x \<in> set ns. unat x < 16)"

lemma nib_simps [simp]:
  "nib []" "nib (x # xs) \<longleftrightarrow> unat x < 16 \<and> nib xs" "nib (xs @ ys) \<longleftrightarrow> nib xs \<and> nib ys"
  by (auto simp: nib_def)

lemma nib_take [simp]: "nib ns \<Longrightarrow> nib (take k ns)"
  by (auto simp: nib_def dest: in_set_takeD)

lemma nib_drop [simp]: "nib ns \<Longrightarrow> nib (drop k ns)"
  by (auto simp: nib_def dest: in_set_dropD)

lemma nib_nth: "nib ns \<Longrightarrow> k < length ns \<Longrightarrow> unat (ns ! k) < 16"
  by (auto simp: nib_def)

text \<open>A branch holds at least two entries, so it cannot be replaced by a leaf or an extension.\<close>

definition busy :: "'a option list \<Rightarrow> bytes option \<Rightarrow> bool" where
  "busy cs v = (\<exists>i < length cs. cs ! i \<noteq> None \<and>
     (v \<noteq> None \<or> (\<exists>j < length cs. j \<noteq> i \<and> cs ! j \<noteq> None)))"

lemma busy_update: "busy cs v \<Longrightarrow> busy (cs[i := Some t]) v"
proof -
  assume "busy cs v"
  then obtain a where a: "a < length cs" "cs ! a \<noteq> None"
      "v \<noteq> None \<or> (\<exists>b < length cs. b \<noteq> a \<and> cs ! b \<noteq> None)" by (auto simp: busy_def)
  have some: "(cs[i := Some t]) ! k \<noteq> None" if "cs ! k \<noteq> None" for k
    using that by (cases "i < length cs") (auto simp: nth_list_update list_update_beyond)
  then show ?thesis using a unfolding busy_def by (metis length_list_update)
qed

lemma busy_value: "busy cs v \<Longrightarrow> busy cs (Some w)"
  by (auto simp: busy_def)

inductive good :: "nat \<Rightarrow> tree \<Rightarrow> bool" where
  leaf: "length k \<le> n \<Longrightarrow> nib k \<Longrightarrow> good n (TLeaf k v)"
| ext: "p \<noteq> [] \<Longrightarrow> length p \<le> n \<Longrightarrow> nib p \<Longrightarrow> good (n - length p) (TBranch cs v) \<Longrightarrow>
        good n (TExt p (TBranch cs v))"
| branch: "length cs = 16 \<Longrightarrow> busy cs v \<Longrightarrow> 0 < n \<Longrightarrow>
           (\<And>t. Some t \<in> set cs \<Longrightarrow> good (n - 1) t) \<Longrightarrow> good n (TBranch cs v)"

inductive_cases good_leafE: "good n (TLeaf k v)"
inductive_cases good_extE: "good n (TExt p c)"
inductive_cases good_branchE: "good n (TBranch cs v)"

section \<open>Common prefixes\<close>

lemma common_prefix_le: "common_prefix a b \<le> length a \<and> common_prefix a b \<le> length b"
  by (induction a b rule: common_prefix.induct) auto

lemma common_prefix_take: "take (common_prefix a b) a = take (common_prefix a b) b"
  by (induction a b rule: common_prefix.induct) auto

lemma common_prefix_differ:
  "common_prefix a b < length a \<Longrightarrow> common_prefix a b < length b \<Longrightarrow>
     a ! common_prefix a b \<noteq> b ! common_prefix a b"
  by (induction a b rule: common_prefix.induct) (auto split: if_splits)

lemma common_prefix_all: "common_prefix p ns = length p \<longleftrightarrow> starts_with ns p"
  by (induction p ns rule: common_prefix.induct) (auto simp: starts_with_def)

text \<open>Two strings split at their common prefix: the rests do not both start with the same nibble.\<close>

lemma common_prefix_split:
  obtains p a' b' where "a = p @ a'" "b = p @ b'" "common_prefix a b = length p"
    "a' = [] \<or> b' = [] \<or> hd a' \<noteq> hd b'"
proof -
  let ?m = "common_prefix a b"
  have "a = take ?m b @ drop ?m a" "b = take ?m b @ drop ?m b"
    using common_prefix_take [of a b] by (metis append_take_drop_id)+
  moreover have "?m = length (take ?m b)" using common_prefix_le [of a b] by simp
  moreover have "drop ?m a = [] \<or> drop ?m b = [] \<or> hd (drop ?m a) \<noteq> hd (drop ?m b)"
    using common_prefix_differ [of a b] by (auto simp: hd_drop_conv_nth not_le)
  ultimately show ?thesis using that by metis
qed

section \<open>Insertion is update of the map\<close>

lemma unat_inj [simp]: "unat x = unat y \<longleftrightarrow> x = y"
  by (simp add: word_unat_eq_iff)

lemma starts_with_iff: "starts_with ks p \<longleftrightarrow> (\<exists>r. ks = p @ r)"
  by (metis append_eq_conv_conj append_take_drop_id starts_with_def)

lemma starts_with_self [simp]: "starts_with (p @ r) p"
  by (simp add: starts_with_iff)

lemma starts_with_append [simp]: "starts_with (p @ r) (p @ q) \<longleftrightarrow> starts_with r q"
  by (simp add: starts_with_iff)

lemma not_starts_with: "\<not> starts_with ks p \<Longrightarrow> ks \<noteq> p @ r \<and> \<not> starts_with ks (p @ q)"
  by (auto simp: starts_with_iff)

lemma starts_with_Cons [simp]: "starts_with (y # r) (x # q) \<longleftrightarrow> y = x \<and> starts_with r q"
  by (auto simp: starts_with_iff)

lemma starts_with_Nil [simp]: "starts_with r []" "starts_with [] (x # q) = False"
  by (simp_all add: starts_with_iff)

lemma tlookup_ext_opt:
  "tlookup (ext_opt p t) ks = (if starts_with ks p then tlookup t (drop (length p) ks) else None)"
  by (auto simp: ext_opt_def starts_with_def)

definition slot_free :: "nibbles \<Rightarrow> tree option list \<times> bytes option \<Rightarrow> bool" where
  "slot_free rest X = (length (fst X) = 16 \<and> nib rest \<and>
     (case rest of [] \<Rightarrow> snd X = None | nb # _ \<Rightarrow> fst X ! unat nb = None))"

lemma tlookup_hang:
  assumes "slot_free rest X"
  shows "tlookup (TBranch (fst (hang rest v X)) (snd (hang rest v X))) ks
       = (if ks = rest then Some v else tlookup (TBranch (fst X) (snd X)) ks)"
proof (cases rest)
  case Nil
  then show ?thesis by (cases X) (auto simp: hang_def split: list.split)
next
  case (Cons nb suffix)
  then show ?thesis
    using assms by (cases X) (auto simp: hang_def slot_free_def nth_list_update split: list.split)
qed

lemma no_children_nth [simp]: "i < 16 \<Longrightarrow> no_children ! i = None"
  by (simp add: no_children_def)

lemma length_no_children [simp]: "length no_children = 16"
  by (simp add: no_children_def)

lemma tlookup_no_children [simp]: "tlookup (TBranch no_children None) ks = None"
  by (auto split: list.split)

lemma tlookup_one_child:
  assumes "unat x < 16"
  shows "tlookup (TBranch (no_children[unat x := Some t]) None) ks
       = (case ks of [] \<Rightarrow> None | y # r \<Rightarrow> if y = x then tlookup t r else None)"
  using assms by (auto simp: nth_list_update split: list.split)

lemma slot_free_hang:
  assumes "nib a" "nib b" "a = [] \<or> b = [] \<or> hd a \<noteq> hd b" "\<not> (a = [] \<and> b = [])"
  shows "slot_free b (hang a w (no_children, None))"
  using assms by (cases a; cases b) (auto simp: slot_free_def hang_def nth_list_update)

text \<open>Insertion in terms of the strings split at their common prefix.\<close>

lemma tinsert_leaf_split:
  assumes "common_prefix (p @ a) (p @ b) = length p" and "\<not> (a = [] \<and> b = [])"
  shows "tinsert (TLeaf (p @ a) w) (p @ b) v = under p (hang b v (hang a w (no_children, None)))"
  using assms by (auto simp: Let_def)

lemma tinsert_ext_split:
  assumes "common_prefix (p @ x # a) (p @ b) = length p"
  shows "tinsert (TExt (p @ x # a) c) (p @ b) v
       = under p (hang b v (no_children[unat x := Some (ext_opt a c)], None))"
  using assms by (auto simp: Let_def)

lemma tinsert_ext_through: "tinsert (TExt p c) (p @ b) v = TExt p (tinsert c b v)"
  using common_prefix_all [of p "p @ b"] by (simp add: Let_def)

lemma tlookup_under:
  "tlookup (under p X) ks
   = (if starts_with ks p then tlookup (TBranch (fst X) (snd X)) (drop (length p) ks) else None)"
  by (simp add: under_def tlookup_ext_opt)

lemma good_leaf_slots:
  assumes "nib a" "nib b" "a = [] \<or> b = [] \<or> hd a \<noteq> hd b" "\<not> (a = [] \<and> b = [])"
  shows "tlookup (TBranch (fst (hang b v (hang a w (no_children, None)))) (snd (hang b v (hang a w (no_children, None))))) ks
     = (if ks = b then Some v else if ks = a then Some w else None)"
proof -
  have f: "slot_free a (no_children, None)"
    using assms by (auto simp: slot_free_def split: list.split)
  show ?thesis
    using tlookup_hang [OF slot_free_hang [OF assms]] tlookup_hang [OF f]
    by (simp del: tlookup.simps(3))
qed

lemma tlookup_tinsert:
  assumes "good n t" and "nib ns"
  shows "tlookup (tinsert t ns v) ks = (if ks = ns then Some v else tlookup t ks)"
  using assms
proof (induction arbitrary: ns ks rule: good.induct)
  case (leaf k n w)
  obtain p a b where s: "k = p @ a" "ns = p @ b" "common_prefix k ns = length p"
      "a = [] \<or> b = [] \<or> hd a \<noteq> hd b" by (rule common_prefix_split)
  show ?case
  proof (cases "a = [] \<and> b = []")
    case False
    have "tlookup (tinsert (TLeaf k w) ns v) ks = (if starts_with ks p then
        if drop (length p) ks = b then Some v else if drop (length p) ks = a then Some w else None
        else None)"
      using False s leaf tinsert_leaf_split [of p a b w v]
      by (simp add: tlookup_under good_leaf_slots del: tinsert.simps tlookup.simps)
    moreover have "ks = p @ r \<longleftrightarrow> starts_with ks p \<and> drop (length p) ks = r" for r
      by (auto simp: starts_with_iff)
    ultimately show ?thesis by (simp add: s(1,2) eq_commute [of _ ks] del: tinsert.simps)
  qed (use s in \<open>auto simp: Let_def\<close>)
next
  case (ext p n cs w)
  obtain q a b where s: "p = q @ a" "ns = q @ b" "common_prefix p ns = length q"
      "a = [] \<or> b = [] \<or> hd a \<noteq> hd b" by (rule common_prefix_split)
  show ?case
  proof (cases a)
    case Nil
    then have p: "ns = p @ b" "nib b" using s ext by simp_all
    show ?thesis
    proof (cases "starts_with ks p")
      case True
      then obtain r where "ks = p @ r" by (auto simp: starts_with_iff)
      then show ?thesis
        using ext.IH [OF p(2), of r] by (simp add: p(1) tinsert_ext_through del: tinsert.simps tlookup.simps(3))
    next
      case False
      then show ?thesis using not_starts_with [of ks p]
        by (simp add: p(1) tinsert_ext_through del: tinsert.simps tlookup.simps(3))
    qed
  next
    case (Cons x a')
    have x: "unat x < 16" using ext s Cons by simp
    have f: "slot_free b (no_children[unat x := Some (ext_opt a' (TBranch cs w))], None)"
      using ext s Cons x by (auto simp: slot_free_def nth_list_update split: list.split)
    have "tlookup (tinsert (TExt p (TBranch cs w)) ns v) ks = (if starts_with ks q then
        if drop (length q) ks = b then Some v else
        (case drop (length q) ks of [] \<Rightarrow> None | y # r \<Rightarrow>
           if y = x then tlookup (ext_opt a' (TBranch cs w)) r else None) else None)"
      using s Cons tinsert_ext_split [of q x a' b "TBranch cs w" v] tlookup_hang [OF f]
      by (simp add: tlookup_under tlookup_one_child [OF x] del: tinsert.simps tlookup.simps)
    moreover have "tlookup (TExt p (TBranch cs w)) ks = (if starts_with ks q then
        (case drop (length q) ks of [] \<Rightarrow> None | y # r \<Rightarrow>
           if y = x then tlookup (ext_opt a' (TBranch cs w)) r else None) else None)"
    proof (cases "starts_with ks q")
      case True
      then obtain r where "ks = q @ r" by (auto simp: starts_with_iff)
      then show ?thesis
        by (auto simp: s(1) Cons tlookup_ext_opt simp del: tlookup.simps(3) split: list.split)
    next
      case False
      then show ?thesis
        using not_starts_with [of ks q] by (simp add: s(1) Cons del: tlookup.simps(3))
    qed
    moreover have "ks = ns \<longleftrightarrow> starts_with ks q \<and> drop (length q) ks = b"
      by (auto simp: s(2) starts_with_iff)
    ultimately show ?thesis by (simp del: tinsert.simps tlookup.simps)
  qed
next
  case (branch cs w n)
  show ?case
  proof (cases ns)
    case (Cons nb rest)
    then have nb: "unat nb < 16" "nib rest" using branch by auto
    show ?thesis
    proof (cases "cs ! unat nb")
      case None
      then show ?thesis using Cons nb branch by (auto simp: nth_list_update split: list.split)
    next
      case (Some t)
      then have "Some t \<in> set cs" using nb branch(1) by (metis nth_mem)
      then have "tlookup (tinsert t rest v) ks' = (if ks' = rest then Some v else tlookup t ks')" for ks'
        using branch(5) nb by blast
      then show ?thesis using Cons nb branch Some by (auto simp: nth_list_update split: list.split)
    qed
  qed (auto split: list.split)
qed

section \<open>Insertion keeps the invariant\<close>

lemma Some_in_update: "Some t \<in> set (cs[i := Some u]) \<Longrightarrow> t = u \<or> Some t \<in> set cs"
  using set_update_subset_insert [of cs i "Some u"] by auto

lemma Some_no_children [simp]: "Some t \<notin> set no_children"
  by (simp add: no_children_def)

lemma good_branch_update:
  assumes "good n (TBranch cs w)" and "good (n - 1) t"
  shows "good n (TBranch (cs[i := Some t]) w)"
  using assms by (auto elim!: good_branchE intro!: good.branch busy_update dest: Some_in_update)

lemma good_under:
  assumes "good (n - length p) (TBranch (fst X) (snd X))" and "length p \<le> n" and "nib p"
  shows "good n (under p X)"
  using assms by (auto simp: under_def ext_opt_def intro: good.ext)

lemma good_ext_opt:
  assumes "good (n - length p) (TBranch cs w)" and "length p \<le> n" and "nib p"
  shows "good n (ext_opt p (TBranch cs w))"
  using assms by (auto simp: ext_opt_def intro: good.ext)

lemma good_hang_one:
  assumes "unat x < 16" "good (n - 1) t" "nib b" "length b \<le> n" "0 < n" "b = [] \<or> hd b \<noteq> x"
  shows "good n (TBranch (fst (hang b v (no_children[unat x := Some t], None)))
                 (snd (hang b v (no_children[unat x := Some t], None))))"
proof (cases b)
  case Nil
  then show ?thesis using assms
    by (auto simp: hang_def busy_def nth_list_update intro!: good.branch exI [of _ "unat x"] dest: Some_in_update)
next
  case (Cons y b')
  have "busy (no_children[unat x := Some t, unat y := Some (TLeaf b' v)]) None"
    using assms Cons unfolding busy_def
    by (intro exI [of _ "unat x"]) (auto simp: nth_list_update intro!: exI [of _ "unat y"])
  then show ?thesis using assms Cons
    by (auto simp: hang_def intro!: good.branch good.leaf dest!: Some_in_update)
qed

lemma good_hang_two:
  assumes "nib a" "nib b" "a = [] \<or> b = [] \<or> hd a \<noteq> hd b" "\<not> (a = [] \<and> b = [])"
    and "length a \<le> n" "length b \<le> n"
  shows "good n (TBranch (fst (hang b v (hang a w (no_children, None))))
                 (snd (hang b v (hang a w (no_children, None)))))"
proof (cases a)
  case Nil
  with assms obtain y b' where "b = y # b'" by (cases b) auto
  with Nil assms show ?thesis
    by (auto simp: hang_def busy_def nth_list_update intro!: good.branch good.leaf exI [of _ "unat y"]
        dest!: Some_in_update)
next
  case (Cons x a')
  then have "hang a w (no_children, None) = (no_children[unat x := Some (TLeaf a' w)], None)"
    by (simp add: hang_def)
  moreover have "good (n - 1) (TLeaf a' w)" using Cons assms by (auto intro: good.leaf)
  ultimately show ?thesis
    using good_hang_one [of x n "TLeaf a' w" b v] assms Cons by auto
qed

lemma tinsert_branch: "\<exists>cs' w'. tinsert (TBranch cs w) ns v = TBranch cs' w'"
  by (cases ns) auto

lemma good_tinsert:
  assumes "good n t" and "nib ns" and "length ns \<le> n"
  shows "good n (tinsert t ns v)"
  using assms
proof (induction arbitrary: ns rule: good.induct)
  case (leaf k n w)
  obtain p a b where s: "k = p @ a" "ns = p @ b" "common_prefix k ns = length p"
      "a = [] \<or> b = [] \<or> hd a \<noteq> hd b" by (rule common_prefix_split)
  show ?case
  proof (cases "a = [] \<and> b = []")
    case True
    then show ?thesis using leaf s by (auto simp: Let_def intro: good.leaf)
  next
    case False
    then show ?thesis
      using tinsert_leaf_split [of p a b w v] leaf s
      by (auto intro!: good_under good_hang_two simp del: tinsert.simps)
  qed
next
  case (ext p n cs w)
  obtain q a b where s: "p = q @ a" "ns = q @ b" "common_prefix p ns = length q"
      "a = [] \<or> b = [] \<or> hd a \<noteq> hd b" by (rule common_prefix_split)
  show ?case
  proof (cases a)
    case Nil
    then have p: "ns = p @ b" "nib b" "length b \<le> n - length p" using s ext by simp_all
    obtain cs' w' where "tinsert (TBranch cs w) b v = TBranch cs' w'" using tinsert_branch by blast
    then show ?thesis
      using ext.IH [OF p(2,3)] ext.hyps by (simp add: p(1) tinsert_ext_through good.ext del: tinsert.simps)
  next
    case (Cons x a')
    have "good (n - length q - 1) (ext_opt a' (TBranch cs w))"
      using ext Cons s by (intro good_ext_opt) auto
    then show ?thesis
      using tinsert_ext_split [of q x a' b "TBranch cs w" v] ext s Cons
      by (auto intro!: good_under good_hang_one simp del: tinsert.simps)
  qed
next
  case (branch cs w n)
  then have g: "good n (TBranch cs w)" by (auto intro: good.branch)
  show ?case
  proof (cases ns)
    case Nil
    then show ?thesis using branch by (auto intro!: good.branch busy_value)
  next
    case (Cons nb rest)
    have "good (n - 1) (case cs ! unat nb of None \<Rightarrow> TLeaf rest v | Some t \<Rightarrow> tinsert t rest v)"
    proof (cases "cs ! unat nb")
      case None
      then show ?thesis using branch Cons by (auto intro: good.leaf)
    next
      case (Some t)
      then have "Some t \<in> set cs" using branch Cons by (metis nib_simps(2) nth_mem)
      then show ?thesis using branch Cons Some by auto
    qed
    then show ?thesis using good_branch_update [OF g] Cons branch by simp
  qed
qed

section \<open>The tree is determined by the map\<close>

lemma good_nonempty: "good n t \<Longrightarrow> \<exists>ks. tlookup t ks \<noteq> None"
proof (induction rule: good.induct)
  case (ext p n cs v)
  then obtain ks where "tlookup (TBranch cs v) ks \<noteq> None" by blast
  then have "tlookup (TExt p (TBranch cs v)) (p @ ks) \<noteq> None" by (simp del: tlookup.simps(3))
  then show ?case by blast
next
  case (branch cs v n)
  then obtain i t where i: "i < 16" "cs ! i = Some t" by (auto simp: busy_def)
  then obtain ks where ks: "tlookup t ks \<noteq> None" using branch by (metis nth_mem)
  have "unat (of_nat i :: u8) = i" using i by (simp add: unat_of_nat)
  then have "tlookup (TBranch cs v) (of_nat i # ks) \<noteq> None" using i ks branch by simp
  then show ?case by blast
qed auto

text \<open>The keys below a branch do not all start with the same nibble.\<close>

lemma good_branch_spread:
  assumes "good n (TBranch cs v)"
  shows "\<exists>ks. tlookup (TBranch cs v) ks \<noteq> None \<and> \<not> starts_with ks (x # r)"
proof -
  from assms have len: "length cs = 16" and b: "busy cs v" and sub: "\<And>t. Some t \<in> set cs \<Longrightarrow> good (n - 1) t"
    by (auto elim: good_branchE)
  show ?thesis
  proof (cases "v = None")
    case False
    then show ?thesis by (intro exI [of _ "[]"]) simp
  next
    case True
    with b len obtain i t where i: "i < 16" "cs ! i = Some t" "i \<noteq> unat x"
      by (auto simp: busy_def)
    then obtain ks where ks: "tlookup t ks \<noteq> None" using sub good_nonempty len by (metis nth_mem)
    have u: "unat (of_nat i :: u8) = i" using i by (simp add: unat_of_nat)
    then have "of_nat i \<noteq> x" using i(3) by auto
    then show ?thesis using i ks len u by (intro exI [of _ "of_nat i # ks"]) simp
  qed
qed

lemma good_branch_child:
  assumes "good n (TBranch cs v)"
  shows "\<exists>x r. tlookup (TBranch cs v) (x # r) \<noteq> None"
proof -
  from assms obtain i t where i: "i < 16" "cs ! i = Some t" "length cs = 16"
    and sub: "\<And>t. Some t \<in> set cs \<Longrightarrow> good (n - 1) t"
    by (auto elim!: good_branchE simp: busy_def)
  then obtain ks where "tlookup t ks \<noteq> None" using good_nonempty by (metis nth_mem)
  moreover have "unat (of_nat i :: u8) = i" using i by (simp add: unat_of_nat)
  ultimately show ?thesis using i by (intro exI [of _ "of_nat i"] exI [of _ ks]) simp
qed

lemma good_branch_two: "good n (TBranch cs v) \<Longrightarrow> \<exists>ks. tlookup (TBranch cs v) ks \<noteq> None \<and> ks \<noteq> k"
proof (cases k)
  case Nil
  assume "good n (TBranch cs v)"
  then show ?thesis using good_branch_child Nil by (metis list.distinct(1))
next
  case (Cons x r)
  assume "good n (TBranch cs v)"
  then obtain ks where "tlookup (TBranch cs v) ks \<noteq> None" "\<not> starts_with ks k"
    using good_branch_spread [of n cs v x r] Cons by blast
  then show ?thesis using starts_with_self [of k "[]"] by (metis append_Nil2)
qed

lemma tlookup_ext_iff:
  "tlookup (TExt p c) ks \<noteq> None \<longleftrightarrow> (\<exists>r. ks = p @ r \<and> tlookup c r \<noteq> None)"
  by (auto simp: starts_with_iff simp del: tlookup.simps(3) split: if_splits)

lemma good_two_keys:
  assumes "good n t" and "\<And>k v. t \<noteq> TLeaf k v"
  shows "\<exists>ks. tlookup t ks \<noteq> None \<and> ks \<noteq> k"
  using assms(1)
proof (cases rule: good.cases)
  case (ext p cs v)
  then obtain ks where "tlookup (TBranch cs v) ks \<noteq> None" "ks \<noteq> drop (length p) k"
    using good_branch_two by blast
  then have "tlookup t (p @ ks) \<noteq> None" "p @ ks \<noteq> k"
    using ext by (auto simp del: tlookup.simps(3))
  then show ?thesis by blast
qed (use assms good_branch_two in auto)

lemma ext_prefix_clash:
  assumes p: "p = r @ x # a" and q: "q = r @ b" "b = [] \<or> hd b \<noteq> x"
    and g: "good m (TExt q d)" and eq: "tlookup (TExt p c) = tlookup (TExt q d)"
  shows False
proof -
  obtain cs v where d: "d = TBranch cs v" "good (m - length q) (TBranch cs v)"
    using g by (auto elim: good_extE)
  obtain ks where ks: "tlookup d ks \<noteq> None" "\<not> starts_with ks (x # a)"
    using good_branch_spread [OF d(2), of x a] d(1) by blast
  have "tlookup (TExt q d) (q @ ks) \<noteq> None" using ks(1) by (auto simp: tlookup_ext_iff)
  then have "tlookup (TExt p c) (q @ ks) \<noteq> None" unfolding eq .
  then obtain l where "q @ ks = p @ l" unfolding tlookup_ext_iff by blast
  then show False using p q ks(2) by (cases b) (auto simp: starts_with_iff)
qed

lemma good_ext_keys:
  assumes "good n (TExt p c)" and "tlookup (TExt p c) = tlookup (TExt q d)" and "good m (TExt q d)"
  shows "p = q"
proof -
  obtain r a b where s: "p = r @ a" "q = r @ b" "a = [] \<or> b = [] \<or> hd a \<noteq> hd b"
    by (rule common_prefix_split)
  show ?thesis
  proof (cases a)
    case (Cons x a')
    then show ?thesis using ext_prefix_clash [of p r x a' q b m d c] s assms by auto
  next
    case Nil
    then show ?thesis
    proof (cases b)
      case (Cons y b')
      then show ?thesis using ext_prefix_clash [of q r y b' p a n c d] s assms Nil by auto
    qed (use s in simp)
  qed
qed

lemma good_ext_branch_differ:
  assumes "good n (TBranch cs v)" and "p \<noteq> []"
  shows "tlookup (TExt p c) \<noteq> tlookup (TBranch cs v)"
proof
  assume eq: "tlookup (TExt p c) = tlookup (TBranch cs v)"
  obtain x p' where p: "p = x # p'" using assms(2) by (cases p) auto
  obtain ks where "tlookup (TBranch cs v) ks \<noteq> None" "\<not> starts_with ks p"
    using good_branch_spread [OF assms(1), of x p'] p by blast
  then show False using fun_cong [OF eq, of ks] by (simp del: tlookup.simps(3))
qed

lemma good_leaf_unique:
  assumes "good n t" and "tlookup (TLeaf k v) = tlookup t"
  shows "t = TLeaf k v"
proof (cases t)
  case (TLeaf k' v')
  then show ?thesis using fun_cong [OF assms(2), of k] by (auto split: if_splits)
qed (use good_two_keys [OF assms(1), of k] assms(2) in \<open>metis option.distinct(1) tlookup.simps(1) tree.distinct\<close>)+

lemma good_children_unique:
  assumes "length cs = 16" "length ds = 16" and eq: "tlookup (TBranch cs v) = tlookup (TBranch ds w)"
    and c: "\<And>t. Some t \<in> set cs \<Longrightarrow> good n t" and d: "\<And>t. Some t \<in> set ds \<Longrightarrow> good m t"
    and u: "\<And>t u. Some t \<in> set cs \<Longrightarrow> good m u \<Longrightarrow> tlookup t = tlookup u \<Longrightarrow> t = u"
  shows "cs = ds"
proof (rule nth_equalityI)
  fix i assume i: "i < length cs"
  then have ui: "unat (of_nat i :: u8) = i" using assms(1) by (simp add: unat_of_nat)
  have l: "olookup (cs ! i) ks = olookup (ds ! i) ks" for ks
    using fun_cong [OF eq, of "of_nat i # ks"] assms(1,2) i ui by (simp add: olookup_def)
  have sub: "Some t \<in> set cs" if "cs ! i = Some t" for t using that i by (metis nth_mem)
  have subd: "Some t \<in> set ds" if "ds ! i = Some t" for t using that i assms(1,2) by (metis nth_mem)
  show "cs ! i = ds ! i"
  proof (cases "cs ! i"; cases "ds ! i")
    fix t assume "cs ! i = None" "ds ! i = Some t"
    then show ?thesis using l good_nonempty [OF d [OF subd]] by fastforce
  next
    fix t assume "cs ! i = Some t" "ds ! i = None"
    then show ?thesis using l good_nonempty [OF c [OF sub]] by fastforce
  next
    fix t t' assume t: "cs ! i = Some t" "ds ! i = Some t'"
    then have "tlookup t = tlookup t'" using l by auto
    then show ?thesis using u [OF sub d [OF subd]] t by auto
  qed simp
qed (use assms in simp)

theorem good_unique:
  assumes "good n t" and "good m u" and "tlookup t = tlookup u"
  shows "t = u"
  using assms
proof (induction arbitrary: m u rule: good.induct)
  case (leaf k n v)
  then show ?case using good_leaf_unique [OF leaf.prems] by simp
next
  case (ext p n cs v)
  have g: "good n (TExt p (TBranch cs v))" using ext.hyps by (rule good.ext)
  show ?case
  proof (cases u)
    case (TLeaf k w)
    then show ?thesis using good_leaf_unique [OF g, of k w] ext.prems by (simp del: tlookup.simps)
  next
    case (TExt q d)
    then have pq: "p = q" using good_ext_keys [OF g] ext.prems by blast
    have gd: "good (m - length q) d" using TExt ext.prems(1) by (auto elim: good_extE)
    have "tlookup (TBranch cs v) ks = tlookup d ks" for ks
      using fun_cong [OF ext.prems(2), of "p @ ks"] TExt pq by (simp del: tlookup.simps(3))
    then have "TBranch cs v = d" by (intro ext.IH [OF gd]) (rule HOL.ext)
    then show ?thesis using TExt pq by simp
  next
    case (TBranch ds w)
    then show ?thesis
      using good_ext_branch_differ [of m ds w p "TBranch cs v"] ext.prems ext.hyps(1) by blast
  qed
next
  case (branch cs v n)
  have g: "good n (TBranch cs v)" using branch.hyps by (rule good.branch)
  show ?case
  proof (cases u)
    case (TLeaf k w)
    then show ?thesis using good_leaf_unique [OF g, of k w] branch.prems by (simp del: tlookup.simps)
  next
    case (TExt q d)
    then have "q \<noteq> []" using branch.prems(1) by (auto elim: good_extE)
    then show ?thesis using good_ext_branch_differ [OF g, of q d] branch.prems(2) TExt by auto
  next
    case (TBranch ds w)
    then have ds: "length ds = 16" "\<And>t. Some t \<in> set ds \<Longrightarrow> good (m - 1) t"
      using branch.prems(1) by (auto elim: good_branchE)
    have eq: "tlookup (TBranch cs v) = tlookup (TBranch ds w)" using branch.prems(2) TBranch by blast
    have "cs = ds"
      using good_children_unique [OF branch.hyps(1) ds(1) eq branch.hyps(4) ds(2)] branch.IH by blast
    moreover have "v = w" using fun_cong [OF eq, of "[]"] by simp
    ultimately show ?thesis using TBranch by simp
  qed
qed

end
