(* ===== verification/Mpt_Correct.thy ===== *)
theory Mpt_Correct
  imports Mpt_Tree
begin

text \<open>
  The trie over a node store implements the tree specification, and with it a finite map. What the
  trie needs of a store is the locale \<open>node_store\<close>; what it needs of the hash is that no two of the
  nodes in use collide, which \<open>node_universe\<close> states for a set \<open>U\<close> of nodes. The store of the
  program, \<open>SledMptStore\<close>, is an instance for every sled tree and codec that keep their contract
  (locale \<open>sled_contract\<close>).
\<close>

section \<open>Trees in a store\<close>

primrec node_of :: "node_codec \<Rightarrow> tree \<Rightarrow> MptNode" where
  "node_of C (TLeaf k v) = Leaf k v"
| "node_of C (TExt p c) = Extension p (node_hash C (node_of C c))"
| "node_of C (TBranch cs v) = Branch (map (map_option (\<lambda>t. node_hash C (node_of C t))) cs) v"

definition thash :: "node_codec \<Rightarrow> tree \<Rightarrow> hash32" where
  "thash C t = node_hash C (node_of C t)"

abbreviation chashes :: "node_codec \<Rightarrow> tree option list \<Rightarrow> hash32 option list" where
  "chashes C cs \<equiv> map (map_option (thash C)) cs"

lemma node_of_thash [simp]:
  "node_of C (TExt p c) = Extension p (thash C c)"
  "node_of C (TBranch cs v) = Branch (chashes C cs) v"
  by (simp_all add: thash_def [abs_def])

declare node_of.simps(2,3) [simp del]

inductive subtree :: "tree \<Rightarrow> tree \<Rightarrow> bool" where
  self: "subtree t t"
| ext: "subtree u c \<Longrightarrow> subtree u (TExt p c)"
| branch: "Some c \<in> set cs \<Longrightarrow> subtree u c \<Longrightarrow> subtree u (TBranch cs v)"

inductive_simps subtree_leaf: "subtree u (TLeaf k v)"
inductive_simps subtree_ext: "subtree u (TExt p c)"
inductive_simps subtree_branch: "subtree u (TBranch cs v)"

text \<open>All nodes of a tree are in the store under their hash; all of them belong to \<open>U\<close>.\<close>

definition holds :: "node_codec \<Rightarrow> 's MptStore \<Rightarrow> 's \<Rightarrow> tree \<Rightarrow> bool" where
  "holds C S s t = (\<forall>u. subtree u t \<longrightarrow> get_node S s (thash C u) = Inr (Some (node_of C u)))"

definition covered :: "node_codec \<Rightarrow> MptNode set \<Rightarrow> tree \<Rightarrow> bool" where
  "covered C U t = (\<forall>u. subtree u t \<longrightarrow> node_of C u \<in> U)"

text \<open>A clean store holds only nodes of \<open>U\<close>, each under its own hash; \<open>keeps\<close> says that no node
  stored before is lost.\<close>

definition clean :: "node_codec \<Rightarrow> 's MptStore \<Rightarrow> MptNode set \<Rightarrow> 's \<Rightarrow> bool" where
  "clean C S U s = (\<forall>h n. get_node S s h = Inr (Some n) \<longrightarrow> h = node_hash C n \<and> n \<in> U)"

definition keeps :: "node_codec \<Rightarrow> 's MptStore \<Rightarrow> 's \<Rightarrow> 's \<Rightarrow> bool" where
  "keeps C S s s' = (\<forall>n. get_node S s (node_hash C n) = Inr (Some n) \<longrightarrow>
                         get_node S s' (node_hash C n) = Inr (Some n))"

lemma holds_simps:
  "holds C S s (TLeaf k v) \<longleftrightarrow> get_node S s (thash C (TLeaf k v)) = Inr (Some (Leaf k v))"
  "holds C S s (TExt p c) \<longleftrightarrow>
     get_node S s (thash C (TExt p c)) = Inr (Some (Extension p (thash C c))) \<and> holds C S s c"
  "holds C S s (TBranch cs w) \<longleftrightarrow>
     get_node S s (thash C (TBranch cs w)) = Inr (Some (Branch (chashes C cs) w))
     \<and> (\<forall>c. Some c \<in> set cs \<longrightarrow> holds C S s c)"
  by (auto simp: holds_def subtree_leaf subtree_ext subtree_branch)

lemma covered_simps:
  "covered C U (TLeaf k v) \<longleftrightarrow> Leaf k v \<in> U"
  "covered C U (TExt p c) \<longleftrightarrow> Extension p (thash C c) \<in> U \<and> covered C U c"
  "covered C U (TBranch cs w) \<longleftrightarrow> Branch (chashes C cs) w \<in> U
     \<and> (\<forall>c. Some c \<in> set cs \<longrightarrow> covered C U c)"
  by (auto simp: covered_def subtree_leaf subtree_ext subtree_branch)

lemma holds_keeps: "holds C S s t \<Longrightarrow> keeps C S s s' \<Longrightarrow> holds C S s' t"
  by (auto simp: holds_def keeps_def thash_def)

lemma keeps_trans: "keeps C S s s1 \<Longrightarrow> keeps C S s1 s2 \<Longrightarrow> keeps C S s s2"
  by (simp add: keeps_def)

lemma keeps_refl [simp]: "keeps C S s s"
  by (simp add: keeps_def)

lemma load_node_Some: "get_node S s h = Inr (Some n) \<Longrightarrow> load_node S s h = Inr n"
  by (simp add: load_node_def)

text \<open>The root node of a stored tree.\<close>

lemma load_root: "holds C S s t \<Longrightarrow> load_node S s (thash C t) = Inr (node_of C t)"
  by (auto simp: holds_def intro!: load_node_Some subtree.self)

section \<open>Lookup\<close>

lemma get_recursive_correct:
  assumes "good n t" and "holds C S s t" and "nib ns" and "length ns \<le> n" and "n < fuel"
  shows "get_recursive fuel S s (Some (thash C t)) ns = Inr (tlookup t ns)"
  using assms
proof (induction arbitrary: ns fuel rule: good.induct)
  case (leaf k n v)
  then obtain f where "fuel = Suc f" by (cases fuel) auto
  then show ?case using load_root [OF leaf(3)] by auto
next
  case (ext p n cs v)
  then obtain f where f: "fuel = Suc f" by (cases fuel) auto
  have "n - length p < f" using ext.prems(4) ext.hyps(1,2) f by (cases p) auto
  then have "get_recursive f S s (Some (thash C (TBranch cs v))) (drop (length p) ns)
      = Inr (tlookup (TBranch cs v) (drop (length p) ns))"
    using ext.prems ext.hyps f by (intro ext.IH) (auto simp: holds_simps(2))
  then show ?case using load_root [OF ext.prems(1)] f by (simp del: tlookup.simps(3))
next
  case (branch cs v n)
  then obtain f where f: "fuel = Suc f" by (cases fuel) auto
  show ?case
  proof (cases ns)
    case (Cons nb rest)
    then have nb: "unat nb < length cs" using branch by simp
    have "get_recursive f S s (map_option (thash C) (cs ! unat nb)) rest = Inr (olookup (cs ! unat nb) rest)"
    proof (cases "cs ! unat nb")
      case None
      then show ?thesis using f branch by (cases f) auto
    next
      case (Some t)
      then have "Some t \<in> set cs" using nb by (metis nth_mem)
      then show ?thesis using Some branch Cons f by (auto simp: holds_simps(3))
    qed
    then show ?thesis using load_root [OF branch.prems(1)] f Cons nb
      by (simp add: child_at_def olookup_def)
  qed (use load_root [OF branch.prems(1)] f in simp)
qed

section \<open>Keys\<close>

lemma nib_key_to_nibbles [simp]: "nib (key_to_nibbles key)"
proof (induction key rule: key_to_nibbles.induct)
  case (2 b key)
  have "unat (drop_bit 4 b) < 16"
    using unsigned_less [of b, where ?'a = nat] by (simp add: drop_bit_eq_div unat_div_distrib)
  moreover have "unat (b AND 0x0F) < 16"
    using word_and_le1 [of b "0x0F"] by (simp add: word_le_nat_alt)
  ultimately show ?case using 2 by simp
qed simp

lemma length_key_to_nibbles: "length (key_to_nibbles key) = 2 * length key"
  by (induction key rule: key_to_nibbles.induct) auto

lemma nibbles_of_byte: "push_bit 4 (drop_bit 4 b) + (b AND 0x0F) = (b :: u8)"
proof -
  have "b AND 0x0F = take_bit 4 b" by (simp add: take_bit_eq_mask mask_numeral)
  then show ?thesis using bits_ident [of 4 b] by (simp only:)
qed

lemma key_to_nibbles_inj: "key_to_nibbles a = key_to_nibbles b \<Longrightarrow> a = b"
proof (induction a arbitrary: b)
  case (Cons x a)
  then obtain y b' where b: "b = y # b'" by (cases b) auto
  with Cons.prems have "drop_bit 4 x = drop_bit 4 y \<and> x AND 0x0F = y AND 0x0F \<and> key_to_nibbles a = key_to_nibbles b'"
    by (simp only: key_to_nibbles.simps list.inject)
  moreover from this have "x = y" using nibbles_of_byte [of x] nibbles_of_byte [of y] by argo
  ultimately show ?case using Cons.IH b by simp
next
  case Nil
  then show ?case by (cases b) auto
qed

lemma key_to_nibbles_eq [simp]: "key_to_nibbles a = key_to_nibbles b \<longleftrightarrow> a = b"
  using key_to_nibbles_inj by blast

lemma MPT_FUEL_enough: "64 < MPT_FUEL" "0 < MPT_FUEL"
  by (simp_all add: MPT_FUEL_def)

lemma recursive_no_root:
  "0 < fuel \<Longrightarrow> get_recursive fuel S s None ns = Inr None"
  "0 < fuel \<Longrightarrow> insert_recursive fuel S None ns v s = put_node S (Leaf ns v) s"
  by (cases fuel; simp)+

section \<open>Sequences of insertions\<close>

fun trie_insert_all ::
  "'s MptStore \<Rightarrow> (bytes \<times> bytes) list \<Rightarrow> 's MerklePatriciaTrie \<Rightarrow> (string + unit) \<times> 's MerklePatriciaTrie" where
  "trie_insert_all S [] t = (Inr (), t)"
| "trie_insert_all S ((k, v) # kvs) t = io_then (trie_insert S k v t) (\<lambda>_. trie_insert_all S kvs)"

fun tree_insert_all :: "(bytes \<times> bytes) list \<Rightarrow> tree option \<Rightarrow> tree option" where
  "tree_insert_all [] T = T"
| "tree_insert_all ((k, v) # kvs) T = tree_insert_all kvs (Some (oinsert T (key_to_nibbles k) v))"

fun covered_all :: "node_codec \<Rightarrow> MptNode set \<Rightarrow> (bytes \<times> bytes) list \<Rightarrow> tree option \<Rightarrow> bool" where
  "covered_all C U [] T = True"
| "covered_all C U ((k, v) # kvs) T =
     (covered C U (oinsert T (key_to_nibbles k) v)
      \<and> covered_all C U kvs (Some (oinsert T (key_to_nibbles k) v)))"

section \<open>The contract of a node store\<close>

locale node_store =
  fixes C :: node_codec
    and S :: "'s MptStore"
    and ok :: "'s \<Rightarrow> bool"
  assumes get_ok: "ok s \<Longrightarrow> \<exists>r. get_node S s h = Inr r"
    and put_ok: "ok s \<Longrightarrow> \<exists>s'. put_node S n s = (Inr (node_hash C n), s') \<and> ok s'
          \<and> (\<forall>h. get_node S s' h = (if h = node_hash C n then Inr (Some n) else get_node S s h))"
    and delete_ok: "ok s \<Longrightarrow> \<exists>s'. delete_node S h s = (Inr (), s') \<and> ok s'
          \<and> (\<forall>k. get_node S s' k = (if k = h then Inr None else get_node S s k))"

definition fine :: "node_codec \<Rightarrow> 's MptStore \<Rightarrow> ('s \<Rightarrow> bool) \<Rightarrow> MptNode set \<Rightarrow> 's \<Rightarrow> bool" where
  "fine C S ok U s = (ok s \<and> clean C S U s)"

definition steps :: "node_codec \<Rightarrow> 's MptStore \<Rightarrow> ('s \<Rightarrow> bool) \<Rightarrow> MptNode set \<Rightarrow> 's \<Rightarrow> 's \<Rightarrow> bool" where
  "steps C S ok U s s' = (fine C S ok U s' \<and> keeps C S s s')"

text \<open>The trie \<open>t\<close> represents the tree \<open>T\<close>; a trie without a root represents no tree.\<close>

definition trie_repr ::
  "node_codec \<Rightarrow> 's MptStore \<Rightarrow> ('s \<Rightarrow> bool) \<Rightarrow> MptNode set \<Rightarrow> 's MerklePatriciaTrie \<Rightarrow> tree option \<Rightarrow> bool" where
  "trie_repr C S ok U t T = (fine C S ok U (mpt_store t) \<and> mpt_root t = map_option (thash C) T
     \<and> (\<forall>u. T = Some u \<longrightarrow> good 64 u \<and> holds C S (mpt_store t) u))"

lemma steps_trans: "steps C S ok U s s1 \<Longrightarrow> steps C S ok U s1 s2 \<Longrightarrow> steps C S ok U s s2"
  by (auto simp: steps_def intro: keeps_trans)

lemma steps_refl: "fine C S ok U s \<Longrightarrow> steps C S ok U s s"
  by (simp add: steps_def)

lemma steps_holds: "steps C S ok U s s' \<Longrightarrow> holds C S s t \<Longrightarrow> holds C S s' t"
  by (auto simp: steps_def intro: holds_keeps)

lemma steps_fine: "steps C S ok U s s' \<Longrightarrow> fine C S ok U s'"
  by (simp add: steps_def)

lemma empty_children_chashes: "empty_children = chashes C no_children"
  by (simp add: empty_children_def no_children_def)

lemma covered_under: "covered C U (under p X) \<Longrightarrow> Some c \<in> set (fst X) \<Longrightarrow> covered C U c"
  by (auto simp: under_def ext_opt_def covered_simps split: if_splits)

lemma hang_member:
  "slot_free rest X \<Longrightarrow> rest = nb # suffix \<Longrightarrow> Some (TLeaf suffix v) \<in> set (fst (hang rest v X))"
  by (cases X) (auto simp: hang_def slot_free_def intro: set_update_memI)

lemma hang_keep:
  assumes "slot_free rest X" and "Some c \<in> set (fst X)"
  shows "Some c \<in> set (fst (hang rest v X))"
proof -
  obtain cs bv where X: "X = (cs, bv)" by fastforce
  obtain i where i: "i < length cs" "cs ! i = Some c" using assms(2) X by (auto simp: in_set_conv_nth)
  show ?thesis
  proof (cases rest)
    case (Cons nb suffix)
    then have "(cs[unat nb := Some (TLeaf suffix v)]) ! i = Some c"
      using i assms(1) X by (auto simp: slot_free_def nth_list_update)
    then show ?thesis using Cons X i by (auto simp: hang_def in_set_conv_nth)
  qed (use X assms in \<open>simp add: hang_def\<close>)
qed

locale node_universe = node_store C S ok
  for C :: node_codec and S :: "'s MptStore" and ok :: "'s \<Rightarrow> bool" +
  fixes U :: "MptNode set"
  assumes no_collision: "inj_on (node_hash C) U"
begin

lemma put_step:
  assumes "fine C S ok U s" and "n \<in> U"
  obtains s' where "put_node S n s = (Inr (node_hash C n), s')" "steps C S ok U s s'"
    "get_node S s' (node_hash C n) = Inr (Some n)"
proof -
  obtain s' where s': "put_node S n s = (Inr (node_hash C n), s')" "ok s'"
    "\<And>h. get_node S s' h = (if h = node_hash C n then Inr (Some n) else get_node S s h)"
    using put_ok [of s n] assms(1) by (auto simp: fine_def)
  have "keeps C S s s'"
    using assms no_collision s'(3) unfolding keeps_def fine_def clean_def by (metis inj_onD)
  moreover have "clean C S U s'"
    using assms s'(3) by (auto simp: clean_def fine_def split: if_splits)
  ultimately show ?thesis using that [OF s'(1)] s'(2,3) by (simp add: steps_def fine_def)
qed

text \<open>Storing the root node of a tree whose subtrees are stored completes the tree.\<close>

lemma put_leaf:
  assumes "fine C S ok U s" and "covered C U (TLeaf k v)"
  obtains s' where "put_node S (Leaf k v) s = (Inr (thash C (TLeaf k v)), s')"
    "steps C S ok U s s'" "holds C S s' (TLeaf k v)"
proof -
  have "Leaf k v \<in> U" using assms(2) by (simp add: covered_simps)
  with assms(1) obtain s' where "put_node S (Leaf k v) s = (Inr (node_hash C (Leaf k v)), s')"
      "steps C S ok U s s'" "get_node S s' (node_hash C (Leaf k v)) = Inr (Some (Leaf k v))"
    by (rule put_step)
  then show ?thesis using that by (simp add: holds_simps thash_def)
qed

lemma put_ext:
  assumes "fine C S ok U s" and "covered C U (TExt p c)" and "holds C S s c"
  obtains s' where "put_node S (Extension p (thash C c)) s = (Inr (thash C (TExt p c)), s')"
    "steps C S ok U s s'" "holds C S s' (TExt p c)"
proof -
  have "Extension p (thash C c) \<in> U" using assms(2) by (simp add: covered_simps)
  with assms(1) obtain s' where "put_node S (Extension p (thash C c)) s = (Inr (node_hash C (Extension p (thash C c))), s')"
      and st: "steps C S ok U s s'"
      and "get_node S s' (node_hash C (Extension p (thash C c))) = Inr (Some (Extension p (thash C c)))"
    by (rule put_step)
  then show ?thesis using that steps_holds [OF st assms(3)] by (simp add: holds_simps thash_def [of C "TExt p c"])
qed

lemma put_branch:
  assumes "fine C S ok U s" and "covered C U (TBranch cs v)" and "\<And>c. Some c \<in> set cs \<Longrightarrow> holds C S s c"
  obtains s' where "put_node S (Branch (chashes C cs) v) s = (Inr (thash C (TBranch cs v)), s')"
    "steps C S ok U s s'" "holds C S s' (TBranch cs v)"
proof -
  have "Branch (chashes C cs) v \<in> U" using assms(2) by (simp add: covered_simps)
  with assms(1) obtain s' where "put_node S (Branch (chashes C cs) v) s = (Inr (node_hash C (Branch (chashes C cs) v)), s')"
      and st: "steps C S ok U s s'"
      and "get_node S s' (node_hash C (Branch (chashes C cs) v)) = Inr (Some (Branch (chashes C cs) v))"
    by (rule put_step)
  then show ?thesis
    using that steps_holds [OF st assms(3)] by (simp add: holds_simps thash_def [of C "TBranch cs v"])
qed

lemma put_branch_under_correct:
  assumes "fine C S ok U s" and "covered C U (under p (cs, v))" and "\<And>c. Some c \<in> set cs \<Longrightarrow> holds C S s c"
  obtains s' where "put_branch_under S p (chashes C cs) v s = (Inr (thash C (under p (cs, v))), s')"
    "steps C S ok U s s'" "holds C S s' (under p (cs, v))"
proof -
  have "covered C U (TBranch cs v)"
    using assms(2) by (auto simp: under_def ext_opt_def covered_simps split: if_splits)
  with assms(1) obtain s1 where s1: "put_node S (Branch (chashes C cs) v) s = (Inr (thash C (TBranch cs v)), s1)"
    "steps C S ok U s s1" "holds C S s1 (TBranch cs v)"
    using assms(3) by (rule put_branch)
  show ?thesis
  proof (cases "p = []")
    case True
    then show ?thesis using that s1 by (simp add: put_branch_under_def under_def ext_opt_def)
  next
    case False
    then have "covered C U (TExt p (TBranch cs v))" using assms(2) by (simp add: under_def ext_opt_def)
    then obtain s2 where "put_node S (Extension p (thash C (TBranch cs v))) s1 = (Inr (thash C (TExt p (TBranch cs v))), s2)"
      "steps C S ok U s1 s2" "holds C S s2 (TExt p (TBranch cs v))"
      using put_ext [OF steps_fine [OF s1(2)] _ s1(3)] by blast
    then show ?thesis using that s1 False steps_trans [OF s1(2)]
      by (simp add: put_branch_under_def under_def ext_opt_def)
  qed
qed

lemma hang_value_correct:
  assumes "fine C S ok U s" and "nib rest" and "length cs = 16"
    and "\<And>nb suffix. rest = nb # suffix \<Longrightarrow> covered C U (TLeaf suffix v)"
    and "\<And>c. Some c \<in> set cs \<Longrightarrow> holds C S s c"
  obtains s' cs' bv' where "hang rest v (cs, bv) = (cs', bv')"
    "hang_value S rest v (chashes C cs) bv s = (Inr (chashes C cs', bv'), s')"
    "steps C S ok U s s'" "length cs' = 16" "\<And>c. Some c \<in> set cs' \<Longrightarrow> holds C S s' c"
proof (cases rest)
  case Nil
  then show ?thesis
    using assms steps_refl by (intro that [of cs "Some v" s]) (auto simp: hang_def hang_value_def)
next
  case (Cons nb suffix)
  obtain s' where s': "put_node S (Leaf suffix v) s = (Inr (thash C (TLeaf suffix v)), s')"
    "steps C S ok U s s'" "holds C S s' (TLeaf suffix v)"
    using put_leaf [OF assms(1) assms(4) [OF Cons]] by blast
  show ?thesis
  proof (rule that [of "cs[unat nb := Some (TLeaf suffix v)]" bv s'])
    show "hang_value S rest v (chashes C cs) bv s = (Inr (chashes C (cs[unat nb := Some (TLeaf suffix v)]), bv), s')"
      using Cons assms(2,3) s' by (simp add: hang_value_def map_update)
    show "holds C S s' c" if "Some c \<in> set (cs[unat nb := Some (TLeaf suffix v)])" for c
      using Some_in_update [OF that] s'(3) steps_holds [OF s'(2) assms(5)] by auto
  qed (use Cons s' assms(3) in \<open>simp_all add: hang_def\<close>)
qed

lemma split_leaf_correct:
  assumes s: "fine C S ok U s" and n: "nib a" "nib b"
    and d: "a = [] \<or> b = [] \<or> hd a \<noteq> hd b" "\<not> (a = [] \<and> b = [])"
    and cp: "common_prefix (p @ a) (p @ b) = length p"
    and cov: "covered C U (tinsert (TLeaf (p @ a) w) (p @ b) v)"
  obtains s' where "split_leaf S (p @ a) w (p @ b) v s = (Inr (thash C (tinsert (TLeaf (p @ a) w) (p @ b) v)), s')"
    "steps C S ok U s s'" "holds C S s' (tinsert (TLeaf (p @ a) w) (p @ b) v)"
proof -
  let ?X1 = "hang a w (no_children, None)" and ?X2 = "hang b v (hang a w (no_children, None))"
  have t: "tinsert (TLeaf (p @ a) w) (p @ b) v = under p ?X2" using tinsert_leaf_split [OF cp d(2)] .
  have f: "slot_free a (no_children, None)" using n by (auto simp: slot_free_def split: list.split)
  have g: "slot_free b ?X1" by (rule slot_free_hang [OF n d])
  have "covered C U (TLeaf suffix w)" if "a = nb # suffix" for nb suffix
    using covered_under [of C U p ?X2] cov t hang_keep [OF g hang_member [OF f that]] by metis
  then obtain s1 cs1 v1 where 1: "?X1 = (cs1, v1)"
      "hang_value S a w (chashes C no_children) None s = (Inr (chashes C cs1, v1), s1)"
      "steps C S ok U s s1" "length cs1 = 16" "\<And>c. Some c \<in> set cs1 \<Longrightarrow> holds C S s1 c"
    using hang_value_correct [OF s n(1) length_no_children, of w None] Some_no_children by metis
  have "covered C U (TLeaf suffix v)" if "b = nb # suffix" for nb suffix
    using covered_under [of C U p ?X2] cov t hang_member [OF g that] by metis
  then obtain s2 cs2 v2 where 2: "?X2 = (cs2, v2)"
      "hang_value S b v (chashes C cs1) v1 s1 = (Inr (chashes C cs2, v2), s2)"
      "steps C S ok U s1 s2" "\<And>c. Some c \<in> set cs2 \<Longrightarrow> holds C S s2 c"
    using hang_value_correct [OF steps_fine [OF 1(3)] n(2) 1(4), of v v1] 1(1,5) by metis
  obtain s3 where 3: "put_branch_under S p (chashes C cs2) v2 s2 = (Inr (thash C (under p (cs2, v2))), s3)"
      "steps C S ok U s2 s3" "holds C S s3 (under p (cs2, v2))"
    using put_branch_under_correct [OF steps_fine [OF 2(3)] _ 2(4)] cov t 2(1) by metis
  have "split_leaf S (p @ a) w (p @ b) v s = (Inr (thash C (under p (cs2, v2))), s3)"
    using 1(2) 2(2) 3(1) d(2) cp by (cases "a = []") (simp_all add: split_leaf_def Let_def empty_children_chashes [of C])
  then show ?thesis using that t 2(1) 3(3) steps_trans [OF steps_trans [OF 1(3) 2(3)] 3(2)] by metis
qed

lemma split_extension_correct:
  assumes s: "fine C S ok U s" "holds C S s c" and n: "nib (x # a)" "nib b"
    and d: "b = [] \<or> hd b \<noteq> x"
    and cp: "common_prefix (p @ x # a) (p @ b) = length p"
    and cov: "covered C U (tinsert (TExt (p @ x # a) c) (p @ b) v)"
  obtains s' where "split_extension S (p @ x # a) (thash C c) (p @ b) v s
       = (Inr (thash C (tinsert (TExt (p @ x # a) c) (p @ b) v)), s')"
    "steps C S ok U s s'" "holds C S s' (tinsert (TExt (p @ x # a) c) (p @ b) v)"
proof -
  let ?old = "ext_opt a c"
  let ?X1 = "(no_children[unat x := Some ?old], None)" let ?X2 = "hang b v ?X1"
  have x: "unat x < 16" using n by simp
  have t: "tinsert (TExt (p @ x # a) c) (p @ b) v = under p ?X2" using tinsert_ext_split [OF cp] .
  have g: "slot_free b ?X1" using n d x by (auto simp: slot_free_def nth_list_update split: list.split)
  have "Some ?old \<in> set (fst ?X2)" using x by (intro hang_keep [OF g]) (simp add: set_update_memI)
  then have "covered C U ?old" using covered_under [of C U p ?X2] cov t by metis
  then obtain s1 where 1: "(if a = [] then (Inr (thash C c), s) else put_node S (Extension a (thash C c)) s)
        = (Inr (thash C ?old), s1)" "steps C S ok U s s1" "holds C S s1 ?old"
    using put_ext [OF s(1) _ s(2), of a] s steps_refl [OF s(1)] by (cases "a = []") (auto simp: ext_opt_def)
  have "covered C U (TLeaf suffix v)" if "b = nb # suffix" for nb suffix
    using covered_under [of C U p ?X2] cov t hang_member [OF g that] by metis
  moreover have "holds C S s1 k" if "Some k \<in> set (no_children[unat x := Some ?old])" for k
    using Some_in_update [OF that] 1(3) by auto
  ultimately obtain s2 cs2 v2 where 2: "?X2 = (cs2, v2)"
      "hang_value S b v (chashes C (no_children[unat x := Some ?old])) None s1 = (Inr (chashes C cs2, v2), s2)"
      "steps C S ok U s1 s2" "\<And>c. Some c \<in> set cs2 \<Longrightarrow> holds C S s2 c"
    using hang_value_correct [OF steps_fine [OF 1(2)] n(2), of "no_children[unat x := Some ?old]" v None]
      length_list_update length_no_children by metis
  obtain s3 where 3: "put_branch_under S p (chashes C cs2) v2 s2 = (Inr (thash C (under p (cs2, v2))), s3)"
      "steps C S ok U s2 s3" "holds C S s3 (under p (cs2, v2))"
    using put_branch_under_correct [OF steps_fine [OF 2(3)] _ 2(4)] cov t 2(1) by metis
  have "split_extension S (p @ x # a) (thash C c) (p @ b) v s = (Inr (thash C (under p (cs2, v2))), s3)"
    using 1(1) 2(2) 3(1) x cp
    by (cases "a = []") (simp_all add: split_extension_def Let_def empty_children_chashes [of C] map_update)
  then show ?thesis using that t 2(1) 3(3) steps_trans [OF steps_trans [OF 1(2) 2(3)] 3(2)] by metis
qed

lemma insert_recursive_correct:
  assumes "good n t" and "fine C S ok U s" and "holds C S s t" and "nib ns" and "length ns \<le> n"
    and "n < fuel" and "covered C U (tinsert t ns v)"
  shows "\<exists>s'. insert_recursive fuel S (Some (thash C t)) ns v s = (Inr (thash C (tinsert t ns v)), s')
    \<and> steps C S ok U s s' \<and> holds C S s' (tinsert t ns v)"
  using assms
proof (induction arbitrary: ns fuel s rule: good.induct)
  case (leaf k n w)
  obtain f where f: "fuel = Suc f" using leaf.prems(5) by (cases fuel) auto
  obtain p a b where s: "k = p @ a" "ns = p @ b" "common_prefix k ns = length p"
      "a = [] \<or> b = [] \<or> hd a \<noteq> hd b" by (rule common_prefix_split)
  have r: "insert_recursive fuel S (Some (thash C (TLeaf k w))) ns v s = split_leaf S k w ns v s"
    using load_root [OF leaf.prems(2)] f by simp
  show ?case
  proof (cases "a = [] \<and> b = []")
    case True
    then have "split_leaf S k w ns v s = put_node S (Leaf k v) s" "tinsert (TLeaf k w) ns v = TLeaf k v"
      using s by (auto simp: split_leaf_def Let_def)
    then show ?thesis using put_leaf [OF leaf.prems(1), of k v] leaf.prems(6) r by metis
  next
    case False
    then show ?thesis
      using split_leaf_correct [OF leaf.prems(1) _ _ s(4), of p w v] leaf s r
      by (simp del: tinsert.simps) blast
  qed
next
  case (ext p n cs w)
  obtain f where f: "fuel = Suc f" using ext.prems(5) by (cases fuel) auto
  let ?t = "TBranch cs w"
  have h: "holds C S s ?t" using ext.prems(2) by (simp add: holds_simps)
  obtain q a b where s: "p = q @ a" "ns = q @ b" "common_prefix p ns = length q"
      "a = [] \<or> b = [] \<or> hd a \<noteq> hd b" by (rule common_prefix_split)
  show ?case
  proof (cases a)
    case Nil
    then have p: "ns = p @ b" "common_prefix p ns = length p" using s by simp_all
    have cov: "covered C U (TExt p (tinsert ?t b v))" using ext.prems(6) p(1) tinsert_ext_through by metis
    have lt: "n - length p < f" using ext.prems(5) ext.hyps(1,2) f by (cases p) auto
    have "nib b" "length b \<le> n - length p" using ext.prems(3,4) p(1) by auto
    then obtain s1 where s1: "insert_recursive f S (Some (thash C ?t)) b v s = (Inr (thash C (tinsert ?t b v)), s1)"
        "steps C S ok U s s1" "holds C S s1 (tinsert ?t b v)"
      using ext.IH [OF ext.prems(1) h _ _ lt, of b] cov by (auto simp: covered_simps(2))
    obtain s2 where s2: "put_node S (Extension p (thash C (tinsert ?t b v))) s1
         = (Inr (thash C (TExt p (tinsert ?t b v))), s2)" "steps C S ok U s1 s2" "holds C S s2 (TExt p (tinsert ?t b v))"
      using put_ext [OF steps_fine [OF s1(2)] cov s1(3)] by blast
    have "insert_recursive fuel S (Some (thash C (TExt p ?t))) ns v s = (Inr (thash C (TExt p (tinsert ?t b v))), s2)"
      using load_root [OF ext.prems(2)] f p(2) s1(1) s2(1) by (simp add: p(1) del: tinsert.simps)
    then show ?thesis using s2 steps_trans [OF s1(2) s2(2)] p(1) tinsert_ext_through by metis
  next
    case (Cons x a')
    have r: "insert_recursive fuel S (Some (thash C (TExt p ?t))) ns v s = split_extension S p (thash C ?t) ns v s"
      using load_root [OF ext.prems(2)] f s(1,3) Cons by simp
    have "nib (x # a')" "nib b" "b = [] \<or> hd b \<noteq> x" "common_prefix (q @ x # a') (q @ b) = length q"
      using ext s Cons by auto
    then obtain s' where "split_extension S (q @ x # a') (thash C ?t) (q @ b) v s
        = (Inr (thash C (tinsert (TExt (q @ x # a') ?t) (q @ b) v)), s')" "steps C S ok U s s'"
        "holds C S s' (tinsert (TExt (q @ x # a') ?t) (q @ b) v)"
      using split_extension_correct [OF ext.prems(1) h] ext.prems(6) s(1,2) Cons by metis
    then show ?thesis using r s(1,2) Cons by metis
  qed
next
  case (branch cs w n)
  obtain f where f: "fuel = Suc f" using branch.prems(5) by (cases fuel) auto
  have hc: "holds C S s c" if "Some c \<in> set cs" for c
    using that branch.prems(2) by (auto simp: holds_simps)
  note ld = load_root [OF branch.prems(2)]
  show ?case
  proof (cases ns)
    case Nil
    then obtain s' where "put_node S (Branch (chashes C cs) (Some v)) s = (Inr (thash C (TBranch cs (Some v))), s')"
        "steps C S ok U s s'" "holds C S s' (TBranch cs (Some v))"
      using put_branch [OF branch.prems(1) _ hc, where v = "Some v"] branch.prems(6) by auto
    then show ?thesis using ld f Nil by simp
  next
    case (Cons nb rest)
    then have nb: "unat nb < length cs" using branch by simp
    define t' where "t' = (case cs ! unat nb of None \<Rightarrow> TLeaf rest v | Some t \<Rightarrow> tinsert t rest v)"
    let ?t = "TBranch (cs[unat nb := Some t']) w"
    have t: "tinsert (TBranch cs w) ns v = ?t" using Cons nb by (simp add: t'_def)
    have "Some t' \<in> set (cs[unat nb := Some t'])" using nb by (rule set_update_memI)
    then have cov: "covered C U t'" "covered C U ?t" using branch.prems(6) t by (auto simp: covered_simps(3))
    have "\<exists>s1. insert_recursive f S (map_option (thash C) (cs ! unat nb)) rest v s = (Inr (thash C t'), s1)
        \<and> steps C S ok U s s1 \<and> holds C S s1 t'"
    proof (cases "cs ! unat nb")
      case None
      obtain f' where "f = Suc f'" using f branch by (cases f) auto
      then show ?thesis using put_leaf [OF branch.prems(1), of rest v] cov(1) None by (auto simp: t'_def)
    next
      case (Some t)
      then have t: "Some t \<in> set cs" using nb by (metis nth_mem)
      show ?thesis using branch.IH [OF t branch.prems(1) hc [OF t], of rest f] branch.prems Cons f cov(1) Some
        by (auto simp: t'_def)
    qed
    then obtain s1 where s1: "insert_recursive f S (map_option (thash C) (cs ! unat nb)) rest v s = (Inr (thash C t'), s1)"
        "steps C S ok U s s1" "holds C S s1 t'" by blast
    have "holds C S s1 c" if "Some c \<in> set (cs[unat nb := Some t'])" for c
      using Some_in_update [OF that] s1(3) steps_holds [OF s1(2) hc] by auto
    then obtain s2 where "put_node S (Branch (chashes C (cs[unat nb := Some t'])) w) s1 = (Inr (thash C ?t), s2)"
        "steps C S ok U s1 s2" "holds C S s2 ?t"
      using put_branch [OF steps_fine [OF s1(2)] cov(2)] by blast
    then show ?thesis using ld f Cons nb s1 t steps_trans [OF s1(2)]
      by (auto simp: child_at_def map_update simp del: tinsert.simps)
  qed
qed

lemma trie_get_correct:
  assumes "trie_repr C S ok U t T" and "length key = 32"
  shows "trie_get S t key = Inr (olookup T (key_to_nibbles key))"
proof (cases T)
  case None
  then show ?thesis using assms(1) by (simp add: trie_get_def trie_repr_def recursive_no_root MPT_FUEL_enough)
next
  case (Some u)
  then show ?thesis
    using assms get_recursive_correct [of 64 u C S "mpt_store t" "key_to_nibbles key" MPT_FUEL]
    by (simp add: trie_get_def trie_repr_def MPT_FUEL_enough length_key_to_nibbles)
qed

lemma trie_insert_correct:
  assumes r: "trie_repr C S ok U t T" and k: "length key = 32"
    and cov: "covered C U (oinsert T (key_to_nibbles key) v)"
  obtains t' where "trie_insert S key v t = (Inr (thash C (oinsert T (key_to_nibbles key) v)), t')"
    "trie_repr C S ok U t' (Some (oinsert T (key_to_nibbles key) v))" "keeps C S (mpt_store t) (mpt_store t')"
proof -
  let ?ns = "key_to_nibbles key" and ?s = "mpt_store t"
  have ns: "nib ?ns" "length ?ns = 64" using k by (simp_all add: length_key_to_nibbles)
  have fine: "fine C S ok U ?s" using r by (simp add: trie_repr_def)
  have "\<exists>s'. insert_recursive MPT_FUEL S (mpt_root t) ?ns v ?s = (Inr (thash C (oinsert T ?ns v)), s')
      \<and> steps C S ok U ?s s' \<and> holds C S s' (oinsert T ?ns v) \<and> good 64 (oinsert T ?ns v)"
  proof (cases T)
    case None
    then obtain s' where "put_node S (Leaf ?ns v) ?s = (Inr (thash C (TLeaf ?ns v)), s')"
        "steps C S ok U ?s s'" "holds C S s' (TLeaf ?ns v)"
      using put_leaf [OF fine, of ?ns v] cov by (auto simp: oinsert_def)
    then show ?thesis
      using r None ns by (simp add: trie_repr_def oinsert_def recursive_no_root MPT_FUEL_enough good.leaf)
  next
    case (Some u)
    then have u: "good 64 u" "holds C S ?s u" "mpt_root t = Some (thash C u)" using r by (auto simp: trie_repr_def)
    then show ?thesis
      using insert_recursive_correct [OF u(1) fine u(2) ns(1), of MPT_FUEL v] good_tinsert [OF u(1) ns(1)] ns cov Some
      by (simp add: oinsert_def MPT_FUEL_enough)
  qed
  then obtain s' where "insert_recursive MPT_FUEL S (mpt_root t) ?ns v ?s = (Inr (thash C (oinsert T ?ns v)), s')"
      "steps C S ok U ?s s'" "holds C S s' (oinsert T ?ns v)" "good 64 (oinsert T ?ns v)" by blast
  then show ?thesis
    using that by (simp add: trie_insert_def trie_repr_def steps_fine steps_def)
qed

lemma trie_insert_all_correct:
  assumes "trie_repr C S ok U t T" and "\<forall>(k, v) \<in> set kvs. length k = 32"
    and "covered_all C U kvs T"
  shows "\<exists>t'. trie_insert_all S kvs t = (Inr (), t') \<and> trie_repr C S ok U t' (tree_insert_all kvs T)
           \<and> keeps C S (mpt_store t) (mpt_store t')"
  using assms
proof (induction kvs arbitrary: t T)
  case (Cons kv kvs)
  obtain k v where kv: "kv = (k, v)" by fastforce
  with Cons.prems obtain t1 where
    "trie_insert S k v t = (Inr (thash C (oinsert T (key_to_nibbles k) v)), t1)"
    "trie_repr C S ok U t1 (Some (oinsert T (key_to_nibbles k) v))" "keeps C S (mpt_store t) (mpt_store t1)"
    using trie_insert_correct [OF Cons.prems(1), of k v] by auto
  then show ?case
    using Cons.IH [of t1 "Some (oinsert T (key_to_nibbles k) v)"] Cons.prems(2,3) kv
    by (auto intro: keeps_trans)
qed simp

end

section \<open>The trie as a map\<close>

lemma olookup_oinsert:
  assumes "\<And>u. T = Some u \<Longrightarrow> good n u" and "nib ns"
  shows "olookup (Some (oinsert T ns v)) ks = (if ks = ns then Some v else olookup T ks)"
  using assms tlookup_tinsert [of n _ ns v ks] by (cases T) (auto simp: oinsert_def)

lemma good_oinsert:
  assumes "\<And>u. T = Some u \<Longrightarrow> good n u" and "nib ns" and "length ns \<le> n"
  shows "good n (oinsert T ns v)"
  using assms good_tinsert [of n _ ns v] by (cases T) (auto simp: oinsert_def intro: good.leaf)

lemma tree_insert_all_good:
  assumes "\<And>u. T = Some u \<Longrightarrow> good 64 u" and "\<forall>(k, v) \<in> set kvs. length k = 32"
  shows "tree_insert_all kvs T = Some u \<Longrightarrow> good 64 u"
  using assms
proof (induction kvs arbitrary: T)
  case (Cons kv kvs)
  then show ?case
    using good_oinsert [of T 64 "key_to_nibbles (fst kv)" "snd kv"]
    by (cases kv) (auto simp: length_key_to_nibbles)
qed simp

lemma tree_insert_all_lookup:
  assumes "\<And>u. T = Some u \<Longrightarrow> good 64 u" and "\<forall>(k, v) \<in> set kvs. length k = 32"
    and "length key = 32"
  shows "olookup (tree_insert_all kvs T) (key_to_nibbles key)
       = (case map_of (rev kvs) key of Some v \<Rightarrow> Some v | None \<Rightarrow> olookup T (key_to_nibbles key))"
  using assms
proof (induction kvs arbitrary: T)
  case (Cons kv kvs)
  obtain k v where kv: "kv = (k, v)" by fastforce
  have g: "good 64 (oinsert T (key_to_nibbles k) v)"
    using Cons.prems kv by (intro good_oinsert) (auto simp: length_key_to_nibbles)
  have "olookup (Some (oinsert T (key_to_nibbles k) v)) (key_to_nibbles key)
      = (if key = k then Some v else olookup T (key_to_nibbles key))"
    using olookup_oinsert [of T 64 "key_to_nibbles k" v "key_to_nibbles key"] Cons.prems(1)
      by simp
  then show ?case
    using Cons.IH [of "Some (oinsert T (key_to_nibbles k) v)"] g Cons.prems kv
    by (auto simp: map_add_def split: option.split)
qed simp

section \<open>The sled-backed store\<close>

text \<open>
  The contract of the third-party code: a healthy sled tree answers every request and behaves like
  a map from keys to values, and the codec reads back what it has written. A store is in order
  when it is healthy and everything in it decodes.
\<close>

locale sled_contract =
  fixes C :: node_codec
    and K :: "'t sled"
    and healthy :: "'t \<Rightarrow> bool"
  assumes sled_get_law: "healthy t \<Longrightarrow> \<exists>r. sled_get K t k = Inr r"
    and sled_insert_law: "healthy t \<Longrightarrow> \<exists>t'. sled_insert K k v t = (Inr (), t') \<and> healthy t'
          \<and> (\<forall>j. sled_get K t' j = (if j = k then Inr (Some v) else sled_get K t j))"
    and sled_remove_law: "healthy t \<Longrightarrow> \<exists>t'. sled_remove K k t = (Inr (), t') \<and> healthy t'
          \<and> (\<forall>j. sled_get K t' j = (if j = k then Inr None else sled_get K t j))"
    and codec_law: "de_node C (ser_node C n) = Some n"

definition sled_ok :: "node_codec \<Rightarrow> 't sled \<Rightarrow> ('t \<Rightarrow> bool) \<Rightarrow> 't \<Rightarrow> bool" where
  "sled_ok C K healthy t = (healthy t \<and> (\<forall>k b. sled_get K t k = Inr (Some b) \<longrightarrow> de_node C b \<noteq> None))"

lemma SledMptStore_simps [simp]:
  "get_node (SledMptStore C K) = sled_get_node C K"
  "put_node (SledMptStore C K) = sled_put_node C K"
  "delete_node (SledMptStore C K) = sled_delete_node K"
  by (simp_all add: SledMptStore_def)

sublocale sled_contract \<subseteq> sled_store: node_store C "SledMptStore C K" "sled_ok C K healthy"
proof
  fix s h n
  assume ok: "sled_ok C K healthy s"
  then have h: "healthy s" by (simp add: sled_ok_def)
  show "\<exists>r. get_node (SledMptStore C K) s h = Inr r"
    using ok sled_get_law [OF h, of h] by (fastforce simp: sled_ok_def sled_get_node_def split: option.splits)
  obtain s' where "sled_insert K (node_hash C n) (ser_node C n) s = (Inr (), s')" "healthy s'"
      "\<And>j. sled_get K s' j = (if j = node_hash C n then Inr (Some (ser_node C n)) else sled_get K s j)"
    using sled_insert_law [OF h] by metis
  then show "\<exists>s'. put_node (SledMptStore C K) n s = (Inr (node_hash C n), s') \<and> sled_ok C K healthy s'
      \<and> (\<forall>h. get_node (SledMptStore C K) s' h
           = (if h = node_hash C n then Inr (Some n) else get_node (SledMptStore C K) s h))"
    using ok codec_law by (auto simp: sled_put_node_def sled_ok_def sled_get_node_def)
  obtain s'' where "sled_remove K h s = (Inr (), s'')" "healthy s''"
      "\<And>j. sled_get K s'' j = (if j = h then Inr None else sled_get K s j)"
    using sled_remove_law [OF h] by metis
  then show "\<exists>s'. delete_node (SledMptStore C K) h s = (Inr (), s') \<and> sled_ok C K healthy s'
      \<and> (\<forall>k. get_node (SledMptStore C K) s' k
           = (if k = h then Inr None else get_node (SledMptStore C K) s k))"
    using ok by (auto simp: sled_delete_node_def sled_ok_def sled_get_node_def)
qed

context sled_contract
begin

lemma is_node_store: "node_store C (SledMptStore C K) (sled_ok C K healthy)"
  by (rule sled_store.node_store_axioms)

end

lemma sled_universe:
  assumes "sled_contract C K healthy" and "inj_on (node_hash C) U"
  shows "node_universe C (SledMptStore C K) (sled_ok C K healthy) U"
proof -
  have "node_store C (SledMptStore C K) (sled_ok C K healthy)"
    using assms(1) by (rule sled_contract.is_node_store)
  then show ?thesis using assms(2) by (simp add: node_universe_def node_universe_axioms_def)
qed

definition empty_store :: "node_codec \<Rightarrow> 't sled \<Rightarrow> 't \<Rightarrow> bool" where
  "empty_store C K t = (\<forall>k. sled_get K t k = Inr None)"

lemma trie_repr_new:
  assumes "healthy t" and "empty_store C K t"
  shows "trie_repr C (SledMptStore C K) (sled_ok C K healthy) U (trie_new t) None"
  using assms by (simp add: trie_repr_def trie_new_def fine_def sled_ok_def clean_def empty_store_def sled_get_node_def)

lemma map_of_filter_key: "map_of (filter (\<lambda>e. fst e \<noteq> k) t) j = (if j = k then None else map_of t j)"
  by (induction t) auto

section \<open>An instance in memory\<close>

text \<open>A codec and a tree that satisfy the contract, for the interpretations and the witnesses.\<close>

definition mem_sled :: "(bytes \<times> bytes) list sled" where
  "mem_sled = \<lparr>sled_get = (\<lambda>t k. Inr (map_of t k)), sled_insert = (\<lambda>k v t. (Inr (), (k, v) # t)),
     sled_remove = (\<lambda>k t. (Inr (), filter (\<lambda>e. fst e \<noteq> k) t))\<rparr>"

fun enc_bytes :: "bytes \<Rightarrow> bytes" where
  "enc_bytes [] = [0]"
| "enc_bytes (b # bs) = 1 # b # enc_bytes bs"

fun dec_bytes :: "bytes \<Rightarrow> (bytes \<times> bytes) option" where
  "dec_bytes (c # bs) =
     (if c = 0 then Some ([], bs)
      else (case bs of [] \<Rightarrow> None | b # rest \<Rightarrow> map_option (\<lambda>(x, r). (b # x, r)) (dec_bytes rest)))"
| "dec_bytes [] = None"

fun enc_opts :: "bytes option list \<Rightarrow> bytes" where
  "enc_opts [] = [0]"
| "enc_opts (None # os) = 1 # enc_opts os"
| "enc_opts (Some b # os) = 2 # enc_bytes b @ enc_opts os"

lemma dec_enc_bytes [simp]: "dec_bytes (enc_bytes bs @ r) = Some (bs, r)"
  by (induction bs) auto

function dec_opts :: "bytes \<Rightarrow> (bytes option list \<times> bytes) option" where
  "dec_opts bs =
     (case bs of [] \<Rightarrow> None
      | c # rest \<Rightarrow>
          if c = 0 then Some ([], rest)
          else if c = 1 then map_option (\<lambda>(os, r). (None # os, r)) (dec_opts rest)
          else (case dec_bytes rest of
                  None \<Rightarrow> None
                | Some (b, r) \<Rightarrow>
                    if length r \<le> length rest
                    then map_option (\<lambda>(os, r'). (Some b # os, r')) (dec_opts r) else None))"
  by pat_completeness auto
termination by (relation "measure length") auto

declare dec_opts.simps [simp del]

lemma length_enc_bytes: "length bs \<le> length (enc_bytes bs)"
  by (induction bs) auto

lemma dec_enc_opts [simp]: "dec_opts (enc_opts os @ r) = Some (os, r)"
proof (induction os rule: enc_opts.induct)
  case (3 b os)
  then show ?case by (simp add: dec_opts.simps [of "2 # _"])
qed (simp_all add: dec_opts.simps [of "_ # _"])

definition demo_ser :: "MptNode \<Rightarrow> bytes" where
  "demo_ser n = (case n of
     Leaf k v \<Rightarrow> 0 # enc_bytes k @ enc_bytes v
   | Extension p c \<Rightarrow> 1 # enc_bytes p @ enc_bytes c
   | Branch cs v \<Rightarrow> 2 # enc_opts cs @ enc_opts [v])"

definition demo_de :: "bytes \<Rightarrow> MptNode option" where
  "demo_de bs = (case bs of [] \<Rightarrow> None | c # rest \<Rightarrow>
     if c = 2 then
       (case dec_opts rest of None \<Rightarrow> None | Some (cs, r) \<Rightarrow>
          (case dec_opts r of Some ([v], _) \<Rightarrow> Some (Branch cs v) | _ \<Rightarrow> None))
     else
       (case dec_bytes rest of None \<Rightarrow> None | Some (x, r) \<Rightarrow>
          map_option (\<lambda>(y, _). if c = 0 then Leaf x y else Extension x y) (dec_bytes r)))"

definition demo_hash :: "bytes \<Rightarrow> hash32" where
  "demo_hash bs =
     (let d = foldl (\<lambda>a b. (a * 31 + uint b + 1) mod 16777213) 5 bs
      in [word_of_int (d mod 256), word_of_int (d div 256 mod 256), word_of_int (d div 65536)] @ replicate 29 0)"

definition demo_codec :: node_codec where
  "demo_codec = \<lparr>blake3 = demo_hash, ser_node = demo_ser, de_node = demo_de\<rparr>"

lemma demo_codec_law: "demo_de (demo_ser n) = Some n"
proof (cases n)
  case (Leaf k v)
  then show ?thesis using dec_enc_bytes [of v "[]"] by (simp add: demo_de_def demo_ser_def)
next
  case (Extension p c)
  then show ?thesis using dec_enc_bytes [of c "[]"] by (simp add: demo_de_def demo_ser_def)
next
  case (Branch cs v)
  then show ?thesis using dec_enc_opts [of "[v]" "[]"]
    by (simp add: demo_de_def demo_ser_def)
qed

interpretation mem: sled_contract demo_codec mem_sled "\<lambda>_. True"
  by unfold_locales (auto simp: mem_sled_def demo_codec_def demo_codec_law map_of_filter_key)

end
