(* ===== verification/Mpt_Proofs.thy ===== *)
theory Mpt_Proofs
  imports Mpt_Correct
begin

text \<open>
  Merkle proofs on trees. \<open>tproof\<close> is the proof that \<open>get_with_proof\<close> collects for a tree in a
  store; the verifier, run on it, recomputes the hash of the tree, provided that no two extension
  steps of the path have the same length (the verifier locates an extension by comparing steps).
\<close>

section \<open>Exclusive or over children\<close>

lemma xor_bytes_swap: "xor_bytes (xor_bytes x h) k = xor_bytes (xor_bytes x k) h"
  by (metis xor_bytes_assoc xor_bytes_commute)

lemma xor_all_acc: "xor_all cs (xor_bytes a b) = xor_bytes (xor_all cs a) b"
  by (induction cs a arbitrary: b rule: xor_all.induct)
    (simp_all, metis xor_bytes_assoc xor_bytes_commute)

lemma xor_all_Cons: "xor_all (c # cs) a = (case c of None \<Rightarrow> xor_all cs a | Some h \<Rightarrow> xor_bytes (xor_all cs a) h)"
  by (cases c) (simp_all add: xor_all_acc)

lemma xor_all_None: "xor_all (xs @ None # ys) a = xor_all (xs @ ys) a"
  by (induction xs a rule: xor_all.induct) simp_all

lemma xor_all_remove:
  assumes "i < length cs" and "cs ! i = Some h"
  shows "xor_all cs a = xor_bytes (xor_all (cs[i := None]) a) h"
  using assms
proof (induction cs arbitrary: i a)
  case (Cons c cs)
  then show ?case
    by (cases i; cases c) (simp_all add: xor_all_acc xor_bytes_swap [of _ h])
qed simp

lemma xor_value_xor: "xor_value C v (xor_bytes x h) = xor_bytes (xor_value C v x) h"
  by (simp add: xor_value_def split: option.split) (metis xor_bytes_assoc xor_bytes_commute)

section \<open>The proof of a tree\<close>

fun tproof :: "node_codec \<Rightarrow> tree \<Rightarrow> nibbles \<Rightarrow> hash32 list \<times> PathStep list" where
  "tproof C (TLeaf k v) ns = (if k = ns then [] else [thash C (TLeaf k v)], [LeafStep])"
| "tproof C (TExt p c) ns =
     (if starts_with ns p
      then (fst (tproof C c (drop (length p) ns)),
            ExtensionStep (of_nat (length p)) # snd (tproof C c (drop (length p) ns)))
      else ([thash C (TExt p c)], [ExtensionStep (of_nat (length p))]))"
| "tproof C (TBranch cs v) ns =
     (case ns of
        [] \<Rightarrow> ([xor_all (chashes C cs) zero_hash], [BranchStep 16])
      | nb # rest \<Rightarrow>
          (if unat nb < length cs
           then (case cs ! unat nb of
                   None \<Rightarrow> ([branch_sibling_hash C (chashes C cs) v (unat nb)], [BranchStep nb])
                 | Some c \<Rightarrow> (branch_sibling_hash C (chashes C cs) v (unat nb) # fst (tproof C c rest),
                             BranchStep nb # snd (tproof C c rest)))
           else ([], [BranchStep nb])))"

lemma tproof_path: "snd (tproof C t ns) \<noteq> []"
  by (cases t) (auto split: list.split option.split)

lemma get_with_proof_correct:
  assumes "good n t" and "holds C S s t" and "nib ns" and "length ns \<le> n" and "n < fuel"
  shows "get_with_proof fuel C S s (Some (thash C t)) ns sibs path
       = Inr (tlookup t ns, sibs @ fst (tproof C t ns), path @ snd (tproof C t ns))"
  using assms
proof (induction arbitrary: ns fuel sibs path rule: good.induct)
  case (leaf k n v)
  then obtain f where "fuel = Suc f" by (cases fuel) auto
  then show ?case using load_root [OF leaf(3)] by (auto simp: thash_def)
next
  case (ext p n cs v)
  then obtain f where f: "fuel = Suc f" by (cases fuel) auto
  have "n - length p < f" using ext.prems(4) ext.hyps(1,2) f by (cases p) auto
  then have "get_with_proof f C S s (Some (thash C (TBranch cs v))) (drop (length p) ns) sibs'
        path'
      = Inr (tlookup (TBranch cs v) (drop (length p) ns), sibs' @ fst (tproof C (TBranch cs v) (drop (length p) ns)),
          path' @ snd (tproof C (TBranch cs v) (drop (length p) ns)))" for sibs' path'
    using ext.prems ext.hyps f by (intro ext.IH) (auto simp: holds_simps(2))
  then show ?case using load_root [OF ext.prems(1)] f
    by (simp add: thash_def [of C "TExt _ _"] del: tlookup.simps(3) tproof.simps(3))
next
  case (branch cs v n)
  then obtain f where f: "fuel = Suc f" by (cases fuel) auto
  show ?case
  proof (cases ns)
    case (Cons nb rest)
    then have nb: "unat nb < length cs" using branch by simp
    show ?thesis
    proof (cases "cs ! unat nb")
      case None
      then have "get_with_proof f C S s None rest x y = Inr (None, x, y)" for x y
        using f branch by (cases f) auto
      then show ?thesis using load_root [OF branch.prems(1)] f Cons nb None by (simp add: child_at_def)
    next
      case (Some t)
      then have "Some t \<in> set cs" using nb by (metis nth_mem)
      then have "get_with_proof f C S s (Some (thash C t)) rest x y
          = Inr (tlookup t rest, x @ fst (tproof C t rest), y @ snd (tproof C t rest))" for x y
        using branch Cons f by (auto simp: holds_simps(3))
      then show ?thesis using load_root [OF branch.prems(1)] f Cons nb Some by (simp add: child_at_def)
    qed
  qed (use load_root [OF branch.prems(1)] f in simp)
qed

section \<open>The verifier on the proof of a tree\<close>

primrec is_extension :: "PathStep \<Rightarrow> bool" where
  "is_extension (BranchStep nb) = False"
| "is_extension (ExtensionStep l) = True"
| "is_extension LeafStep = False"

text \<open>No two extension steps of the path are equal.\<close>

definition clear_path :: "PathStep list \<Rightarrow> bool" where
  "clear_path path = distinct (filter is_extension path)"

abbreviation path_len :: "PathStep list \<Rightarrow> nat" where
  "path_len path \<equiv> sum_list (map step_len path)"

lemma prefix_start_here:
  assumes "clear_path (pre @ ExtensionStep l # rest)"
  shows "prefix_start (pre @ ExtensionStep l # rest) (ExtensionStep l) = path_len pre"
proof -
  have "ExtensionStep l \<notin> set pre" using assms by (auto simp: clear_path_def)
  then have "takeWhile (\<lambda>s. s \<noteq> ExtensionStep l) (pre @ ExtensionStep l # rest) = pre"
    by (subst takeWhile_append2) auto
  then show ?thesis by (simp add: prefix_start_def)
qed

lemma step_len_simps [simp]:
  "unat nb < 16 \<Longrightarrow> step_len (BranchStep nb) = 1"
  "step_len LeafStep = 0"
  "step_len (ExtensionStep l) = unat l"
  by (simp_all add: step_len_def word_less_nat_alt)

lemma unat_length_nibbles [simp]: "length p \<le> 64 \<Longrightarrow> unat (of_nat (length p) :: u8) = length p"
  by (simp add: unat_of_nat take_bit_nat_eq_self)

text \<open>The verifier after its terminal step and the steps below \<open>pre\<close>.\<close>

definition reaches ::
  "node_codec \<Rightarrow> PathStep list \<Rightarrow> PathStep list \<Rightarrow> hash32 list \<Rightarrow> hash32 list \<Rightarrow> hash32 \<Rightarrow> MerkleProof \<Rightarrow> bool" where
  "reaches C pre path sibpre sibs h pf =
     (\<exists>h0 sibs0. terminal_hash C pf = Some (h0, sibs0) \<and>
        walk_up C (pre @ path) (key_to_nibbles (trie_key pf)) (tl (rev path) @ rev pre) h0 sibs0
          = walk_up C (pre @ path) (key_to_nibbles (trie_key pf)) (rev pre) h sibpre)"

lemma reaches_terminal:
  assumes "path = [st]" and "terminal_hash C pf = Some (h, sibpre)"
  shows "reaches C pre path sibpre sibs h pf"
  using assms by (simp add: reaches_def)

lemma reaches_extension:
  assumes "reaches C (pre @ [ExtensionStep (of_nat (length p))]) path sibpre sibs h pf"
    and "path \<noteq> []" and "clear_path (pre @ ExtensionStep (of_nat (length p)) # path)"
    and "key_to_nibbles (trie_key pf) = npre @ p @ rest" and "path_len pre = length npre" and "length p \<le> 64"
  shows "reaches C pre (ExtensionStep (of_nat (length p)) # path) sibpre sibs (node_hash C (Extension p h)) pf"
proof -
  have "tl (rev path @ [x]) = tl (rev path) @ [x]" for x :: PathStep using assms(2) by (cases "rev path") auto
  then show ?thesis
    using assms prefix_start_here [OF assms(3)] by (auto simp: reaches_def Let_def)
qed

lemma reaches_branch:
  assumes "reaches C (pre @ [BranchStep nb]) path (sibpre @ [sib]) sibs h pf" and "path \<noteq> []"
  shows "reaches C pre (BranchStep nb # path) sibpre (sib # sibs) (branch_digest C (xor_bytes sib h)) pf"
proof -
  have "tl (rev path @ [x]) = tl (rev path) @ [x]" for x :: PathStep using assms(2) by (cases "rev path") auto
  then show ?thesis using assms by (auto simp: reaches_def)
qed

text \<open>The hash of a branch from the combined siblings of one slot.\<close>

lemma branch_hash_sibling:
  assumes "i < length cs"
  shows "thash C (TBranch cs v) = (case cs ! i of
      None \<Rightarrow> branch_digest C (branch_sibling_hash C (chashes C cs) v i)
    | Some c \<Rightarrow> branch_digest C (xor_bytes (branch_sibling_hash C (chashes C cs) v i) (thash C c)))"
proof (cases "cs ! i")
  case None
  then have "(chashes C cs)[i := None] = chashes C cs"
    using assms by (metis list_update_id nth_map option.simps(8))
  then show ?thesis using None by (simp add: thash_def node_hash_def branch_sibling_hash_def)
next
  case (Some c)
  then have "xor_all (chashes C cs) zero_hash = xor_bytes (xor_all ((chashes C cs)[i := None]) zero_hash) (thash C c)"
    using assms by (intro xor_all_remove) simp_all
  then show ?thesis using Some
    by (simp add: thash_def [of C "TBranch _ _"] node_hash_def branch_sibling_hash_def xor_value_xor)
qed

lemma tproof_reaches:
  assumes "good n t" and "n \<le> 64"
    and "mp_path pf = pre @ snd (tproof C t ns)" and "siblings pf = sibpre @ fst (tproof C t ns)"
    and "mp_value pf = tlookup t ns" and "key_to_nibbles (trie_key pf) = npre @ ns"
    and "path_len pre = length npre" and "clear_path (mp_path pf)" and "nib ns"
  shows "reaches C pre (snd (tproof C t ns)) sibpre (fst (tproof C t ns)) (thash C t) pf"
  using assms
proof (induction arbitrary: pre sibpre npre ns rule: good.induct)
  case (leaf k n v)
  then show ?case
    by (intro reaches_terminal) (auto simp: terminal_hash_def thash_def)
next
  case (ext p n cs v)
  let ?st = "ExtensionStep (of_nat (length p))" and ?r = "drop (length p) ns"
  show ?case
  proof (cases "starts_with ns p")
    case True
    then have ns: "ns = p @ ?r" by (auto simp: starts_with_iff)
    have "reaches C (pre @ [?st]) (snd (tproof C (TBranch cs v) ?r)) sibpre (fst (tproof C (TBranch cs v) ?r))
        (thash C (TBranch cs v)) pf"
      using ext.prems ext.hyps True ns
      by (intro ext.IH [where npre = "npre @ p"]) (simp_all del: tproof.simps(3) tlookup.simps(3))
    then show ?thesis
      using reaches_extension [of C pre p "snd (tproof C (TBranch cs v) ?r)" sibpre _ "thash C (TBranch cs v)" pf npre ?r]
        tproof_path [of C "TBranch cs v" ?r] ext.prems ext.hyps True ns
      by (simp add: thash_def [of C "TExt _ _"] del: tproof.simps(3) tlookup.simps(3))
  next
    case False
    then show ?thesis using ext.prems
      by (intro reaches_terminal) (auto simp: terminal_hash_def)
  qed
next
  case (branch cs v n)
  show ?case
  proof (cases ns)
    case Nil
    then show ?thesis using branch.prems
      by (intro reaches_terminal) (auto simp: terminal_hash_def thash_def node_hash_def)
  next
    case (Cons nb rest)
    then have nb: "unat nb < length cs" "unat nb < 16" using branch.prems(8) branch.hyps(1) by simp_all
    show ?thesis
    proof (cases "cs ! unat nb")
      case None
      moreover have "nb \<noteq> 16" using nb(2) by auto
      ultimately show ?thesis using branch.prems Cons nb branch_hash_sibling [OF nb(1), of C v]
        by (intro reaches_terminal) (auto simp: terminal_hash_def)
    next
      case (Some c)
      then have "Some c \<in> set cs" using nb by (metis nth_mem)
      then have "reaches C (pre @ [BranchStep nb]) (snd (tproof C c rest))
          (sibpre @ [branch_sibling_hash C (chashes C cs) v (unat nb)]) (fst (tproof C c rest)) (thash C c) pf"
        using branch.prems Cons nb Some by (intro branch.IH [where npre = "npre @ [nb]"]) simp_all
      then show ?thesis
        using reaches_branch [OF _ tproof_path] branch_hash_sibling [OF nb(1), of C v] Cons Some nb by simp
    qed
  qed
qed

lemma verify_tproof:
  assumes "good 64 t" and "clear_path (snd (tproof C t (key_to_nibbles key)))"
  shows "verify_proof C \<lparr>trie_key = key, mp_value = tlookup t (key_to_nibbles key), mp_root = thash C t,
           siblings = fst (tproof C t (key_to_nibbles key)), mp_path = snd (tproof C t (key_to_nibbles key))\<rparr>"
    (is "verify_proof C ?pf")
proof -
  have "reaches C [] (mp_path ?pf) [] (siblings ?pf) (thash C t) ?pf"
    using tproof_reaches [OF assms(1), of ?pf "[]" C "key_to_nibbles key" "[]" "[]"] assms(2) by simp
  then show ?thesis by (auto simp: reaches_def verify_proof_def tproof_path)
qed

end
