(* ===== verification/Mpt_Gc.thy ===== *)
theory Mpt_Gc
  imports Mpt_Correct
begin

text \<open>
  Collection of garbage. \<open>collect_reachable\<close> finds exactly the hashes of the current tree although
  it stops at hashes it has seen before; \<open>delete_unreachable\<close> removes exactly the nodes of the old
  tree that the current one does not share.
\<close>

section \<open>Hashes of subtrees\<close>

definition subhashes :: "node_codec \<Rightarrow> tree \<Rightarrow> hash32 set" where
  "subhashes C t = {thash C u | u. subtree u t}"

lemma subtree_trans: "subtree w t \<Longrightarrow> subtree u w \<Longrightarrow> subtree u t"
  by (induction rule: subtree.induct) (auto intro: subtree.intros)

lemma size_branch_child: "Some c \<in> set cs \<Longrightarrow> size c < size (TBranch cs v)"
proof -
  assume "Some c \<in> set cs"
  then obtain i where "i < length cs" "cs ! i = Some c" by (auto simp: in_set_conv_nth)
  then show ?thesis using size_child [of i cs c 0] by simp
qed

lemma subtree_size: "subtree u t \<Longrightarrow> size u \<le> size t"
  by (induction rule: subtree.induct) (auto dest!: size_branch_child)

lemma subhashes_simps:
  "subhashes C (TLeaf k v) = {thash C (TLeaf k v)}"
  "subhashes C (TExt p c) = insert (thash C (TExt p c)) (subhashes C c)"
  "subhashes C (TBranch cs w) = insert (thash C (TBranch cs w)) (\<Union>c \<in> {c. Some c \<in> set cs}. subhashes C c)"
  by (auto simp: subhashes_def subtree_leaf subtree_ext subtree_branch)

lemma subhashes_self: "thash C t \<in> subhashes C t"
  by (auto simp: subhashes_def intro: subtree.self)

lemma subhashes_mono: "subtree u t \<Longrightarrow> subhashes C u \<subseteq> subhashes C t"
  by (auto simp: subhashes_def intro: subtree_trans)

lemma covered_subtree: "covered C U t \<Longrightarrow> subtree u t \<Longrightarrow> covered C U u"
  by (auto simp: covered_def intro: subtree_trans)

lemma holds_subtree: "holds C S s t \<Longrightarrow> subtree u t \<Longrightarrow> holds C S s u"
  by (auto simp: holds_def intro: subtree_trans)

lemma clean_covered: "clean C S U s \<Longrightarrow> holds C S s t \<Longrightarrow> covered C U t"
  by (auto simp: clean_def holds_def covered_def)

text \<open>Without collisions the hash determines the whole tree.\<close>

lemma thash_node:
  assumes "inj_on (node_hash C) U" and "covered C U t" and "covered C U u" and "thash C t = thash C u"
  shows "node_of C t = node_of C u"
  using assms inj_onD [OF assms(1), of "node_of C t" "node_of C u"]
  by (auto simp: thash_def covered_def intro: subtree.self)

lemma thash_inj:
  assumes "inj_on (node_hash C) U" and "covered C U t" and "covered C U u" and "thash C t = thash C u"
  shows "t = u"
  using assms(2-4)
proof (induction t arbitrary: u)
  case (TLeaf k v)
  then have "node_of C (TLeaf k v) = node_of C u" using thash_node [OF assms(1)] by blast
  then show ?case by (cases u) auto
next
  case (TExt p c)
  then have "node_of C (TExt p c) = node_of C u" using thash_node [OF assms(1)] by blast
  then show ?case using TExt by (cases u) (auto simp: covered_simps)
next
  case (TBranch cs v)
  then have "node_of C (TBranch cs v) = node_of C u" using thash_node [OF assms(1)] by blast
  then obtain ds where u: "u = TBranch ds v" "chashes C cs = chashes C ds" by (cases u) auto
  have "cs ! i = ds ! i" if i: "i < length cs" for i
  proof -
    have l: "i < length ds" using i u(2) by (metis length_map)
    have e: "map_option (thash C) (cs ! i) = map_option (thash C) (ds ! i)"
      using u(2) i l by (metis nth_map)
    show ?thesis
    proof (cases "cs ! i")
      case (Some c)
      then obtain d where d: "ds ! i = Some d" "thash C c = thash C d" using e by (cases "ds ! i") auto
      then have "Some c \<in> set cs" "Some d \<in> set ds" using Some i l by (metis nth_mem)+
      moreover from this have "covered C U c" "covered C U d"
        using TBranch.prems u(1) by (auto simp: covered_simps)
      ultimately show ?thesis using TBranch.IH [of "Some c" c d] Some d by simp
    qed (use e in simp)
  qed
  then show ?case using u map_eq_imp_length_eq [OF u(2)] by (simp add: list_eq_iff_nth_eq)
qed

section \<open>The live set\<close>

text \<open>What has been seen of the tree has been seen completely.\<close>

definition seen_closed :: "node_codec \<Rightarrow> hash32 list \<Rightarrow> tree \<Rightarrow> bool" where
  "seen_closed C L t = (\<forall>u. subtree u t \<longrightarrow> thash C u \<in> set L \<longrightarrow> subhashes C u \<subseteq> set L)"

lemma seen_closed_sub: "seen_closed C L t \<Longrightarrow> subtree u t \<Longrightarrow> seen_closed C L u"
  by (auto simp: seen_closed_def intro: subtree_trans)

lemma seen_closed_add:
  assumes "inj_on (node_hash C) U" and "covered C U c" and "covered C U t"
    and "seen_closed C L t" and "set L' = set L \<union> subhashes C c"
  shows "seen_closed C L' t"
proof -
  have "subhashes C u \<subseteq> set L'" if u: "subtree u t" "thash C u \<in> subhashes C c" for u
  proof -
    obtain w where w: "subtree w c" "thash C u = thash C w" using u(2) by (auto simp: subhashes_def)
    then have "u = w"
      using thash_inj [OF assms(1)] covered_subtree [OF assms(3) u(1)] covered_subtree [OF assms(2) w(1)] by blast
    then show ?thesis using subhashes_mono [OF w(1)] assms(5) by blast
  qed
  then show ?thesis using assms(4,5) by (auto simp: seen_closed_def)
qed

lemma seen_closed_root:
  assumes "inj_on (node_hash C) U" and "covered C U t" and "seen_closed C L t"
    and "subtree c t" and "size c < size t"
  shows "seen_closed C (thash C t # L) c"
proof -
  have "thash C u \<noteq> thash C t" if "subtree u c" for u
  proof
    assume e: "thash C u = thash C t"
    have "covered C U u" using covered_subtree assms(2) subtree_trans that assms(4) by blast
    then have "u = t" using thash_inj [OF assms(1) _ assms(2) e] by blast
    then show False using subtree_size [OF that] assms(5) by simp
  qed
  then show ?thesis
    using seen_closed_sub [OF assms(3,4)] by (auto simp: seen_closed_def)
qed

definition collects :: "node_codec \<Rightarrow> 's MptStore \<Rightarrow> 's \<Rightarrow> nat \<Rightarrow> tree \<Rightarrow> bool" where
  "collects C S s fuel t = (\<forall>L. seen_closed C L t \<longrightarrow>
     (\<exists>L'. collect_reachable fuel S s (Some (thash C t)) L = Inr L' \<and> set L' = set L \<union> subhashes C t))"

lemma collect_children_correct:
  assumes "inj_on (node_hash C) U" and "\<And>c. Some c \<in> set cs \<Longrightarrow> collects C S s fuel c"
    and "\<And>c. Some c \<in> set cs \<Longrightarrow> covered C U c" and "\<And>c. Some c \<in> set cs \<Longrightarrow> seen_closed C L c"
  shows "\<exists>L'. collect_children fuel S s (chashes C cs) L = Inr L'
           \<and> set L' = set L \<union> (\<Union>c \<in> {c. Some c \<in> set cs}. subhashes C c)"
  using assms(2-4)
proof (induction cs arbitrary: L)
  case (Cons oc cs)
  show ?case
  proof (cases oc)
    case (Some c)
    then obtain L1 where L1: "collect_reachable fuel S s (Some (thash C c)) L = Inr L1"
        "set L1 = set L \<union> subhashes C c"
      using Cons.prems(1) [of c] Cons.prems(3) [of c] by (auto simp: collects_def)
    have "seen_closed C L1 d" if "Some d \<in> set cs" for d
      using seen_closed_add [OF assms(1) _ _ _ L1(2)] Cons.prems that Some by simp
    then obtain L' where "collect_children fuel S s (chashes C cs) L1 = Inr L'"
        "set L' = set L1 \<union> (\<Union>c \<in> {c. Some c \<in> set cs}. subhashes C c)"
      using Cons.IH [of L1] Cons.prems by auto
    then show ?thesis using L1 Some by auto
  qed (use Cons in auto)
qed simp

lemma collect_reachable_correct:
  assumes inj: "inj_on (node_hash C) U"
    and "good n t" and "holds C S s t" and "covered C U t" and "n < fuel"
  shows "collects C S s fuel t"
  using assms(2-5)
proof (induction arbitrary: fuel rule: good.induct)
  case (leaf k n v)
  then obtain f where "fuel = Suc f" by (cases fuel) auto
  then show ?case
    using leaf.prems(1) by (auto simp: collects_def holds_simps subhashes_simps seen_closed_def)
next
  case (ext p n cs v)
  then obtain f where f: "fuel = Suc f" by (cases fuel) auto
  let ?c = "TBranch cs v" and ?t = "TExt p (TBranch cs v)"
  have "n - length p < f" using ext.prems(3) ext.hyps(1,2) f by (cases p) auto
  then have IH: "collects C S s f ?c" using ext by (simp add: holds_simps(2) covered_simps(2))
  have sub: "subtree ?c ?t" by (auto intro: subtree.intros)
  show ?case unfolding collects_def
  proof (intro allI impI)
    fix L assume cl: "seen_closed C L ?t"
    show "\<exists>L'. collect_reachable fuel S s (Some (thash C ?t)) L = Inr L' \<and> set L' = set L \<union> subhashes C ?t"
    proof (cases "thash C ?t \<in> set L")
      case True
      then show ?thesis using cl f by (auto simp: seen_closed_def intro: subtree.self)
    next
      case False
      then show ?thesis
        using IH seen_closed_root [OF inj ext.prems(2) cl sub] ext.prems(1) f
        by (fastforce simp: collects_def holds_simps(2) subhashes_simps(2))
    qed
  qed
next
  case (branch cs v n)
  then obtain f where f: "fuel = Suc f" by (cases fuel) auto
  let ?t = "TBranch cs v"
  have IH: "collects C S s f c" if "Some c \<in> set cs" for c
    using branch that f by (auto simp: holds_simps(3) covered_simps(3))
  have sub: "subtree c ?t" if "Some c \<in> set cs" for c using that by (auto intro: subtree.intros)
  show ?case unfolding collects_def
  proof (intro allI impI)
    fix L assume cl: "seen_closed C L ?t"
    show "\<exists>L'. collect_reachable fuel S s (Some (thash C ?t)) L = Inr L' \<and> set L' = set L \<union> subhashes C ?t"
    proof (cases "thash C ?t \<in> set L")
      case True
      then show ?thesis using cl f by (auto simp: seen_closed_def intro: subtree.self)
    next
      case False
      have "seen_closed C (thash C ?t # L) c" if "Some c \<in> set cs" for c
        by (rule seen_closed_root [OF inj branch.prems(2) cl sub [OF that] size_branch_child [OF that]])
      then show ?thesis
        using collect_children_correct [OF inj, of cs S s f "thash C ?t # L"] IH branch.prems(1,2) False f
        by (auto simp: holds_simps(3) covered_simps(3) subhashes_simps(3))
    qed
  qed
qed

section \<open>The sweep\<close>

text \<open>From \<open>s\<close> to \<open>s'\<close> only nodes of \<open>t\<close> that are not live have gone; the dead nodes of \<open>t\<close> are
  gone; each node of \<open>t\<close> is in place or gone, and with a node all the dead nodes below it are gone.\<close>

definition sweeps :: "node_codec \<Rightarrow> 's MptStore \<Rightarrow> hash32 list \<Rightarrow> tree \<Rightarrow> 's \<Rightarrow> 's \<Rightarrow> bool" where
  "sweeps C S live t s s' = (\<forall>h. get_node S s' h = get_node S s h
     \<or> h \<notin> set live \<and> h \<in> subhashes C t \<and> get_node S s' h = Inr None)"

definition dead_gone :: "node_codec \<Rightarrow> 's MptStore \<Rightarrow> hash32 list \<Rightarrow> tree \<Rightarrow> 's \<Rightarrow> bool" where
  "dead_gone C S live t s = (\<forall>h \<in> subhashes C t. h \<in> set live \<or> get_node S s h = Inr None)"

definition swept :: "node_codec \<Rightarrow> 's MptStore \<Rightarrow> hash32 list \<Rightarrow> tree \<Rightarrow> 's \<Rightarrow> bool" where
  "swept C S live t s = (\<forall>u. subtree u t \<longrightarrow>
     get_node S s (thash C u) = Inr (Some (node_of C u))
     \<or> get_node S s (thash C u) = Inr None \<and> dead_gone C S live u s)"

lemma sweeps_refl [simp]: "sweeps C S live t s s"
  by (simp add: sweeps_def)

lemma sweeps_trans: "sweeps C S live t s s1 \<Longrightarrow> sweeps C S live t s1 s2 \<Longrightarrow> sweeps C S live t s s2"
  unfolding sweeps_def by metis

lemma sweeps_mono: "sweeps C S live c s s' \<Longrightarrow> subtree c t \<Longrightarrow> sweeps C S live t s s'"
  using subhashes_mono [of c t C] unfolding sweeps_def by blast

lemma dead_gone_sweeps: "dead_gone C S live t s \<Longrightarrow> sweeps C S live c s s' \<Longrightarrow> dead_gone C S live t s'"
  unfolding dead_gone_def sweeps_def by metis

lemma swept_sub: "swept C S live t s \<Longrightarrow> subtree u t \<Longrightarrow> swept C S live u s"
  by (auto simp: swept_def intro: subtree_trans)

lemma holds_swept: "holds C S s t \<Longrightarrow> swept C S live t s"
  by (auto simp: holds_def swept_def)

lemma holds_sweeps:
  assumes "holds C S s t" and "subhashes C t \<subseteq> set live" and "sweeps C S live c s s'"
  shows "holds C S s' t"
proof -
  have "get_node S s' (thash C u) = get_node S s (thash C u)" if "subtree u t" for u
  proof -
    have "thash C u \<in> set live" using that assms(2) by (auto simp: subhashes_def)
    then show ?thesis using assms(3) unfolding sweeps_def by metis
  qed
  then show ?thesis using assms(1) by (simp add: holds_def)
qed

text \<open>Sweeping one tree leaves every other tree swept.\<close>

lemma swept_step:
  assumes "inj_on (node_hash C) U" and "covered C U c" and "covered C U t"
    and "swept C S live t s" and "sweeps C S live c s s'" and "dead_gone C S live c s'"
  shows "swept C S live t s'"
  unfolding swept_def
proof (intro allI impI)
  fix u assume u: "subtree u t"
  consider "get_node S s' (thash C u) = get_node S s (thash C u)"
    | "thash C u \<in> subhashes C c" "get_node S s' (thash C u) = Inr None"
    using assms(5) unfolding sweeps_def by blast
  then show "get_node S s' (thash C u) = Inr (Some (node_of C u))
      \<or> get_node S s' (thash C u) = Inr None \<and> dead_gone C S live u s'"
  proof cases
    case 1
    then show ?thesis using assms(4) u dead_gone_sweeps [OF _ assms(5)] by (auto simp: swept_def)
  next
    case 2
    then obtain w where w: "subtree w c" "thash C u = thash C w" by (auto simp: subhashes_def)
    then have "u = w"
      using thash_inj [OF assms(1)] covered_subtree [OF assms(3) u] covered_subtree [OF assms(2) w(1)] by blast
    then show ?thesis
      using 2 assms(6) subhashes_mono [OF w(1)] by (auto simp: dead_gone_def)
  qed
qed

text \<open>A run of the sweep that succeeds.\<close>

definition swipes :: "node_codec \<Rightarrow> 's MptStore \<Rightarrow> ('s \<Rightarrow> bool) \<Rightarrow> hash32 list \<Rightarrow> tree \<Rightarrow> 's \<Rightarrow> ('s, nat) io \<Rightarrow> bool" where
  "swipes C S ok live t s r = (\<exists>d s'. r = (Inr d, s') \<and> ok s' \<and> sweeps C S live t s s' \<and> dead_gone C S live t s')"

lemma delete_children_correct:
  assumes "inj_on (node_hash C) U" and "\<And>c. Some c \<in> set cs \<Longrightarrow> covered C U c"
    and "\<And>c s k. Some c \<in> set cs \<Longrightarrow> ok s \<Longrightarrow> swept C S live c s \<Longrightarrow>
           swipes C S ok live c s (delete_unreachable fuel S live (Some (thash C c)) k s)"
    and "ok s" and "\<And>c. Some c \<in> set cs \<Longrightarrow> swept C S live c s" and "\<And>c. Some c \<in> set cs \<Longrightarrow> subtree c t"
  shows "\<exists>d s'. delete_children fuel S live (chashes C cs) k s = (Inr d, s') \<and> ok s' \<and> sweeps C S live t s s'
           \<and> (\<forall>c. Some c \<in> set cs \<longrightarrow> dead_gone C S live c s')"
  using assms(2-6)
proof (induction cs arbitrary: s k)
  case (Cons oc cs)
  show ?case
  proof (cases oc)
    case (Some c)
    then obtain d1 s1 where s1: "delete_unreachable fuel S live (Some (thash C c)) k s = (Inr d1, s1)" "ok s1"
        "sweeps C S live c s s1" "dead_gone C S live c s1"
      using Cons.prems(2) [of c s k] Cons.prems(3,4) by (auto simp: swipes_def)
    have "swept C S live x s1" if "Some x \<in> set cs" for x
      using swept_step [OF assms(1) _ _ _ s1(3,4)] Cons.prems(1,4) that Some by simp
    then obtain d s' where "delete_children fuel S live (chashes C cs) d1 s1 = (Inr d, s')" "ok s'"
        "sweeps C S live t s1 s'" "\<forall>c. Some c \<in> set cs \<longrightarrow> dead_gone C S live c s'"
      using Cons.IH [of s1 d1] Cons.prems(1,2,5) s1(2) by auto
    moreover have "sweeps C S live t s s1" using sweeps_mono [OF s1(3)] Cons.prems(5) Some by simp
    ultimately show ?thesis
      using s1 Some dead_gone_sweeps [OF s1(4)] by (auto intro: sweeps_trans)
  qed (use Cons in auto)
qed simp

lemma delete_unreachable_visit:
  assumes "ok s" and "seen_closed C live t" and "swept C S live t s"
    and "thash C t \<notin> set live \<Longrightarrow> get_node S s (thash C t) = Inr (Some (node_of C t)) \<Longrightarrow>
         swipes C S ok live t s (delete_unreachable (Suc f) S live (Some (thash C t)) k s)"
  shows "swipes C S ok live t s (delete_unreachable (Suc f) S live (Some (thash C t)) k s)"
proof -
  consider "thash C t \<in> set live" | "get_node S s (thash C t) = Inr None" "dead_gone C S live t s"
    | "thash C t \<notin> set live" "get_node S s (thash C t) = Inr (Some (node_of C t))"
    using assms(3) subtree.self unfolding swept_def by blast
  then show ?thesis
  proof cases
    case 1
    then show ?thesis using assms(1,2) by (auto simp: swipes_def dead_gone_def seen_closed_def intro: subtree.self)
  next
    case 2
    then show ?thesis using assms(1,2) by (auto simp: swipes_def dead_gone_def)
  qed (use assms(4) in simp)
qed

context node_store
begin

lemma delete_root:
  assumes "ok s1" and "sweeps C S live t s s1" and "thash C t \<notin> set live"
    and "\<And>h. h \<in> subhashes C t \<Longrightarrow> h = thash C t \<or> h \<in> set live \<or> get_node S s1 h = Inr None"
  shows "swipes C S ok live t s (io_then (delete_node S (thash C t) s1) (\<lambda>_ s2. (Inr (Suc d), s2)))"
proof -
  obtain s2 where s2: "delete_node S (thash C t) s1 = (Inr (), s2)" "ok s2"
      "\<And>k. get_node S s2 k = (if k = thash C t then Inr None else get_node S s1 k)"
    using delete_ok [OF assms(1)] by metis
  have "sweeps C S live t s1 s2" using s2(3) assms(3) subhashes_self by (auto simp: sweeps_def)
  then show ?thesis
    using s2 assms(4) sweeps_trans [OF assms(2)] by (auto simp: swipes_def dead_gone_def)
qed

lemma delete_unreachable_correct:
  assumes inj: "inj_on (node_hash C) U" and "good n t" and "covered C U t" and "n < fuel"
    and "seen_closed C live t" and "ok s" and "swept C S live t s"
  shows "swipes C S ok live t s (delete_unreachable fuel S live (Some (thash C t)) k s)"
  using assms(2-7)
proof (induction arbitrary: fuel s k rule: good.induct)
  case (leaf x n v)
  let ?t = "TLeaf x v"
  obtain f where f: "fuel = Suc f" using leaf.prems by (cases fuel) auto
  show ?case unfolding f
  proof (rule delete_unreachable_visit [of ok s, OF leaf.prems(4,3,5)], goal_cases)
    case 1
    then show ?case
      using delete_root [OF leaf.prems(4) sweeps_refl 1(1), of k] f by (simp add: subhashes_simps)
  qed
next
  case (ext p n cs v)
  let ?c = "TBranch cs v" and ?t = "TExt p (TBranch cs v)"
  obtain f where f: "fuel = Suc f" using ext.prems by (cases fuel) auto
  have sub: "subtree ?c ?t" by (auto intro: subtree.intros)
  show ?case unfolding f
  proof (rule delete_unreachable_visit [of ok s, OF ext.prems(4,3,5)], goal_cases)
    case 1
    have "n - length p < f" using ext.prems(2) ext.hyps(1,2) f by (cases p) auto
    then have "swipes C S ok live ?c s (delete_unreachable f S live (Some (thash C ?c)) k s)"
      using ext.prems seen_closed_sub [OF ext.prems(3) sub] swept_sub [OF ext.prems(5) sub]
      by (intro ext.IH) (simp_all add: covered_simps(2))
    then obtain d s1 where s1: "delete_unreachable f S live (Some (thash C ?c)) k s = (Inr d, s1)" "ok s1"
        "sweeps C S live ?c s s1" "dead_gone C S live ?c s1" by (auto simp: swipes_def)
    then show ?case
      using delete_root [OF s1(2) sweeps_mono [OF s1(3) sub] 1(1), of d] 1 f
      by (auto simp: subhashes_simps(2) dead_gone_def)
  qed
next
  case (branch cs v n)
  let ?t = "TBranch cs v"
  obtain f where f: "fuel = Suc f" using branch.prems by (cases fuel) auto
  have sub: "subtree c ?t" if "Some c \<in> set cs" for c using that by (auto intro: subtree.intros)
  show ?case unfolding f
  proof (rule delete_unreachable_visit [of ok s, OF branch.prems(4,3,5)], goal_cases)
    case 1
    have cov: "covered C U c" if "Some c \<in> set cs" for c
      using branch.prems(1) that by (simp add: covered_simps(3))
    have "\<exists>d s1. delete_children f S live (chashes C cs) k s = (Inr d, s1) \<and> ok s1 \<and> sweeps C S live ?t s s1
        \<and> (\<forall>c. Some c \<in> set cs \<longrightarrow> dead_gone C S live c s1)"
    proof (rule delete_children_correct [of C U cs ok, OF inj cov _ branch.prems(4) _ sub])
      fix c s k assume c: "Some c \<in> set cs" and "ok s" "swept C S live c s"
      then show "swipes C S ok live c s (delete_unreachable f S live (Some (thash C c)) k s)"
        using branch.prems(2) branch.hyps(3) f cov [OF c] seen_closed_sub [OF branch.prems(3) sub [OF c]]
        by (intro branch.IH) simp_all
    qed (use swept_sub [OF branch.prems(5) sub] in simp_all)
    then obtain d s1 where s1: "delete_children f S live (chashes C cs) k s = (Inr d, s1)" "ok s1"
        "sweeps C S live ?t s s1" "\<forall>c. Some c \<in> set cs \<longrightarrow> dead_gone C S live c s1" by blast
    then show ?case
      using delete_root [OF s1(2,3) 1(1), of d] 1 f
      by (auto simp: subhashes_simps(3) dead_gone_def)
  qed
qed

end

section \<open>Collection over two versions of the trie\<close>

context node_universe
begin

lemma sweeps_clean: "clean C S U s \<Longrightarrow> sweeps C S live t s s' \<Longrightarrow> clean C S U s'"
  unfolding clean_def sweeps_def by (metis option.distinct(1) sum.inject(2))

lemma gc_since_correct:
  assumes r: "trie_repr C S ok U t (Some T)"
    and old: "holds C S (mpt_store t) T0" "good 64 T0"
  shows "\<exists>d t'. gc_since S (thash C T0) t = (Inr d, t') \<and> trie_repr C S ok U t' (Some T)
           \<and> (\<forall>h \<in> subhashes C T0. h \<in> subhashes C T \<or> get_node S (mpt_store t') h = Inr None)"
proof -
  let ?s = "mpt_store t"
  have T: "ok ?s" "clean C S U ?s" "good 64 T" "holds C S ?s T" "mpt_root t = Some (thash C T)"
    using r by (auto simp: trie_repr_def fine_def)
  have cov: "covered C U T" "covered C U T0" by (rule clean_covered [OF T(2)], fact T(4) old(1))+
  have "collects C S ?s MPT_FUEL T"
    by (rule collect_reachable_correct [OF no_collision T(3,4) cov(1) MPT_FUEL_enough(1)])
  then obtain live where live: "collect_reachable MPT_FUEL S ?s (Some (thash C T)) [] = Inr live"
      "set live = subhashes C T"
    using collects_def [of C S ?s MPT_FUEL T] by (metis Un_empty_left empty_iff empty_set seen_closed_def)
  have "seen_closed C live T0"
    by (rule seen_closed_add [OF no_collision cov, of "[]"]) (simp_all add: seen_closed_def live(2))
  then have "swipes C S ok live T0 ?s (delete_unreachable MPT_FUEL S live (Some (thash C T0)) 0 ?s)"
    by (intro delete_unreachable_correct [OF no_collision old(2) cov(2) MPT_FUEL_enough(1) _ T(1)])
      (simp_all add: holds_swept old(1))
  then obtain d s' where s': "delete_unreachable MPT_FUEL S live (Some (thash C T0)) 0 ?s = (Inr d, s')" "ok s'"
      "sweeps C S live T0 ?s s'" "dead_gone C S live T0 s'" by (auto simp: swipes_def)
  have "holds C S s' T" using holds_sweeps [OF T(4) _ s'(3)] live(2) by simp
  then show ?thesis
    using s' live T sweeps_clean [OF T(2) s'(3)]
    by (auto simp: gc_since_def trie_repr_def fine_def dead_gone_def)
qed

end

end
