(* ===== verification/Mpt_Claims.thy ===== *)
theory Mpt_Claims
  imports Mpt_Proofs Mpt_Gc "HOL-Library.Multiset"
begin

text \<open>
  What the trie promises, stated of the program's functions over a sled-backed store: it behaves as
  a map, its root depends on the contents only, its proofs verify, collection of garbage keeps the
  current trie; and what its hash and its verifier do not promise.
\<close>

section \<open>The map\<close>

lemma tree_insert_all_append: "tree_insert_all (kvs @ kvs') T = tree_insert_all kvs' (tree_insert_all kvs T)"
  by (induction kvs T rule: tree_insert_all.induct) simp_all

lemma tree_insert_all_Some: "\<exists>T'. tree_insert_all kvs (Some T) = Some T'"
  by (induction kvs arbitrary: T) auto

lemma fresh_lookup:
  assumes "\<forall>(k, v) \<in> set kvs. length k = 32" and "length key = 32"
  shows "olookup (tree_insert_all kvs None) (key_to_nibbles key) = map_of (rev kvs) key"
  using tree_insert_all_lookup [of None, OF _ assms] by (simp split: option.splits)

lemma insert_all_repr:
  assumes "sled_contract C K healthy" and "healthy d" and "empty_store C K d"
    and "inj_on (node_hash C) U" and "covered_all C U kvs None" and "\<forall>(k, v) \<in> set kvs. length k = 32"
  obtains t where "trie_insert_all (SledMptStore C K) kvs (trie_new d) = (Inr (), t)"
    "trie_repr C (SledMptStore C K) (sled_ok C K healthy) U t (tree_insert_all kvs None)"
  using node_universe.trie_insert_all_correct
    [OF sled_universe [OF assms(1,4)] trie_repr_new [of healthy, OF assms(2,3)] assms(6,5)] by blast

text \<open>C8. The trie is a map: inserting key/value pairs into an empty trie succeeds, and a lookup
  returns the value inserted last under the key, or none. The node store is any healthy sled tree
  with a faithful codec, and no two of the nodes written collide under the hash.\<close>

theorem trie_refines_map:
  assumes "sled_contract C K healthy" and "healthy d" and "empty_store C K d"
    and "inj_on (node_hash C) U" and "covered_all C U kvs None"
    and "\<forall>(k, v) \<in> set kvs. length k = 32" and "length key = 32"
  shows "\<exists>t. trie_insert_all (SledMptStore C K) kvs (trie_new d) = (Inr (), t)
           \<and> trie_get (SledMptStore C K) t key = Inr (map_of (rev kvs) key)"
proof -
  obtain t where t: "trie_insert_all (SledMptStore C K) kvs (trie_new d) = (Inr (), t)"
      "trie_repr C (SledMptStore C K) (sled_ok C K healthy) U t (tree_insert_all kvs None)"
    by (rule insert_all_repr [OF assms(1-6)])
  have "trie_get (SledMptStore C K) t key = Inr (olookup (tree_insert_all kvs None) (key_to_nibbles key))"
    by (rule node_universe.trie_get_correct [OF sled_universe [OF assms(1,4)] t(2) assms(7)])
  then show ?thesis using t(1) fresh_lookup [OF assms(6,7)] by simp
qed

definition demo_k1 :: bytes where "demo_k1 = replicate 32 0"
definition demo_k2 :: bytes where "demo_k2 = 16 # replicate 31 0"

definition demo_kvs :: "(bytes \<times> bytes) list" where
  "demo_kvs = [(demo_k1, [7]), (demo_k2, [8])]"

definition demo_nodes :: "MptNode list" where
  "demo_nodes =
     (let l1 = Leaf (replicate 63 0) [7]; l2 = Leaf (replicate 63 0) [8]
      in [Leaf (replicate 64 0) [7], l1, l2,
          Branch ([Some (node_hash demo_codec l1), Some (node_hash demo_codec l2)] @ replicate 14 None) None])"

lemma demo_no_collision: "inj_on (node_hash demo_codec) (set demo_nodes)"
proof -
  have "distinct (map (node_hash demo_codec) demo_nodes)" by code_simp
  then show ?thesis by (simp add: distinct_map)
qed

lemma demo_trees:
  "oinsert None (key_to_nibbles demo_k1) [7] = TLeaf (replicate 64 0) [7]"
  "tinsert (TLeaf (replicate 64 0) [7]) (key_to_nibbles demo_k2) [8]
     = TBranch ([Some (TLeaf (replicate 63 0) [7]), Some (TLeaf (replicate 63 0) [8])] @ replicate 14 None) None"
  by code_simp+

lemma demo_covered: "covered_all demo_codec (set demo_nodes) demo_kvs None"
proof -
  have "covered demo_codec (set demo_nodes) (TLeaf (replicate 64 0) [7])"
    by (simp add: covered_simps demo_nodes_def Let_def)
  moreover have "covered demo_codec (set demo_nodes)
      (TBranch ([Some (TLeaf (replicate 63 0) [7]), Some (TLeaf (replicate 63 0) [8])] @ replicate 14 None) None)"
    by (auto simp: covered_simps demo_nodes_def Let_def thash_def)
  ultimately show ?thesis
    by (simp add: demo_kvs_def demo_trees oinsert_def [of "Some _"] del: tinsert.simps replicate.simps)
qed

interpretation demo: node_universe demo_codec "SledMptStore demo_codec mem_sled"
    "sled_ok demo_codec mem_sled (\<lambda>_. True)" "set demo_nodes"
  by (rule sled_universe [OF mem.sled_contract_axioms demo_no_collision])

lemma demo_keys: "\<forall>(k, v) \<in> set demo_kvs. length k = 32" "length demo_k2 = 32"
  by (simp_all add: demo_kvs_def demo_k1_def demo_k2_def)

lemma demo_empty: "empty_store demo_codec mem_sled []"
  by (simp add: empty_store_def mem_sled_def)

theorem trie_refines_map_witness:
  "\<exists>t. trie_insert_all (SledMptStore demo_codec mem_sled) demo_kvs (trie_new []) = (Inr (), t)
     \<and> trie_get (SledMptStore demo_codec mem_sled) t demo_k2 = Inr (Some [8])"
  using trie_refines_map [OF mem.sled_contract_axioms _ demo_empty demo_no_collision demo_covered demo_keys]
  by (simp add: demo_kvs_def demo_k1_def demo_k2_def)

section \<open>The root\<close>

abbreviation nibble_pairs :: "(bytes \<times> bytes) list \<Rightarrow> (nibbles \<times> bytes) list" where
  "nibble_pairs kvs \<equiv> map (\<lambda>(k, v). (key_to_nibbles k, v)) kvs"

lemma tree_insert_all_olookup:
  assumes "\<And>u. T = Some u \<Longrightarrow> good 64 u" and "\<forall>(k, v) \<in> set kvs. length k = 32"
  shows "olookup (tree_insert_all kvs T) = olookup T ++ map_of (rev (nibble_pairs kvs))"
  using assms
proof (induction kvs arbitrary: T)
  case (Cons kv kvs)
  obtain k v where kv: "kv = (k, v)" by fastforce
  have g: "good 64 (oinsert T (key_to_nibbles k) v)"
    using Cons.prems kv by (intro good_oinsert) (auto simp: length_key_to_nibbles)
  have "olookup (Some (oinsert T (key_to_nibbles k) v)) = (olookup T)(key_to_nibbles k \<mapsto> v)"
    using olookup_oinsert [of T 64 "key_to_nibbles k" v] Cons.prems(1) by fastforce
  then show ?case
    using Cons.IH [of "Some (oinsert T (key_to_nibbles k) v)"] g Cons.prems kv
    by (auto simp: fun_eq_iff map_add_def split: option.split)
qed simp

lemma map_of_nibble_pairs:
  "map_of (nibble_pairs kvs) ks = (if \<exists>k. ks = key_to_nibbles k then map_of kvs (THE k. ks = key_to_nibbles k) else None)"
  by (induction kvs) auto

lemma tree_insert_all_unique:
  assumes "\<forall>(k, v) \<in> set kvs. length k = 32" and "\<forall>(k, v) \<in> set kvs'. length k = 32"
    and "map_of (rev kvs) = map_of (rev kvs')"
  shows "tree_insert_all kvs None = tree_insert_all kvs' None"
proof -
  let ?T = "tree_insert_all kvs None" and ?T' = "tree_insert_all kvs' None"
  have eq: "olookup ?T = olookup ?T'"
    using tree_insert_all_olookup [of None kvs] tree_insert_all_olookup [of None kvs'] assms
    by (simp add: fun_eq_iff map_add_def rev_map map_of_nibble_pairs del: map_of_map)
  have g: "?T = Some u \<Longrightarrow> good 64 u" "?T' = Some u \<Longrightarrow> good 64 u" for u
    using tree_insert_all_good [of None kvs u] tree_insert_all_good [of None kvs' u] assms(1,2) by auto
  show ?thesis
  proof (cases ?T; cases ?T')
    fix u assume "?T = None" "?T' = Some u"
    then show ?thesis using eq good_nonempty [OF g(2)] by (metis olookup_simps)
  next
    fix u assume "?T = Some u" "?T' = None"
    then show ?thesis using eq good_nonempty [OF g(1)] by (metis olookup_simps)
  next
    fix u u' assume "?T = Some u" "?T' = Some u'"
    then show ?thesis using eq good_unique [OF g(1) g(2), of u u'] by (auto simp: olookup_def [abs_def])
  qed simp
qed

text \<open>C9. The root is a function of the contents: two histories of insertions that leave the same
  map leave the same root, in whatever order they came and on whatever stores.\<close>

theorem root_depends_on_contents_only:
  assumes "sled_contract C K healthy" and "inj_on (node_hash C) U"
    and "healthy d" and "empty_store C K d" and "healthy d'" and "empty_store C K d'"
    and "covered_all C U kvs None" and "covered_all C U kvs' None"
    and "\<forall>(k, v) \<in> set kvs. length k = 32" and "\<forall>(k, v) \<in> set kvs'. length k = 32"
    and "map_of (rev kvs) = map_of (rev kvs')"
  shows "\<exists>t t'. trie_insert_all (SledMptStore C K) kvs (trie_new d) = (Inr (), t)
           \<and> trie_insert_all (SledMptStore C K) kvs' (trie_new d') = (Inr (), t')
           \<and> mpt_root t = mpt_root t'"
proof -
  obtain t where "trie_insert_all (SledMptStore C K) kvs (trie_new d) = (Inr (), t)"
      "trie_repr C (SledMptStore C K) (sled_ok C K healthy) U t (tree_insert_all kvs None)"
    by (rule insert_all_repr [OF assms(1,3,4,2,7,9)])
  moreover obtain t' where "trie_insert_all (SledMptStore C K) kvs' (trie_new d') = (Inr (), t')"
      "trie_repr C (SledMptStore C K) (sled_ok C K healthy) U t' (tree_insert_all kvs' None)"
    by (rule insert_all_repr [OF assms(1,5,6,2,8,10)])
  moreover have "tree_insert_all kvs None = tree_insert_all kvs' None"
    by (rule tree_insert_all_unique [OF assms(9-11)])
  ultimately show ?thesis by (auto simp: trie_repr_def)
qed

definition demo_kvs' :: "(bytes \<times> bytes) list" where
  "demo_kvs' = [(demo_k1, [7]), (demo_k1, [7]), (demo_k2, [8])]"

lemma demo_covered': "covered_all demo_codec (set demo_nodes) demo_kvs' None"
proof -
  have "tinsert (TLeaf (replicate 64 0) [7]) (key_to_nibbles demo_k1) [7] = TLeaf (replicate 64 0) [7]"
    by code_simp
  then show ?thesis using demo_covered
    by (simp add: demo_kvs_def demo_kvs'_def demo_trees(1) oinsert_def [of "Some _"] del: tinsert.simps replicate.simps)
qed

theorem root_depends_on_contents_only_witness:
  "\<exists>t t'. trie_insert_all (SledMptStore demo_codec mem_sled) demo_kvs (trie_new []) = (Inr (), t)
     \<and> trie_insert_all (SledMptStore demo_codec mem_sled) demo_kvs' (trie_new []) = (Inr (), t')
     \<and> mpt_root t = mpt_root t'"
  using root_depends_on_contents_only [OF mem.sled_contract_axioms demo_no_collision _ demo_empty _ demo_empty
      demo_covered demo_covered' demo_keys(1)]
  by (auto simp: demo_kvs_def demo_kvs'_def demo_k1_def demo_k2_def)

lemma xor_all_perm:
  assumes "mset cs = mset cs'"
  shows "xor_all cs a = xor_all cs' a"
proof -
  define f where "f = (\<lambda>c x. case c of None \<Rightarrow> x | Some h \<Rightarrow> xor_bytes x h)"
  have c: "comp_fun_commute f"
    by unfold_locales (auto simp: f_def fun_eq_iff xor_bytes_swap split: option.split)
  have f: "xor_all (d # ds) a = f d (xor_all ds a)" for d ds
    by (simp add: f_def xor_all_Cons)
  have "xor_all ds a = fold_mset f a (mset ds)" for ds
    by (induction ds) (simp_all add: comp_fun_commute.fold_mset_add_mset [OF c] f del: xor_all.simps(2,3))
  then show ?thesis using assms by simp
qed

text \<open>The hash of a branch does not see which child sits in which slot: permuting the children
  (exchanging the balances of two accounts whose keys differ in one nibble, say) gives a different
  node, and a different state, with the same hash and the same root.\<close>

theorem branch_hash_ignores_positions:
  assumes "mset cs = mset cs'"
  shows "node_hash C (Branch cs v) = node_hash C (Branch cs' v)"
  using xor_all_perm [OF assms] by (simp add: node_hash_def)

theorem branch_hash_ignores_positions_witness:
  "node_hash demo_codec (Branch [Some [1], Some [2]] None) = node_hash demo_codec (Branch [Some [2], Some [1]] None)
   \<and> Branch [Some [1 :: u8], Some [2]] None \<noteq> Branch [Some [2], Some [1]] None"
  using branch_hash_ignores_positions [of "[Some [1], Some [2]]" "[Some [2], Some [1]]" demo_codec None] by simp

section \<open>The verifier\<close>

text \<open>An exclusion proof proves nothing: for every key and every root, the proof that consists of
  one leaf step and the root as its only sibling is accepted, whether or not the key is in the
  trie.\<close>

theorem exclusion_proof_for_any_key:
  "verify_proof C \<lparr>trie_key = key, mp_value = None, mp_root = r, siblings = [r], mp_path = [LeafStep]\<rparr>"
  by (simp add: verify_proof_def terminal_hash_def)

text \<open>Inclusion proofs can be forged against any root that is a branch: whoever knows the value
  \<open>X\<close> hashed into the root (every honest proof shows it) can prove any value under any key.\<close>

theorem inclusion_proof_forged:
  assumes "length X = 32" and "\<And>b. length (blake3 C b) = 32" and "length key = 32" and "nb < 16"
  shows "verify_proof C \<lparr>trie_key = key, mp_value = Some v, mp_root = branch_digest C X,
     siblings = [xor_bytes X (node_hash C (Leaf (tl (key_to_nibbles key)) v))],
     mp_path = [BranchStep nb, LeafStep]\<rparr>"
proof -
  have "length (node_hash C (Leaf (tl (key_to_nibbles key)) v)) = 32"
    using assms(2) by (simp add: node_hash_def)
  then have "xor_bytes (xor_bytes X (node_hash C (Leaf (tl (key_to_nibbles key)) v)))
      (node_hash C (Leaf (tl (key_to_nibbles key)) v)) = X"
    using assms(1) by (simp add: xor_bytes_cancel)
  moreover have "step_len (BranchStep nb) = 1" using assms(4) by (simp add: step_len_def)
  ultimately show ?thesis
    using assms(3) by (simp add: verify_proof_def terminal_hash_def step_len_def [of LeafStep]
        length_key_to_nibbles drop_Suc Let_def)
qed

theorem inclusion_proof_forged_witness:
  "verify_proof demo_codec \<lparr>trie_key = demo_k1, mp_value = Some [42], mp_root = branch_digest demo_codec zero_hash,
     siblings = [xor_bytes zero_hash (node_hash demo_codec (Leaf (tl (key_to_nibbles demo_k1)) [42]))],
     mp_path = [BranchStep 3, LeafStep]\<rparr>"
  by (rule inclusion_proof_forged)
    (simp_all add: demo_k1_def demo_codec_def demo_hash_def Let_def word_less_nat_alt)

lemma prove_correct:
  assumes "trie_repr C S ok U t T" and "length key = 32"
  shows "\<exists>pf. prove C S t key = Inr pf \<and> trie_key pf = key
           \<and> mp_value pf = olookup T (key_to_nibbles key)
           \<and> mp_root pf = (case mpt_root t of Some r \<Rightarrow> r | None \<Rightarrow> zero_hash)
           \<and> (clear_path (mp_path pf) \<longrightarrow> verify_proof C pf)"
proof (cases T)
  case None
  have "get_with_proof MPT_FUEL C S (mpt_store t) None ns [] [] = Inr (None, [], [])" for ns
    using MPT_FUEL_enough(2) get_with_proof.simps(2) [of "MPT_FUEL - 1" C S "mpt_store t" None] by simp
  then show ?thesis using None assms(1) by (simp add: prove_def trie_repr_def verify_proof_def)
next
  case (Some u)
  let ?ns = "key_to_nibbles key"
  have u: "good 64 u" "holds C S (mpt_store t) u" "mpt_root t = Some (thash C u)"
    using assms(1) Some by (auto simp: trie_repr_def)
  have "get_with_proof MPT_FUEL C S (mpt_store t) (mpt_root t) ?ns [] []
      = Inr (tlookup u ?ns, fst (tproof C u ?ns), snd (tproof C u ?ns))"
    using get_with_proof_correct [OF u(1,2), of ?ns MPT_FUEL "[]" "[]"] assms(2) u(3)
    by (simp add: length_key_to_nibbles MPT_FUEL_enough)
  then show ?thesis using verify_tproof [OF u(1), of C key] u(3) Some by (simp add: prove_def case_prod_beta)
qed

text \<open>C10. Proofs are complete: after any insertions, \<open>prove\<close> succeeds for every key, reports the value
  the map holds (or none) under the current root, and the verifier accepts the proof whenever no
  two extension steps of its path have the same length.\<close>

theorem proofs_verify:
  assumes "sled_contract C K healthy" and "healthy d" and "empty_store C K d"
    and "inj_on (node_hash C) U" and "covered_all C U kvs None"
    and "\<forall>(k, v) \<in> set kvs. length k = 32" and "length key = 32"
    and "trie_insert_all (SledMptStore C K) kvs (trie_new d) = (Inr (), t)"
  shows "\<exists>pf. prove C (SledMptStore C K) t key = Inr pf \<and> trie_key pf = key
           \<and> mp_value pf = map_of (rev kvs) key
           \<and> mp_root pf = (case mpt_root t of Some r \<Rightarrow> r | None \<Rightarrow> zero_hash)
           \<and> (distinct (filter is_extension (mp_path pf)) \<longrightarrow> verify_proof C pf)"
proof -
  have "trie_repr C (SledMptStore C K) (sled_ok C K healthy) U t (tree_insert_all kvs None)"
    using insert_all_repr [OF assms(1-6)] assms(8) by (metis prod.inject)
  from prove_correct [OF this assms(7)] show ?thesis
    using fresh_lookup [OF assms(6,7)] by (simp add: clear_path_def)
qed

theorem proofs_verify_witness:
  "\<exists>t pf. trie_insert_all (SledMptStore demo_codec mem_sled) demo_kvs (trie_new []) = (Inr (), t)
     \<and> prove demo_codec (SledMptStore demo_codec mem_sled) t demo_k2 = Inr pf
     \<and> mp_value pf = Some [8] \<and> verify_proof demo_codec pf"
proof -
  let ?S = "SledMptStore demo_codec mem_sled"
  define t where "t = snd (trie_insert_all ?S demo_kvs (trie_new []))"
  have t: "trie_insert_all ?S demo_kvs (trie_new []) = (Inr (), t)"
    unfolding t_def by code_simp
  obtain pf where pf: "prove demo_codec ?S t demo_k2 = Inr pf" "mp_value pf = map_of (rev demo_kvs) demo_k2"
      "distinct (filter is_extension (mp_path pf)) \<Longrightarrow> verify_proof demo_codec pf"
    using proofs_verify [OF mem.sled_contract_axioms _ demo_empty demo_no_collision demo_covered demo_keys t] by auto
  have "map_of (rev demo_kvs) demo_k2 = Some [8]" by code_simp
  moreover have "(case prove demo_codec ?S t demo_k2 of Inr pf \<Rightarrow> distinct (filter is_extension (mp_path pf)) | _ \<Rightarrow> False)"
    unfolding t_def by code_simp
  ultimately show ?thesis using t pf by auto
qed

text \<open>Two extension steps of the same length on one path: the keys start with the nibbles 0,0,5,0
  and 0,0,5,1 and 0,1.\<close>

definition deep_kvs :: "(bytes \<times> bytes) list" where
  "deep_kvs = [(0x00 # 0x50 # replicate 30 0, [1]), (0x00 # 0x51 # replicate 30 0, [2]),
               (0x01 # replicate 31 0, [3])]"

text \<open>The verifier rejects an honest proof when two extension steps of the path have the same
  length: it reads the prefix of the second one at the position of the first. The trie holds the
  key, \<open>prove\<close> finds its value, and the proof fails.\<close>

theorem honest_proof_rejected:
  "case trie_insert_all (SledMptStore demo_codec mem_sled) deep_kvs (trie_new []) of
     (r, t) \<Rightarrow>
       (case prove demo_codec (SledMptStore demo_codec mem_sled) t (0x00 # 0x50 # replicate 30 0) of
          Inl _ \<Rightarrow> False
        | Inr pf \<Rightarrow> mp_value pf = Some [1] \<and> mpt_root t = Some (mp_root pf) \<and> \<not> verify_proof demo_codec pf)"
  by code_simp

section \<open>Garbage collection\<close>

text \<open>C11. Collecting the garbage of an earlier version keeps the current trie: after insertions
  \<open>kvs\<close> and then \<open>kvs'\<close>, \<open>gc_since\<close> with the root in between succeeds, leaves the root, every lookup
  still returns what the map holds, and each node of the earlier version is either part of the
  current one or gone from the store.\<close>

theorem gc_keeps_current_trie:
  assumes "sled_contract C K healthy" and "healthy d" and "empty_store C K d"
    and "inj_on (node_hash C) U" and "covered_all C U kvs None" and "covered_all C U kvs' (tree_insert_all kvs None)"
    and "\<forall>(k, v) \<in> set kvs. length k = 32" and "\<forall>(k, v) \<in> set kvs'. length k = 32"
    and "trie_insert_all (SledMptStore C K) kvs (trie_new d) = (Inr (), t0)"
    and "trie_insert_all (SledMptStore C K) kvs' t0 = (Inr (), t1)"
    and "mpt_root t0 = Some r0" and "length key = 32"
  shows "\<exists>n t2. gc_since (SledMptStore C K) r0 t1 = (Inr n, t2) \<and> mpt_root t2 = mpt_root t1
           \<and> trie_get (SledMptStore C K) t2 key = Inr (map_of (rev (kvs @ kvs')) key)
           \<and> (\<forall>T0 T1. tree_insert_all kvs None = Some T0 \<longrightarrow> tree_insert_all kvs' (Some T0) = Some T1 \<longrightarrow>
                (\<forall>h \<in> subhashes C T0. h \<in> subhashes C T1 \<or> get_node (SledMptStore C K) (mpt_store t2) h = Inr None))"
proof -
  let ?S = "SledMptStore C K" and ?ok = "sled_ok C K healthy"
  have u: "node_universe C ?S ?ok U" by (rule sled_universe [OF assms(1,4)])
  have r0: "trie_repr C ?S ?ok U t0 (tree_insert_all kvs None)"
    using insert_all_repr [OF assms(1-5,7)] assms(9) by (metis prod.inject)
  then obtain T0 where T0: "tree_insert_all kvs None = Some T0" "r0 = thash C T0" "good 64 T0"
      "holds C ?S (mpt_store t0) T0"
    using assms(11) by (cases "tree_insert_all kvs None") (auto simp: trie_repr_def)
  obtain t1' where "trie_insert_all ?S kvs' t0 = (Inr (), t1')"
      "trie_repr C ?S ?ok U t1' (tree_insert_all kvs' (Some T0))" "keeps C ?S (mpt_store t0) (mpt_store t1')"
    using node_universe.trie_insert_all_correct [OF u r0 assms(8,6)] T0(1) by auto
  then have r1: "trie_repr C ?S ?ok U t1 (tree_insert_all kvs' (Some T0))" "holds C ?S (mpt_store t1) T0"
    using assms(10) holds_keeps [OF T0(4)] by auto
  obtain T1 where T1: "tree_insert_all kvs' (Some T0) = Some T1" using tree_insert_all_Some by blast
  obtain n t2 where t2: "gc_since ?S r0 t1 = (Inr n, t2)" "trie_repr C ?S ?ok U t2 (Some T1)"
      "\<forall>h \<in> subhashes C T0. h \<in> subhashes C T1 \<or> get_node ?S (mpt_store t2) h = Inr None"
    using node_universe.gc_since_correct [OF u r1(1) [unfolded T1] r1(2) T0(3)] T0(2) by blast
  have "tree_insert_all (kvs @ kvs') None = Some T1" using T0(1) T1 by (simp add: tree_insert_all_append)
  then have "tlookup T1 (key_to_nibbles key) = map_of (rev (kvs @ kvs')) key"
    using fresh_lookup [of "kvs @ kvs'" key] assms(7,8,12) by (simp add: ball_Un)
  moreover have "trie_get ?S t2 key = Inr (tlookup T1 (key_to_nibbles key))"
    using node_universe.trie_get_correct [OF u t2(2) assms(12)] by simp
  moreover have "mpt_root t2 = mpt_root t1" using t2(2) r1(1) T1 by (simp add: trie_repr_def)
  ultimately show ?thesis using t2 T0(1) T1 by auto
qed

text \<open>The collection after the second of the two insertions.\<close>

definition demo_t0 :: "(bytes \<times> bytes) list MerklePatriciaTrie" where
  "demo_t0 = snd (trie_insert_all (SledMptStore demo_codec mem_sled) [(demo_k1, [7])] (trie_new []))"

definition demo_t1 :: "(bytes \<times> bytes) list MerklePatriciaTrie" where
  "demo_t1 = snd (trie_insert_all (SledMptStore demo_codec mem_sled) [(demo_k2, [8])] demo_t0)"

theorem gc_keeps_current_trie_witness:
  "\<exists>n t2. gc_since (SledMptStore demo_codec mem_sled) (node_hash demo_codec (Leaf (replicate 64 0) [7])) demo_t1 = (Inr n, t2)
     \<and> mpt_root t2 = mpt_root demo_t1
     \<and> trie_get (SledMptStore demo_codec mem_sled) t2 demo_k1 = Inr (Some [7])"
proof -
  let ?S = "SledMptStore demo_codec mem_sled"
  have c: "covered_all demo_codec (set demo_nodes) [(demo_k1, [7])] None"
    "covered_all demo_codec (set demo_nodes) [(demo_k2, [8])] (tree_insert_all [(demo_k1, [7])] None)"
    using demo_covered by (simp_all add: demo_kvs_def)
  have t: "trie_insert_all ?S [(demo_k1, [7])] (trie_new []) = (Inr (), demo_t0)"
    "trie_insert_all ?S [(demo_k2, [8])] demo_t0 = (Inr (), demo_t1)"
    "mpt_root demo_t0 = Some (node_hash demo_codec (Leaf (replicate 64 0) [7]))"
    by code_simp+
  have k: "\<forall>(k, v) \<in> set [(demo_k1, [7 :: u8])]. length k = 32" "\<forall>(k, v) \<in> set [(demo_k2, [8 :: u8])]. length k = 32"
    "length demo_k1 = 32"
    by (simp_all add: demo_k1_def demo_k2_def)
  have "map_of (rev ([(demo_k1, [7 :: u8])] @ [(demo_k2, [8])])) demo_k1 = Some [7]" by code_simp
  then show ?thesis
    using gc_keeps_current_trie [OF mem.sled_contract_axioms _ demo_empty demo_no_collision c k(1,2) t k(3)]
    by fastforce
qed

end
