(* ===== verification/Chunk_Framing.thy ===== *)
theory Chunk_Framing
  imports Primus_Types "HOL-Library.Multiset"
begin

text \<open>
  \<open>primus-core/src/framing.rs\<close>: splitting a message into chunks that fit a Noise frame, and the
  reassembler that collects the chunks of many streams. The clock is an argument: an \<open>Instant\<close> is an
  integer number of nanoseconds. BLAKE3 is the argument \<open>blake3\<close>. The hash maps of the source are
  ordered lists here; nothing depends on their order.
\<close>

section \<open>Chunks\<close>

definition NOISE_MAX_PAYLOAD :: nat where "NOISE_MAX_PAYLOAD = 65519"
definition APP_MAX_MESSAGE :: nat where "APP_MAX_MESSAGE = 16 * 1024 * 1024"
definition CHUNK_STREAM_TTL_SECS :: u64 where "CHUNK_STREAM_TTL_SECS = 30"

record ChunkEnvelope =
  stream_id :: bytes
  chunk_index :: u32
  total_chunks :: u32
  payload_hash :: hash32
  chunk_data :: bytes

datatype FrameError =
    MessageTooLarge nat nat
  | HashMismatch hash32 hash32
  | StreamExpired

text \<open>\<open>slice::chunks\<close>: pieces of \<open>n\<close> elements, the last one possibly shorter.\<close>

function chunks :: "nat \<Rightarrow> 'a list \<Rightarrow> 'a list list" where
  "chunks n xs = (if xs = [] \<or> n = 0 then [] else take n xs # chunks n (drop n xs))"
  by pat_completeness auto
termination by (relation "measure (length \<circ> snd)") auto

declare chunks.simps [simp del]

definition chunk_message :: "(bytes \<Rightarrow> hash32) \<Rightarrow> bytes \<Rightarrow> bytes \<Rightarrow> FrameError + ChunkEnvelope list" where
  "chunk_message blake3 msg sid =
     (if APP_MAX_MESSAGE < length msg then Inl (MessageTooLarge (length msg) APP_MAX_MESSAGE)
      else
        let raw_chunks = chunks NOISE_MAX_PAYLOAD msg
        in Inr (map (\<lambda>(i, chunk).
                 \<lparr>stream_id = sid, chunk_index = of_nat i, total_chunks = of_nat (length raw_chunks),
                  payload_hash = blake3 msg, chunk_data = chunk\<rparr>) (enumerate 0 raw_chunks)))"

section \<open>The reassembler\<close>

record PartialStream =
  ps_total :: u32
  expected_hash :: hash32
  received :: "(u32, bytes) btree"
  first_seen :: int

record ChunkReassembler =
  streams :: "(bytes, PartialStream) btree"

definition reassembler_new :: ChunkReassembler where
  "reassembler_new = \<lparr>streams = []\<rparr>"

definition ttl_nanos :: int where
  "ttl_nanos = uint CHUNK_STREAM_TTL_SECS * 1000000000"

definition is_fresh :: "int \<Rightarrow> PartialStream \<Rightarrow> bool" where
  "is_fresh now s = (max 0 (now - first_seen s) < ttl_nanos)"

definition evict_expired :: "int \<Rightarrow> ChunkReassembler \<Rightarrow> ChunkReassembler" where
  "evict_expired now r = r\<lparr>streams := filter (\<lambda>(_, s). is_fresh now s) (streams r)\<rparr>"

definition reassemble :: "PartialStream \<Rightarrow> bytes" where
  "reassemble s = concat (map (\<lambda>i. case bt_get (received s) (of_nat i) of None \<Rightarrow> [] | Some d \<Rightarrow> d)
                            [0 ..< unat (ps_total s)])"

text \<open>What one chunk does to the entry of its stream; the entry is removed when it is complete.\<close>

definition feed_stream ::
  "(bytes \<Rightarrow> hash32) \<Rightarrow> int \<Rightarrow> ChunkEnvelope \<Rightarrow> PartialStream option
     \<Rightarrow> (FrameError + bytes option) \<times> PartialStream option" where
  "feed_stream blake3 now env entry =
     (let st = (case entry of
                  Some s \<Rightarrow> s
                | None \<Rightarrow> \<lparr>ps_total = total_chunks env, expected_hash = payload_hash env, received = [],
                           first_seen = now\<rparr>);
          st1 = st\<lparr>received := bt_insert (chunk_index env) (chunk_data env) (received st)\<rparr>
      in if of_nat (length (received st1)) = ps_total st1
         then
           if blake3 (reassemble st1) \<noteq> expected_hash st1
           then (Inl (HashMismatch (expected_hash st1) (blake3 (reassemble st1))), None)
           else (Inr (Some (reassemble st1)), None)
         else (Inr None, Some st1))"

definition feed ::
  "(bytes \<Rightarrow> hash32) \<Rightarrow> int \<Rightarrow> ChunkEnvelope \<Rightarrow> ChunkReassembler
     \<Rightarrow> (FrameError + bytes option) \<times> ChunkReassembler" where
  "feed blake3 now env r0 =
     (let r = evict_expired now r0;
          (res, entry) = feed_stream blake3 now env (bt_get (streams r) (stream_id env))
      in (res, r\<lparr>streams := (case entry of
                   None \<Rightarrow> bt_remove (stream_id env) (streams r)
                 | Some s \<Rightarrow> bt_insert (stream_id env) s (streams r))\<rparr>))"

text \<open>A sequence of arrivals, of any streams, with their times.\<close>

fun feed_all ::
  "(bytes \<Rightarrow> hash32) \<Rightarrow> (int \<times> ChunkEnvelope) list \<Rightarrow> ChunkReassembler
     \<Rightarrow> (FrameError + bytes option) list \<times> ChunkReassembler" where
  "feed_all blake3 [] r = ([], r)"
| "feed_all blake3 ((now, env) # evs) r =
     (let (res, r1) = feed blake3 now env r; (rs, r2) = feed_all blake3 evs r1 in (res # rs, r2))"

section \<open>Chunking\<close>

lemma chunks_Nil [simp]: "chunks n [] = []"
  by (simp add: chunks.simps)

lemma concat_chunks: "0 < n \<Longrightarrow> concat (chunks n xs) = xs"
  by (induction n xs rule: chunks.induct) (subst chunks.simps, simp)

lemma length_chunks: "0 < n \<Longrightarrow> length (chunks n xs) * n < length xs + n"
proof (induction n xs rule: chunks.induct)
  case (1 n xs)
  show ?case
  proof (cases "xs = []")
    case False
    then have IH: "length (chunks n (drop n xs)) * n < length (drop n xs) + n" using 1 by simp
    have "length (chunks n (drop n xs)) * n + n < length xs + n"
    proof (cases "n \<le> length xs")
      case False
      then have "drop n xs = []" by simp
      then show ?thesis using \<open>xs \<noteq> []\<close> by simp
    qed (use IH in simp)
    then show ?thesis using False 1(2) by (subst chunks.simps) simp
  qed (use 1 in simp)
qed

lemma chunks_sizes: "c \<in> set (chunks n xs) \<Longrightarrow> c \<noteq> [] \<and> length c \<le> n"
  by (induction n xs rule: chunks.induct) (subst (asm) chunks.simps, auto split: if_splits)

lemma chunks_eq_Nil: "0 < n \<Longrightarrow> chunks n xs = [] \<longleftrightarrow> xs = []"
  by (subst chunks.simps) simp

lemma few_chunks:
  assumes "length msg \<le> APP_MAX_MESSAGE"
  shows "length (chunks NOISE_MAX_PAYLOAD msg) \<le> 257"
proof (rule ccontr)
  assume "\<not> ?thesis"
  then have "258 * NOISE_MAX_PAYLOAD \<le> length (chunks NOISE_MAX_PAYLOAD msg) * NOISE_MAX_PAYLOAD"
    by (intro mult_right_mono) simp_all
  then show False
    using length_chunks [of NOISE_MAX_PAYLOAD msg] assms
    by (simp add: NOISE_MAX_PAYLOAD_def APP_MAX_MESSAGE_def)
qed

text \<open>The envelopes of a message: one stream, one total, one hash, indices 0, 1, 2, \<dots>.\<close>

definition envelopes_of :: "(bytes \<Rightarrow> hash32) \<Rightarrow> bytes \<Rightarrow> bytes \<Rightarrow> ChunkEnvelope list \<Rightarrow> bool" where
  "envelopes_of blake3 msg sid cs =
     (length cs < 2 ^ 32 \<and> concat (map chunk_data cs) = msg \<and>
      (\<forall>i < length cs. stream_id (cs ! i) = sid \<and> chunk_index (cs ! i) = of_nat i
         \<and> total_chunks (cs ! i) = of_nat (length cs) \<and> payload_hash (cs ! i) = blake3 msg))"

lemma chunk_message_envelopes:
  assumes "chunk_message blake3 msg sid = Inr cs"
  shows "envelopes_of blake3 msg sid cs"
proof -
  let ?raw = "chunks NOISE_MAX_PAYLOAD msg"
  have len: "length msg \<le> APP_MAX_MESSAGE" and cs: "cs = map (\<lambda>(i, chunk).
      \<lparr>stream_id = sid, chunk_index = of_nat i, total_chunks = of_nat (length ?raw),
       payload_hash = blake3 msg, chunk_data = chunk\<rparr>) (enumerate 0 ?raw)"
    using assms by (auto simp: chunk_message_def Let_def split: if_splits)
  have "map chunk_data cs = map snd (enumerate 0 ?raw)" by (simp add: cs split_def comp_def)
  then have "concat (map chunk_data cs) = msg"
    by (simp add: concat_chunks NOISE_MAX_PAYLOAD_def)
  then show ?thesis
    using few_chunks [OF len] by (simp add: envelopes_of_def cs nth_enumerate_eq)
qed

section \<open>One stream\<close>

text \<open>The entry after the envelopes \<open>D\<close> (most recent first) have arrived.\<close>

fun received_of :: "ChunkEnvelope list \<Rightarrow> (u32, bytes) btree" where
  "received_of [] = []"
| "received_of (e # D) = bt_insert (chunk_index e) (chunk_data e) (received_of D)"

lemma received_of_ordered: "bt_ordered (received_of D)"
  by (induction D) simp_all

lemma length_bt_insert:
  "bt_ordered m \<Longrightarrow> length (bt_insert k v m) = (if bt_get m k = None then Suc (length m) else length m)"
proof (induction k v m rule: bt_insert.induct)
  case (2 k v k' v' m)
  have "bt_get m k = None" if "k < k'" using 2(2) that by (intro bt_get_None_less) fastforce
  then show ?case using 2 by auto
qed simp

lemma received_of_get:
  "distinct (map chunk_index D) \<Longrightarrow> e \<in> set D \<Longrightarrow> bt_get (received_of D) (chunk_index e) = Some (chunk_data e)"
  by (induction D) (auto simp: image_iff)

lemma received_of_None: "k \<notin> chunk_index ` set D \<Longrightarrow> bt_get (received_of D) k = None"
  by (induction D) auto

lemma length_received_of: "distinct (map chunk_index D) \<Longrightarrow> length (received_of D) = length D"
  by (induction D) (simp_all add: length_bt_insert received_of_ordered received_of_None)

text \<open>The state of a stream of which \<open>D\<close> has arrived since \<open>t0\<close>.\<close>

definition stream_state ::
  "ChunkEnvelope list \<Rightarrow> int \<Rightarrow> ChunkEnvelope list \<Rightarrow> PartialStream option \<Rightarrow> bool" where
  "stream_state cs t0 D entry =
     (case entry of
        None \<Rightarrow> D = []
      | Some s \<Rightarrow> D \<noteq> [] \<and> ps_total s = total_chunks (hd cs) \<and> expected_hash s = payload_hash (hd cs)
                 \<and> received s = received_of D \<and> t0 \<le> first_seen s)"

lemma of_nat_u32_inj:
  assumes "i < 2 ^ 32" and "j < 2 ^ 32"
  shows "(of_nat i :: u32) = of_nat j \<longleftrightarrow> i = j"
proof -
  have "unat (of_nat i :: u32) = i" "unat (of_nat j :: u32) = j"
    using assms by (simp_all add: unat_of_nat take_bit_nat_eq_self)
  then show ?thesis by metis
qed

lemma envelopes_distinct: "envelopes_of blake3 msg sid cs \<Longrightarrow> distinct (map chunk_index cs)"
proof -
  assume e: "envelopes_of blake3 msg sid cs"
  have "i = j" if "i < length cs" "j < length cs" "(of_nat i :: u32) = of_nat j" for i j
    using that e of_nat_u32_inj [of i j] by (simp add: envelopes_of_def)
  then show ?thesis using e by (auto simp: distinct_conv_nth envelopes_of_def)
qed

lemma envelopes_same:
  assumes "envelopes_of blake3 msg sid cs" and "e \<in> set cs"
  shows "stream_id e = sid" "total_chunks e = of_nat (length cs)" "payload_hash e = blake3 msg"
  using assms by (auto simp: envelopes_of_def in_set_conv_nth)

lemma reassemble_all:
  assumes "envelopes_of blake3 msg sid cs" and "mset D = mset cs"
    and "received s = received_of D" and "ps_total s = of_nat (length cs)"
  shows "reassemble s = msg"
proof -
  have n: "unat (ps_total s) = length cs"
    using assms(1,4) by (simp add: envelopes_of_def unat_of_nat take_bit_nat_eq_self)
  have "distinct (map chunk_index D)"
    using envelopes_distinct [OF assms(1)] assms(2) by (metis mset_eq_imp_distinct_iff mset_map)
  then have "bt_get (received_of D) (of_nat i) = Some (chunk_data (cs ! i))" if "i < length cs" for i
    using received_of_get [of D "cs ! i"] assms(1) that mset_eq_setD [OF assms(2)]
    by (simp add: envelopes_of_def)
  then have "reassemble s = concat (map (\<lambda>i. chunk_data (cs ! i)) [0 ..< length cs])"
    unfolding reassemble_def n assms(3) by (intro arg_cong [of _ _ concat] map_cong) auto
  also have "\<dots> = concat (map chunk_data cs)"
    by (metis map_map map_nth comp_apply map_cong)
  finally show ?thesis using assms(1) by (simp add: envelopes_of_def)
qed

lemma distinct_map_submset:
  assumes "mset xs \<subseteq># mset ys" and "distinct (map f ys)"
  shows "distinct (map f xs)"
proof -
  obtain zs where "mset ys = mset (xs @ zs)"
    using assms(1) by (metis ex_mset mset_append mset_subset_eq_exists_conv)
  then have "distinct (map f (xs @ zs))" using assms(2) by (metis mset_eq_imp_distinct_iff mset_map)
  then show ?thesis by simp
qed

text \<open>The next chunk of the message: either the stream grows, or the message is complete.\<close>

lemma feed_stream_step:
  assumes e: "envelopes_of blake3 msg sid cs" and sub: "mset (e # D) \<subseteq># mset cs"
    and st: "stream_state cs t0 D entry" and now: "t0 \<le> now"
  shows "if length (e # D) = length cs then feed_stream blake3 now e entry = (Inr (Some msg), None)
         else \<exists>s. feed_stream blake3 now e entry = (Inr None, Some s) \<and> stream_state cs t0 (e # D) (Some s)"
proof -
  let ?st = "case entry of Some s \<Rightarrow> s | None \<Rightarrow> \<lparr>ps_total = total_chunks e, expected_hash = payload_hash e,
      received = [], first_seen = now\<rparr>"
  let ?s = "?st\<lparr>received := bt_insert (chunk_index e) (chunk_data e) (received ?st)\<rparr>"
  have mem: "e \<in> set cs" "hd cs \<in> set cs"
    using sub by (auto simp: insert_subset_eq_iff dest: mset_subset_eqD intro: hd_in_set)
  have s: "received ?s = received_of (e # D)" "ps_total ?s = of_nat (length cs)" "expected_hash ?s = blake3 msg"
      "t0 \<le> first_seen ?s"
    using st now envelopes_same [OF e mem(1)] envelopes_same [OF e mem(2)]
    by (cases entry; simp add: stream_state_def)+
  have "distinct (map chunk_index (e # D))"
    by (rule distinct_map_submset [OF sub envelopes_distinct [OF e]])
  then have len: "length (received ?s) = length (e # D)" unfolding s(1) by (rule length_received_of)
  have le: "length (e # D) \<le> length cs" using size_mset_mono [OF sub] by simp
  have "(of_nat (length (received ?s)) :: u32) = ps_total ?s \<longleftrightarrow> length (e # D) = length cs"
    unfolding len s(2) using le e by (intro of_nat_u32_inj) (simp_all add: envelopes_of_def)
  moreover have "reassemble ?s = msg" if "length (e # D) = length cs"
  proof (rule reassemble_all [OF e _ s(1,2)])
    show "mset (e # D) = mset cs" using sub that by (metis mset_subset_size size_mset subset_mset.le_less less_irrefl)
  qed
  moreover have "stream_state cs t0 (e # D) (Some ?s)"
    using s envelopes_same [OF e mem(2)] by (simp add: stream_state_def)
  ultimately show ?thesis using s(3) unfolding feed_stream_def by (auto simp: Let_def)
qed

section \<open>Many streams\<close>

abbreviation entry_of :: "ChunkReassembler \<Rightarrow> bytes \<Rightarrow> PartialStream option" where
  "entry_of r sid \<equiv> bt_get (streams r) sid"

definition reassembler_ok :: "ChunkReassembler \<Rightarrow> bool" where
  "reassembler_ok r = bt_ordered (streams r)"

lemma bt_ordered_filter: "bt_ordered m \<Longrightarrow> bt_ordered (filter P m)"
  by (induction m) (auto split: prod.split)

lemma bt_get_filter:
  "bt_ordered m \<Longrightarrow> bt_get (filter (\<lambda>(_, v). P v) m) k = (case bt_get m k of Some v \<Rightarrow> if P v then Some v else None | None \<Rightarrow> None)"
proof (induction m)
  case (Cons x m)
  have "bt_get m (fst x) = None" using Cons.prems by (cases x) (force simp: map_of_eq_None_iff)
  then show ?case using Cons by (cases x) (auto split: option.split)
qed simp

lemma reassembler_ok_new [simp]: "reassembler_ok reassembler_new"
  by (simp add: reassembler_ok_def reassembler_new_def)

lemma reassembler_ok_feed: "reassembler_ok r \<Longrightarrow> reassembler_ok (snd (feed blake3 now e r))"
  by (auto simp: feed_def reassembler_ok_def evict_expired_def Let_def bt_ordered_filter split: prod.split option.split)

lemma entry_evict:
  "reassembler_ok r \<Longrightarrow> entry_of (evict_expired now r) sid
     = (case entry_of r sid of Some s \<Rightarrow> if is_fresh now s then Some s else None | None \<Rightarrow> None)"
  by (simp add: evict_expired_def reassembler_ok_def bt_get_filter)

text \<open>A chunk changes the entry of its own stream only; other entries can only expire.\<close>

lemma entry_feed:
  assumes "reassembler_ok r"
  shows "entry_of (snd (feed blake3 now e r)) sid =
     (if sid = stream_id e then snd (feed_stream blake3 now e (entry_of (evict_expired now r) sid))
      else entry_of (evict_expired now r) sid)"
  by (auto simp: feed_def Let_def split: prod.split option.split)

lemma result_feed: "fst (feed blake3 now e r) = fst (feed_stream blake3 now e (entry_of (evict_expired now r) (stream_id e)))"
  by (auto simp: feed_def Let_def split: prod.split)

lemma entry_evict_window:
  assumes "reassembler_ok r" and "stream_state cs t0 D (entry_of r sid)" and "now < t0 + ttl_nanos"
  shows "entry_of (evict_expired now r) sid = entry_of r sid"
  using assms by (auto simp: entry_evict stream_state_def is_fresh_def ttl_nanos_def CHUNK_STREAM_TTL_SECS_def split: option.splits)

text \<open>The results of the arrivals of one stream.\<close>

definition results_for :: "bytes \<Rightarrow> (int \<times> ChunkEnvelope) list \<Rightarrow> 'r list \<Rightarrow> 'r list" where
  "results_for sid evs rs = map snd (filter (\<lambda>((_, e), _). stream_id e = sid) (zip evs rs))"

abbreviation arrivals :: "bytes \<Rightarrow> (int \<times> ChunkEnvelope) list \<Rightarrow> ChunkEnvelope list" where
  "arrivals sid evs \<equiv> filter (\<lambda>e. stream_id e = sid) (map snd evs)"

lemma results_for_Cons:
  "results_for sid ((now, e) # evs) (x # rs)
     = (if stream_id e = sid then x # results_for sid evs rs else results_for sid evs rs)"
  by (simp add: results_for_def)

lemma feed_all_stream:
  assumes e: "envelopes_of blake3 msg sid cs"
    and "reassembler_ok r" and "stream_state cs t0 D (entry_of r sid)"
    and "mset (arrivals sid evs) + mset D = mset cs" and "arrivals sid evs \<noteq> []"
    and "\<forall>(now, _) \<in> set evs. t0 \<le> now \<and> now < t0 + ttl_nanos"
  shows "results_for sid evs (fst (feed_all blake3 evs r))
       = replicate (length (arrivals sid evs) - 1) (Inr None) @ [Inr (Some msg)]"
  using assms(2-)
proof (induction evs arbitrary: r D)
  case (Cons ev evs)
  obtain now en where ev: "ev = (now, en)" by fastforce
  let ?f = "feed blake3 now en r"
  have w: "t0 \<le> now" "now < t0 + ttl_nanos" using Cons.prems(5) ev by auto
  have ok: "reassembler_ok (snd ?f)" by (rule reassembler_ok_feed [OF Cons.prems(1)])
  have evict: "entry_of (evict_expired now r) sid = entry_of r sid"
    by (rule entry_evict_window [OF Cons.prems(1,2) w(2)])
  have all: "fst (feed_all blake3 (ev # evs) r) = fst ?f # fst (feed_all blake3 evs (snd ?f))"
    by (simp add: ev split: prod.split)
  show ?case
  proof (cases "stream_id en = sid")
    case False
    then have "entry_of (snd ?f) sid = entry_of r sid" using entry_feed [OF Cons.prems(1)] evict by metis
    then show ?thesis
      using Cons.IH [OF ok, of D] Cons.prems ev False unfolding all unfolding ev by (simp add: results_for_Cons)
  next
    case True
    have "mset (en # D) + mset (arrivals sid evs) = mset cs"
      using Cons.prems(3) ev True by (simp add: union_commute)
    then have sub: "mset (en # D) \<subseteq># mset cs" by (metis mset_subset_eq_add_left)
    have len: "length (arrivals sid (ev # evs)) + length D = length cs"
      using arg_cong [OF Cons.prems(3), of size] by simp
    have res: "fst ?f = fst (feed_stream blake3 now en (entry_of r sid))"
      "entry_of (snd ?f) sid = snd (feed_stream blake3 now en (entry_of r sid))"
      using result_feed [of blake3 now en r] entry_feed [OF Cons.prems(1), of blake3 now en sid] True evict by simp_all
    note step = feed_stream_step [OF e sub Cons.prems(2) w(1)]
    show ?thesis
    proof (cases "arrivals sid evs = []")
      case rest: True
      then have "length (en # D) = length cs" using len ev True by simp
      then have "fst ?f = Inr (Some msg)" using step res by simp
      moreover have "results_for sid evs rs = []" for rs :: "(FrameError + bytes option) list"
      proof -
        have "stream_id (snd x) \<noteq> sid" if "x \<in> set evs" for x using rest that by (auto simp: filter_empty_conv)
        then show ?thesis by (fastforce simp: results_for_def filter_empty_conv dest!: set_zip_leftD)
      qed
      ultimately show ?thesis using True rest unfolding all unfolding ev by (simp add: results_for_Cons)
    next
      case rest: False
      then have "0 < length (arrivals sid evs)" by blast
      then have "length (en # D) \<noteq> length cs" using len ev True by (simp del: length_greater_0_conv)
      then obtain s where s: "feed_stream blake3 now en (entry_of r sid) = (Inr None, Some s)"
          "stream_state cs t0 (en # D) (Some s)"
        using step by auto
      then have "results_for sid evs (fst (feed_all blake3 evs (snd ?f)))
          = replicate (length (arrivals sid evs) - 1) (Inr None) @ [Inr (Some msg)]"
        using Cons.prems(3,5) ev True rest res(2) by (intro Cons.IH [OF ok, of "en # D"]) simp_all
      moreover have "length (arrivals sid evs) = Suc (length (arrivals sid evs) - 1)"
        using rest by (cases "arrivals sid evs") simp_all
      ultimately show ?thesis using True s(1) res(1) unfolding all unfolding ev
        by (simp add: results_for_Cons) (metis replicate_Suc append_Cons)
    qed
  qed
qed simp

section \<open>Properties\<close>

text \<open>C14. Reassembly is the inverse of chunking under any scheduling: when the chunks of a non-empty
  message arrive in any order, interleaved with any chunks of other streams, within the lifetime of
  a stream, every arrival but the last answers that more is needed and the last one delivers the
  message.\<close>

theorem reassembly_any_order:
  assumes "chunk_message blake3 msg sid = Inr cs" and "msg \<noteq> []"
    and "mset (arrivals sid evs) = mset cs"
    and "\<forall>(now, _) \<in> set evs. t0 \<le> now \<and> now < t0 + ttl_nanos"
    and "reassembler_ok r" and "entry_of r sid = None"
  shows "results_for sid evs (fst (feed_all blake3 evs r))
       = replicate (length cs - 1) (Inr None) @ [Inr (Some msg)]"
proof -
  have e: "envelopes_of blake3 msg sid cs" by (rule chunk_message_envelopes [OF assms(1)])
  then have "cs \<noteq> []" using assms(2) by (auto simp: envelopes_of_def)
  then have "arrivals sid evs \<noteq> []" "length (arrivals sid evs) = length cs"
    using assms(3) by (metis mset.simps(1) mset_zero_iff, metis assms(3) size_mset)
  then show ?thesis
    using feed_all_stream [OF e assms(5), of t0 "[]" evs] assms(3,4,6) by (simp add: stream_state_def)
qed

definition demo_env :: "nat \<Rightarrow> bytes \<Rightarrow> ChunkEnvelope" where
  "demo_env i d = \<lparr>stream_id = [9], chunk_index = of_nat i, total_chunks = 1, payload_hash = [1], chunk_data = d\<rparr>"

definition other_env :: ChunkEnvelope where
  "other_env = \<lparr>stream_id = [8], chunk_index = 5, total_chunks = 7, payload_hash = [1], chunk_data = [4]\<rparr>"

theorem reassembly_any_order_witness:
  "results_for [9] [(3, other_env), (7, demo_env 0 [1, 2])]
     (fst (feed_all (\<lambda>_. [1]) [(3, other_env), (7, demo_env 0 [1, 2])] reassembler_new))
   = [Inr (Some [1, 2])]"
proof -
  have "chunks NOISE_MAX_PAYLOAD [1, 2 :: u8] = [[1, 2]]"
    by (subst chunks.simps) (simp add: NOISE_MAX_PAYLOAD_def)
  then have "chunk_message (\<lambda>_. [1]) [1, 2] [9] = Inr [demo_env 0 [1, 2]]"
    by (simp add: chunk_message_def demo_env_def APP_MAX_MESSAGE_def)
  from reassembly_any_order [OF this, of "[(3, other_env), (7, demo_env 0 [1, 2])]" 0 reassembler_new]
  show ?thesis
    by (simp add: demo_env_def other_env_def ttl_nanos_def CHUNK_STREAM_TTL_SECS_def reassembler_new_def reassembler_ok_def)
qed

text \<open>Whatever arrives, a delivered message has the hash that the first chunk of its stream
  announced, and the stream is closed with the delivery.\<close>

theorem delivered_hash_matches:
  assumes "feed blake3 now env r = (Inr (Some msg), r')" and "reassembler_ok r"
  shows "blake3 msg = (case entry_of (evict_expired now r) (stream_id env) of
           Some s \<Rightarrow> expected_hash s | None \<Rightarrow> payload_hash env)
       \<and> entry_of r' (stream_id env) = None"
proof -
  let ?so = "entry_of (evict_expired now r) (stream_id env)"
  have f: "fst (feed_stream blake3 now env ?so) = Inr (Some msg)"
    using result_feed [of blake3 now env r] assms(1) by simp
  then have "snd (feed_stream blake3 now env ?so) = None"
    by (auto simp: feed_stream_def Let_def split: if_splits)
  moreover have "blake3 msg = (case ?so of Some s \<Rightarrow> expected_hash s | None \<Rightarrow> payload_hash env)"
    using f by (cases ?so) (auto simp: feed_stream_def Let_def split: if_splits)
  ultimately show ?thesis using entry_feed [OF assms(2), of blake3 now env "stream_id env"] assms(1) by simp
qed

theorem delivered_hash_matches_witness:
  "\<exists>r'. feed (\<lambda>_. [1]) 7 (demo_env 0 [1, 2]) reassembler_new = (Inr (Some [1, 2]), r') \<and> entry_of r' [9] = None"
proof -
  have "feed (\<lambda>_. [1]) 7 (demo_env 0 [1, 2]) reassembler_new = (Inr (Some [1, 2]), reassembler_new)"
    by code_simp
  from delivered_hash_matches [OF this] this show ?thesis by (auto simp: demo_env_def)
qed

text \<open>Chunks fit the Noise frame and the limit on messages is enforced: a message above sixteen
  mebibytes is refused, and every other one is cut into non-empty chunks of at most the size of a
  Noise payload, at most 257 of them, which concatenate to the message. The empty message has no
  chunks at all, so it is never delivered.\<close>

theorem chunk_message_bounds:
  "(if APP_MAX_MESSAGE < length msg
    then chunk_message blake3 msg sid = Inl (MessageTooLarge (length msg) APP_MAX_MESSAGE)
    else \<exists>cs. chunk_message blake3 msg sid = Inr cs \<and> length cs \<le> 257 \<and> concat (map chunk_data cs) = msg
           \<and> list_all (\<lambda>c. chunk_data c \<noteq> [] \<and> length (chunk_data c) \<le> NOISE_MAX_PAYLOAD) cs
           \<and> (cs = [] \<longleftrightarrow> msg = []))"
proof (cases "APP_MAX_MESSAGE < length msg")
  case False
  then obtain cs where cs: "chunk_message blake3 msg sid = Inr cs" by (auto simp: chunk_message_def Let_def)
  let ?raw = "chunks NOISE_MAX_PAYLOAD msg"
  have d: "map chunk_data cs = ?raw"
    using cs False by (auto simp: chunk_message_def Let_def split_def comp_def)
  then have "length cs = length ?raw" by (metis length_map)
  moreover have "list_all (\<lambda>c. c \<noteq> [] \<and> length c \<le> NOISE_MAX_PAYLOAD) (map chunk_data cs)"
    unfolding d using chunks_sizes by (auto simp: list_all_iff)
  moreover have "concat (map chunk_data cs) = msg" unfolding d by (simp add: concat_chunks NOISE_MAX_PAYLOAD_def)
  moreover have "cs = [] \<longleftrightarrow> msg = []"
    using d chunks_eq_Nil [of NOISE_MAX_PAYLOAD msg] by (metis NOISE_MAX_PAYLOAD_def map_is_Nil_conv zero_less_numeral)
  ultimately show ?thesis using False cs few_chunks [of msg] by (auto simp: list_all_iff)
qed (simp add: chunk_message_def)

end
