(* ===== verification/Primus_Chamber.thy ===== *)
theory Primus_Chamber
  imports Primus_Pvm "HOL-Library.Sublist"
begin

text \<open>
  The physics of \<open>primus-core\<close>: atoms (\<open>atom.rs\<close>), rolls (\<open>gravity.rs\<close>), the construction of
  transfers (\<open>kinetic.rs\<close>), density and proof of work of crystals (\<open>crystal.rs\<close>), the
  normalisation of temperatures (\<open>physics_shim.rs\<close>) and the reaction chamber (\<open>chamber.rs\<close>).
  SHA3-256, BLAKE3, the signer and \<open>f32::ln_1p\<close> are arguments. Log output is left out.
\<close>

section \<open>Atoms\<close>

definition absorption_efficiency :: "Element \<Rightarrow> f32" where
  "absorption_efficiency el = (case el of
     Hydrogen \<Rightarrow> f32_lit 95 100 | Carbon \<Rightarrow> f32_lit 80 100 | Oxygen \<Rightarrow> f32_lit 70 100 | Gold \<Rightarrow> f32_lit 40 100)"

definition core_evolve :: "Atom \<Rightarrow> Atom" where
  "core_evolve a =
     (case element a of
        Hydrogen \<Rightarrow> if 4000 \<le> mass a then a\<lparr>element := Oxygen, charge := f32_lit 344 100\<rparr> else a
      | Oxygen \<Rightarrow> if 6000 \<le> mass a then a\<lparr>element := Carbon, charge := f32_lit 255 100\<rparr> else a
      | Carbon \<Rightarrow> if 50000 \<le> mass a then a\<lparr>element := Gold, charge := f32_lit 254 100\<rparr> else a
      | Gold \<Rightarrow> a)"

text \<open>The addition is unchecked in the source; it wraps in a release build.\<close>

definition absorb_decay :: "u64 \<Rightarrow> Atom \<Rightarrow> Atom" where
  "absorb_decay scattered_mass a =
     (if scattered_mass = 0 then a
      else core_evolve (a\<lparr>mass := mass a + float_to_u64
             (fmul binary32 (float_of_word binary32 scattered_mass) (absorption_efficiency (element a)))\<rparr>))"

definition get_binding_potential :: "Atom \<Rightarrow> f32" where
  "get_binding_potential a =
     fadd binary32
       (case element a of
          Hydrogen \<Rightarrow> f32_lit 1 1 | Carbon \<Rightarrow> f32_lit 45 10 | Oxygen \<Rightarrow> f32_lit 6 1 | Gold \<Rightarrow> f32_lit 25 1)
       (fmul binary32 (float_of_word binary32 (neutron_count a)) (f32_lit 18 10))"

definition core_apply_decay :: "Atom \<Rightarrow> u64 \<Rightarrow> Atom \<times> u64" where
  "core_apply_decay a current_index =
     (let age = saturating_sub current_index (last_active_index a);
          stability_threshold = saturating_sub 100 (ucast (neutron_count a) * 5)
      in if stability_threshold < age
         then
           let decay_rate = fadd binary32 (f32_lit 1 1000)
                              (fmul binary32 (float_of_word binary32 (neutron_count a)) (f32_lit 5 10000));
               amount = float_to_u64 (fmul binary32 (float_of_word binary32 (mass a)) decay_rate)
           in if 0 < amount then (a\<lparr>mass := saturating_sub (mass a) amount\<rparr>, amount) else (a, 0)
         else (a, 0))"

definition get_viscosity_factor :: "Atom \<Rightarrow> f32" where
  "get_viscosity_factor a =
     (case element a of
        Hydrogen \<Rightarrow> f32_lit 1 1
      | Carbon \<Rightarrow> f32_lit 25 10
      | Oxygen \<Rightarrow> f32_lit 18 10
      | Gold \<Rightarrow> fadd binary32 (f32_lit 10 1)
                 (fmul binary32 (float_of_word binary32 (neutron_count a)) (f32_lit 5 10)))"

section \<open>Rolls\<close>

record GravityEngine =
  server_seed :: bytes
  rtp :: f32

definition roll_input :: "GravityEngine \<Rightarrow> bytes \<Rightarrow> u64 \<Rightarrow> hash32 \<Rightarrow> u64 \<Rightarrow> bytes" where
  "roll_input g user_id nc prev idx =
     server_seed g @ prev @ to_le_bytes 8 idx @ user_id @ to_le_bytes 8 nc"

definition generate_roll :: "(bytes \<Rightarrow> bytes) \<Rightarrow> GravityEngine \<Rightarrow> bytes \<Rightarrow> u64 \<Rightarrow> hash32 \<Rightarrow> u64 \<Rightarrow> u64" where
  "generate_roll sha3 g user_id nc prev idx = from_be_bytes (take 8 (sha3 (roll_input g user_id nc prev idx)))"

section \<open>Building a transfer\<close>

text \<open>\<open>clock\<close> is the wall clock in seconds, or none when it lies before the epoch.\<close>

definition build_transfer ::
  "(bytes \<Rightarrow> bytes) \<Rightarrow> (bytes \<Rightarrow> bytes \<Rightarrow> string + bytes) \<Rightarrow> u64 option
     \<Rightarrow> Atom \<Rightarrow> bytes \<Rightarrow> u64 \<Rightarrow> u64 \<Rightarrow> bytes \<Rightarrow> string + SignedReaction" where
  "build_transfer sha3 sign clock sender_atom receiver_pk amount fee signing_key =
     and_then (ok_or ''Time drift'' clock) (\<lambda>now.
       let rx = \<lparr>sender = sender_atom, receiver = new_materialized receiver_pk Hydrogen,
                 reaction_hash = zero_hash, energy = float_of_word binary32 fee, timestamp = now,
                 signature = [], payload = Transfer amount\<rparr>;
           rx1 = rx\<lparr>reaction_hash := compute_reaction_hash sha3 rx\<rparr>
       in and_then (sign signing_key (signing_digest sha3 rx1)) (\<lambda>sig.
            Inr (rx1\<lparr>signature := sig\<rparr>)))"

section \<open>Proof of work\<close>

definition calculate_density :: "(bytes \<Rightarrow> hash32) \<Rightarrow> Crystal \<Rightarrow> hash32" where
  "calculate_density blake3 c =
     blake3 (to_le_bytes 8 (cr_index c) @ prev_hash c @ to_le_bytes 8 (cr_timestamp c)
       @ to_le_bytes 8 (cr_nonce c) @ state_root c @ concat (reactions c)
       @ to_le_bytes 8 (canon_encode (cumulative_energy c))
       @ to_le_bytes 8 (canon_encode (final_temp c))
       @ to_le_bytes 8 (canon_encode (final_entropy c)))"

definition calculate_target :: "f32 \<Rightarrow> f32 \<Rightarrow> bytes" where
  "calculate_target temp diff =
     (let base = fmax (fmul binary32 diff (fadd binary32 (f32_lit 1 1) (fdiv binary32 temp (f32_lit 500 1))))
                      (f32_lit 1 1);
          zeros = nat (min (float_to_uint 64 base) 4)
      in (replicate zeros 0 @ replicate (32 - zeros) 0xFF)
           [zeros := float_to_u8 (fdiv binary32 (f32_lit 255 1)
              (fadd binary32 (fsub binary32 base (float_of_int binary32 (int zeros))) (f32_lit 1 1)))])"

text \<open>The comparison loop over the 32 bytes of hash and target.\<close>

fun meets_target :: "bytes \<Rightarrow> bytes \<Rightarrow> bool" where
  "meets_target (h # hs) (t # ts) = (if h < t then True else if t < h then False else meets_target hs ts)"
| "meets_target _ _ = True"

definition check_proof_of_work :: "(bytes \<Rightarrow> hash32) \<Rightarrow> Crystal \<Rightarrow> f32 \<Rightarrow> f32 \<Rightarrow> bool" where
  "check_proof_of_work blake3 c chamber_temp difficulty =
     meets_target (calculate_density blake3 c) (calculate_target chamber_temp difficulty)"

section \<open>Normalisation of temperatures\<close>

definition SPEC_THERMAL_CAPACITY :: f64 where "SPEC_THERMAL_CAPACITY = f64_lit 1500 1"
definition SPEC_GRAVITY_GATE :: f64 where "SPEC_GRAVITY_GATE = f64_lit 150 1"
definition VM_THERMAL_CAPACITY :: f64 where "VM_THERMAL_CAPACITY = f64_lit 1000 1"

definition to_vm_thermal :: "f64 \<Rightarrow> f64" where
  "to_vm_thermal spec_kelvin =
     fmul binary64 spec_kelvin (fdiv binary64 VM_THERMAL_CAPACITY SPEC_THERMAL_CAPACITY)"

definition should_engage_gravity_shield :: "f64 \<Rightarrow> bool" where
  "should_engage_gravity_shield spec_kelvin = fle SPEC_GRAVITY_GATE spec_kelvin"

section \<open>The reaction chamber\<close>

record ReactionChamber =
  volatile_reactions :: "SignedReaction list"
  ch_temperature :: f32
  ch_entropy :: f32
  expansion_factor :: f32
  total_binding_energy :: f32
  base_difficulty :: f32

definition chamber_new :: ReactionChamber where
  "chamber_new =
     \<lparr>volatile_reactions = [], ch_temperature = f32_zero, ch_entropy = f32_zero,
      expansion_factor = f32_lit 1 1, total_binding_energy = f32_zero, base_difficulty = f32_lit 1 1\<rparr>"

definition inherit_history :: "Crystal \<Rightarrow> ReactionChamber \<Rightarrow> ReactionChamber" where
  "inherit_history c ch =
     (let temp = fmul binary32 (final_temp c) (f32_lit 7 10);
          expansion =
            (if flt (f32_lit 50 1) (cumulative_energy c)
             then fmax (fsub binary32 (f32_lit 110 100)
                          (fmin (fmul binary32 (cumulative_energy c) (f32_lit 1 10000)) (f32_lit 5 100)))
                       (f32_lit 1 1)
             else expansion_factor ch)
      in ch\<lparr>ch_temperature := temp,
            ch_entropy := fmul binary32 (final_entropy c) (f32_lit 4 10),
            expansion_factor := expansion,
            base_difficulty := fadd binary32 (f32_lit 1 1) (fmul binary32 temp (f32_lit 1 100))\<rparr>)"

definition inject_reaction :: "SignedReaction \<Rightarrow> ReactionChamber \<Rightarrow> ReactionChamber" where
  "inject_reaction rx ch = ch\<lparr>volatile_reactions := volatile_reactions ch @ [rx]\<rparr>"

definition calculate_surface_tension :: "ReactionChamber \<Rightarrow> SignedReaction list \<Rightarrow> f32" where
  "calculate_surface_tension ch cluster =
     (if cluster = [] then f32_zero
      else
        let n = float_of_int binary32 (int (length cluster));
            total_viscosity = foldl (fadd binary32) f32_zero (map (\<lambda>rx. get_viscosity_factor (sender rx)) cluster);
            avg_viscosity = fdiv binary32 total_viscosity n
        in fdiv binary32 (fmul binary32 (fsqrt binary32 n) avg_viscosity)
             (fadd binary32 (ch_temperature ch) (f32_lit 1 1)))"

definition calibrate_thermodynamics :: "(f32 \<Rightarrow> f32) \<Rightarrow> ReactionChamber \<Rightarrow> ReactionChamber" where
  "calibrate_thermodynamics ln_1p ch =
     (let reaction_count = float_of_int binary32 (int (length (volatile_reactions ch)));
          temp = fadd binary32 (ch_temperature ch)
                   (fmul binary32 (fmul binary32 reaction_count (f32_lit 15 100)) (base_difficulty ch))
      in ch\<lparr>ch_temperature := temp,
            ch_entropy := ln_1p (fmul binary32 (fmul binary32 temp (f32_lit 15 10)) (expansion_factor ch))\<rparr>)"

text \<open>Whether a reaction at position \<open>i\<close> of \<open>total\<close> is lost to heat.\<close>

definition evaporates ::
  "(bytes \<Rightarrow> bytes) \<Rightarrow> GravityEngine \<Rightarrow> hash32 \<Rightarrow> u64 \<Rightarrow> ReactionChamber \<Rightarrow> f32 \<Rightarrow> nat \<Rightarrow> nat \<Rightarrow> SignedReaction \<Rightarrow> bool" where
  "evaporates sha3 g prev idx ch tension total_count i rx =
     (let relative_radius = fdiv binary32 (float_of_int binary32 (int i)) (float_of_int binary32 (int total_count));
          roll = generate_roll sha3 g (public_key (sender rx)) (nonce (sender rx)) prev idx;
          roll_factor = fdiv binary32 (float_of_word binary32 (roll mod 1000)) (f32_lit 1000 1);
          radius_penalty = fmul binary32 (fadd binary32 (f32_lit 1 1) relative_radius) (base_difficulty ch);
          stability_threshold = fmul binary32
            (fdiv binary32 (f32_lit 1 10) (fadd binary32 tension (f32_lit 1 10))) radius_penalty
      in flt (f32_lit 12 10) (ch_entropy ch) \<and> flt roll_factor stability_threshold)"

text \<open>The loop: at most one reaction per sender; the lock is taken only by a surviving reaction.\<close>

fun synthesize_loop ::
  "(nat \<Rightarrow> SignedReaction \<Rightarrow> bool) \<Rightarrow> nat \<Rightarrow> SignedReaction list \<Rightarrow> bytes list \<Rightarrow> f32 \<Rightarrow> SignedReaction list
     \<Rightarrow> SignedReaction list \<times> f32" where
  "synthesize_loop lost i [] locks eng cluster = (cluster, eng)"
| "synthesize_loop lost i (rx # rxs) locks eng cluster =
     (if List.member locks (public_key (sender rx)) then synthesize_loop lost (Suc i) rxs locks eng cluster
      else if lost i rx then synthesize_loop lost (Suc i) rxs locks eng cluster
      else synthesize_loop lost (Suc i) rxs (public_key (sender rx) # locks)
             (fadd binary32 eng (get_binding_potential (sender rx))) (cluster @ [rx]))"

definition by_mass :: "SignedReaction list \<Rightarrow> SignedReaction list" where
  "by_mass rxs = sort_key (\<lambda>rx. - uint (mass (sender rx))) rxs"

definition synthesize_with_gravity ::
  "(bytes \<Rightarrow> bytes) \<Rightarrow> (f32 \<Rightarrow> f32) \<Rightarrow> GravityEngine \<Rightarrow> hash32 \<Rightarrow> u64 \<Rightarrow> ReactionChamber
     \<Rightarrow> SignedReaction list \<times> ReactionChamber" where
  "synthesize_with_gravity sha3 ln_1p g prev idx ch0 =
     (let ch = calibrate_thermodynamics ln_1p ch0;
          rxs = by_mass (volatile_reactions ch);
          tension = calculate_surface_tension ch rxs;
          (final_cluster, binding) =
            synthesize_loop (evaporates sha3 g prev idx ch tension (length rxs)) 0 rxs [] f32_zero [];
          compression = fmin (fmul binary32 binding (f32_lit 1 1000)) (f32_lit 8 100)
      in (final_cluster,
          ch\<lparr>volatile_reactions := [], total_binding_energy := binding,
             expansion_factor := fmax (fsub binary32 (expansion_factor ch) compression) (f32_lit 1 1),
             ch_temperature := fadd binary32 (ch_temperature ch) (fmul binary32 binding (f32_lit 3 100)),
             ch_entropy := fadd binary32 (ch_entropy ch) (fmul binary32 binding (f32_lit 1 100))\<rparr>))"

definition update_expansion :: "f32 \<Rightarrow> ReactionChamber \<Rightarrow> ReactionChamber" where
  "update_expansion new_factor ch = ch\<lparr>expansion_factor := new_factor\<rparr>"

section \<open>Properties of the chamber\<close>

lemma core_evolve_eq: "core_evolve = evolve"
  by (simp add: fun_eq_iff core_evolve_def evolve_def)

lemma core_apply_decay_eq: "core_apply_decay = apply_decay"
  by (auto simp: fun_eq_iff core_apply_decay_def apply_decay_def decay_amount_def Let_def)

text \<open>What the loop adds to the cluster: a subsequence of the input with new, distinct senders.\<close>

abbreviation senders :: "SignedReaction list \<Rightarrow> bytes list" where
  "senders rxs \<equiv> map (\<lambda>rx. public_key (sender rx)) rxs"

lemma synthesize_loop_cluster:
  "\<exists>sel. fst (synthesize_loop lost i rxs locks eng cluster) = cluster @ sel \<and> subseq sel rxs
     \<and> distinct (senders sel) \<and> set (senders sel) \<inter> set locks = {}"
proof (induction rxs arbitrary: i locks eng cluster)
  case (Cons rx rxs)
  show ?case
  proof (cases "public_key (sender rx) \<in> set locks \<or> lost i rx")
    case True
    then have "synthesize_loop lost i (rx # rxs) locks eng cluster = synthesize_loop lost (Suc i) rxs locks eng cluster"
      by auto
    then show ?thesis using Cons.IH [of "Suc i" locks eng cluster] by (metis list_emb_Cons)
  next
    case False
    obtain sel where "fst (synthesize_loop lost (Suc i) rxs (public_key (sender rx) # locks)
          (fadd binary32 eng (get_binding_potential (sender rx))) (cluster @ [rx])) = (cluster @ [rx]) @ sel"
        "subseq sel rxs" "distinct (senders sel)" "set (senders sel) \<inter> set (public_key (sender rx) # locks) = {}"
      using Cons.IH by blast
    then show ?thesis using False by (intro exI [of _ "rx # sel"]) auto
  qed
qed simp

lemma synthesize_loop_keeps:
  assumes "\<And>j rx. \<not> lost j rx" and "set locks \<subseteq> set (senders cluster)"
  shows "set (senders (fst (synthesize_loop lost i rxs locks eng cluster)))
       = set (senders cluster) \<union> set (senders rxs)"
  using assms(2)
proof (induction rxs arbitrary: i locks eng cluster)
  case (Cons rx rxs)
  show ?case
  proof (cases "public_key (sender rx) \<in> set locks")
    case True
    then show ?thesis using Cons.IH [OF Cons.prems, of "Suc i" eng] Cons.prems by auto
  next
    case False
    then show ?thesis
      using Cons.IH [of "public_key (sender rx) # locks" "cluster @ [rx]" "Suc i"
          "fadd binary32 eng (get_binding_potential (sender rx))"] Cons.prems assms(1) by auto
  qed
qed simp

lemma by_mass_props [simp]: "set (by_mass rxs) = set rxs" "length (by_mass rxs) = length rxs"
  by (simp_all add: by_mass_def)

lemma by_mass_sorted: "sorted_wrt (\<lambda>a b. mass (sender b) \<le> mass (sender a)) (by_mass rxs)"
  using sorted_sort_key [of "\<lambda>rx. - uint (mass (sender rx))" rxs] by (simp add: by_mass_def sorted_map word_le_def)

lemma fmax_not_below: "\<not> flt (fmax x y) y"
proof -
  have "\<not> flt z NaN" for z by (cases z) simp_all
  then show ?thesis by (auto simp: fmax_def flt_irrefl)
qed

lemma set_subseq: "subseq xs ys \<Longrightarrow> set xs \<subseteq> set ys"
  by (induction rule: list_emb.induct) auto

lemma sorted_wrt_subseq: "subseq xs ys \<Longrightarrow> sorted_wrt P ys \<Longrightarrow> sorted_wrt P xs"
proof (induction rule: list_emb.induct)
  case (list_emb_Cons2 x y xs ys)
  then show ?case using set_subseq [OF list_emb_Cons2(2)] by auto
qed auto

text \<open>A crystal takes at most one reaction of each sender, only reactions that were injected, in
  the order of decreasing mass of their senders, and synthesis empties the chamber.\<close>

theorem synthesis_cluster:
  "case synthesize_with_gravity sha3 ln_1p g prev idx ch of
     (cluster, ch') \<Rightarrow> distinct (senders cluster) \<and> set cluster \<subseteq> set (volatile_reactions ch)
       \<and> sorted_wrt (\<lambda>a b. mass (sender b) \<le> mass (sender a)) cluster
       \<and> volatile_reactions ch' = [] \<and> \<not> flt (expansion_factor ch') (f32_lit 1 1)"
proof -
  let ?ch = "calibrate_thermodynamics ln_1p ch"
  let ?rxs = "by_mass (volatile_reactions ?ch)"
  let ?lost = "evaporates sha3 g prev idx ?ch (calculate_surface_tension ?ch ?rxs) (length ?rxs)"
  have v: "volatile_reactions ?ch = volatile_reactions ch" by (simp add: calibrate_thermodynamics_def Let_def)
  obtain sel where sel: "fst (synthesize_loop ?lost 0 ?rxs [] f32_zero []) = sel" "subseq sel ?rxs" "distinct (senders sel)"
    using synthesize_loop_cluster [of ?lost 0 ?rxs "[]" f32_zero "[]"] by auto
  have "set sel \<subseteq> set (volatile_reactions ch)" using set_subseq [OF sel(2)] v by simp
  moreover have "sorted_wrt (\<lambda>a b. mass (sender b) \<le> mass (sender a)) sel"
    using sel(2) by_mass_sorted sorted_wrt_subseq by blast
  ultimately show ?thesis
    using sel(1,3) fmax_not_below by (auto simp: synthesize_with_gravity_def Let_def split: prod.splits)
qed

text \<open>Below the entropy gate of 1.2 nothing evaporates: every sender with a reaction in the
  chamber has one in the crystal.\<close>

theorem cool_chamber_keeps_every_sender:
  assumes "\<not> flt (f32_lit 12 10) (ch_entropy (calibrate_thermodynamics ln_1p ch))"
  shows "set (senders (fst (synthesize_with_gravity sha3 ln_1p g prev idx ch))) = set (senders (volatile_reactions ch))"
proof -
  let ?ch = "calibrate_thermodynamics ln_1p ch"
  let ?rxs = "by_mass (volatile_reactions ?ch)"
  let ?lost = "evaporates sha3 g prev idx ?ch (calculate_surface_tension ?ch ?rxs) (length ?rxs)"
  have v: "volatile_reactions ?ch = volatile_reactions ch" by (simp add: calibrate_thermodynamics_def Let_def)
  have "\<not> ?lost j rx" for j rx using assms by (simp add: evaporates_def Let_def)
  then have "set (senders (fst (synthesize_loop ?lost 0 ?rxs [] f32_zero []))) = set (senders ?rxs)"
    using synthesize_loop_keeps [of ?lost "[]" "[]" 0 ?rxs f32_zero] by simp
  then show ?thesis using v by (simp add: synthesize_with_gravity_def Let_def split: prod.splits) (metis fst_conv)
qed

definition demo_chamber :: ReactionChamber where
  "demo_chamber = inject_reaction demo_transfer chamber_new"

theorem cool_chamber_keeps_every_sender_witness:
  "set (senders (fst (synthesize_with_gravity (\<lambda>b. b) (\<lambda>x. x) \<lparr>server_seed = [], rtp = f32_lit 92 100\<rparr> zero_hash 1 demo_chamber)))
     = {public_key (sender demo_transfer)}"
proof -
  have "\<not> flt (f32_lit 12 10) (ch_entropy (calibrate_thermodynamics (\<lambda>x. x) demo_chamber))" by code_simp
  from cool_chamber_keeps_every_sender [OF this] show ?thesis
    by (simp add: demo_chamber_def inject_reaction_def chamber_new_def)
qed

section \<open>Properties of the proof of work\<close>

lemma meets_target_iff: "length h = length t \<Longrightarrow> meets_target h t \<longleftrightarrow> h \<le> t"
  by (induction h t rule: meets_target.induct) (auto simp: Cons_le_Cons)

lemma float_to_uint_one:
  assumes "\<not> flt x (f32_lit 1 1)" and "x \<noteq> NaN" and "\<And>s m e. x = Fin s m e \<Longrightarrow> 0 \<le> m"
  shows "1 \<le> float_to_uint 64 x \<or> x = Inf True"
proof (cases x)
  case (Fin s m e)
  have one: "f32_lit 1 1 = Fin False 8388608 (- 23)" by code_simp
  have "fval (Fin False 8388608 (- 23)) = 1"
    by (simp add: fval_def rval_def signed_mant_def power_int_def power_one_over)
  then have ge: "1 \<le> fval x" using assms(1) Fin flt_Fin_iff [of s m e False 8388608 "- 23"] unfolding one by simp
  have "0 \<le> rval m e" using assms(3) [OF Fin] by (simp add: rval_def)
  then have s: "\<not> s" "1 \<le> rval m e"
    using ge Fin by (cases s; simp add: fval_def signed_mant_def rval_def)+
  then have "1 \<le> trunc_mant m e" by (simp add: trunc_mant_floor)
  then show ?thesis using Fin s(1) by (simp add: float_to_uint_def)
qed (use assms in \<open>auto simp: float_to_uint_def\<close>)

lemma fmul_Fin_nonneg: "fmul F x y = Fin s m e \<Longrightarrow> 0 \<le> m"
  by (cases x; cases y) (auto simp: Let_def split: if_splits dest: fround_Fin_nonneg)

text \<open>The base difficulty is at least one, whatever temperature and difficulty are.\<close>

lemma target_zeros:
  fixes d y :: f32
  defines "x \<equiv> fmax (fmul binary32 d y) (f32_lit 1 1)"
  shows "1 \<le> float_to_uint 64 x"
proof -
  have one: "f32_lit 1 1 = Fin False 8388608 (- 23)" by code_simp
  have "x \<noteq> NaN" "x \<noteq> Inf True" unfolding x_def one by (auto simp: fmax_def split: if_splits)
  moreover have "0 \<le> m" if "x = Fin s m e" for s m e
    using that fmul_Fin_nonneg unfolding x_def one by (fastforce simp: fmax_def split: if_splits)
  ultimately show ?thesis
    using float_to_uint_one [of x] fmax_not_below [of "fmul binary32 d y" "f32_lit 1 1"] by (auto simp: x_def)
qed

text \<open>The proof of work is a threshold: a crystal is accepted exactly when its hash, read as a
  big-endian number, is at most the target, and for every temperature and difficulty (also infinite
  and not-a-number ones) the target has between one and four leading zero bytes, one partial byte
  and a tail of ones.\<close>

theorem proof_of_work_threshold:
  assumes "\<And>b. length (blake3 b) = 32"
  shows "(check_proof_of_work blake3 c temp diff \<longleftrightarrow> calculate_density blake3 c \<le> calculate_target temp diff)
       \<and> (\<exists>z b. 1 \<le> z \<and> z \<le> 4 \<and> calculate_target temp diff = replicate z 0 @ b # replicate (31 - z) 0xFF)"
proof -
  let ?base = "fmax (fmul binary32 diff (fadd binary32 (f32_lit 1 1) (fdiv binary32 temp (f32_lit 500 1)))) (f32_lit 1 1)"
  let ?z = "nat (min (float_to_uint 64 ?base) 4)"
  have "1 \<le> float_to_uint 64 ?base" by (rule target_zeros)
  then have z: "1 \<le> ?z" "?z \<le> 4" by linarith+
  have "32 - ?z = Suc (31 - ?z)" using z by linarith
  then have "replicate (32 - ?z) (0xFF :: u8) = 0xFF # replicate (31 - ?z) 0xFF" by (metis replicate_Suc)
  then have "\<exists>b. calculate_target temp diff = replicate ?z 0 @ b # replicate (31 - ?z) 0xFF"
    by (simp add: calculate_target_def Let_def list_update_append)
  then obtain b where b: "calculate_target temp diff = replicate ?z 0 @ b # replicate (31 - ?z) 0xFF" by blast
  then have "length (calculate_target temp diff) = 32" using z by simp
  then have "check_proof_of_work blake3 c temp diff \<longleftrightarrow> calculate_density blake3 c \<le> calculate_target temp diff"
    using assms by (simp add: check_proof_of_work_def meets_target_iff calculate_density_def)
  then show ?thesis using b z by blast
qed

theorem proof_of_work_threshold_witness:
  "check_proof_of_work (\<lambda>_. zero_hash) (crystal_new 1 zero_hash) f32_zero (f32_lit 1 1)"
proof -
  have "calculate_density (\<lambda>_. zero_hash) (crystal_new 1 zero_hash) \<le> calculate_target f32_zero (f32_lit 1 1)"
    by code_simp
  then show ?thesis
    using proof_of_work_threshold [of "\<lambda>_. zero_hash" "crystal_new 1 zero_hash" f32_zero "f32_lit 1 1"] by simp
qed

section \<open>Properties of built transfers\<close>

text \<open>A value that is infinite or at least \<open>n\<close> stays so under rounding.\<close>

definition at_least :: "int \<Rightarrow> rfloat \<Rightarrow> bool" where
  "at_least n x = (x = Inf False \<or> (\<exists>m e. x = Fin False m e \<and> 0 \<le> m \<and> real_of_int n \<le> rval m e))"

lemma at_least_fround:
  assumes "format_ok F" and "0 \<le> m" and "real_of_int n \<le> rval m e" and "0 \<le> n" and "n \<le> 2 ^ nat (prec F)"
  shows "at_least n (fround F False m e)"
proof -
  have n0: "rval n 0 = real_of_int n" by (simp add: rval_def)
  have F: "1 \<le> prec F" "emin F \<le> 0" using assms(1) by (simp_all add: format_ok_def)
  consider "fround F False m e = Inf False" | m' e' where "fround F False m e = Fin False m' e'"
    using fround_cases by blast
  then show ?thesis
  proof cases
    case (2 m' e')
    then have "rval n 0 \<le> rval m' e'"
      using fround_grid [OF 2 assms(2) F(1) assms(4,5) F(2)] assms(3) n0 by simp
    then show ?thesis using 2 n0 fround_Fin_nonneg [OF 2] by (auto simp: at_least_def)
  qed (simp add: at_least_def)
qed

lemma at_least_fcast: "format_ok F \<Longrightarrow> at_least n x \<Longrightarrow> 0 \<le> n \<Longrightarrow> n \<le> 2 ^ nat (prec F) \<Longrightarrow> at_least n (fcast F x)"
  by (auto simp: at_least_def [of n x] fcast_def intro: at_least_fround) (simp add: at_least_def)

lemma fee_encodes:
  assumes "1 \<le> fee"
  shows "10 \<le> canon_encode (float_of_word binary32 (fee :: u64))"
proof -
  let ?x = "fcast binary64 (float_of_word binary32 fee)"
  define y where "y = fmul binary64 ?x (float_of_word binary64 FIXED_POINT_SCALE)"
  have sc: "float_of_word binary64 FIXED_POINT_SCALE = Fin False 8388608000000000 (- 23)" by code_simp
  have big: "float_of_word binary64 (- 1 :: u64) = Fin False 4503599627370496 12" by code_simp
  have "1 \<le> uint fee" using assms by (simp add: word_le_def)
  then have one: "real_of_int 1 \<le> rval (uint fee) 0" by (simp only: rval_def power_int_0_right mult_1_right of_int_le_iff)
  then have "at_least 1 (float_of_word binary32 fee)"
    using at_least_fround [of binary32 "uint fee" 1 0, OF _ _ one] by (simp add: float_of_word_def float_of_int_def)
  then have x: "at_least 1 ?x" by (intro at_least_fcast) simp_all
  have y: "at_least 1000000000 y"
  proof (cases "?x = Inf False")
    case True
    then show ?thesis by (simp add: y_def sc at_least_def)
  next
    case False
    then obtain m e where m: "?x = Fin False m e" "0 \<le> m" "1 \<le> rval m e" using x by (auto simp: at_least_def)
    have "rval (m * 8388608000000000) (e + - 23) = rval m e * rval 8388608000000000 (- 23)" by (rule rval_mult)
    also have "rval 8388608000000000 (- 23) = 1000000000" by (simp add: rval_def power_int_def power_one_over)
    finally have "1000000000 \<le> rval (m * 8388608000000000) (e + - 23)" using m(3) by simp
    then show ?thesis using m by (simp add: y_def sc at_least_fround)
  qed
  have "fmax y f64_zero = y"
  proof -
    have "\<not> flt y f64_zero"
      using y by (auto simp: at_least_def Let_def signed_mant_def mult_less_0_iff)
    then show ?thesis using y by (auto simp: fmax_def at_least_def)
  qed
  then have enc: "canon_encode (float_of_word binary32 fee)
      = (if fle (Fin False 4503599627370496 12) y then - 1 else float_to_u64 y)"
    by (simp add: canon_encode_def Let_def y_def [symmetric] big)
  show ?thesis
  proof (cases "fle (Fin False 4503599627370496 12) y")
    case False
    then obtain m e where m: "y = Fin False m e" "0 \<le> m" "1000000000 \<le> rval m e"
      using y by (auto simp: at_least_def fle_def)
    then have "10 \<le> min \<lfloor>rval m e\<rfloor> (2 ^ 64 - 1)" by (simp add: le_floor_iff)
    then have "10 \<le> uint (float_to_u64 y)" using float_to_u64_Fin [OF m(2), of e] m(1) by simp
    then show ?thesis using enc False by (simp add: word_le_def)
  qed (simp add: enc)
qed

text \<open>A transfer that \<open>build_transfer\<close> returns is well formed: with keys of protocol length, a
  signer that produces signatures of protocol length and a fee of at least one mass unit, it passes
  the structural validation of every ingress path, its hash is the digest it is signed under, and
  its signature is one the verifier accepts.\<close>

theorem built_transfer_valid:
  assumes "build_transfer sha3 sign clock a to_pk amount fee sk = Inr rx"
    and "length (public_key a) = PK_BYTES" and "length to_pk = PK_BYTES" and "1 \<le> fee"
    and "\<And>d sig. sign sk d = Inr sig \<Longrightarrow> length sig = SIG_BYTES \<and> verify (public_key a) d sig"
  shows "validate_structure sha3 rx = Inr () \<and> reaction_hash rx = signing_digest sha3 rx
       \<and> verify (public_key (sender rx)) (signing_digest sha3 rx) (signature rx)
       \<and> payload rx = Transfer amount \<and> sender rx = a \<and> public_key (receiver rx) = to_pk"
proof -
  define base where "base = \<lparr>sender = a, receiver = new_materialized to_pk Hydrogen,
      reaction_hash = zero_hash, energy = float_of_word binary32 fee, timestamp = the clock,
      signature = [], payload = Transfer amount\<rparr>"
  define rx1 where "rx1 = base\<lparr>reaction_hash := compute_reaction_hash sha3 base\<rparr>"
  obtain sig where sig: "sign sk (signing_digest sha3 rx1) = Inr sig" "rx = rx1\<lparr>signature := sig\<rparr>"
    using assms(1) by (auto simp: build_transfer_def result_simps Let_def base_def rx1_def split: sum.splits)
  have d: "signing_digest sha3 rx = signing_digest sha3 rx1" "signing_digest sha3 base = signing_digest sha3 rx1"
    by (simp_all add: sig(2) rx1_def signing_digest_def signing_input_def)
  have "reaction_hash rx = signing_digest sha3 base" by (simp add: sig(2) rx1_def compute_reaction_hash_def)
  then have h: "reaction_hash rx = signing_digest sha3 rx" using d by simp
  have f: "sender rx = a" "public_key (receiver rx) = to_pk" "payload rx = Transfer amount" "signature rx = sig"
      "energy rx = float_of_word binary32 fee"
    by (simp_all add: sig(2) rx1_def base_def new_materialized_def)
  have "\<not> canon_encode (energy rx) < PROTOCOL_MIN_FEE"
    unfolding f(5) PROTOCOL_MIN_FEE_def not_less by (rule fee_encodes [OF assms(4)])
  then have "validate_structure sha3 rx = Inr ()"
    using assms(5) [OF sig(1)] assms(2,3)
    by (simp add: validate_structure_def compute_reaction_hash_def Let_def h f(1-4))
  then show ?thesis using assms(5) [OF sig(1)] d(1) by (simp add: h f(1-4))
qed

theorem built_transfer_valid_witness:
  "\<exists>rx. build_transfer (\<lambda>b. [1]) (\<lambda>sk d. Inr (replicate SIG_BYTES 7)) (Some 5)
        (new_receiver (replicate PK_BYTES 1)) (replicate PK_BYTES 2) 30 1 [] = Inr rx
      \<and> validate_structure (\<lambda>b. [1]) rx = Inr ()"
proof -
  define rx where "rx = (case build_transfer (\<lambda>b. [1]) (\<lambda>sk d. Inr (replicate SIG_BYTES 7)) (Some 5)
      (new_receiver (replicate PK_BYTES 1)) (replicate PK_BYTES 2) 30 1 [] of Inr rx \<Rightarrow> rx)"
  have b: "build_transfer (\<lambda>b. [1]) (\<lambda>sk d. Inr (replicate SIG_BYTES 7)) (Some 5)
      (new_receiver (replicate PK_BYTES 1)) (replicate PK_BYTES 2) 30 1 [] = Inr rx"
    by (simp add: rx_def build_transfer_def Let_def)
  from built_transfer_valid [OF b, of "\<lambda>_ _ _. True"] b show ?thesis
    by (simp add: new_receiver_def new_materialized_def)
qed

end
