(* ===== verification/Primus_State.thy ===== *)
theory Primus_State
  imports Primus_Chamber
begin

text \<open>
  The state tree of \<open>primus-core\<close> (\<open>state.rs\<close>), the metrics and undo logs of \<open>primus-storage\<close>
  (\<open>types.rs\<close>) and the bridge to the virtual machine (\<open>pvm.rs\<close>). The serialisation of an atom by
  bincode is an argument; the rollback of a block is the in-memory part of \<open>perform_reorg\<close>.
\<close>

section \<open>Metrics and undo logs\<close>

record GlobalMetrics =
  gm_temperature :: f32
  gm_entropy :: f32

definition metrics_default :: GlobalMetrics where
  "metrics_default = \<lparr>gm_temperature = f32_zero, gm_entropy = f32_zero\<rparr>"

definition canonical :: "GlobalMetrics \<Rightarrow> u64 \<times> u64" where
  "canonical m = (canon_encode (gm_temperature m), canon_encode (gm_entropy m))"

record UndoLog =
  ul_crystal_index :: u64
  pre_state_root :: hash32
  pre_images :: "(bytes, Atom option) btree"

definition undo_new :: "u64 \<Rightarrow> hash32 \<Rightarrow> UndoLog" where
  "undo_new idx rt = \<lparr>ul_crystal_index = idx, pre_state_root = rt, pre_images = []\<rparr>"

text \<open>\<open>entry(pk).or_insert(before)\<close>: the first pre-image of a key stays.\<close>

definition undo_record :: "bytes \<Rightarrow> Atom option \<Rightarrow> UndoLog \<Rightarrow> UndoLog" where
  "undo_record pk pre_image u =
     (if bt_get (pre_images u) pk = None then u\<lparr>pre_images := bt_insert pk pre_image (pre_images u)\<rparr> else u)"

section \<open>The state tree\<close>

record StateTree =
  atoms :: "(bytes, Atom) btree"
  current_crystal_index :: u64
  global_metrics :: GlobalMetrics

definition state_new :: StateTree where
  "state_new = \<lparr>atoms = [], current_crystal_index = 0, global_metrics = metrics_default\<rparr>"

definition state_load :: "(bytes, Atom) btree \<Rightarrow> GlobalMetrics \<Rightarrow> StateTree \<Rightarrow> StateTree" where
  "state_load from_storage metrics st = st\<lparr>atoms := from_storage, global_metrics := metrics\<rparr>"

definition state_get_atom :: "StateTree \<Rightarrow> bytes \<Rightarrow> Atom option" where
  "state_get_atom st pk = bt_get (atoms st) pk"

definition apply_changeset :: "Changeset \<Rightarrow> StateTree \<Rightarrow> StateTree" where
  "apply_changeset cs st = st\<lparr>atoms := foldl (\<lambda>m (pk, a). bt_insert pk a m) (atoms st) (inner cs)\<rparr>"

definition increment_index :: "StateTree \<Rightarrow> StateTree" where
  "increment_index st = st\<lparr>current_crystal_index := current_crystal_index st + 1\<rparr>"

definition calculate_root_hash :: "(bytes \<Rightarrow> hash32) \<Rightarrow> (Atom \<Rightarrow> bytes option) \<Rightarrow> StateTree \<Rightarrow> hash32" where
  "calculate_root_hash blake3 ser st =
     (let (temp_fixed, entropy_fixed) = canonical (global_metrics st)
      in blake3 (to_le_bytes 8 (current_crystal_index st) @ to_le_bytes 8 temp_fixed @ to_le_bytes 8 entropy_fixed
           @ concat (map (\<lambda>(pk, a). pk @ (case ser a of Some b \<Rightarrow> b | None \<Rightarrow> [])) (atoms st))))"

section \<open>The bridge to the virtual machine\<close>

definition core_state_view :: "(hash32 \<Rightarrow> bytes option) \<Rightarrow> StateTree \<Rightarrow> StateView" where
  "core_state_view loader st =
     \<lparr>get_atom = bt_get (atoms st), sv_crystal_index = current_crystal_index st, load_contract = loader\<rparr>"

definition make_execution_context ::
  "(bytes \<Rightarrow> bytes \<Rightarrow> bytes \<Rightarrow> bool) \<Rightarrow> (hash32 \<Rightarrow> bytes option) \<Rightarrow> StateTree \<Rightarrow> f32 \<Rightarrow> bytes \<Rightarrow> ExecutionContext" where
  "make_execution_context verify loader st temp architect =
     \<lparr>ctx_state = core_state_view loader st, architect_pk = architect,
      current_temp = fcast binary32 (to_vm_thermal (fcast binary64 temp)),
      ctx_crystal_index = current_crystal_index st, ctx_verify = verify\<rparr>"

definition core_execute_payload ::
  "(bytes \<Rightarrow> bytes) \<Rightarrow> (bytes \<Rightarrow> bytes \<Rightarrow> bytes \<Rightarrow> bool) \<Rightarrow> (hash32 \<Rightarrow> bytes option) \<Rightarrow> StateTree
     \<Rightarrow> SignedReaction list \<Rightarrow> f32 \<Rightarrow> bytes \<Rightarrow> PvmError + Changeset \<times> f32" where
  "core_execute_payload sha3 verify loader st rxs temp architect =
     execute_payload sha3 (make_execution_context verify loader st temp architect) rxs (atoms st)"

section \<open>Undoing a block\<close>

text \<open>The pre-images that \<open>finalize_solidification\<close> records, and the rollback of \<open>perform_reorg\<close>.\<close>

definition record_all :: "StateTree \<Rightarrow> bytes list \<Rightarrow> UndoLog \<Rightarrow> UndoLog" where
  "record_all st keys u = foldl (\<lambda>u pk. undo_record pk (state_get_atom st pk) u) u keys"

definition restore_images :: "(bytes, Atom option) btree \<Rightarrow> (bytes, Atom) btree \<Rightarrow> (bytes, Atom) btree" where
  "restore_images imgs m =
     foldl (\<lambda>m (pk, pre_image). case pre_image of Some a \<Rightarrow> bt_insert pk a m | None \<Rightarrow> bt_remove pk m) m imgs"

definition rollback_logs :: "UndoLog list \<Rightarrow> StateTree \<Rightarrow> StateTree" where
  "rollback_logs logs st = st\<lparr>atoms := foldl (\<lambda>m u. restore_images (pre_images u) m) (atoms st) logs\<rparr>"

section \<open>Lookup\<close>

lemma bt_get_insert_all:
  "distinct (map fst kvs) \<Longrightarrow> bt_get (foldl (\<lambda>m (pk, a). bt_insert pk a m) m kvs) k
     = (case bt_get kvs k of Some a \<Rightarrow> Some a | None \<Rightarrow> bt_get m k)"
proof (induction kvs arbitrary: m)
  case (Cons x kvs)
  have "bt_get kvs (fst x) = None" using Cons.prems by (simp add: map_of_eq_None_iff)
  then show ?case using Cons by (cases x) (auto split: option.split)
qed simp

lemma bt_ordered_insert_all: "bt_ordered m \<Longrightarrow> bt_ordered (foldl (\<lambda>m (pk, a). bt_insert pk a m) m kvs)"
  by (induction kvs arbitrary: m) auto

definition state_ok :: "StateTree \<Rightarrow> bool" where
  "state_ok st = bt_ordered (atoms st)"

definition changeset_ok :: "Changeset \<Rightarrow> bool" where
  "changeset_ok cs = bt_ordered (inner cs)"

lemma state_ok_apply [simp]: "state_ok st \<Longrightarrow> state_ok (apply_changeset cs st)"
  by (simp add: state_ok_def apply_changeset_def bt_ordered_insert_all)

lemma get_apply_changeset:
  "changeset_ok cs \<Longrightarrow> bt_get (atoms (apply_changeset cs st)) = bt_get (atoms st) ++ bt_get (inner cs)"
  by (simp add: fun_eq_iff changeset_ok_def apply_changeset_def bt_get_insert_all bt_ordered_distinct map_add_def
      split: option.split)

lemma changeset_ok_insert [simp]: "changeset_ok cs \<Longrightarrow> changeset_ok (changeset_insert k a cs)"
  by (simp add: changeset_ok_def changeset_insert_def)

interpretation tree: atom_store "\<lambda>st. bt_get (atoms st)" "\<lambda>k a st. st\<lparr>atoms := bt_insert k a (atoms st)\<rparr>"
  by unfold_locales simp

section \<open>Undo\<close>

lemma pre_images_record:
  "bt_get (pre_images (undo_record pk b u)) k
     = (if k = pk \<and> bt_get (pre_images u) pk = None then Some b else bt_get (pre_images u) k)"
  by (auto simp: undo_record_def)

lemma record_all_images:
  "bt_get (pre_images (record_all st keys u)) k
     = (if bt_get (pre_images u) k = None \<and> k \<in> set keys then Some (state_get_atom st k) else bt_get (pre_images u) k)"
  unfolding record_all_def by (induction keys arbitrary: u) (auto simp: pre_images_record)

lemma record_ordered: "bt_ordered (pre_images u) \<Longrightarrow> bt_ordered (pre_images (undo_record pk b u))"
  by (simp add: undo_record_def)

lemma record_all_ordered: "bt_ordered (pre_images u) \<Longrightarrow> bt_ordered (pre_images (record_all st keys u))"
  unfolding record_all_def by (induction keys arbitrary: u) (auto simp: record_ordered)

lemma restore_get:
  "distinct (map fst imgs) \<Longrightarrow> bt_get (restore_images imgs m) k
     = (case bt_get imgs k of Some b \<Rightarrow> b | None \<Rightarrow> bt_get m k)"
  unfolding restore_images_def
proof (induction imgs arbitrary: m)
  case (Cons x imgs)
  have "bt_get imgs (fst x) = None" using Cons.prems by (simp add: map_of_eq_None_iff)
  then show ?case using Cons by (cases x) (auto split: option.split)
qed simp

lemma restore_ordered: "bt_ordered m \<Longrightarrow> bt_ordered (restore_images imgs m)"
  unfolding restore_images_def
proof (induction imgs arbitrary: m)
  case (Cons x imgs)
  then show ?case by (cases x) (auto split: option.split)
qed simp

lemma restore_undoes_apply:
  assumes "state_ok st" and "changeset_ok cs"
  shows "restore_images (pre_images (record_all st (map fst (inner cs)) (undo_new i rt))) (atoms (apply_changeset cs st))
       = atoms st"
    (is "restore_images ?imgs ?m = _")
proof (rule bt_eqI)
  have o: "bt_ordered ?imgs" by (rule record_all_ordered) (simp add: undo_new_def)
  show "bt_ordered (restore_images ?imgs ?m)"
    using assms by (intro restore_ordered) (metis state_ok_apply state_ok_def)
  show "bt_ordered (atoms st)" using assms(1) by (simp add: state_ok_def)
  show "bt_get (restore_images ?imgs ?m) = bt_get (atoms st)"
  proof
    fix k
    have "bt_get (inner cs) k = None \<longleftrightarrow> k \<notin> set (map fst (inner cs))" by (simp add: map_of_eq_None_iff)
    then show "bt_get (restore_images ?imgs ?m) k = bt_get (atoms st) k"
      using restore_get [OF bt_ordered_distinct [OF o], of ?m k] assms(2)
      by (auto simp: record_all_images undo_new_def state_get_atom_def get_apply_changeset map_add_def split: option.split)
  qed
qed

text \<open>A sequence of blocks with the undo logs they leave, the most recent first.\<close>

fun apply_blocks :: "(u64 \<times> hash32 \<times> Changeset) list \<Rightarrow> StateTree \<Rightarrow> StateTree \<times> UndoLog list" where
  "apply_blocks [] st = (st, [])"
| "apply_blocks ((i, rt, cs) # blocks) st =
     (let u = record_all st (map fst (inner cs)) (undo_new i rt);
          (st', logs) = apply_blocks blocks (apply_changeset cs st)
      in (st', logs @ [u]))"

text \<open>C13. Rolling back is exact: after any sequence of blocks, applying the undo logs they left, most
  recent first, gives back the atoms of the state before the first of them.\<close>

theorem rollback_restores_state:
  assumes "state_ok st" and "\<forall>(i, rt, cs) \<in> set blocks. changeset_ok cs"
    and "apply_blocks blocks st = (st', logs)"
  shows "atoms (rollback_logs logs st') = atoms st"
  using assms
proof (induction blocks arbitrary: st st' logs)
  case (Cons b blocks)
  obtain i rt cs where b: "b = (i, rt, cs)" by (cases b) auto
  let ?u = "record_all st (map fst (inner cs)) (undo_new i rt)"
  obtain logs' where l: "apply_blocks blocks (apply_changeset cs st) = (st', logs')" "logs = logs' @ [?u]"
    using Cons.prems(3) b by (auto simp: Let_def split: prod.splits)
  have "atoms (rollback_logs logs' st') = atoms (apply_changeset cs st)"
    using Cons.IH [OF _ _ l(1)] Cons.prems(1,2) b by simp
  then have "atoms (rollback_logs logs st') = restore_images (pre_images ?u) (atoms (apply_changeset cs st))"
    by (simp add: rollback_logs_def l(2))
  then show ?case using restore_undoes_apply [of st cs i rt] Cons.prems(1,2) b by simp
qed (simp add: rollback_logs_def)

definition demo_state :: StateTree where
  "demo_state = state_new\<lparr>atoms := [([1], demo_holder), ([9], demo_architect)]\<rparr>"

definition demo_changeset :: Changeset where
  "demo_changeset = changeset_insert [2] (new_receiver [2]) (changeset_insert [1] demo_architect changeset_new)"

theorem rollback_restores_state_witness:
  "atoms (rollback_logs (snd (apply_blocks [(1, zero_hash, demo_changeset)] demo_state))
     (fst (apply_blocks [(1, zero_hash, demo_changeset)] demo_state))) = atoms demo_state"
proof -
  have "state_ok demo_state" "changeset_ok demo_changeset"
    by (simp_all add: state_ok_def demo_state_def demo_changeset_def changeset_ok_def changeset_new_def changeset_insert_def)
  then show ?thesis
    using rollback_restores_state [of demo_state "[(1, zero_hash, demo_changeset)]"] by simp
qed

text \<open>The state root depends on what the state holds and not on how it was built: two states that
  hold the same atoms at the same height with the same metrics have the same root.\<close>

lemma state_root_of_contents:
  assumes "state_ok st" and "state_ok st'" and "bt_get (atoms st) = bt_get (atoms st')"
    and "current_crystal_index st = current_crystal_index st'"
    and "canonical (global_metrics st) = canonical (global_metrics st')"
  shows "calculate_root_hash blake3 ser st = calculate_root_hash blake3 ser st'"
proof -
  have "atoms st = atoms st'" using assms(1-3) by (intro bt_eqI) (simp_all add: state_ok_def)
  then show ?thesis using assms(4,5) by (simp add: calculate_root_hash_def)
qed

end
