(* ===== verification/Primus_Storage.thy ===== *)
theory Primus_Storage
  imports Primus_State Mpt_Correct
begin

text \<open>
  \<open>primus-core/src/storage.rs\<close>: the persistent store of a node. The database is sled and the
  formats are bincode, both third-party: the record \<open>platform\<close> holds their operations with the
  hash functions, the ML-DSA verifier and \<open>f32::ln_1p\<close>. A storage has the default tree of the database, the trie over the tree
  \<open>mpt_nodes\<close>, the cached root and the log of roots for garbage collection. Keys are the byte
  strings the source formats. The message that \<open>context\<close> puts in front of an error is kept.
\<close>

section \<open>Platform\<close>

record 't platform =
  pf_sled :: "'t sled"
  scan_prefix :: "'t \<Rightarrow> bytes \<Rightarrow> (string + bytes \<times> bytes) list"
  transact :: "(bytes \<times> bytes option) list \<Rightarrow> 't \<Rightarrow> ('t, unit) io"
  db_flush :: "'t \<Rightarrow> ('t, unit) io"
  pf_nodes :: node_codec
  sha3_256 :: "bytes \<Rightarrow> hash32"
  mldsa_verify :: "bytes \<Rightarrow> bytes \<Rightarrow> bytes \<Rightarrow> bool"
  ln_1p :: "f32 \<Rightarrow> f32"
  ser_atom :: "Atom \<Rightarrow> string + bytes"
  de_atom :: "bytes \<Rightarrow> string + Atom"
  ser_crystal :: "Crystal \<Rightarrow> string + bytes"
  de_crystal :: "bytes \<Rightarrow> string + Crystal"
  ser_undo :: "UndoLog \<Rightarrow> string + bytes"
  de_undo :: "bytes \<Rightarrow> string + UndoLog"
  ser_metrics :: "GlobalMetrics \<Rightarrow> string + bytes"
  de_metrics :: "bytes \<Rightarrow> string + GlobalMetrics"

record 't PrimusStorage =
  db :: 't
  st_mpt :: "'t MerklePatriciaTrie"
  st_root :: "hash32 option"
  gc_log :: 't

type_synonym ('t, 'a) stored = "(string + 'a) \<times> 't PrimusStorage"

abbreviation st_then :: "('t, 'a) stored \<Rightarrow> ('a \<Rightarrow> 't PrimusStorage \<Rightarrow> ('t, 'b) stored) \<Rightarrow> ('t, 'b) stored" where
  "st_then r f \<equiv> (case r of (x, s) \<Rightarrow> (case x of Inl e \<Rightarrow> (Inl e, s) | Inr y \<Rightarrow> f y s))"

definition context_msg :: "string \<Rightarrow> string + 'a \<Rightarrow> string + 'a" where
  "context_msg m r = (case r of Inl e \<Rightarrow> Inl (m @ '': '' @ e) | Inr x \<Rightarrow> Inr x)"

abbreviation mpt_ops :: "'t platform \<Rightarrow> 't MptStore" where
  "mpt_ops P \<equiv> SledMptStore (pf_nodes P) (pf_sled P)"

section \<open>Keys\<close>

text \<open>The decimal digits of an integer, as \<open>format!\<close> prints it.\<close>

fun decimal :: "nat \<Rightarrow> bytes" where
  "decimal n = (if n < 10 then [of_nat (48 + n)] else decimal (n div 10) @ [of_nat (48 + n mod 10)])"

declare decimal.simps [simp del]

definition atom_key :: "bytes \<Rightarrow> bytes" where "atom_key pk = ascii ''atom_'' @ pk"
definition contract_key :: "hash32 \<Rightarrow> bytes" where "contract_key h = ascii ''contract_'' @ h"
definition crystal_key :: "u64 \<Rightarrow> bytes" where "crystal_key i = ascii ''crystal_'' @ decimal (unat i)"
definition undo_key :: "u64 \<Rightarrow> bytes" where "undo_key i = ascii ''undo_'' @ decimal (unat i)"
definition root_key :: bytes where "root_key = ascii ''mpt_root''"
definition hist_root_key :: "u64 \<Rightarrow> bytes" where "hist_root_key i = ascii ''mpt_root_'' @ decimal (unat i)"
definition latest_key :: bytes where "latest_key = ascii ''latest_index''"
definition metrics_key :: bytes where "metrics_key = ascii ''global_metrics''"

section \<open>Database access\<close>

definition db_get :: "'t platform \<Rightarrow> 't PrimusStorage \<Rightarrow> bytes \<Rightarrow> string + bytes option" where
  "db_get P S k = sled_get (pf_sled P) (db S) k"

definition db_insert :: "'t platform \<Rightarrow> bytes \<Rightarrow> bytes \<Rightarrow> 't PrimusStorage \<Rightarrow> ('t, unit) stored" where
  "db_insert P k v S = (case sled_insert (pf_sled P) k v (db S) of (r, d) \<Rightarrow> (r, S\<lparr>db := d\<rparr>))"

definition db_remove :: "'t platform \<Rightarrow> bytes \<Rightarrow> 't PrimusStorage \<Rightarrow> ('t, unit) stored" where
  "db_remove P k S = (case sled_remove (pf_sled P) k (db S) of (r, d) \<Rightarrow> (r, S\<lparr>db := d\<rparr>))"

definition db_get_with :: "'t platform \<Rightarrow> (bytes \<Rightarrow> string + 'a) \<Rightarrow> 't PrimusStorage \<Rightarrow> bytes \<Rightarrow> string + 'a option" where
  "db_get_with P de S k =
     and_then (db_get P S k) (\<lambda>found.
       case found of Some b \<Rightarrow> and_then (de b) (\<lambda>x. Inr (Some x)) | None \<Rightarrow> Inr None)"

section \<open>Opening\<close>

text \<open>The trees of an opened database are arguments: the default tree, the nodes, the log.\<close>

definition storage_open :: "'t platform \<Rightarrow> 't \<Rightarrow> 't \<Rightarrow> 't \<Rightarrow> string + 't PrimusStorage" where
  "storage_open P d nodes glog =
     and_then (sled_get (pf_sled P) d root_key) (\<lambda>found.
       case found of
         None \<Rightarrow> Inr \<lparr>db = d, st_mpt = trie_new nodes, st_root = None, gc_log = glog\<rparr>
       | Some b \<Rightarrow>
           if length b = 32
           then Inr \<lparr>db = d, st_mpt = trie_with_root nodes b, st_root = Some b, gc_log = glog\<rparr>
           else Inl ''mpt_root is corrupt'')"

section \<open>Atoms and contracts\<close>

definition storage_get_atom :: "'t platform \<Rightarrow> 't PrimusStorage \<Rightarrow> bytes \<Rightarrow> string + Atom option" where
  "storage_get_atom P S pk = db_get_with P (de_atom P) S (atom_key pk)"

definition save_contract :: "'t platform \<Rightarrow> hash32 \<Rightarrow> bytes \<Rightarrow> 't PrimusStorage \<Rightarrow> ('t, unit) stored" where
  "save_contract P h code S = db_insert P (contract_key h) code S"

definition storage_load_contract :: "'t platform \<Rightarrow> 't PrimusStorage \<Rightarrow> hash32 \<Rightarrow> string + bytes option" where
  "storage_load_contract P S h = db_get P S (contract_key h)"

fun collect_atoms :: "'t platform \<Rightarrow> (string + bytes \<times> bytes) list \<Rightarrow> (bytes, Atom) btree \<Rightarrow> string + (bytes, Atom) btree" where
  "collect_atoms P [] m = Inr m"
| "collect_atoms P (item # rest) m =
     and_then item (\<lambda>(key, value).
       if length key \<le> 5 then collect_atoms P rest m
       else (case de_atom P value of
               Inl _ \<Rightarrow> collect_atoms P rest m
             | Inr a \<Rightarrow> collect_atoms P rest (bt_insert (drop 5 key) a m)))"

definition get_all_atoms :: "'t platform \<Rightarrow> 't PrimusStorage \<Rightarrow> string + (bytes, Atom) btree" where
  "get_all_atoms P S = collect_atoms P (scan_prefix P (db S) (ascii ''atom_'')) []"

section \<open>Commit\<close>

definition trie_key_of :: "'t platform \<Rightarrow> bytes \<Rightarrow> hash32" where
  "trie_key_of P pk = sha3_256 P pk"

fun prepare_updates :: "'t platform \<Rightarrow> (bytes \<times> Atom) list \<Rightarrow> string + (hash32 \<times> bytes \<times> bytes \<times> Atom) list" where
  "prepare_updates P [] = Inr []"
| "prepare_updates P ((pk, a) # rest) =
     and_then (ser_atom P a) (\<lambda>value.
       and_then (prepare_updates P rest) (\<lambda>ups. Inr ((trie_key_of P pk, value, pk, a) # ups)))"

fun insert_updates :: "'t platform \<Rightarrow> (hash32 \<times> bytes \<times> bytes \<times> Atom) list \<Rightarrow> 't PrimusStorage \<Rightarrow> ('t, unit) stored" where
  "insert_updates P [] S = (Inr (), S)"
| "insert_updates P ((k, v, _, _) # ups) S =
     (case trie_insert (mpt_ops P) k v (st_mpt S) of
        (Inl e, t) \<Rightarrow> (Inl e, S\<lparr>st_mpt := t\<rparr>)
      | (Inr _, t) \<Rightarrow> insert_updates P ups (S\<lparr>st_mpt := t\<rparr>))"

fun persist_atoms :: "'t platform \<Rightarrow> (hash32 \<times> bytes \<times> bytes \<times> Atom) list \<Rightarrow> 't PrimusStorage \<Rightarrow> ('t, unit) stored" where
  "persist_atoms P [] S = (Inr (), S)"
| "persist_atoms P ((_, _, pk, a) # ups) S =
     (case ser_atom P a of
        Inl e \<Rightarrow> (Inl e, S)
      | Inr b \<Rightarrow> st_then (db_insert P (atom_key pk) b S) (\<lambda>_. persist_atoms P ups))"

fun persist_contracts :: "'t platform \<Rightarrow> (hash32 \<times> bytes) list \<Rightarrow> 't PrimusStorage \<Rightarrow> ('t, unit) stored" where
  "persist_contracts P [] S = (Inr (), S)"
| "persist_contracts P ((h, code) # rest) S =
     st_then (save_contract P h code S) (\<lambda>_. persist_contracts P rest)"

definition log_old_root :: "'t platform \<Rightarrow> u64 \<Rightarrow> hash32 option \<Rightarrow> 't PrimusStorage \<Rightarrow> ('t, unit) stored" where
  "log_old_root P idx old S =
     (case old of
        None \<Rightarrow> (Inr (), S)
      | Some r \<Rightarrow> (case sled_insert (pf_sled P) (to_le_bytes 8 idx) r (gc_log S) of (x, l) \<Rightarrow> (x, S\<lparr>gc_log := l\<rparr>)))"

abbreviation root_or_zero :: "hash32 option \<Rightarrow> hash32" where
  "root_or_zero r \<equiv> (case r of Some h \<Rightarrow> h | None \<Rightarrow> zero_hash)"

definition commit_changeset :: "'t platform \<Rightarrow> Changeset \<Rightarrow> u64 \<Rightarrow> 't PrimusStorage \<Rightarrow> ('t, hash32) stored" where
  "commit_changeset P cs idx S0 =
     (case prepare_updates P (inner cs) of
        Inl e \<Rightarrow> (Inl e, S0)
      | Inr ups \<Rightarrow>
          st_then (insert_updates P ups S0) (\<lambda>_ S1.
            let new_root = root_or_zero (mpt_root (st_mpt S1))
            in st_then (log_old_root P idx (mpt_root (st_mpt S0)) S1) (\<lambda>_ S2.
               st_then (persist_atoms P ups (S2\<lparr>st_root := Some new_root\<rparr>)) (\<lambda>_ S3.
               st_then (persist_contracts P (contracts cs) S3) (\<lambda>_ S4.
               st_then (db_insert P root_key new_root S4) (\<lambda>_ S5.
               st_then (db_insert P (hist_root_key idx) new_root S5) (\<lambda>_ S6. (Inr new_root, S6))))))))"

section \<open>Roots and proofs\<close>

definition UNDO_WINDOW :: u64 where "UNDO_WINDOW = 8"
definition FINALITY_DEPTH :: u64 where "FINALITY_DEPTH = 6"

datatype StorageError = ProofTooOld u64 u64 u64 | CrystalNotFound u64 | SledError string | OtherStorage string

definition get_proof :: "'t platform \<Rightarrow> 't PrimusStorage \<Rightarrow> bytes \<Rightarrow> string + MerkleProof" where
  "get_proof P S pk =
     prove (pf_nodes P) (mpt_ops P) (trie_with_root_opt (mpt_store (st_mpt S)) (st_root S)) (trie_key_of P pk)"

definition current_root :: "'t PrimusStorage \<Rightarrow> hash32" where
  "current_root S = root_or_zero (st_root S)"

definition sled_err :: "string + 'a \<Rightarrow> StorageError + 'a" where
  "sled_err r = (case r of Inl e \<Rightarrow> Inl (SledError e) | Inr x \<Rightarrow> Inr x)"

definition root_at :: "'t platform \<Rightarrow> 't PrimusStorage \<Rightarrow> u64 \<Rightarrow> StorageError + hash32 option" where
  "root_at P S idx =
     and_then (sled_err (db_get P S latest_key)) (\<lambda>found.
     and_then (case found of
                 Some b \<Rightarrow> if length b = 8 then Inr (from_le_bytes b) else Inl (OtherStorage ''latest_index corrupt'')
               | None \<Rightarrow> Inr 0) (\<lambda>tip.
       if UNDO_WINDOW < tip \<and> idx < tip - UNDO_WINDOW then Inl (ProofTooOld idx tip UNDO_WINDOW)
       else and_then (sled_err (db_get P S (hist_root_key idx))) (\<lambda>rt.
              case rt of
                Some b \<Rightarrow> if length b = 32 then Inr (Some b) else Inl (OtherStorage ''mpt_root is corrupt'')
              | None \<Rightarrow> Inr None)))"

section \<open>Crystals\<close>

definition get_crystal :: "'t platform \<Rightarrow> 't PrimusStorage \<Rightarrow> u64 \<Rightarrow> string + Crystal option" where
  "get_crystal P S idx = db_get_with P (de_crystal P) S (crystal_key idx)"

definition get_crystal_latest :: "'t platform \<Rightarrow> 't PrimusStorage \<Rightarrow> string + Crystal option" where
  "get_crystal_latest P S =
     and_then (db_get P S latest_key) (\<lambda>found.
       case found of
         Some b \<Rightarrow> if length b = 8 then get_crystal P S (from_le_bytes b) else Inl ''latest_index corrupt''
       | None \<Rightarrow> Inr None)"

definition save_crystal :: "'t platform \<Rightarrow> Crystal \<Rightarrow> 't PrimusStorage \<Rightarrow> ('t, unit) stored" where
  "save_crystal P c S =
     (case ser_crystal P c of
        Inl e \<Rightarrow> (Inl e, S)
      | Inr b \<Rightarrow> st_then (db_insert P (crystal_key (cr_index c)) b S) (\<lambda>_.
                  db_insert P latest_key (to_le_bytes 8 (cr_index c))))"

definition delete_crystal :: "'t platform \<Rightarrow> u64 \<Rightarrow> 't PrimusStorage \<Rightarrow> ('t, unit) stored" where
  "delete_crystal P idx S = db_remove P (crystal_key idx) S"

section \<open>Undo logs\<close>

definition save_undo_log :: "'t platform \<Rightarrow> UndoLog \<Rightarrow> 't PrimusStorage \<Rightarrow> ('t, unit) stored" where
  "save_undo_log P u S =
     (case ser_undo P u of Inl e \<Rightarrow> (Inl e, S) | Inr b \<Rightarrow> db_insert P (undo_key (ul_crystal_index u)) b S)"

definition get_undo_log :: "'t platform \<Rightarrow> 't PrimusStorage \<Rightarrow> u64 \<Rightarrow> string + UndoLog option" where
  "get_undo_log P S idx = db_get_with P (de_undo P) S (undo_key idx)"

definition delete_undo_log :: "'t platform \<Rightarrow> u64 \<Rightarrow> 't PrimusStorage \<Rightarrow> ('t, unit) stored" where
  "delete_undo_log P idx S = db_remove P (undo_key idx) S"

text \<open>One round of \<open>prune_undo_window\<close>; results of the removals and of the collection are dropped.\<close>

definition prune_one :: "'t platform \<Rightarrow> u64 \<Rightarrow> 't PrimusStorage \<Rightarrow> 't PrimusStorage" where
  "prune_one P idx S0 =
     (let S = snd (db_remove P (undo_key idx) S0); gc_key = to_le_bytes 8 idx
      in case sled_get (pf_sled P) (gc_log S) gc_key of
           Inr (Some old_root) \<Rightarrow>
             let S1 = (if length old_root = 32 then S\<lparr>st_mpt := snd (gc_since (mpt_ops P) old_root (st_mpt S))\<rparr> else S)
             in S1\<lparr>gc_log := snd (sled_remove (pf_sled P) gc_key (gc_log S1))\<rparr>
         | _ \<Rightarrow> S)"

definition prune_undo_window :: "'t platform \<Rightarrow> u64 \<Rightarrow> 't PrimusStorage \<Rightarrow> 't PrimusStorage" where
  "prune_undo_window P current_height S =
     (if current_height \<le> UNDO_WINDOW then S
      else foldl (\<lambda>S i. prune_one P (of_nat i) S) S [0 ..< unat (current_height - UNDO_WINDOW)])"

fun restore_atoms :: "'t platform \<Rightarrow> (bytes, Atom option) btree \<Rightarrow> 't PrimusStorage \<Rightarrow> ('t, unit) stored" where
  "restore_atoms P [] S = (Inr (), S)"
| "restore_atoms P ((pk, pre_image) # rest) S =
     st_then (case pre_image of
                Some a \<Rightarrow> (case ser_atom P a of Inl e \<Rightarrow> (Inl e, S) | Inr b \<Rightarrow> db_insert P (atom_key pk) b S)
              | None \<Rightarrow> db_remove P (atom_key pk) S) (\<lambda>_. restore_atoms P rest)"

section \<open>Metrics\<close>

definition save_global_metrics :: "'t platform \<Rightarrow> GlobalMetrics \<Rightarrow> 't PrimusStorage \<Rightarrow> ('t, unit) stored" where
  "save_global_metrics P m S =
     (case ser_metrics P m of Inl e \<Rightarrow> (Inl e, S) | Inr b \<Rightarrow> db_insert P metrics_key b S)"

definition get_global_metrics :: "'t platform \<Rightarrow> 't PrimusStorage \<Rightarrow> string + GlobalMetrics option" where
  "get_global_metrics P S = db_get_with P (de_metrics P) S metrics_key"

definition storage_flush :: "'t platform \<Rightarrow> GlobalMetrics option \<Rightarrow> 't PrimusStorage \<Rightarrow> ('t, unit) stored" where
  "storage_flush P metrics S0 =
     st_then (case metrics of Some m \<Rightarrow> save_global_metrics P m S0 | None \<Rightarrow> (Inr (), S0)) (\<lambda>_ S.
       case db_flush P (db S) of (r, d) \<Rightarrow> (r, S\<lparr>db := d\<rparr>))"

end
