(* ===== verification/Primus_Processor.thy ===== *)
theory Primus_Processor
  imports Primus_Storage
begin

text \<open>
  The block processor \<open>primus-core/src/processor.rs\<close> over the engine of \<open>engine.rs\<close>: acceptance of
  reactions and crystals from the network, solidification of a crystal and reorganisation. The
  mutex around the engine makes each handler atomic, so a handler is a function on the engine. The
  WASM runtime the source hands through is not used on this path.
\<close>

section \<open>The engine\<close>

record 't PrimusEngine =
  storage :: "'t PrimusStorage"
  state :: StateTree
  chamber :: ReactionChamber
  target_block_time :: u64
  eng_architect_pk :: bytes
  is_syncing :: bool
  sync_target :: u64
  epoch_difficulty :: f32

type_synonym ('t, 'a) engined = "(string + 'a) \<times> 't PrimusEngine"

abbreviation en_then :: "('t, 'a) engined \<Rightarrow> ('a \<Rightarrow> 't PrimusEngine \<Rightarrow> ('t, 'b) engined) \<Rightarrow> ('t, 'b) engined" where
  "en_then r f \<equiv> (case r of (x, E) \<Rightarrow> (case x of Inl e \<Rightarrow> (Inl e, E) | Inr y \<Rightarrow> f y E))"

text \<open>An operation on the storage, with the message the source attaches to its failure.\<close>

definition on_storage ::
  "string \<Rightarrow> ('t PrimusStorage \<Rightarrow> ('t, 'a) stored) \<Rightarrow> 't PrimusEngine \<Rightarrow> ('t, 'a) engined" where
  "on_storage msg f E = (case f (storage E) of (r, S) \<Rightarrow> (context_msg msg r, E\<lparr>storage := S\<rparr>))"

abbreviation set_index :: "u64 \<Rightarrow> 't PrimusEngine \<Rightarrow> 't PrimusEngine" where
  "set_index i E \<equiv> E\<lparr>state := (state E)\<lparr>current_crystal_index := i\<rparr>\<rparr>"

definition engine_execute ::
  "'t platform \<Rightarrow> 't PrimusEngine \<Rightarrow> SignedReaction list \<Rightarrow> PvmError + Changeset \<times> f32" where
  "engine_execute P E rxs =
     core_execute_payload (sha3_256 P) (mldsa_verify P)
       (\<lambda>h. case storage_load_contract P (storage E) h of Inr c \<Rightarrow> c | Inl _ \<Rightarrow> None)
       (state E) rxs (ch_temperature (chamber E)) (eng_architect_pk E)"

section \<open>Reactions from the network\<close>

definition process_network_reaction :: "SignedReaction \<Rightarrow> 't PrimusEngine \<Rightarrow> ('t, unit) engined" where
  "process_network_reaction rx E =
     (if state_get_atom (state E) (public_key (sender rx)) = None \<and> public_key (sender rx) \<noteq> eng_architect_pk E
      then (Inl ''phantom sender'', E)
      else if should_engage_gravity_shield (fcast binary64 (ch_temperature (chamber E)))
      then (Inl ''Chamber Overheat'', E)
      else (Inr (), E\<lparr>chamber := inject_reaction rx (chamber E)\<rparr>))"

section \<open>Solidification\<close>

definition pow_temperature :: "'t PrimusEngine \<Rightarrow> f32" where
  "pow_temperature E = fcast binary32 (to_vm_thermal (fcast binary64 (ch_temperature (chamber E))))"

definition verify_pow :: "'t platform \<Rightarrow> 't PrimusEngine \<Rightarrow> Crystal \<Rightarrow> string + unit" where
  "verify_pow P E c =
     (if check_proof_of_work (blake3 (pf_nodes P)) c (pow_temperature E) (epoch_difficulty E)
      then Inr () else Inl ''PoW invalid'')"

text \<open>The end of solidification, after the changeset is committed and its root accepted.\<close>

definition seal_crystal ::
  "'t platform \<Rightarrow> Crystal \<Rightarrow> Changeset \<Rightarrow> f32 \<Rightarrow> hash32 \<Rightarrow> 't PrimusEngine \<Rightarrow> ('t, unit) engined" where
  "seal_crystal P c cs consumed pre_root E0 =
     en_then (on_storage ''Failed to persist UndoLog before state commit''
               (save_undo_log P (record_all (state E0) (map fst (inner cs)) (undo_new (cr_index c) pre_root))) E0) (\<lambda>_ E1.
       let ch = (chamber E1)\<lparr>ch_entropy := fadd binary32 (ch_entropy (chamber E1)) consumed\<rparr>;
           metrics = \<lparr>gm_temperature = ch_temperature ch, gm_entropy = ch_entropy ch\<rparr>;
           E2 = E1\<lparr>chamber := ch, state := (state E1)\<lparr>global_metrics := metrics\<rparr>\<rparr>
       in en_then (on_storage ''Failed to persist GlobalMetrics'' (save_global_metrics P metrics) E2) (\<lambda>_ E3.
          en_then (on_storage ''Failed to persist Crystal'' (save_crystal P c) E3) (\<lambda>_ E4.
            let kept = filter (\<lambda>r. \<not> List.member (reactions c) (reaction_hash r)) (volatile_reactions (chamber E4));
                E5 = E4\<lparr>state := apply_changeset cs (state E4),
                        chamber := inherit_history c ((chamber E4)\<lparr>volatile_reactions := kept\<rparr>)\<rparr>
            in (Inr (), E5\<lparr>storage := prune_undo_window P (current_crystal_index (state E5)) (storage E5)\<rparr>))))"

text \<open>The crystal is an in-out argument: a zero state root is filled in.\<close>

definition finalize_solidification ::
  "'t platform \<Rightarrow> Crystal \<Rightarrow> 't PrimusEngine \<Rightarrow> ('t, Crystal) engined" where
  "finalize_solidification P c E0 =
     (let old_index = current_crystal_index (state E0);
          pre_root = current_root (storage E0);
          E1 = set_index (cr_index c) E0
      in case engine_execute P E1 (reactions_data c) of
           Inl _ \<Rightarrow> (Inl ''PVM execution failed'', set_index old_index E1)
         | Inr (cs, consumed) \<Rightarrow>
             en_then (on_storage ''Failed to commit changeset to MPT'' (commit_changeset P cs (cr_index c)) E1) (\<lambda>calculated E2.
               if state_root c = zero_hash
               then en_then (seal_crystal P (c\<lparr>state_root := calculated\<rparr>) cs consumed pre_root E2)
                      (\<lambda>_ E3. (Inr (c\<lparr>state_root := calculated\<rparr>), E3))
               else if state_root c \<noteq> calculated
               then (Inl ''State Root Mismatch'', set_index old_index E2)
               else en_then (seal_crystal P c cs consumed pre_root E2) (\<lambda>_ E3. (Inr c, E3))))"

section \<open>Reorganisation\<close>

fun find_ancestor :: "'t platform \<Rightarrow> 't PrimusStorage \<Rightarrow> hash32 \<Rightarrow> u64 \<Rightarrow> nat \<Rightarrow> u64" where
  "find_ancestor P S prev fallback candidate =
     (case get_crystal P S (of_nat candidate) of
        Inl _ \<Rightarrow> fallback
      | Inr (Some block) \<Rightarrow>
          if prev = calculate_density (blake3 (pf_nodes P)) block then of_nat candidate
          else if candidate = 0 then 0 else find_ancestor P S prev fallback (candidate - 1)
      | Inr None \<Rightarrow> if candidate = 0 then 0 else find_ancestor P S prev fallback (candidate - 1))"

declare find_ancestor.simps [simp del]

text \<open>Heights from the tip down to the block above the ancestor.\<close>

fun collect_undo_logs :: "'t platform \<Rightarrow> 't PrimusStorage \<Rightarrow> nat list \<Rightarrow> string + (u64 \<times> UndoLog) list" where
  "collect_undo_logs P S [] = Inr []"
| "collect_undo_logs P S (h # hs) =
     (case get_undo_log P S (of_nat h) of
        Inl e \<Rightarrow> Inl ''storage error fetching UndoLog''
      | Inr None \<Rightarrow> Inl ''UndoLog missing''
      | Inr (Some u) \<Rightarrow> and_then (collect_undo_logs P S hs) (\<lambda>logs. Inr ((of_nat h, u) # logs)))"

definition heights_down :: "u64 \<Rightarrow> u64 \<Rightarrow> nat list" where
  "heights_down tip ancestor = rev [Suc (unat ancestor) ..< Suc (unat tip)]"

fun image_writes :: "'t platform \<Rightarrow> (bytes, Atom option) btree \<Rightarrow> string + (bytes \<times> bytes option) list" where
  "image_writes P [] = Inr []"
| "image_writes P ((pk, pre_image) # rest) =
     and_then (case pre_image of
                 Some a \<Rightarrow> and_then (context_msg ''failed to serialize pre-image atom'' (ser_atom P a)) (\<lambda>b. Inr (Some b))
               | None \<Rightarrow> Inr None) (\<lambda>v.
     and_then (image_writes P rest) (\<lambda>ws. Inr ((atom_key pk, v) # ws)))"

fun atom_writes :: "'t platform \<Rightarrow> (u64 \<times> UndoLog) list \<Rightarrow> string + (bytes \<times> bytes option) list" where
  "atom_writes P [] = Inr []"
| "atom_writes P ((_, u) # logs) =
     and_then (image_writes P (pre_images u)) (\<lambda>ws.
     and_then (atom_writes P logs) (\<lambda>ws'. Inr (ws @ ws')))"

definition height_writes :: "(u64 \<times> UndoLog) list \<Rightarrow> (bytes \<times> bytes option) list" where
  "height_writes logs = concat (map (\<lambda>(h, _). [(crystal_key h, None), (undo_key h, None)]) logs)"

definition db_transact :: "'t platform \<Rightarrow> (bytes \<times> bytes option) list \<Rightarrow> 't PrimusStorage \<Rightarrow> ('t, unit) stored" where
  "db_transact P ws S = (case transact P ws (db S) of (r, d) \<Rightarrow> (r, S\<lparr>db := d\<rparr>))"

fun apply_chain :: "'t platform \<Rightarrow> Crystal list \<Rightarrow> 't PrimusEngine \<Rightarrow> ('t, unit) engined" where
  "apply_chain P [] E = (Inr (), E)"
| "apply_chain P (c # cs) E =
     (case verify_pow P E c of
        Inl e \<Rightarrow> (Inl e, E)
      | Inr _ \<Rightarrow>
          (case finalize_solidification P c E of
             (Inl e, E1) \<Rightarrow> (Inl (''REORG: finalize_solidification failed: '' @ e), E1)
           | (Inr _, E1) \<Rightarrow> apply_chain P cs E1))"

definition roll_back :: "'t platform \<Rightarrow> u64 \<Rightarrow> (u64 \<times> UndoLog) list \<Rightarrow> 't PrimusEngine \<Rightarrow> ('t, unit) engined" where
  "roll_back P ancestor logs E0 =
     (let E1 = E0\<lparr>state := rollback_logs (map snd logs) (state E0)\<rparr>
      in case atom_writes P logs of
           Inl e \<Rightarrow> (Inl e, E1)
         | Inr ws \<Rightarrow>
             en_then (on_storage ''sled transaction failed during atomic rollback''
                        (db_transact P (ws @ height_writes logs)) E1) (\<lambda>_ E2.
             en_then (on_storage ''Sled flush failed after reorg rollback phase'' (storage_flush P None) E2) (\<lambda>_ E3.
               (Inr (), set_index ancestor E3))))"

definition perform_reorg :: "'t platform \<Rightarrow> Crystal list \<Rightarrow> 't PrimusEngine \<Rightarrow> ('t, unit) engined" where
  "perform_reorg P new_chain E0 =
     (if new_chain = [] then (Inl ''new_chain is empty'', E0)
      else
        let chain = sort_key cr_index new_chain;
            fork_base = hd chain;
            local_tip = current_crystal_index (state E0);
            below_base = saturating_sub (cr_index fork_base) 1;
            rollback_depth = saturating_sub local_tip below_base
        in if FINALITY_DEPTH < rollback_depth then (Inl ''rollback depth exceeds FINALITY_DEPTH'', E0)
           else
             let ancestor = find_ancestor P (storage E0) (prev_hash fork_base) below_base (unat below_base)
             in case collect_undo_logs P (storage E0) (heights_down local_tip ancestor) of
                  Inl e \<Rightarrow> (Inl e, E0)
                | Inr logs \<Rightarrow>
                    en_then (roll_back P ancestor logs E0) (\<lambda>_ E1.
                    en_then (apply_chain P chain E1) (\<lambda>_ E2.
                      (Inr (), E2\<lparr>chamber := (chamber E2)\<lparr>
                          ch_temperature := fmul binary32 (ch_temperature (chamber E2)) (f32_lit 85 100),
                          ch_entropy := fmul binary32 (ch_entropy (chamber E2)) (f32_lit 90 100)\<rparr>\<rparr>))))"

section \<open>Crystals from the network\<close>

definition solidify_checked :: "'t platform \<Rightarrow> Crystal \<Rightarrow> 't PrimusEngine \<Rightarrow> ('t, unit) engined" where
  "solidify_checked P c E =
     (case verify_pow P E c of
        Inl e \<Rightarrow> (Inl e, E)
      | Inr _ \<Rightarrow> en_then (finalize_solidification P c E) (\<lambda>_ E1. (Inr (), E1)))"

definition process_network_crystal :: "'t platform \<Rightarrow> Crystal \<Rightarrow> 't PrimusEngine \<Rightarrow> ('t, unit) engined" where
  "process_network_crystal P incoming E =
     (case get_crystal_latest P (storage E) of
        Inl e \<Rightarrow> (Inl e, E)
      | Inr None \<Rightarrow> solidify_checked P incoming E
      | Inr (Some last_local) \<Rightarrow>
          if cr_index incoming = cr_index last_local + 1 then
            if prev_hash incoming = calculate_density (blake3 (pf_nodes P)) last_local
            then solidify_checked P incoming E
            else if flt (fadd binary32 (cumulative_energy last_local) (f32_lit 1 1)) (cumulative_energy incoming)
            then perform_reorg P [incoming] E
            else (Inl ''parent hash mismatch'', E)
          else if cr_index incoming = cr_index last_local
                  \<and> flt (cumulative_energy last_local) (cumulative_energy incoming)
          then perform_reorg P [incoming] E
          else if cr_index last_local + 1 < cr_index incoming then (Inl ''Gap detected'', E)
          else (Inr (), E))"

end
