(* ===== verification/Storage_Correct.thy ===== *)
theory Storage_Correct
  imports Primus_Storage
begin

text \<open>
  What the persistent store guarantees. The locale \<open>core_platform\<close> is the contract of the
  third-party code: healthy trees behave like maps, a transaction applies all of its writes, and
  every codec reads back what it has written. Over it each operation of \<open>Primus_Storage\<close> is
  characterised by the map \<open>tree_map\<close> of the default tree, and the keys of different kinds of
  records are shown to be disjoint and injective.
\<close>

section \<open>Keys\<close>

lemma decimal_digit: "n < 10 \<Longrightarrow> decimal n = [of_nat (48 + n)]"
  by (subst decimal.simps) simp

lemma decimal_more: "10 \<le> n \<Longrightarrow> decimal n = decimal (n div 10) @ [of_nat (48 + n mod 10)]"
  by (subst decimal.simps) simp

lemma decimal_not_Nil [simp]: "decimal n \<noteq> []" "[] \<noteq> decimal n"
  by (subst decimal.simps, simp)+

lemma digit_inj: "a < 10 \<Longrightarrow> b < 10 \<Longrightarrow> (of_nat (48 + a) :: u8) = of_nat (48 + b) \<Longrightarrow> a = b"
  using of_nat_inverse [of "48 + a" "of_nat (48 + a) :: u8"] of_nat_inverse [of "48 + b" "of_nat (48 + a) :: u8"]
  by simp

lemma decimal_inj: "decimal m = decimal n \<Longrightarrow> m = n"
proof (induction m arbitrary: n rule: decimal.induct)
  case (1 m)
  consider "m < 10" "n < 10" | "m < 10" "10 \<le> n" | "10 \<le> m" "n < 10" | "10 \<le> m" "10 \<le> n" by linarith
  then show ?case
  proof cases
    case 1
    then show ?thesis using "1.prems" digit_inj by (simp add: decimal_digit del: of_nat_add)
  next
    case 4
    have "decimal (m div 10) = decimal (n div 10)" "m mod 10 = n mod 10"
      using "1.prems" 4 digit_inj [of "m mod 10" "n mod 10"] by (simp_all add: decimal_more del: of_nat_add)
    then have "m div 10 = n div 10" using "1.IH" 4(1) by simp
    with \<open>m mod 10 = n mod 10\<close> show ?thesis by (metis div_mult_mod_eq)
  qed (use "1.prems" in \<open>auto simp: decimal_digit decimal_more\<close>)
qed

lemma decimal_eq [simp]: "decimal (unat i) = decimal (unat (j :: u64)) \<longleftrightarrow> i = j"
  using decimal_inj [of "unat i" "unat j"] by auto

lemmas key_defs = atom_key_def contract_key_def crystal_key_def undo_key_def root_key_def hist_root_key_def
  latest_key_def metrics_key_def

lemma key_inj [simp]:
  "atom_key p = atom_key q \<longleftrightarrow> p = q"
  "contract_key h = contract_key h' \<longleftrightarrow> h = h'"
  "crystal_key i = crystal_key j \<longleftrightarrow> i = j"
  "undo_key i = undo_key j \<longleftrightarrow> i = j"
  "hist_root_key i = hist_root_key j \<longleftrightarrow> i = j"
  by (simp_all add: key_defs)

text \<open>No key of one kind is a key of another.\<close>

definition key_kind :: "bytes \<Rightarrow> nat" where
  "key_kind k =
     (case k of
        a # b # _ \<Rightarrow> if a = 97 then 1 else if a = 99 \<and> b = 111 then 2 else if a = 99 then 3
                   else if a = 117 then 4 else if a = 109 then (if length k = 8 then 5 else 6)
                   else if a = 108 then 7 else 8
      | _ \<Rightarrow> 0)"

lemma key_kind_simps [simp]:
  "key_kind (atom_key p) = 1" "key_kind (contract_key h) = 2" "key_kind (crystal_key i) = 3"
  "key_kind (undo_key i) = 4" "key_kind root_key = 5" "key_kind (hist_root_key i) = 6"
  "key_kind latest_key = 7" "key_kind metrics_key = 8"
  by (simp_all add: key_defs key_kind_def ascii_def)

lemma key_kind_neq: "key_kind k \<noteq> key_kind k' \<Longrightarrow> k \<noteq> k'"
  by auto

section \<open>The contract of the platform\<close>

definition tree_map :: "'t platform \<Rightarrow> 't \<Rightarrow> bytes \<rightharpoonup> bytes" where
  "tree_map P d k = (case sled_get (pf_sled P) d k of Inr r \<Rightarrow> r | Inl _ \<Rightarrow> None)"

fun write_all :: "(bytes \<times> bytes option) list \<Rightarrow> (bytes \<rightharpoonup> bytes) \<Rightarrow> bytes \<rightharpoonup> bytes" where
  "write_all [] m = m"
| "write_all ((k, v) # ws) m = write_all ws (m(k := v))"

locale core_platform = sled_contract "pf_nodes P" "pf_sled P" healthy
  for P :: "'t platform" and healthy :: "'t \<Rightarrow> bool" +
  assumes transact_law: "healthy d \<Longrightarrow> \<exists>d'. transact P ws d = (Inr (), d') \<and> healthy d'
          \<and> tree_map P d' = write_all ws (tree_map P d)"
    and flush_law: "healthy d \<Longrightarrow> \<exists>d'. db_flush P d = (Inr (), d') \<and> healthy d' \<and> tree_map P d' = tree_map P d"
    and atom_codec: "\<exists>b. ser_atom P a = Inr b \<and> de_atom P b = Inr a"
    and crystal_codec: "\<exists>b. ser_crystal P c = Inr b \<and> de_crystal P b = Inr c"
    and undo_codec: "\<exists>b. ser_undo P u = Inr b \<and> de_undo P b = Inr u"
    and metrics_codec: "\<exists>b. ser_metrics P g = Inr b \<and> de_metrics P b = Inr g"
    and sha3_length: "length (sha3_256 P x) = 32"
begin

lemma healthy_get: "healthy d \<Longrightarrow> sled_get (pf_sled P) d k = Inr (tree_map P d k)"
  using sled_get_law [of d k] by (auto simp: tree_map_def)

lemma db_get_map: "healthy (db S) \<Longrightarrow> db_get P S k = Inr (tree_map P (db S) k)"
  by (simp add: db_get_def healthy_get)

lemma db_get_with_map:
  "healthy (db S) \<Longrightarrow> db_get_with P de S k
     = (case tree_map P (db S) k of None \<Rightarrow> Inr None | Some b \<Rightarrow> and_then (de b) (\<lambda>x. Inr (Some x)))"
  by (simp add: db_get_with_def db_get_map split: option.split)

lemma db_insert_map:
  assumes "healthy (db S)"
  obtains d where "db_insert P k v S = (Inr (), S\<lparr>db := d\<rparr>)" "healthy d"
    "tree_map P d = (tree_map P (db S))(k \<mapsto> v)"
proof -
  obtain d where d: "sled_insert (pf_sled P) k v (db S) = (Inr (), d)" "healthy d"
      "\<forall>j. sled_get (pf_sled P) d j = (if j = k then Inr (Some v) else sled_get (pf_sled P) (db S) j)"
    using sled_insert_law [OF assms] by blast
  then have "tree_map P d = (tree_map P (db S))(k \<mapsto> v)" by (auto simp: fun_eq_iff tree_map_def)
  with d show ?thesis using that [of d] by (simp add: db_insert_def)
qed

lemma db_remove_map:
  assumes "healthy (db S)"
  obtains d where "db_remove P k S = (Inr (), S\<lparr>db := d\<rparr>)" "healthy d"
    "tree_map P d = (tree_map P (db S))(k := None)"
proof -
  obtain d where d: "sled_remove (pf_sled P) k (db S) = (Inr (), d)" "healthy d"
      "\<forall>j. sled_get (pf_sled P) d j = (if j = k then Inr None else sled_get (pf_sled P) (db S) j)"
    using sled_remove_law [OF assms] by blast
  then have "tree_map P d = (tree_map P (db S))(k := None)" by (auto simp: fun_eq_iff tree_map_def)
  with d show ?thesis using that [of d] by (simp add: db_remove_def)
qed

end

text \<open>The keys outside the kinds \<open>A\<close> are as before.\<close>

definition unchanged :: "'t platform \<Rightarrow> nat set \<Rightarrow> 't \<Rightarrow> 't \<Rightarrow> bool" where
  "unchanged P A d d' = (\<forall>k. key_kind k \<notin> A \<longrightarrow> tree_map P d' k = tree_map P d k)"

lemma unchanged_refl [simp]: "unchanged P A d d"
  by (simp add: unchanged_def)

lemma unchanged_trans:
  "unchanged P A d d1 \<Longrightarrow> unchanged P B d1 d2 \<Longrightarrow> A \<subseteq> C \<Longrightarrow> B \<subseteq> C \<Longrightarrow> unchanged P C d d2"
  by (force simp: unchanged_def)

lemma unchanged_upd: "tree_map P d' = (tree_map P d)(k := v) \<Longrightarrow> key_kind k \<in> A \<Longrightarrow> unchanged P A d d'"
  by (auto simp: unchanged_def)

lemma unchangedD: "unchanged P A d d' \<Longrightarrow> key_kind k \<notin> A \<Longrightarrow> tree_map P d' k = tree_map P d k"
  by (simp add: unchanged_def)

definition code_map :: "'t platform \<Rightarrow> 't \<Rightarrow> hash32 \<rightharpoonup> bytes" where
  "code_map P d h = tree_map P d (contract_key h)"

text \<open>The answers of \<open>storage_get_atom\<close> after atoms were written over the answers \<open>f\<close>.\<close>

definition after_atoms :: "(bytes \<times> Atom) list \<Rightarrow> (bytes \<Rightarrow> string + Atom option) \<Rightarrow> bytes \<Rightarrow> string + Atom option" where
  "after_atoms kvs f pk = (case map_of (rev kvs) pk of Some a \<Rightarrow> Inr (Some a) | None \<Rightarrow> f pk)"

context core_platform
begin

section \<open>Records\<close>

lemma save_crystal_ok:
  assumes "healthy (db S)"
  obtains d where "save_crystal P c S = (Inr (), S\<lparr>db := d\<rparr>)" "healthy d" "unchanged P {3, 7} (db S) d"
    "\<And>T i. db T = d \<Longrightarrow> get_crystal P T i = (if i = cr_index c then Inr (Some c) else get_crystal P S i)"
    "tree_map P d latest_key = Some (to_le_bytes 8 (cr_index c))"
proof -
  obtain b where b: "ser_crystal P c = Inr b" "de_crystal P b = Inr c" using crystal_codec by blast
  obtain d1 where d1: "db_insert P (crystal_key (cr_index c)) b S = (Inr (), S\<lparr>db := d1\<rparr>)" "healthy d1"
      "tree_map P d1 = (tree_map P (db S))(crystal_key (cr_index c) \<mapsto> b)"
    by (rule db_insert_map [OF assms])
  obtain d where d: "db_insert P latest_key (to_le_bytes 8 (cr_index c)) (S\<lparr>db := d1\<rparr>) = (Inr (), S\<lparr>db := d\<rparr>)"
      "healthy d" "tree_map P d = (tree_map P d1)(latest_key \<mapsto> to_le_bytes 8 (cr_index c))"
    using db_insert_map [of "S\<lparr>db := d1\<rparr>"] d1(2) by auto
  have "crystal_key i \<noteq> latest_key" for i by (rule key_kind_neq) simp
  then have "get_crystal P T i = (if i = cr_index c then Inr (Some c) else get_crystal P S i)" if "db T = d" for T i
    using that d d1 b assms by (simp add: get_crystal_def db_get_with_map)
  moreover have "unchanged P {3, 7} (db S) d"
    using d1(3) d(3) by (auto simp: unchanged_def)
  ultimately show ?thesis using that d d1(1) b by (simp add: save_crystal_def)
qed

lemma save_undo_log_ok:
  assumes "healthy (db S)"
  obtains d where "save_undo_log P u S = (Inr (), S\<lparr>db := d\<rparr>)" "healthy d" "unchanged P {4} (db S) d"
    "\<And>T i. db T = d \<Longrightarrow> get_undo_log P T i = (if i = ul_crystal_index u then Inr (Some u) else get_undo_log P S i)"
proof -
  obtain b where b: "ser_undo P u = Inr b" "de_undo P b = Inr u" using undo_codec by blast
  obtain d where d: "db_insert P (undo_key (ul_crystal_index u)) b S = (Inr (), S\<lparr>db := d\<rparr>)" "healthy d"
      "tree_map P d = (tree_map P (db S))(undo_key (ul_crystal_index u) \<mapsto> b)"
    by (rule db_insert_map [OF assms])
  have "get_undo_log P T i = (if i = ul_crystal_index u then Inr (Some u) else get_undo_log P S i)" if "db T = d" for T i
    using that d b assms by (simp add: get_undo_log_def db_get_with_map)
  then show ?thesis using that d b unchanged_upd [OF d(3)] by (simp add: save_undo_log_def)
qed

lemma save_global_metrics_ok:
  assumes "healthy (db S)"
  obtains d where "save_global_metrics P m S = (Inr (), S\<lparr>db := d\<rparr>)" "healthy d" "unchanged P {8} (db S) d"
    "\<And>T. db T = d \<Longrightarrow> get_global_metrics P T = Inr (Some m)"
proof -
  obtain b where b: "ser_metrics P m = Inr b" "de_metrics P b = Inr m" using metrics_codec by blast
  obtain d where d: "db_insert P metrics_key b S = (Inr (), S\<lparr>db := d\<rparr>)" "healthy d"
      "tree_map P d = (tree_map P (db S))(metrics_key \<mapsto> b)"
    by (rule db_insert_map [OF assms])
  have "get_global_metrics P T = Inr (Some m)" if "db T = d" for T
    using that d b by (simp add: get_global_metrics_def db_get_with_map)
  then show ?thesis using that d b unchanged_upd [OF d(3)] by (simp add: save_global_metrics_def)
qed

lemma reads_unchanged:
  assumes "healthy (db S)" and "healthy (db T)" and "unchanged P A (db S) (db T)"
  shows "1 \<notin> A \<Longrightarrow> storage_get_atom P T pk = storage_get_atom P S pk"
    and "2 \<notin> A \<Longrightarrow> storage_load_contract P T h = storage_load_contract P S h"
    and "3 \<notin> A \<Longrightarrow> get_crystal P T i = get_crystal P S i"
    and "4 \<notin> A \<Longrightarrow> get_undo_log P T i = get_undo_log P S i"
  using assms unchangedD [OF assms(3)]
  by (simp_all add: storage_get_atom_def storage_load_contract_def get_crystal_def get_undo_log_def db_get_with_map
      db_get_map)

lemma put_atom_ok:
  assumes "healthy (db S)"
  obtains b d where "ser_atom P a = Inr b" "db_insert P (atom_key pk) b S = (Inr (), S\<lparr>db := d\<rparr>)" "healthy d"
    "unchanged P {1} (db S) d"
    "\<And>T q. db T = d \<Longrightarrow> storage_get_atom P T q = (if q = pk then Inr (Some a) else storage_get_atom P S q)"
proof -
  obtain b where b: "ser_atom P a = Inr b" "de_atom P b = Inr a" using atom_codec by blast
  obtain d where d: "db_insert P (atom_key pk) b S = (Inr (), S\<lparr>db := d\<rparr>)" "healthy d"
      "tree_map P d = (tree_map P (db S))(atom_key pk \<mapsto> b)"
    by (rule db_insert_map [OF assms])
  have "storage_get_atom P T q = (if q = pk then Inr (Some a) else storage_get_atom P S q)" if "db T = d" for T q
    using that d b assms by (simp add: storage_get_atom_def db_get_with_map)
  then show ?thesis using that d b unchanged_upd [OF d(3)] by simp
qed

lemma drop_atom_ok:
  assumes "healthy (db S)"
  obtains d where "db_remove P (atom_key pk) S = (Inr (), S\<lparr>db := d\<rparr>)" "healthy d" "unchanged P {1} (db S) d"
    "\<And>T q. db T = d \<Longrightarrow> storage_get_atom P T q = (if q = pk then Inr None else storage_get_atom P S q)"
proof -
  obtain d where d: "db_remove P (atom_key pk) S = (Inr (), S\<lparr>db := d\<rparr>)" "healthy d"
      "tree_map P d = (tree_map P (db S))(atom_key pk := None)"
    by (rule db_remove_map [OF assms])
  have "storage_get_atom P T q = (if q = pk then Inr None else storage_get_atom P S q)" if "db T = d" for T q
    using that d assms by (simp add: storage_get_atom_def db_get_with_map)
  then show ?thesis using that d unchanged_upd [OF d(3)] by simp
qed

section \<open>Committing\<close>

lemma prepare_updates_ok:
  "\<exists>vs. prepare_updates P kvs = Inr vs \<and> map (\<lambda>u. snd (snd u)) vs = kvs
     \<and> list_all (\<lambda>(k, v, pk, a). k = trie_key_of P pk \<and> ser_atom P a = Inr v \<and> de_atom P v = Inr a) vs"
proof (induction kvs)
  case (Cons kv kvs)
  obtain b where "ser_atom P (snd kv) = Inr b" "de_atom P b = Inr (snd kv)" using atom_codec by blast
  moreover obtain vs where "prepare_updates P kvs = Inr vs" "map (\<lambda>u. snd (snd u)) vs = kvs"
      "list_all (\<lambda>(k, v, pk, a). k = trie_key_of P pk \<and> ser_atom P a = Inr v \<and> de_atom P v = Inr a) vs"
    using Cons by blast
  ultimately show ?case
    by (cases kv) (simp add: exI [of _ "(trie_key_of P (fst kv), b, kv) # vs"])
qed simp

lemma persist_atoms_ok:
  assumes "healthy (db S)"
  shows "\<exists>d. persist_atoms P ups S = (Inr (), S\<lparr>db := d\<rparr>) \<and> healthy d \<and> unchanged P {1} (db S) d
     \<and> (\<forall>T. db T = d \<longrightarrow> storage_get_atom P T
           = after_atoms (map (\<lambda>u. snd (snd u)) ups) (storage_get_atom P S))"
  using assms
proof (induction ups arbitrary: S)
  case Nil
  then show ?case
    by (intro exI [of _ "db S"])
      (simp add: fun_eq_iff after_atoms_def storage_get_atom_def db_get_with_def db_get_def)
next
  case (Cons u ups)
  obtain k v pk a where u: "u = (k, v, pk, a)" by (cases u)
  obtain b d where d: "ser_atom P a = Inr b" "db_insert P (atom_key pk) b S = (Inr (), S\<lparr>db := d\<rparr>)" "healthy d"
      "unchanged P {1} (db S) d"
      "\<And>T q. db T = d \<Longrightarrow> storage_get_atom P T q = (if q = pk then Inr (Some a) else storage_get_atom P S q)"
    using put_atom_ok [OF Cons.prems, of a pk] by blast
  from Cons.IH [of "S\<lparr>db := d\<rparr>"] d(3) obtain d' where d': "persist_atoms P ups (S\<lparr>db := d\<rparr>) = (Inr (), S\<lparr>db := d'\<rparr>)"
      "healthy d'" "unchanged P {1} d d'"
      "\<forall>T. db T = d' \<longrightarrow> storage_get_atom P T
           = after_atoms (map (\<lambda>u. snd (snd u)) ups) (storage_get_atom P (S\<lparr>db := d\<rparr>))"
    by auto
  have "after_atoms kvs (storage_get_atom P (S\<lparr>db := d\<rparr>)) = after_atoms ((pk, a) # kvs) (storage_get_atom P S)" for kvs
    using d(5) [of "S\<lparr>db := d\<rparr>"] by (auto simp: after_atoms_def fun_eq_iff map_add_def split: option.split)
  then show ?case
    using d(1,2) d' u unchanged_trans [OF d(4) d'(3)] by (intro exI [of _ d']) simp
qed

lemma persist_contracts_ok:
  assumes "healthy (db S)"
  shows "\<exists>d. persist_contracts P hs S = (Inr (), S\<lparr>db := d\<rparr>) \<and> healthy d \<and> unchanged P {2} (db S) d
     \<and> code_map P d = code_map P (db S) ++ map_of (rev hs)"
  using assms
proof (induction hs arbitrary: S)
  case Nil
  then show ?case by (intro exI [of _ "db S"]) simp
next
  case (Cons x hs)
  obtain h code where x: "x = (h, code)" by (cases x)
  obtain d where d: "db_insert P (contract_key h) code S = (Inr (), S\<lparr>db := d\<rparr>)" "healthy d"
      "tree_map P d = (tree_map P (db S))(contract_key h \<mapsto> code)"
    by (rule db_insert_map [OF Cons.prems])
  have u: "unchanged P {2} (db S) d" by (rule unchanged_upd [OF d(3)]) simp
  from Cons.IH [of "S\<lparr>db := d\<rparr>"] d(2) obtain d' where d': "persist_contracts P hs (S\<lparr>db := d\<rparr>) = (Inr (), S\<lparr>db := d'\<rparr>)"
      "healthy d'" "unchanged P {2} d d'"
      "code_map P d' = code_map P d ++ map_of (rev hs)"
    by auto
  moreover have "code_map P d = code_map P (db S) ++ [h \<mapsto> code]" using d(3) by (auto simp: code_map_def)
  ultimately show ?case
    using d(1) x unchanged_trans [OF u d'(3)] by (intro exI [of _ d']) (simp add: save_contract_def)
qed

end

lemma insert_updates_trie:
  "insert_updates P ups S
     = (case trie_insert_all (mpt_ops P) (map (\<lambda>u. (fst u, fst (snd u))) ups) (st_mpt S) of
          (r, t) \<Rightarrow> (r, S\<lparr>st_mpt := t\<rparr>))"
  by (induction P ups S rule: insert_updates.induct) (auto split: prod.split sum.split)

lemma log_old_root_only: "\<exists>l. snd (log_old_root P idx old S) = S\<lparr>gc_log := l\<rparr>"
proof (cases old)
  case None
  then show ?thesis by (intro exI [of _ "gc_log S"]) (simp add: log_old_root_def)
qed (auto simp: log_old_root_def split: prod.split)

context core_platform
begin

text \<open>What a commit that returns has done to the storage.\<close>

lemma commit_changeset_done:
  assumes h: "healthy (db S0)" and c: "commit_changeset P cs idx S0 = (Inr r, S)"
  shows "healthy (db S) \<and> unchanged P {1, 2, 5, 6} (db S0) (db S)
    \<and> storage_get_atom P S = after_atoms (inner cs) (storage_get_atom P S0)
    \<and> tree_map P (db S) root_key = Some r \<and> tree_map P (db S) (hist_root_key idx) = Some r
    \<and> st_root S = Some r \<and> r = root_or_zero (mpt_root (st_mpt S))
    \<and> code_map P (db S) = code_map P (db S0) ++ map_of (rev (contracts cs))"
proof -
  obtain ups where ups: "prepare_updates P (inner cs) = Inr ups" "map (\<lambda>u. snd (snd u)) ups = inner cs"
    using prepare_updates_ok by blast
  obtain r1 t where "trie_insert_all (mpt_ops P) (map (\<lambda>u. (fst u, fst (snd u))) ups) (st_mpt S0) = (r1, t)"
    by fastforce
  then have ins: "insert_updates P ups S0 = (r1, S0\<lparr>st_mpt := t\<rparr>)" by (simp add: insert_updates_trie)
  obtain r2 l where log: "log_old_root P idx (mpt_root (st_mpt S0)) (S0\<lparr>st_mpt := t\<rparr>) = (r2, S0\<lparr>st_mpt := t, gc_log := l\<rparr>)"
    using log_old_root_only by (metis prod.collapse)
  let ?S2 = "S0\<lparr>st_mpt := t, gc_log := l, st_root := Some (root_or_zero (mpt_root t))\<rparr>"
  obtain d3 where d3: "persist_atoms P ups ?S2 = (Inr (), ?S2\<lparr>db := d3\<rparr>)" "healthy d3" "unchanged P {1} (db S0) d3"
      "\<And>T. db T = d3 \<Longrightarrow> storage_get_atom P T = after_atoms (inner cs) (storage_get_atom P ?S2)"
    using persist_atoms_ok [of ?S2 ups] h ups(2) by auto
  obtain d4 where d4: "persist_contracts P (contracts cs) (?S2\<lparr>db := d3\<rparr>) = (Inr (), ?S2\<lparr>db := d4\<rparr>)" "healthy d4"
      "unchanged P {2} d3 d4" "code_map P d4 = code_map P d3 ++ map_of (rev (contracts cs))"
    using persist_contracts_ok [of "?S2\<lparr>db := d3\<rparr>" "contracts cs"] d3(2) by auto
  let ?rt = "root_or_zero (mpt_root t)"
  obtain d5 where d5: "db_insert P root_key ?rt (?S2\<lparr>db := d4\<rparr>) = (Inr (), ?S2\<lparr>db := d5\<rparr>)" "healthy d5"
      "tree_map P d5 = (tree_map P d4)(root_key \<mapsto> ?rt)"
    using db_insert_map [of "?S2\<lparr>db := d4\<rparr>" root_key ?rt] d4(2) by auto
  obtain d6 where d6: "db_insert P (hist_root_key idx) ?rt (?S2\<lparr>db := d5\<rparr>) = (Inr (), ?S2\<lparr>db := d6\<rparr>)" "healthy d6"
      "tree_map P d6 = (tree_map P d5)(hist_root_key idx \<mapsto> ?rt)"
    using db_insert_map [of "?S2\<lparr>db := d5\<rparr>" "hist_root_key idx" ?rt] d5(2) by auto
  have S: "S = ?S2\<lparr>db := d6\<rparr>" "r = ?rt"
    using c ups(1) ins log d3(1) d4(1) d5(1) d6(1)
    by (cases r1; cases r2; simp add: commit_changeset_def Let_def)+
  have u: "unchanged P {2, 5, 6} d3 d6"
    using d4(3) d5(3) d6(3) by (auto simp: unchanged_def)
  have "storage_get_atom P S = storage_get_atom P (?S2\<lparr>db := d3\<rparr>)"
    using reads_unchanged(1) [of "?S2\<lparr>db := d3\<rparr>" "?S2\<lparr>db := d6\<rparr>"] u d3(2) d6(2) S by (simp add: fun_eq_iff)
  moreover have "storage_get_atom P ?S2 = storage_get_atom P S0"
    by (simp add: fun_eq_iff storage_get_atom_def db_get_with_def db_get_def)
  moreover have "unchanged P {1, 2, 5, 6} (db S0) d6" by (rule unchanged_trans [OF d3(3) u]) auto
  moreover have "code_map P d6 = code_map P d4" "code_map P d3 = code_map P (db S0)"
    using d5(3) d6(3) unchangedD [OF d3(3)] by (auto simp: fun_eq_iff code_map_def dest: arg_cong [where f = key_kind])
  moreover have "tree_map P d6 root_key = Some ?rt" using d5(3) d6(3) by (auto dest: arg_cong [where f = key_kind])
  ultimately show ?thesis
    using S d3(4) d4(4) d6 by simp
qed

lemma log_old_root_ok:
  assumes "healthy (gc_log S)"
  shows "\<exists>l. log_old_root P idx old S = (Inr (), S\<lparr>gc_log := l\<rparr>) \<and> healthy l"
proof (cases old)
  case None
  then show ?thesis using assms by (intro exI [of _ "gc_log S"]) (simp add: log_old_root_def)
next
  case (Some r)
  then show ?thesis
    using sled_insert_law [OF assms, of "to_le_bytes 8 idx" r] by (auto simp: log_old_root_def)
qed

lemma commit_changeset_succeeds:
  assumes "healthy (db S0)" and "healthy (gc_log S0)"
    and ups: "prepare_updates P (inner cs) = Inr ups"
    and t: "trie_insert_all (mpt_ops P) (map (\<lambda>u. (fst u, fst (snd u))) ups) (st_mpt S0) = (Inr (), t)"
  shows "\<exists>S. commit_changeset P cs idx S0 = (Inr (root_or_zero (mpt_root t)), S) \<and> st_mpt S = t"
proof -
  have ins: "insert_updates P ups S0 = (Inr (), S0\<lparr>st_mpt := t\<rparr>)" using t by (simp add: insert_updates_trie)
  obtain l where log: "log_old_root P idx (mpt_root (st_mpt S0)) (S0\<lparr>st_mpt := t\<rparr>) = (Inr (), S0\<lparr>st_mpt := t, gc_log := l\<rparr>)"
    using log_old_root_ok [of "S0\<lparr>st_mpt := t\<rparr>"] assms(2) by auto
  let ?S2 = "S0\<lparr>st_mpt := t, gc_log := l, st_root := Some (root_or_zero (mpt_root t))\<rparr>"
  obtain d3 where d3: "persist_atoms P ups ?S2 = (Inr (), ?S2\<lparr>db := d3\<rparr>)" "healthy d3"
    using persist_atoms_ok [of ?S2 ups] assms(1) by auto
  obtain d4 where d4: "persist_contracts P (contracts cs) (?S2\<lparr>db := d3\<rparr>) = (Inr (), ?S2\<lparr>db := d4\<rparr>)" "healthy d4"
    using persist_contracts_ok [of "?S2\<lparr>db := d3\<rparr>" "contracts cs"] d3(2) by auto
  let ?rt = "root_or_zero (mpt_root t)"
  obtain d5 where d5: "db_insert P root_key ?rt (?S2\<lparr>db := d4\<rparr>) = (Inr (), ?S2\<lparr>db := d5\<rparr>)" "healthy d5"
    using db_insert_map [of "?S2\<lparr>db := d4\<rparr>" root_key ?rt] d4(2) by auto
  obtain d6 where "db_insert P (hist_root_key idx) ?rt (?S2\<lparr>db := d5\<rparr>) = (Inr (), ?S2\<lparr>db := d6\<rparr>)"
    using db_insert_map [of "?S2\<lparr>db := d5\<rparr>" "hist_root_key idx" ?rt] d5(2) by auto
  then show ?thesis
    using ups ins log d3(1) d4(1) d5(1) by (simp add: commit_changeset_def Let_def)
qed

section \<open>Pruning and rolling back\<close>

lemma prune_one_map:
  assumes "healthy (db S)"
  shows "healthy (db (prune_one P idx S)) \<and> tree_map P (db (prune_one P idx S)) = (tree_map P (db S))(undo_key idx := None)
    \<and> st_root (prune_one P idx S) = st_root S"
proof -
  obtain d where d: "db_remove P (undo_key idx) S = (Inr (), S\<lparr>db := d\<rparr>)" "healthy d"
      "tree_map P d = (tree_map P (db S))(undo_key idx := None)"
    by (rule db_remove_map [OF assms])
  then show ?thesis by (auto simp: prune_one_def Let_def split: sum.split option.split)
qed

lemma prune_upto_map:
  assumes "healthy (db S)"
  shows "healthy (db (foldl (\<lambda>S i. prune_one P (of_nat i) S) S is))
    \<and> tree_map P (db (foldl (\<lambda>S i. prune_one P (of_nat i) S) S is)) k
        = (if \<exists>i \<in> set is. k = undo_key (of_nat i) then None else tree_map P (db S) k)
    \<and> st_root (foldl (\<lambda>S i. prune_one P (of_nat i) S) S is) = st_root S"
  using assms
proof (induction "is" arbitrary: S)
  case (Cons i "is")
  then show ?case using prune_one_map [OF Cons.prems, of "of_nat i"] by auto
qed simp

lemma prune_undo_window_ok:
  fixes h :: u64
  assumes "healthy (db S)"
  shows "healthy (db (prune_undo_window P h S))" and "unchanged P {4} (db S) (db (prune_undo_window P h S))"
    and "get_undo_log P (prune_undo_window P h S) j
       = (if UNDO_WINDOW < h \<and> j < h - UNDO_WINDOW then Inr None else get_undo_log P S j)"
    and "st_root (prune_undo_window P h S) = st_root S"
proof -
  have "(\<exists>i \<in> set [0 ..< unat (h - UNDO_WINDOW)]. j = of_nat i) \<longleftrightarrow> j < h - UNDO_WINDOW" for j :: u64
    by (auto simp: word_less_nat_alt Bex_def unat_of_nat intro!: exI [of _ "unat j"]
        elim: order.strict_trans1 [OF mod_less_eq_dividend])
  then have "(\<exists>i \<in> set [0 ..< unat (h - UNDO_WINDOW)]. k = undo_key (of_nat i)) \<longleftrightarrow> (\<exists>j < h - UNDO_WINDOW. k = undo_key j)" for k
    by metis
  then have "tree_map P (db (foldl (\<lambda>S i. prune_one P (of_nat i) S) S [0 ..< unat (h - UNDO_WINDOW)])) k
      = (if \<exists>j < h - UNDO_WINDOW. k = undo_key j then None else tree_map P (db S) k)" for k
    using prune_upto_map [OF assms, of "[0 ..< unat (h - UNDO_WINDOW)]" k] by simp
  then have *: "tree_map P (db (prune_undo_window P h S)) k
      = (if UNDO_WINDOW < h \<and> (\<exists>j < h - UNDO_WINDOW. k = undo_key j) then None else tree_map P (db S) k)" for k
    by (cases "UNDO_WINDOW < h") (simp_all add: prune_undo_window_def leD, blast)
  show 1: "healthy (db (prune_undo_window P h S))" and "st_root (prune_undo_window P h S) = st_root S"
    using assms prune_upto_map [OF assms] by (simp_all add: prune_undo_window_def)
  show "unchanged P {4} (db S) (db (prune_undo_window P h S))"
    by (auto simp: unchanged_def *)
  show "get_undo_log P (prune_undo_window P h S) j
       = (if UNDO_WINDOW < h \<and> j < h - UNDO_WINDOW then Inr None else get_undo_log P S j)"
    using 1 assms by (simp add: get_undo_log_def db_get_with_map *)
qed

lemma storage_flush_ok:
  assumes "healthy (db S)"
  shows "\<exists>d. storage_flush P None S = (Inr (), S\<lparr>db := d\<rparr>) \<and> healthy d \<and> tree_map P d = tree_map P (db S)"
  using flush_law [OF assms] by (auto simp: storage_flush_def)

end

end
