(* ===== verification/Memory_Platform.thy ===== *)
theory Memory_Platform
  imports Storage_Correct
begin

text \<open>
  A platform in memory: the trees are association lists and the codecs write self-delimiting byte
  strings. It keeps the contract \<open>core_platform\<close> for every record, and it computes, so that the
  concrete examples of the processor run on it.
\<close>

named_theorems codec_simps \<open>reading back what was written\<close>

section \<open>Self-delimiting byte strings\<close>

function put_num :: "int \<Rightarrow> bytes" where
  "put_num i = (if i < 128 then [word_of_int i] else word_of_int (128 + i mod 128) # put_num (i div 128))"
  by pat_completeness auto
termination by (relation "measure nat") auto

declare put_num.simps [simp del]

fun get_num :: "bytes \<Rightarrow> int \<times> bytes" where
  "get_num [] = (0, [])"
| "get_num (b # bs) =
     (if uint b < 128 then (uint b, bs) else (case get_num bs of (q, r) \<Rightarrow> (uint b - 128 + 128 * q, r)))"

lemma uint_byte: "0 \<le> i \<Longrightarrow> i < 256 \<Longrightarrow> uint (word_of_int i :: u8) = i"
  by (simp add: uint_word_of_int)

lemma get_put_num [codec_simps]: "0 \<le> i \<Longrightarrow> get_num (put_num i @ r) = (i, r)"
proof (induction i rule: put_num.induct)
  case (1 i)
  show ?case
  proof (cases "i < 128")
    case True
    then show ?thesis using 1(2) uint_byte [of i] by (simp add: put_num.simps [of i])
  next
    case False
    then have "get_num (put_num (i div 128) @ r) = (i div 128, r)" using 1 by simp
    moreover have "uint (word_of_int (128 + i mod 128) :: u8) = 128 + i mod 128" by (rule uint_byte) simp_all
    moreover have "\<not> 128 + i mod 128 < 128" by simp
    ultimately show ?thesis
      using False by (simp add: put_num.simps [of i] del: of_int_add add_less_same_cancel1)
  qed
qed

definition put_word :: "'a::len word \<Rightarrow> bytes" where "put_word w = put_num (uint w)"
definition get_word :: "bytes \<Rightarrow> 'a::len word \<times> bytes" where
  "get_word bs = (case get_num bs of (n, r) \<Rightarrow> (word_of_int n, r))"

lemma get_put_word [codec_simps]: "get_word (put_word w @ r) = (w, r)"
  by (simp add: put_word_def get_word_def codec_simps)

definition put_int :: "int \<Rightarrow> bytes" where
  "put_int i = put_num (if 0 \<le> i then 2 * i else - 2 * i - 1)"
definition get_int :: "bytes \<Rightarrow> int \<times> bytes" where
  "get_int bs = (case get_num bs of (n, r) \<Rightarrow> (if n mod 2 = 0 then n div 2 else - ((n + 1) div 2), r))"

lemma get_put_int [codec_simps]: "get_int (put_int i @ r) = (i, r)"
proof (cases "0 \<le> i")
  case False
  then have "(- 2 * i - 1) mod 2 \<noteq> 0" "(- 2 * i - 1 + 1) div 2 = - i" by presburger+
  with False show ?thesis by (simp add: put_int_def get_int_def codec_simps)
qed (simp add: put_int_def get_int_def codec_simps)

definition put_list :: "('a \<Rightarrow> bytes) \<Rightarrow> 'a list \<Rightarrow> bytes" where
  "put_list p xs = put_num (int (length xs)) @ concat (map p xs)"

fun get_many :: "(bytes \<Rightarrow> 'a \<times> bytes) \<Rightarrow> nat \<Rightarrow> bytes \<Rightarrow> 'a list \<times> bytes" where
  "get_many g 0 bs = ([], bs)"
| "get_many g (Suc n) bs = (case g bs of (x, r) \<Rightarrow> (case get_many g n r of (xs, r') \<Rightarrow> (x # xs, r')))"

definition get_list :: "(bytes \<Rightarrow> 'a \<times> bytes) \<Rightarrow> bytes \<Rightarrow> 'a list \<times> bytes" where
  "get_list g bs = (case get_num bs of (n, r) \<Rightarrow> get_many g (nat n) r)"

lemma get_put_list [codec_simps]:
  assumes "\<And>x r. g (p x @ r) = (x, r)"
  shows "get_list g (put_list p xs @ r) = (xs, r)"
proof -
  have "get_many g (length xs) (concat (map p xs) @ r) = (xs, r)"
    by (induction xs) (simp_all add: assms)
  then show ?thesis by (simp add: put_list_def get_list_def codec_simps)
qed

abbreviation put_bytes :: "bytes \<Rightarrow> bytes" where "put_bytes \<equiv> put_list put_word"
abbreviation get_bytes :: "bytes \<Rightarrow> bytes \<times> bytes" where "get_bytes \<equiv> get_list get_word"

lemma get_put_bytes [codec_simps]: "get_bytes (put_bytes bs @ r) = (bs, r)"
  by (simp add: codec_simps)

section \<open>Records\<close>

definition put_float :: "rfloat \<Rightarrow> bytes" where
  "put_float x = (case x of
     NaN \<Rightarrow> [0] | Inf s \<Rightarrow> [if s then 1 else 2] | Fin s m e \<Rightarrow> (if s then 3 else 4) # put_int m @ put_int e)"

definition get_float :: "bytes \<Rightarrow> rfloat \<times> bytes" where
  "get_float bs = (case bs of [] \<Rightarrow> (NaN, []) | t # r \<Rightarrow>
     if t = 0 then (NaN, r) else if t = 1 then (Inf True, r) else if t = 2 then (Inf False, r)
     else (case get_int r of (m, r1) \<Rightarrow> (case get_int r1 of (e, r2) \<Rightarrow> (Fin (t = 3) m e, r2))))"

lemma get_put_float [codec_simps]: "get_float (put_float x @ r) = (x, r)"
  by (cases x) (simp_all add: put_float_def get_float_def codec_simps)

definition put_element :: "Element \<Rightarrow> bytes" where
  "put_element el = [case el of Hydrogen \<Rightarrow> 0 | Carbon \<Rightarrow> 1 | Oxygen \<Rightarrow> 2 | Gold \<Rightarrow> 3]"

definition get_element :: "bytes \<Rightarrow> Element \<times> bytes" where
  "get_element bs = (case bs of [] \<Rightarrow> (Gold, []) | t # r \<Rightarrow>
     (if t = 0 then Hydrogen else if t = 1 then Carbon else if t = 2 then Oxygen else Gold, r))"

lemma get_put_element [codec_simps]: "get_element (put_element el @ r) = (el, r)"
  by (cases el) (simp_all add: put_element_def get_element_def)

definition put_quantum :: "QuantumState \<Rightarrow> bytes" where
  "put_quantum q = (case q of Stable \<Rightarrow> [0] | Entangled h \<Rightarrow> 1 # put_bytes h | Superposition n \<Rightarrow> 2 # put_word n)"

definition get_quantum :: "bytes \<Rightarrow> QuantumState \<times> bytes" where
  "get_quantum bs = (case bs of [] \<Rightarrow> (Stable, []) | t # r \<Rightarrow>
     if t = 0 then (Stable, r)
     else if t = 1 then (case get_bytes r of (h, r1) \<Rightarrow> (Entangled h, r1))
     else (case get_word r of (n, r1) \<Rightarrow> (Superposition n, r1)))"

lemma get_put_quantum [codec_simps]: "get_quantum (put_quantum q @ r) = (q, r)"
  by (cases q) (simp_all add: put_quantum_def get_quantum_def codec_simps)

definition put_atom :: "Atom \<Rightarrow> bytes" where
  "put_atom a = put_bytes (public_key a) @ put_element (element a) @ put_word (neutron_count a) @ put_word (mass a)
     @ put_float (charge a) @ put_bytes (last_reaction_hash a) @ put_word (last_active_index a) @ put_word (nonce a)
     @ put_quantum (quantum_state a)"

definition get_atom_rec :: "bytes \<Rightarrow> Atom \<times> bytes" where
  "get_atom_rec r0 =
     (case get_bytes r0 of (pk, r1) \<Rightarrow> case get_element r1 of (el, r2) \<Rightarrow> case get_word r2 of (nc, r3) \<Rightarrow>
      case get_word r3 of (ms, r4) \<Rightarrow> case get_float r4 of (ch, r5) \<Rightarrow> case get_bytes r5 of (lh, r6) \<Rightarrow>
      case get_word r6 of (la, r7) \<Rightarrow> case get_word r7 of (nn, r8) \<Rightarrow> case get_quantum r8 of (q, r9) \<Rightarrow>
        (\<lparr>public_key = pk, element = el, neutron_count = nc, mass = ms, charge = ch, last_reaction_hash = lh,
          last_active_index = la, nonce = nn, quantum_state = q\<rparr>, r9))"

lemma get_put_atom [codec_simps]: "get_atom_rec (put_atom a @ r) = (a, r)"
  by (simp add: put_atom_def get_atom_rec_def codec_simps)

definition put_payload :: "Payload \<Rightarrow> bytes" where
  "put_payload p = (case p of
     Generic \<Rightarrow> [0] | Transfer n \<Rightarrow> 1 # put_word n | MiningReward n \<Rightarrow> 2 # put_word n
   | Contract c \<Rightarrow> 3 # put_bytes c | ContractCall a d \<Rightarrow> 4 # put_bytes a @ put_bytes d | Unknown \<Rightarrow> [5])"

definition get_payload :: "bytes \<Rightarrow> Payload \<times> bytes" where
  "get_payload bs = (case bs of [] \<Rightarrow> (Unknown, []) | t # r \<Rightarrow>
     if t = 0 then (Generic, r)
     else if t = 1 then (case get_word r of (n, r1) \<Rightarrow> (Transfer n, r1))
     else if t = 2 then (case get_word r of (n, r1) \<Rightarrow> (MiningReward n, r1))
     else if t = 3 then (case get_bytes r of (c, r1) \<Rightarrow> (Contract c, r1))
     else if t = 4 then (case get_bytes r of (a, r1) \<Rightarrow> case get_bytes r1 of (d, r2) \<Rightarrow> (ContractCall a d, r2))
     else (Unknown, r))"

lemma get_put_payload [codec_simps]: "get_payload (put_payload p @ r) = (p, r)"
  by (cases p) (simp_all add: put_payload_def get_payload_def codec_simps)

definition put_reaction :: "SignedReaction \<Rightarrow> bytes" where
  "put_reaction x = put_atom (sender x) @ put_atom (receiver x) @ put_bytes (reaction_hash x) @ put_float (energy x)
     @ put_word (timestamp x) @ put_bytes (signature x) @ put_payload (payload x)"

definition get_reaction :: "bytes \<Rightarrow> SignedReaction \<times> bytes" where
  "get_reaction r0 =
     (case get_atom_rec r0 of (s, r1) \<Rightarrow> case get_atom_rec r1 of (t, r2) \<Rightarrow> case get_bytes r2 of (h, r3) \<Rightarrow>
      case get_float r3 of (e, r4) \<Rightarrow> case get_word r4 of (ts, r5) \<Rightarrow> case get_bytes r5 of (sg, r6) \<Rightarrow>
      case get_payload r6 of (p, r7) \<Rightarrow>
        (\<lparr>sender = s, receiver = t, reaction_hash = h, energy = e, timestamp = ts, signature = sg, payload = p\<rparr>, r7))"

lemma get_put_reaction [codec_simps]: "get_reaction (put_reaction x @ r) = (x, r)"
  by (simp add: put_reaction_def get_reaction_def codec_simps)

definition put_crystal :: "Crystal \<Rightarrow> bytes" where
  "put_crystal c = put_word (cr_index c) @ put_bytes (prev_hash c) @ put_word (cr_timestamp c) @ put_word (cr_nonce c)
     @ put_list put_bytes (reactions c) @ put_list put_reaction (reactions_data c) @ put_float (cumulative_energy c)
     @ put_bytes (state_root c) @ put_float (final_temp c) @ put_float (final_entropy c)"

definition get_crystal_rec :: "bytes \<Rightarrow> Crystal \<times> bytes" where
  "get_crystal_rec r0 =
     (case get_word r0 of (i, r1) \<Rightarrow> case get_bytes r1 of (ph, r2) \<Rightarrow> case get_word r2 of (ts, r3) \<Rightarrow>
      case get_word r3 of (nn, r4) \<Rightarrow> case get_list get_bytes r4 of (rs, r5) \<Rightarrow>
      case get_list get_reaction r5 of (rd, r6) \<Rightarrow> case get_float r6 of (ce, r7) \<Rightarrow> case get_bytes r7 of (sr, r8) \<Rightarrow>
      case get_float r8 of (ft, r9) \<Rightarrow> case get_float r9 of (fe, r10) \<Rightarrow>
        (\<lparr>cr_index = i, prev_hash = ph, cr_timestamp = ts, cr_nonce = nn, reactions = rs, reactions_data = rd,
          cumulative_energy = ce, state_root = sr, final_temp = ft, final_entropy = fe\<rparr>, r10))"

lemma get_put_crystal [codec_simps]: "get_crystal_rec (put_crystal c @ r) = (c, r)"
  by (simp add: put_crystal_def get_crystal_rec_def codec_simps)

definition put_image :: "bytes \<times> Atom option \<Rightarrow> bytes" where
  "put_image x = put_bytes (fst x) @ put_list put_atom (case snd x of None \<Rightarrow> [] | Some a \<Rightarrow> [a])"

definition get_image :: "bytes \<Rightarrow> (bytes \<times> Atom option) \<times> bytes" where
  "get_image r0 = (case get_bytes r0 of (pk, r1) \<Rightarrow> case get_list get_atom_rec r1 of (xs, r2) \<Rightarrow>
     ((pk, (case xs of [] \<Rightarrow> None | a # _ \<Rightarrow> Some a)), r2))"

lemma get_put_image [codec_simps]: "get_image (put_image x @ r) = (x, r)"
  by (cases x) (simp add: put_image_def get_image_def codec_simps split: option.split)

definition put_undo :: "UndoLog \<Rightarrow> bytes" where
  "put_undo u = put_word (ul_crystal_index u) @ put_bytes (pre_state_root u) @ put_list put_image (pre_images u)"

definition get_undo :: "bytes \<Rightarrow> UndoLog \<times> bytes" where
  "get_undo r0 = (case get_word r0 of (i, r1) \<Rightarrow> case get_bytes r1 of (rt, r2) \<Rightarrow> case get_list get_image r2 of (im, r3) \<Rightarrow>
     (\<lparr>ul_crystal_index = i, pre_state_root = rt, pre_images = im\<rparr>, r3))"

lemma get_put_undo [codec_simps]: "get_undo (put_undo u @ r) = (u, r)"
  by (simp add: put_undo_def get_undo_def codec_simps)

definition put_metrics :: "GlobalMetrics \<Rightarrow> bytes" where
  "put_metrics m = put_float (gm_temperature m) @ put_float (gm_entropy m)"

definition get_metrics :: "bytes \<Rightarrow> GlobalMetrics \<times> bytes" where
  "get_metrics r0 = (case get_float r0 of (t, r1) \<Rightarrow> case get_float r1 of (e, r2) \<Rightarrow>
     (\<lparr>gm_temperature = t, gm_entropy = e\<rparr>, r2))"

lemma get_put_metrics [codec_simps]: "get_metrics (put_metrics m @ r) = (m, r)"
  by (simp add: put_metrics_def get_metrics_def codec_simps)

section \<open>The platform\<close>

definition write_mem :: "(bytes \<times> bytes) list \<Rightarrow> bytes \<times> bytes option \<Rightarrow> (bytes \<times> bytes) list" where
  "write_mem t w = (case snd w of Some v \<Rightarrow> (fst w, v) # t | None \<Rightarrow> filter (\<lambda>e. fst e \<noteq> fst w) t)"

text \<open>The hash of the nodes and crystals is an argument.\<close>

definition mem_platform_with :: "(bytes \<Rightarrow> hash32) \<Rightarrow> (bytes \<times> bytes) list platform" where
  "mem_platform_with h =
     \<lparr>pf_sled = mem_sled, scan_prefix = (\<lambda>t p. map Inr (filter (\<lambda>e. take (length p) (fst e) = p) t)),
      transact = (\<lambda>ws t. (Inr (), foldl write_mem t ws)), db_flush = (\<lambda>t. (Inr (), t)),
      pf_nodes = demo_codec\<lparr>blake3 := h\<rparr>, sha3_256 = demo_hash, mldsa_verify = (\<lambda>pk d sg. sg = pk @ d), ln_1p = (\<lambda>x. x),
      ser_atom = (\<lambda>a. Inr (put_atom a)), de_atom = (\<lambda>b. Inr (fst (get_atom_rec b))),
      ser_crystal = (\<lambda>c. Inr (put_crystal c)), de_crystal = (\<lambda>b. Inr (fst (get_crystal_rec b))),
      ser_undo = (\<lambda>u. Inr (put_undo u)), de_undo = (\<lambda>b. Inr (fst (get_undo b))),
      ser_metrics = (\<lambda>m. Inr (put_metrics m)), de_metrics = (\<lambda>b. Inr (fst (get_metrics b)))\<rparr>"

abbreviation mem_platform :: "(bytes \<times> bytes) list platform" where
  "mem_platform \<equiv> mem_platform_with demo_hash"

lemma pf_nodes_mem [simp]: "pf_nodes mem_platform = demo_codec"
  by (simp add: mem_platform_with_def demo_codec_def)

lemma tree_map_mem: "tree_map (mem_platform_with h) t = map_of t"
  by (simp add: fun_eq_iff tree_map_def mem_platform_with_def mem_sled_def)

lemma map_of_write_mem: "map_of (write_mem t w) = (map_of t)(fst w := snd w)"
  by (auto simp: write_mem_def fun_eq_iff map_of_filter_key split: option.split)

lemma map_of_write_all: "map_of (foldl write_mem t ws) = write_all ws (map_of t)"
  by (induction ws arbitrary: t) (auto simp: map_of_write_mem)

interpretation mp: core_platform "mem_platform_with h" "\<lambda>_. True" for h
proof -
  have "sled_contract (pf_nodes (mem_platform_with h)) (pf_sled (mem_platform_with h)) (\<lambda>_. True)"
    by unfold_locales (auto simp: mem_platform_with_def mem_sled_def demo_codec_def demo_codec_law map_of_filter_key)
  moreover have "core_platform_axioms (mem_platform_with h) (\<lambda>_. True)"
  proof
    fix d ws a c u g x
    show "\<exists>d'. transact (mem_platform_with h) ws d = (Inr (), d') \<and> True \<and> tree_map (mem_platform_with h) d' = write_all ws (tree_map (mem_platform_with h) d)"
      unfolding tree_map_mem by (simp add: mem_platform_with_def map_of_write_all)
    show "\<exists>d'. db_flush (mem_platform_with h) d = (Inr (), d') \<and> True \<and> tree_map (mem_platform_with h) d' = tree_map (mem_platform_with h) d"
      by (simp add: mem_platform_with_def)
    show "\<exists>b. ser_atom (mem_platform_with h) a = Inr b \<and> de_atom (mem_platform_with h) b = Inr a"
      using get_put_atom [of a "[]"] by (simp add: mem_platform_with_def)
    show "\<exists>b. ser_crystal (mem_platform_with h) c = Inr b \<and> de_crystal (mem_platform_with h) b = Inr c"
      using get_put_crystal [of c "[]"] by (simp add: mem_platform_with_def)
    show "\<exists>b. ser_undo (mem_platform_with h) u = Inr b \<and> de_undo (mem_platform_with h) b = Inr u"
      using get_put_undo [of u "[]"] by (simp add: mem_platform_with_def)
    show "\<exists>b. ser_metrics (mem_platform_with h) g = Inr b \<and> de_metrics (mem_platform_with h) b = Inr g"
      using get_put_metrics [of g "[]"] by (simp add: mem_platform_with_def)
    show "length (sha3_256 (mem_platform_with h) x) = 32" by (simp add: mem_platform_with_def demo_hash_def Let_def)
  qed
  ultimately show "core_platform (mem_platform_with h) (\<lambda>_. True)" by (simp add: core_platform_def)
qed

end
