(* ===== verification/Processor_Correct.thy ===== *)
theory Processor_Correct
  imports Primus_Processor Memory_Platform
begin

text \<open>
  Correctness of the block processor over any platform that keeps its contract: solidification
  keeps memory and disk in agreement and leaves the undo log of the block, and rolling back a
  sequence of solidified blocks restores the state before it, in memory and on disk.
\<close>

lemma map_of_rev_distinct: "distinct (map fst xs) \<Longrightarrow> map_of (rev xs) = map_of xs"
  by (rule map_of_eqI) (auto simp: rev_map [symmetric] dest: map_of_SomeD intro!: map_of_is_SomeI)

section \<open>Agreement of memory and disk\<close>

definition coherent :: "'t platform \<Rightarrow> 't PrimusEngine \<Rightarrow> bool" where
  "coherent P E = (\<forall>pk. storage_get_atom P (storage E) pk = Inr (state_get_atom (state E) pk))"

lemma on_storage_Inr [simp]:
  "on_storage msg f E = (Inr x, E') \<longleftrightarrow> (\<exists>S. f (storage E) = (Inr x, S) \<and> E' = E\<lparr>storage := S\<rparr>)"
  by (auto simp: on_storage_def context_msg_def split: prod.splits sum.splits)

lemma en_then_Inr:
  "en_then r f = (Inr y, E') \<longleftrightarrow> (\<exists>x E1. r = (Inr x, E1) \<and> f x E1 = (Inr y, E'))"
  by (cases r; cases "fst r") auto

lemma record_all_atoms: "atoms s = atoms s' \<Longrightarrow> record_all s = record_all s'"
  by (simp add: fun_eq_iff record_all_def state_get_atom_def)

lemma ul_crystal_index_record_all [simp]: "ul_crystal_index (record_all s ks u) = ul_crystal_index u"
  by (simp add: record_all_def, induction ks arbitrary: u) (auto simp: undo_record_def)

section \<open>The changeset of a batch is an ordered map\<close>

lemma changeset_ok_contract [simp]: "changeset_ok (insert_contract h code cs) = changeset_ok cs"
  by (simp add: changeset_ok_def insert_contract_def)

lemma payload_dispatch_ok:
  assumes "payload_dispatch sha3 ctx rx tax src cs = Inr cs'" and "\<not> is_MiningReward (payload rx)"
    and "changeset_ok cs"
  shows "changeset_ok cs'"
  using assms(1,2)
proof (cases rule: payload_dispatch_cases)
  case (1 amount)
  from 1(2) show ?thesis by (cases rule: exec_transfer_cases) (simp add: assms(3))
next
  case 2
  from 2(2) show ?thesis
  proof (cases rule: exec_generic_cases)
    case (1 cs1 r cs2)
    from 1(1) have "changeset_ok cs1" by (cases rule: generic_debit_cases) (simp_all add: assms(3))
    then show ?thesis using 1(3,4) by auto
  qed
next
  case (3 code)
  from 3(2) show ?thesis by (cases rule: exec_contract_cases) (simp add: assms(3))
qed

lemma execute_single_ok:
  assumes "execute_single sha3 ctx rx st ats d rxs = Inr st'" and "changeset_ok (changeset st)"
  shows "changeset_ok (changeset st')"
  using assms(1)
proof (cases rule: execute_single_cases)
  case (reward amount)
  from reward(2) show ?thesis by (cases rule: exec_mining_reward_cases) (simp add: assms(2))
next
  case (native tax)
  show ?thesis by (rule payload_dispatch_ok [OF native(6,1) assms(2)])
qed

lemma execute_all_ok:
  "execute_all sha3 ctx ats d rxs todo st = Inr st' \<Longrightarrow> changeset_ok (changeset st) \<Longrightarrow> changeset_ok (changeset st')"
proof (induction todo arbitrary: st)
  case (Cons r todo)
  then show ?case using execute_single_ok by (auto simp: result_simps)
qed simp

lemma exec_start_ok: "changeset_ok (changeset exec_start)"
  by (simp add: exec_start_def changeset_new_def changeset_ok_def)

lemma engine_execute_ok: "engine_execute P E rxs = Inr (cs, ent) \<Longrightarrow> changeset_ok cs"
  unfolding engine_execute_def core_execute_payload_def
  by (metis execute_payload_all execute_all_ok exec_start_ok)

section \<open>Solidification\<close>

context core_platform
begin

lemma seal_crystal_done:
  assumes h: "healthy (db (storage E))" and s: "seal_crystal P c cs consumed rt E = (Inr (), E')"
  shows "healthy (db (storage E'))"
    and "storage_get_atom P (storage E') = storage_get_atom P (storage E)"
    and "atoms (state E') = atoms (apply_changeset cs (state E))"
    and "current_crystal_index (state E') = current_crystal_index (state E)"
    and "get_crystal P (storage E') i = (if i = cr_index c then Inr (Some c) else get_crystal P (storage E) i)"
    and "tree_map P (db (storage E')) latest_key = Some (to_le_bytes 8 (cr_index c))"
    and "get_undo_log P (storage E') j
       = (if UNDO_WINDOW < current_crystal_index (state E) \<and> j < current_crystal_index (state E) - UNDO_WINDOW then Inr None
          else if j = cr_index c then Inr (Some (record_all (state E) (map fst (inner cs)) (undo_new (cr_index c) rt)))
          else get_undo_log P (storage E) j)"
    and "st_root (storage E') = st_root (storage E)"
proof -
  let ?S = "storage E" and ?u = "record_all (state E) (map fst (inner cs)) (undo_new (cr_index c) rt)"
  let ?m = "\<lparr>gm_temperature = ch_temperature (chamber E), gm_entropy = fadd binary32 (ch_entropy (chamber E)) consumed\<rparr>"
  let ?h = "current_crystal_index (state E)"
  obtain d1 where d1: "save_undo_log P ?u ?S = (Inr (), ?S\<lparr>db := d1\<rparr>)" "healthy d1" "unchanged P {4} (db ?S) d1"
      "\<And>T i. db T = d1 \<Longrightarrow> get_undo_log P T i = (if i = cr_index c then Inr (Some ?u) else get_undo_log P ?S i)"
    using save_undo_log_ok [OF h, of ?u] by (auto simp: undo_new_def)
  obtain d2 where d2: "save_global_metrics P ?m (?S\<lparr>db := d1\<rparr>) = (Inr (), ?S\<lparr>db := d2\<rparr>)" "healthy d2" "unchanged P {8} d1 d2"
    using save_global_metrics_ok [of "?S\<lparr>db := d1\<rparr>" ?m] d1(2) by auto
  obtain d3 where d3: "save_crystal P c (?S\<lparr>db := d2\<rparr>) = (Inr (), ?S\<lparr>db := d3\<rparr>)" "healthy d3" "unchanged P {3, 7} d2 d3"
      "\<And>T i. db T = d3 \<Longrightarrow> get_crystal P T i = (if i = cr_index c then Inr (Some c) else get_crystal P (?S\<lparr>db := d2\<rparr>) i)"
      "tree_map P d3 latest_key = Some (to_le_bytes 8 (cr_index c))"
    using save_crystal_ok [of "?S\<lparr>db := d2\<rparr>" c] d2(2) by auto
  let ?S3 = "?S\<lparr>db := d3\<rparr>"
  have E': "storage E' = prune_undo_window P ?h ?S3" "atoms (state E') = atoms (apply_changeset cs (state E))"
      "current_crystal_index (state E') = ?h"
    using s d1(1) d2(1) d3(1)
    by (auto simp: seal_crystal_def en_then_Inr Let_def on_storage_def context_msg_def apply_changeset_def)
  then show "atoms (state E') = atoms (apply_changeset cs (state E))" "current_crystal_index (state E') = ?h" by simp_all
  note pr = prune_undo_window_ok [of ?S3 ?h, simplified, OF d3(2), folded E'(1)]
  show hE': "healthy (db (storage E'))" and "st_root (storage E') = st_root (storage E)" using pr(1,4) by simp_all
  have "unchanged P {4, 8} (db ?S) d2" by (rule unchanged_trans [OF d1(3) d2(3)]) auto
  then have u: "unchanged P {3, 4, 7, 8} (db ?S) d3" by (rule unchanged_trans [OF _ d3(3)]) auto
  then have "unchanged P {3, 4, 7, 8} (db ?S) (db (storage E'))" by (rule unchanged_trans [OF _ pr(2)]) auto
  then show "storage_get_atom P (storage E') = storage_get_atom P (storage E)"
    using reads_unchanged(1) [OF h hE'] by (simp add: fun_eq_iff)
  show "get_crystal P (storage E') i = (if i = cr_index c then Inr (Some c) else get_crystal P (storage E) i)"
    using reads_unchanged(3) [of ?S3 "storage E'"] reads_unchanged(3) [of ?S "?S\<lparr>db := d2\<rparr>"] pr(2) hE' h d2(2) d3(2,4)
      \<open>unchanged P {4, 8} (db ?S) d2\<close> by simp
  show "tree_map P (db (storage E')) latest_key = Some (to_le_bytes 8 (cr_index c))"
    using unchangedD [OF pr(2)] d3(5) by simp
  have "unchanged P {3, 7, 8} d1 d3" by (rule unchanged_trans [OF d2(3) d3(3)]) auto
  then show "get_undo_log P (storage E') j
       = (if UNDO_WINDOW < ?h \<and> j < ?h - UNDO_WINDOW then Inr None
          else if j = cr_index c then Inr (Some ?u) else get_undo_log P ?S j)"
    using pr(3) [of j] reads_unchanged(4) [of "?S\<lparr>db := d1\<rparr>" ?S3] d1(2,4) d3(2) by simp
qed

lemma save_crystal_ex:
  assumes "healthy (db S)"
  shows "\<exists>d. save_crystal P c S = (Inr (), S\<lparr>db := d\<rparr>) \<and> healthy d \<and> unchanged P {3, 7} (db S) d
    \<and> (\<forall>T. db T = d \<longrightarrow> get_crystal P T (cr_index c) = Inr (Some c))
    \<and> tree_map P d latest_key = Some (to_le_bytes 8 (cr_index c))"
  using assms by (rule save_crystal_ok) auto

lemma seal_crystal_succeeds:
  assumes h: "healthy (db (storage E))"
  shows "\<exists>E'. seal_crystal P c cs consumed rt E = (Inr (), E')"
proof -
  let ?S = "storage E" and ?u = "record_all (state E) (map fst (inner cs)) (undo_new (cr_index c) rt)"
  let ?m = "\<lparr>gm_temperature = ch_temperature (chamber E), gm_entropy = fadd binary32 (ch_entropy (chamber E)) consumed\<rparr>"
  obtain d1 where d1: "save_undo_log P ?u ?S = (Inr (), ?S\<lparr>db := d1\<rparr>)" "healthy d1"
    by (rule save_undo_log_ok [OF h])
  obtain d2 where d2: "save_global_metrics P ?m (?S\<lparr>db := d1\<rparr>) = (Inr (), ?S\<lparr>db := d2\<rparr>)" "healthy d2"
    using save_global_metrics_ok [of "?S\<lparr>db := d1\<rparr>" ?m] d1(2) by auto
  obtain d3 where "save_crystal P c (?S\<lparr>db := d2\<rparr>) = (Inr (), ?S\<lparr>db := d3\<rparr>)"
    using save_crystal_ex [of "?S\<lparr>db := d2\<rparr>" c] d2(2) by auto
  then show ?thesis
    using d1(1) d2(1) by (simp add: seal_crystal_def Let_def on_storage_def context_msg_def)
qed

text \<open>The three ways a crystal that executes and commits can go.\<close>

lemma finalize_after_commit:
  assumes "engine_execute P (set_index (cr_index c) E) (reactions_data c) = Inr (cs, ent)"
    and "commit_changeset P cs (cr_index c) (storage E) = (Inr r, S)"
  shows "finalize_solidification P c E =
      (if state_root c \<noteq> zero_hash \<and> state_root c \<noteq> r
       then (Inl ''State Root Mismatch'', E\<lparr>storage := S\<rparr>)
       else en_then (seal_crystal P (c\<lparr>state_root := r\<rparr>) cs ent (current_root (storage E))
                       (set_index (cr_index c) E\<lparr>storage := S\<rparr>)) (\<lambda>_ E3. (Inr (c\<lparr>state_root := r\<rparr>), E3)))"
  using assms
  by (auto simp: finalize_solidification_def Let_def on_storage_def context_msg_def split: prod.split sum.split)

lemma finalize_succeeds:
  assumes "healthy (db (storage E))" and "healthy (gc_log (storage E))"
    and ex: "engine_execute P (set_index (cr_index c) E) (reactions_data c) = Inr (cs, ent)"
    and "prepare_updates P (inner cs) = Inr ups"
    and "trie_insert_all (mpt_ops P) (map (\<lambda>u. (fst u, fst (snd u))) ups) (st_mpt (storage E)) = (Inr (), t)"
    and "state_root c = zero_hash \<or> state_root c = root_or_zero (mpt_root t)"
  shows "\<exists>E'. finalize_solidification P c E = (Inr (c\<lparr>state_root := root_or_zero (mpt_root t)\<rparr>), E')"
proof -
  let ?r = "root_or_zero (mpt_root t)"
  obtain S where S: "commit_changeset P cs (cr_index c) (storage E) = (Inr ?r, S)"
    using commit_changeset_succeeds [OF assms(1,2,4,5)] by blast
  then have "healthy (db S)" using commit_changeset_done [OF assms(1)] by blast
  then obtain E' where "seal_crystal P (c\<lparr>state_root := ?r\<rparr>) cs ent (current_root (storage E))
      (set_index (cr_index c) E\<lparr>storage := S\<rparr>) = (Inr (), E')"
    using seal_crystal_succeeds [of "set_index (cr_index c) E\<lparr>storage := S\<rparr>" "c\<lparr>state_root := ?r\<rparr>" cs ent] by fastforce
  then show ?thesis using finalize_after_commit [OF ex S] assms(6) by auto
qed

lemma finalize_done:
  assumes h: "healthy (db (storage E))" and f: "finalize_solidification P c E = (Inr c', E')"
  obtains cs ent r where "engine_execute P (set_index (cr_index c) E) (reactions_data c) = Inr (cs, ent)" "changeset_ok cs"
    "c' = c\<lparr>state_root := r\<rparr>" "state_root c = zero_hash \<or> state_root c = r"
    "healthy (db (storage E'))" "current_root (storage E') = r"
    "storage_get_atom P (storage E') = after_atoms (inner cs) (storage_get_atom P (storage E))"
    "atoms (state E') = atoms (apply_changeset cs (state E))"
    "current_crystal_index (state E') = cr_index c"
    "\<And>i. get_crystal P (storage E') i = (if i = cr_index c then Inr (Some c') else get_crystal P (storage E) i)"
    "tree_map P (db (storage E')) latest_key = Some (to_le_bytes 8 (cr_index c))"
    "\<And>j. get_undo_log P (storage E') j
       = (if UNDO_WINDOW < cr_index c \<and> j < cr_index c - UNDO_WINDOW then Inr None
          else if j = cr_index c then
            Inr (Some (record_all (state E) (map fst (inner cs)) (undo_new (cr_index c) (current_root (storage E)))))
          else get_undo_log P (storage E) j)"
proof -
  let ?E1 = "set_index (cr_index c) E"
  obtain cs ent where ex: "engine_execute P ?E1 (reactions_data c) = Inr (cs, ent)"
    using f by (cases "engine_execute P ?E1 (reactions_data c)") (auto simp: finalize_solidification_def Let_def)
  obtain x S2 where cm0: "commit_changeset P cs (cr_index c) (storage E) = (x, S2)" by fastforce
  with f ex obtain r where x: "x = Inr r"
    by (cases x) (auto simp: finalize_solidification_def Let_def on_storage_def context_msg_def)
  let ?E2 = "?E1\<lparr>storage := S2\<rparr>"
  have cm: "commit_changeset P cs (cr_index c) (storage E) = (Inr r, S2)" using cm0 x by simp
  from f finalize_after_commit [OF ex cm] have sr: "state_root c = zero_hash \<or> state_root c = r"
    and c': "c' = c\<lparr>state_root := r\<rparr>"
    and sl: "seal_crystal P c' cs ent (current_root (storage E)) ?E2 = (Inr (), E')"
    by (auto simp: en_then_Inr split: if_splits)
  note cd = commit_changeset_done [OF h cm]
  have h2: "healthy (db (storage (?E1\<lparr>storage := S2\<rparr>)))" using cd by simp
  note sd = seal_crystal_done [OF h2 sl]
  have u: "unchanged P {1, 2, 5, 6} (db (storage E)) (db S2)" using cd by simp
  have "get_crystal P S2 i = get_crystal P (storage E) i" "get_undo_log P S2 i = get_undo_log P (storage E) i" for i
    using reads_unchanged(3,4) [OF h _ u] cd by simp_all
  moreover have "record_all (state (?E1\<lparr>storage := S2\<rparr>)) = record_all (state E)"
    by (rule record_all_atoms) simp
  ultimately show ?thesis
    using that [OF ex engine_execute_ok [OF ex] c' sr] sd cd c'
    by (simp add: apply_changeset_def current_root_def)
qed

lemma finalize_coherent:
  assumes "healthy (db (storage E))" and "finalize_solidification P c E = (Inr c', E')" and "coherent P E"
  shows "coherent P E'"
  using assms(1,2)
proof (rule finalize_done)
  fix cs assume ok: "changeset_ok cs"
    and g: "storage_get_atom P (storage E') = after_atoms (inner cs) (storage_get_atom P (storage E))"
    and a: "atoms (state E') = atoms (apply_changeset cs (state E))"
  have "bt_get (rev (inner cs)) = bt_get (inner cs)"
    using ok bt_ordered_distinct by (auto simp: changeset_ok_def intro: map_of_rev_distinct)
  then show ?thesis
    using assms(3) ok by (auto simp: coherent_def g a after_atoms_def state_get_atom_def get_apply_changeset map_add_def
        split: option.split)
qed

lemma finalize_latest:
  assumes "healthy (db (storage E))" and "finalize_solidification P c E = (Inr c', E')"
  shows "get_crystal_latest P (storage E') = Inr (Some c')"
  using assms
  by (rule finalize_done) (simp add: get_crystal_latest_def db_get_map)

end

section \<open>Rolling back\<close>

lemma write_all_append: "write_all (xs @ ys) f = write_all ys (write_all xs f)"
  by (induction xs arbitrary: f) auto

lemma write_all_other: "k \<notin> fst ` set ws \<Longrightarrow> write_all ws f k = f k"
  by (induction ws arbitrary: f) auto

lemma write_all_remove: "\<forall>w \<in> set ws. snd w = None \<Longrightarrow> k \<in> fst ` set ws \<Longrightarrow> write_all ws f k = None"
proof (induction ws arbitrary: f)
  case (Cons w ws)
  then show ?case by (cases w; cases "k \<in> fst ` set ws") (auto simp: write_all_other)
qed simp

text \<open>The bytes \<open>f\<close> hold exactly the atoms \<open>m\<close>.\<close>

definition encodes :: "'t platform \<Rightarrow> bytes option \<Rightarrow> Atom option \<Rightarrow> bool" where
  "encodes P x y = (case x of None \<Rightarrow> y = None | Some b \<Rightarrow> \<exists>a. de_atom P b = Inr a \<and> y = Some a)"

lemma encodes_simps [simp]:
  "encodes P None y \<longleftrightarrow> y = None"
  "encodes P (Some b) y \<longleftrightarrow> (\<exists>a. de_atom P b = Inr a \<and> y = Some a)"
  by (simp_all add: encodes_def)

definition mirrors :: "'t platform \<Rightarrow> (bytes \<rightharpoonup> bytes) \<Rightarrow> (bytes, Atom) btree \<Rightarrow> bool" where
  "mirrors P f m = (\<forall>pk. encodes P (f (atom_key pk)) (bt_get m pk))"

lemma mirrors_put: "mirrors P f m \<Longrightarrow> de_atom P b = Inr a \<Longrightarrow> mirrors P (f(atom_key pk \<mapsto> b)) (bt_insert pk a m)"
  by (auto simp: mirrors_def)

lemma mirrors_drop: "mirrors P f m \<Longrightarrow> mirrors P (f(atom_key pk := None)) (bt_remove pk m)"
  by (auto simp: mirrors_def)

text \<open>The undo logs of the heights \<open>hs\<close> lead from the atoms \<open>m\<close> back to the atoms \<open>m0\<close>.\<close>

fun unwinds :: "'t platform \<Rightarrow> 't PrimusStorage \<Rightarrow> (bytes, Atom) btree \<Rightarrow> nat list \<Rightarrow> (bytes, Atom) btree \<Rightarrow> bool" where
  "unwinds P S m [] m0 = (m = m0)"
| "unwinds P S m (h # hs) m0 =
     (\<exists>u. get_undo_log P S (of_nat h) = Inr (Some u) \<and> unwinds P S (restore_images (pre_images u) m) hs m0)"

lemma below_window: "UNDO_WINDOW < i \<and> j < i - UNDO_WINDOW \<longleftrightarrow> unat j + 8 < unat i"
proof (cases "UNDO_WINDOW < i")
  case True
  then have "unat (i - UNDO_WINDOW) = unat i - 8" by (simp add: unat_sub UNDO_WINDOW_def)
  then show ?thesis using True by (auto simp: word_less_nat_alt UNDO_WINDOW_def)
qed (simp add: word_less_nat_alt UNDO_WINDOW_def)

lemma unwinds_cong:
  "(\<And>h. h \<in> set hs \<Longrightarrow> get_undo_log P S' (of_nat h) = get_undo_log P S (of_nat h))
     \<Longrightarrow> unwinds P S' m hs m0 = unwinds P S m hs m0"
  by (induction hs arbitrary: m) auto

lemma unwinds_collect:
  "unwinds P S m hs m0 \<Longrightarrow> \<exists>logs. collect_undo_logs P S hs = Inr logs \<and> map fst logs = map of_nat hs
     \<and> foldl (\<lambda>m u. restore_images (pre_images u) m) m (map snd logs) = m0"
proof (induction hs arbitrary: m)
  case (Cons h hs)
  then obtain u logs where "get_undo_log P S (of_nat h) = Inr (Some u)" "collect_undo_logs P S hs = Inr logs"
      "map fst logs = map of_nat hs"
      "foldl (\<lambda>m u. restore_images (pre_images u) m) (restore_images (pre_images u) m) (map snd logs) = m0"
    by (meson unwinds.simps(2))
  then show ?case by (intro exI [of _ "(of_nat h, u) # logs"]) simp
qed simp

context core_platform
begin

lemma db_transact_ok:
  assumes "healthy (db S)"
  shows "\<exists>d. db_transact P ws S = (Inr (), S\<lparr>db := d\<rparr>) \<and> healthy d \<and> tree_map P d = write_all ws (tree_map P (db S))"
  using transact_law [OF assms, of ws] by (auto simp: db_transact_def)

lemma coherent_mirrors:
  assumes "healthy (db (storage E))"
  shows "coherent P E \<longleftrightarrow> mirrors P (tree_map P (db (storage E))) (atoms (state E))"
proof -
  have "storage_get_atom P (storage E) pk = Inr y \<longleftrightarrow> encodes P (tree_map P (db (storage E)) (atom_key pk)) y" for pk y
    using assms by (auto simp: storage_get_atom_def db_get_with_map encodes_def split: option.split sum.split)
  then show ?thesis by (simp add: coherent_def mirrors_def state_get_atom_def)
qed

lemma image_writes_ok:
  "mirrors P f m \<Longrightarrow> \<exists>ws. image_writes P imgs = Inr ws \<and> mirrors P (write_all ws f) (restore_images imgs m)
     \<and> fst ` set ws \<subseteq> range atom_key"
proof (induction imgs arbitrary: f m)
  case (Cons x imgs)
  obtain pk before where x: "x = (pk, before)" by (cases x)
  show ?case
  proof (cases before)
    case None
    obtain ws where "image_writes P imgs = Inr ws" "fst ` set ws \<subseteq> range atom_key"
        "mirrors P (write_all ws (f(atom_key pk := None))) (restore_images imgs (bt_remove pk m))"
      using Cons.IH [OF mirrors_drop [OF Cons.prems]] by blast
    then show ?thesis using None x by (simp add: restore_images_def)
  next
    case (Some a)
    obtain b where b: "ser_atom P a = Inr b" "de_atom P b = Inr a" using atom_codec by blast
    obtain ws where "image_writes P imgs = Inr ws" "fst ` set ws \<subseteq> range atom_key"
        "mirrors P (write_all ws (f(atom_key pk \<mapsto> b))) (restore_images imgs (bt_insert pk a m))"
      using Cons.IH [OF mirrors_put [OF Cons.prems b(2)]] by blast
    then show ?thesis using Some x b(1) by (simp add: restore_images_def context_msg_def)
  qed
qed (simp add: restore_images_def)

lemma atom_writes_ok:
  "mirrors P f m \<Longrightarrow> \<exists>ws. atom_writes P logs = Inr ws \<and> fst ` set ws \<subseteq> range atom_key
     \<and> mirrors P (write_all ws f) (foldl (\<lambda>m u. restore_images (pre_images u) m) m (map snd logs))"
proof (induction logs arbitrary: f m)
  case (Cons l logs)
  obtain h u where l: "l = (h, u)" by (cases l)
  obtain ws where ws: "image_writes P (pre_images u) = Inr ws" "fst ` set ws \<subseteq> range atom_key"
      "mirrors P (write_all ws f) (restore_images (pre_images u) m)"
    using image_writes_ok [OF Cons.prems] by blast
  obtain ws' where "atom_writes P logs = Inr ws'" "fst ` set ws' \<subseteq> range atom_key"
      "mirrors P (write_all ws' (write_all ws f))
         (foldl (\<lambda>m u. restore_images (pre_images u) m) (restore_images (pre_images u) m) (map snd logs))"
    using Cons.IH [OF ws(3)] by blast
  then show ?case using l ws by (simp add: write_all_append image_Un)
qed simp

lemma roll_back_done:
  assumes h: "healthy (db (storage E))" and c: "coherent P E"
  obtains E' where "roll_back P anc logs E = (Inr (), E')"
    "atoms (state E') = foldl (\<lambda>m u. restore_images (pre_images u) m) (atoms (state E)) (map snd logs)"
    "current_crystal_index (state E') = anc" "coherent P E'" "healthy (db (storage E'))"
    "\<And>i. i \<in> fst ` set logs \<Longrightarrow> get_crystal P (storage E') i = Inr None \<and> get_undo_log P (storage E') i = Inr None"
    "\<And>i. i \<notin> fst ` set logs \<Longrightarrow> get_crystal P (storage E') i = get_crystal P (storage E) i"
    "st_mpt (storage E') = st_mpt (storage E)"
proof -
  let ?S = "storage E" and ?m = "foldl (\<lambda>m u. restore_images (pre_images u) m) (atoms (state E)) (map snd logs)"
  obtain ws where ws: "atom_writes P logs = Inr ws" "fst ` set ws \<subseteq> range atom_key"
      "mirrors P (write_all ws (tree_map P (db ?S))) ?m"
    using atom_writes_ok c coherent_mirrors [OF h] by blast
  let ?hw = "height_writes logs"
  obtain d1 where d1: "db_transact P (ws @ ?hw) ?S = (Inr (), ?S\<lparr>db := d1\<rparr>)" "healthy d1"
      "tree_map P d1 = write_all ?hw (write_all ws (tree_map P (db ?S)))"
    using db_transact_ok [OF h, of "ws @ ?hw"] by (auto simp: write_all_append)
  obtain d2 where d2: "storage_flush P None (?S\<lparr>db := d1\<rparr>) = (Inr (), ?S\<lparr>db := d2\<rparr>)" "healthy d2"
      "tree_map P d2 = tree_map P d1"
    using storage_flush_ok [of "?S\<lparr>db := d1\<rparr>"] d1(2) by auto
  let ?E' = "set_index anc (E\<lparr>state := rollback_logs (map snd logs) (state E), storage := ?S\<lparr>db := d2\<rparr>\<rparr>)"
  have hw: "fst ` set ?hw = crystal_key ` fst ` set logs \<union> undo_key ` fst ` set logs" "\<forall>w \<in> set ?hw. snd w = None"
    by (auto simp: height_writes_def image_iff split: prod.splits) force+
  have kind: "key_kind k = 1" if "k \<in> fst ` set ws" for k using that ws(2) by auto
  have at: "tree_map P d2 (atom_key pk) = write_all ws (tree_map P (db ?S)) (atom_key pk)" for pk
    unfolding d1(3) d2(3) by (rule write_all_other) (auto simp: hw dest: arg_cong [where f = key_kind])
  have gone: "tree_map P d2 k = None" if "k \<in> fst ` set ?hw" for k
    unfolding d1(3) d2(3) by (rule write_all_remove [OF hw(2) that])
  have kept: "tree_map P d2 (crystal_key i) = tree_map P (db ?S) (crystal_key i)" if "i \<notin> fst ` set logs" for i
  proof -
    have "crystal_key i \<notin> fst ` set ?hw" using that by (auto simp: hw image_iff dest: arg_cong [where f = key_kind])
    moreover have "crystal_key i \<notin> fst ` set ws" using kind by force
    ultimately show ?thesis by (simp add: d1(3) d2(3) write_all_other)
  qed
  have "roll_back P anc logs E = (Inr (), ?E')"
    using ws(1) d1(1) d2(1) by (simp add: roll_back_def Let_def on_storage_def context_msg_def)
  moreover have "coherent P ?E'"
    using ws(3) at d2(2) by (simp add: coherent_mirrors mirrors_def rollback_logs_def)
  moreover have "get_crystal P (storage ?E') i = Inr None \<and> get_undo_log P (storage ?E') i = Inr None"
    if "i \<in> fst ` set logs" for i
    using that gone d2(2) by (simp add: get_crystal_def get_undo_log_def db_get_with_map hw)
  moreover have "get_crystal P (storage ?E') i = get_crystal P (storage E) i" if "i \<notin> fst ` set logs" for i
    using kept [OF that] d2(2) h by (simp add: get_crystal_def db_get_with_map)
  ultimately show ?thesis using that [of ?E'] d2(2) by (simp add: rollback_logs_def)
qed

lemma finalize_unwinds:
  assumes h: "healthy (db (storage E))" and f: "finalize_solidification P c E = (Inr c', E')"
    and ok: "state_ok (state E)"
    and nxt: "unat (cr_index c) = Suc (unat (current_crystal_index (state E)))"
    and w: "unat (cr_index c) \<le> unat anc + 8" "unat anc \<le> unat (current_crystal_index (state E))"
    and u: "unwinds P (storage E) (atoms (state E)) (heights_down (current_crystal_index (state E)) anc) m0"
  shows "unwinds P (storage E') (atoms (state E')) (heights_down (current_crystal_index (state E')) anc) m0"
  using h f
proof (rule finalize_done)
  fix cs assume cs: "changeset_ok cs" "atoms (state E') = atoms (apply_changeset cs (state E))"
      "current_crystal_index (state E') = cr_index c"
    and g: "\<And>j. get_undo_log P (storage E') j
       = (if UNDO_WINDOW < cr_index c \<and> j < cr_index c - UNDO_WINDOW then Inr None
          else if j = cr_index c then
            Inr (Some (record_all (state E) (map fst (inner cs)) (undo_new (cr_index c) (current_root (storage E)))))
          else get_undo_log P (storage E) j)"
  let ?tip = "current_crystal_index (state E)"
  have hs: "heights_down (cr_index c) anc = unat (cr_index c) # heights_down ?tip anc"
    using nxt w(2) by (simp add: heights_down_def)
  have old: "get_undo_log P (storage E') (of_nat i) = get_undo_log P (storage E) (of_nat i)"
    if "i \<in> set (heights_down ?tip anc)" for i
  proof -
    have i: "unat anc < i" "i \<le> unat ?tip" using that by (auto simp: heights_down_def)
    then have "i < 2 ^ 64" using unsigned_less [of ?tip, where ?'a = nat] by simp
    then have "unat (of_nat i :: u64) = i" by (simp add: unat_of_nat)
    then have "\<not> (UNDO_WINDOW < cr_index c \<and> (of_nat i :: u64) < cr_index c - UNDO_WINDOW)" "of_nat i \<noteq> cr_index c"
      unfolding below_window using i w nxt by auto
    then show ?thesis using g by auto
  qed
  have "restore_images (pre_images (record_all (state E) (map fst (inner cs)) (undo_new (cr_index c) (current_root (storage E)))))
      (atoms (state E')) = atoms (state E)"
    unfolding cs(2) by (rule restore_undoes_apply [OF ok cs(1)])
  moreover have "\<not> (UNDO_WINDOW < cr_index c \<and> cr_index c < cr_index c - UNDO_WINDOW)"
    unfolding below_window by simp
  ultimately show ?thesis
    using u unwinds_cong [OF old] g by (simp add: hs cs(3))
qed

lemma finalize_state_ok:
  assumes "healthy (db (storage E))" and "finalize_solidification P c E = (Inr c', E')" and "state_ok (state E)"
  shows "state_ok (state E')"
  using assms(1,2) by (rule finalize_done) (metis assms(3) state_ok_apply state_ok_def)

lemma apply_chain_unwinds:
  assumes "healthy (db (storage E))" and "coherent P E" and "state_ok (state E)"
    and "unwinds P (storage E) (atoms (state E)) (heights_down (current_crystal_index (state E)) anc) m0"
    and "apply_chain P cs E = (Inr (), E')"
    and "map (\<lambda>c. unat (cr_index c)) cs
       = [Suc (unat (current_crystal_index (state E))) ..< Suc (unat (current_crystal_index (state E)) + length cs)]"
    and "unat anc \<le> unat (current_crystal_index (state E))"
    and "unat (current_crystal_index (state E)) + length cs \<le> unat anc + 8"
  shows "healthy (db (storage E')) \<and> coherent P E' \<and> state_ok (state E')
    \<and> unwinds P (storage E') (atoms (state E')) (heights_down (current_crystal_index (state E')) anc) m0
    \<and> unat (current_crystal_index (state E')) = unat (current_crystal_index (state E)) + length cs
    \<and> (\<forall>i \<le> current_crystal_index (state E). get_crystal P (storage E') i = get_crystal P (storage E) i)"
  using assms
proof (induction cs arbitrary: E)
  case (Cons c cs)
  obtain c' E1 where f: "finalize_solidification P c E = (Inr c', E1)" and rest: "apply_chain P cs E1 = (Inr (), E')"
    using Cons.prems(5) by (auto split: sum.splits prod.splits)
  let ?tip = "unat (current_crystal_index (state E))"
  have "[Suc ?tip ..< Suc (?tip + length (c # cs))] = Suc ?tip # [Suc (Suc ?tip) ..< Suc (Suc ?tip + length cs)]"
    by (simp add: upt_conv_Cons del: upt_Suc)
  then have nx: "unat (cr_index c) = Suc ?tip"
    and ix: "map (\<lambda>c. unat (cr_index c)) cs = [Suc (Suc ?tip) ..< Suc (Suc ?tip + length cs)]"
    using Cons.prems(6) by simp_all
  have e1: "healthy (db (storage E1))" "current_crystal_index (state E1) = cr_index c"
      "\<And>i. i \<noteq> cr_index c \<Longrightarrow> get_crystal P (storage E1) i = get_crystal P (storage E) i"
    by (rule finalize_done [OF Cons.prems(1) f], simp)+
  have below: "i \<le> current_crystal_index (state E) \<Longrightarrow> i \<noteq> cr_index c \<and> i \<le> cr_index c" for i
    using nx by (auto simp: word_le_nat_alt)
  have "unwinds P (storage E1) (atoms (state E1)) (heights_down (current_crystal_index (state E1)) anc) m0"
    by (rule finalize_unwinds [OF Cons.prems(1) f Cons.prems(3) nx _ _ Cons.prems(4)]) (use nx Cons.prems(7,8) in simp_all)
  then show ?case
    using Cons.IH [OF e1(1) finalize_coherent [OF Cons.prems(1) f Cons.prems(2)]
        finalize_state_ok [OF Cons.prems(1) f Cons.prems(3)] _ rest] e1(2,3) below nx ix Cons.prems(7,8) by simp
qed simp

end

lemma heights_down_same [simp]: "heights_down i i = []"
  by (simp add: heights_down_def)

lemma find_ancestor_hit:
  "get_crystal P S (of_nat n) = Inr (Some b) \<Longrightarrow> prev = calculate_density (blake3 (pf_nodes P)) b
     \<Longrightarrow> find_ancestor P S prev fb n = of_nat n"
  by (subst find_ancestor.simps) simp

definition cool_after_reorg :: "'t PrimusEngine \<Rightarrow> 't PrimusEngine" where
  "cool_after_reorg E = E\<lparr>chamber := (chamber E)\<lparr>
     ch_temperature := fmul binary32 (ch_temperature (chamber E)) (f32_lit 85 100),
     ch_entropy := fmul binary32 (ch_entropy (chamber E)) (f32_lit 90 100)\<rparr>\<rparr>"

context core_platform
begin

lemma perform_reorg_step:
  assumes "chain \<noteq> []" and "cr_index (hd (sort_key cr_index chain)) = Suc_i"
    and "Suc_i \<noteq> 0" and "anc = Suc_i - 1"
    and "saturating_sub (current_crystal_index (state E)) anc \<le> FINALITY_DEPTH"
    and "get_crystal P (storage E) anc = Inr (Some b)"
    and "prev_hash (hd (sort_key cr_index chain)) = calculate_density (blake3 (pf_nodes P)) b"
    and "collect_undo_logs P (storage E) (heights_down (current_crystal_index (state E)) anc) = Inr logs"
  shows "perform_reorg P chain E =
    en_then (roll_back P anc logs E) (\<lambda>_ E1.
    en_then (apply_chain P (sort_key cr_index chain) E1) (\<lambda>_ E2. (Inr (), cool_after_reorg E2)))"
proof -
  have a: "saturating_sub Suc_i 1 = anc"
    using assms(3,4) by (simp add: saturating_sub_def word_le_nat_alt) (metis Suc_leI unat_gt_0)
  have "find_ancestor P (storage E) (prev_hash (hd (sort_key cr_index chain))) anc (unat anc) = anc"
    using find_ancestor_hit [of P "storage E" "unat anc" b] assms(6,7) by simp
  then show ?thesis
    unfolding cool_after_reorg_def using assms a by (simp add: perform_reorg_def Let_def not_less [symmetric])
qed

end

end
