(* ===== verification/Demo_Node.thy ===== *)
theory Demo_Node
  imports Processor_Correct
begin

text \<open>
  A node in memory, for the concrete examples: two accounts, a genesis crystal, an empty trie, and a
  block with one transfer whose execution and proof of work are computed.
\<close>

section \<open>A node\<close>

definition node_transfer :: SignedReaction where
  "node_transfer = demo_transfer\<lparr>signature := [1] @ signing_digest demo_hash demo_transfer\<rparr>"

definition node_storage_with :: "(bytes \<Rightarrow> hash32) \<Rightarrow> (bytes \<times> bytes) list PrimusStorage" where
  "node_storage_with h = snd (save_crystal (mem_platform_with h) (crystal_new 0 zero_hash)
     (snd (persist_atoms (mem_platform_with h) [([], [], [1], demo_holder), ([], [], [9], demo_architect)]
        \<lparr>db = [], st_mpt = trie_new [], st_root = None, gc_log = []\<rparr>)))"

definition node_engine_with :: "(bytes \<Rightarrow> hash32) \<Rightarrow> (bytes \<times> bytes) list PrimusEngine" where
  "node_engine_with h = \<lparr>storage = node_storage_with h, state = demo_state, chamber = chamber_new, target_block_time = 10,
     eng_architect_pk = [9], is_syncing = False, sync_target = 0, epoch_difficulty = f32_lit 1 1\<rparr>"

abbreviation node_storage :: "(bytes \<times> bytes) list PrimusStorage" where
  "node_storage \<equiv> node_storage_with demo_hash"

abbreviation node_engine :: "(bytes \<times> bytes) list PrimusEngine" where
  "node_engine \<equiv> node_engine_with demo_hash"

definition node_block :: Crystal where
  "node_block = (crystal_new 1 (calculate_density demo_hash (crystal_new 0 zero_hash)))
     \<lparr>cr_nonce := 50, reactions_data := [node_transfer]\<rparr>"

definition node_changeset :: Changeset where
  "node_changeset = \<lparr>inner = [([1], demo_holder\<lparr>mass := 483, nonce := 4\<rparr>), ([2], (new_receiver [2])\<lparr>mass := 7\<rparr>)],
     contracts = []\<rparr>"

definition node_kvs :: "(bytes \<times> bytes) list" where
  "node_kvs = map (\<lambda>(pk, a). (demo_hash pk, put_atom a)) (inner node_changeset)"

lemma node_executes:
  "case engine_execute mem_platform (set_index 1 node_engine) [node_transfer] of
     Inl _ \<Rightarrow> False | Inr (cs, ent) \<Rightarrow> cs = node_changeset"
  by code_simp

definition node_root :: hash32 where
  "node_root = [118, 62, 85] @ replicate 29 0"

lemma node_trie:
  "case trie_insert_all (mpt_ops mem_platform) node_kvs (trie_new []) of (r, t) \<Rightarrow> is_ok r \<and> mpt_root t = Some node_root"
  by code_simp

lemma node_pow: "verify_pow mem_platform node_engine node_block = Inr ()"
  by code_simp

lemma node_storage_parts:
  "st_mpt (node_storage_with h) = trie_new []" "st_root (node_storage_with h) = None"
  "storage_get_atom (mem_platform_with h) (node_storage_with h) pk = Inr (state_get_atom demo_state pk)"
  "get_crystal (mem_platform_with h) (node_storage_with h) 0 = Inr (Some (crystal_new 0 zero_hash))"
  "get_crystal_latest (mem_platform_with h) (node_storage_with h) = Inr (Some (crystal_new 0 zero_hash))"
proof -
  let ?S0 = "\<lparr>db = [], st_mpt = trie_new [], st_root = None, gc_log = []\<rparr> :: (bytes \<times> bytes) list PrimusStorage"
  let ?ups = "[([], [], [1], demo_holder), ([], [], [9], demo_architect)]"
  obtain d where d: "persist_atoms (mem_platform_with h) ?ups ?S0 = (Inr (), ?S0\<lparr>db := d\<rparr>)"
      "\<And>T. db T = d \<Longrightarrow> storage_get_atom (mem_platform_with h) T = after_atoms [([1], demo_holder), ([9], demo_architect)] (storage_get_atom (mem_platform_with h) ?S0)"
    using mp.persist_atoms_ok [where S = ?S0 and ups = ?ups] by auto
  define S1 where "S1 = ?S0\<lparr>db := d\<rparr>"
  obtain d' where d': "save_crystal (mem_platform_with h) (crystal_new 0 zero_hash) S1 = (Inr (), S1\<lparr>db := d'\<rparr>)"
      "unchanged (mem_platform_with h) {3, 7} (db S1) d'"
      "\<And>T. db T = d' \<Longrightarrow> get_crystal (mem_platform_with h) T 0 = Inr (Some (crystal_new 0 zero_hash))"
      "tree_map (mem_platform_with h) d' latest_key = Some (to_le_bytes 8 (0 :: u64))"
    using mp.save_crystal_ex [where S = S1 and c = "crystal_new 0 zero_hash"] by (auto simp: crystal_new_def)
  have S: "(node_storage_with h) = S1\<lparr>db := d'\<rparr>" using d(1) d'(1) by (simp add: node_storage_with_def S1_def)
  show "st_mpt (node_storage_with h) = trie_new []" "st_root (node_storage_with h) = None" by (simp_all add: S S1_def)
  show "get_crystal_latest (mem_platform_with h) (node_storage_with h) = Inr (Some (crystal_new 0 zero_hash))"
    using d'(3) [of "node_storage_with h"] d'(4) by (simp add: S get_crystal_latest_def mp.db_get_map)
  show "get_crystal (mem_platform_with h) (node_storage_with h) 0 = Inr (Some (crystal_new 0 zero_hash))"
    using d'(3) [of "node_storage_with h"] by (simp add: S)
  have "storage_get_atom (mem_platform_with h) (node_storage_with h) pk = storage_get_atom (mem_platform_with h) S1 pk"
    using mp.reads_unchanged(1) [where S = S1 and T = "node_storage_with h" and A = "{3, 7}"] d'(2) by (simp add: S)
  also have "\<dots> = Inr (state_get_atom demo_state pk)"
    using d(2) [of S1]
    by (simp add: S1_def after_atoms_def storage_get_atom_def mp.db_get_with_map tree_map_mem demo_state_def state_get_atom_def)
  finally show "storage_get_atom (mem_platform_with h) (node_storage_with h) pk = Inr (state_get_atom demo_state pk)" .
qed

lemma node_coherent: "coherent (mem_platform_with h) (node_engine_with h)" "state_ok (state (node_engine_with h))"
  by (simp_all add: coherent_def node_engine_with_def node_storage_parts state_ok_def demo_state_def)

lemma node_prepare:
  "\<exists>ups. prepare_updates mem_platform (inner node_changeset) = Inr ups \<and> map (\<lambda>u. (fst u, fst (snd u))) ups = node_kvs"
  by (simp add: node_changeset_def node_kvs_def trie_key_of_def mem_platform_with_def)

lemma node_updates:
  obtains ent ups t where
    "engine_execute mem_platform (set_index (cr_index node_block) node_engine) (reactions_data node_block) = Inr (node_changeset, ent)"
    "prepare_updates mem_platform (inner node_changeset) = Inr ups"
    "trie_insert_all (mpt_ops mem_platform) (map (\<lambda>u. (fst u, fst (snd u))) ups) (st_mpt (storage node_engine)) = (Inr (), t)"
    "mpt_root t = Some node_root"
proof -
  obtain ent where "engine_execute mem_platform (set_index 1 node_engine) [node_transfer] = Inr (node_changeset, ent)"
    using node_executes by (auto split: sum.splits)
  moreover obtain t where "trie_insert_all (mpt_ops mem_platform) node_kvs (trie_new []) = (Inr (), t)" "mpt_root t = Some node_root"
    using node_trie by (auto simp: is_ok_iff split: prod.splits)
  ultimately show ?thesis
    using that node_prepare by (auto simp: node_block_def crystal_new_def node_engine_with_def node_storage_parts)
qed

lemma node_healthy: "core_platform (mem_platform_with h) (\<lambda>_. True)"
  by (rule mp.core_platform_axioms)

lemma node_solidifies:
  "\<exists>E'. finalize_solidification mem_platform node_block node_engine = (Inr (node_block\<lparr>state_root := node_root\<rparr>), E')"
  by (rule node_updates) (use mp.finalize_succeeds in \<open>fastforce simp: node_block_def crystal_new_def\<close>)

lemma node_chain: "\<exists>E'. apply_chain mem_platform [node_block] node_engine = (Inr (), E')"
  using node_solidifies node_pow by auto

end
