(* ===== verification/Processor_Claims.thy ===== *)
theory Processor_Claims
  imports Demo_Node Mpt_Claims
begin

text \<open>
  The properties of storage, solidification and reorganisation. The witnesses run on the node of
  \<open>Demo_Node\<close>.
\<close>

section \<open>Solidification\<close>

text \<open>C4. On a healthy platform a crystal is solidified whenever the virtual machine executes its
  reactions, the trie takes the changed atoms, and its state root is either zero or the root of the
  trie so changed; the root is filled in.\<close>

theorem solidification_succeeds:
  assumes "core_platform P healthy" and "healthy (db (storage E))" and "healthy (gc_log (storage E))"
    and "engine_execute P (set_index (cr_index c) E) (reactions_data c) = Inr (cs, ent)"
    and "prepare_updates P (inner cs) = Inr ups"
    and "trie_insert_all (mpt_ops P) (map (\<lambda>u. (fst u, fst (snd u))) ups) (st_mpt (storage E)) = (Inr (), t)"
    and "state_root c = zero_hash \<or> state_root c = root_or_zero (mpt_root t)"
  shows "\<exists>E'. finalize_solidification P c E = (Inr (c\<lparr>state_root := root_or_zero (mpt_root t)\<rparr>), E')"
  by (rule core_platform.finalize_succeeds [OF assms])

theorem solidification_succeeds_witness:
  "\<exists>E'. finalize_solidification mem_platform node_block node_engine = (Inr (node_block\<lparr>state_root := node_root\<rparr>), E')"
proof (rule node_updates)
  fix ent ups t
  assume a: "engine_execute mem_platform (set_index (cr_index node_block) node_engine) (reactions_data node_block)
      = Inr (node_changeset, ent)"
    "prepare_updates mem_platform (inner node_changeset) = Inr ups"
    "trie_insert_all (mpt_ops mem_platform) (map (\<lambda>u. (fst u, fst (snd u))) ups) (st_mpt (storage node_engine)) = (Inr (), t)"
    and r: "mpt_root t = Some node_root"
  have "state_root node_block = zero_hash \<or> state_root node_block = root_or_zero (mpt_root t)"
    by (simp add: node_block_def crystal_new_def)
  from solidification_succeeds [OF node_healthy TrueI TrueI a this] show ?thesis by (simp add: r)
qed

text \<open>C5. A solidified crystal leaves memory and disk in agreement, is the latest crystal, carries the
  current root of the trie, and its undo log takes the state back to where it was.\<close>

theorem solidification_sound:
  assumes "core_platform P healthy" and "healthy (db (storage E))" and "coherent P E" and "state_ok (state E)"
    and "finalize_solidification P c E = (Inr c', E')"
  shows "coherent P E' \<and> current_crystal_index (state E') = cr_index c
    \<and> get_crystal_latest P (storage E') = Inr (Some c') \<and> state_root c' = current_root (storage E')
    \<and> (\<exists>u. get_undo_log P (storage E') (cr_index c) = Inr (Some u)
         \<and> restore_images (pre_images u) (atoms (state E')) = atoms (state E))"
proof -
  have "\<not> (UNDO_WINDOW < cr_index c \<and> cr_index c < cr_index c - UNDO_WINDOW)" unfolding below_window by simp
  moreover have "coherent P E'" by (rule core_platform.finalize_coherent [OF assms(1,2,5,3)])
  moreover have "get_crystal_latest P (storage E') = Inr (Some c')"
    by (rule core_platform.finalize_latest [OF assms(1,2,5)])
  ultimately show ?thesis
    using restore_undoes_apply [OF assms(4)] by - (rule core_platform.finalize_done [OF assms(1,2,5)], simp)
qed

theorem solidification_sound_witness:
  "\<exists>c E. fst (finalize_solidification mem_platform node_block node_engine) = Inr c
     \<and> snd (finalize_solidification mem_platform node_block node_engine) = E \<and> coherent mem_platform E
     \<and> get_crystal_latest mem_platform (storage E) = Inr (Some c)"
proof -
  obtain c E where f: "finalize_solidification mem_platform node_block node_engine = (Inr c, E)"
    using node_solidifies by blast
  show ?thesis
    using solidification_sound [OF node_healthy TrueI node_coherent f] f by auto
qed

text \<open>C40. A crystal whose state root does not match is rejected too late: the height, the state in memory
  and the chamber are as before, but the disk and the trie already hold the atoms and the root of
  the rejected crystal.\<close>

theorem root_mismatch_leaves_commit:
  assumes "core_platform P healthy" and "healthy (db (storage E))"
    and "engine_execute P (set_index (cr_index c) E) (reactions_data c) = Inr (cs, ent)"
    and "commit_changeset P cs (cr_index c) (storage E) = (Inr r, S)"
    and "state_root c \<noteq> zero_hash" and "state_root c \<noteq> r"
  shows "\<exists>E'. finalize_solidification P c E = (Inl ''State Root Mismatch'', E') \<and> state E' = state E
    \<and> chamber E' = chamber E \<and> current_root (storage E') = r
    \<and> storage_get_atom P (storage E') = after_atoms (inner cs) (storage_get_atom P (storage E))"
  using core_platform.finalize_after_commit [OF assms(1,3,4)] core_platform.commit_changeset_done [OF assms(1,2,4)]
    assms(5,6)
  by (simp add: current_root_def)

definition node_bad_block :: Crystal where
  "node_bad_block = node_block\<lparr>state_root := replicate 32 1\<rparr>"

theorem root_mismatch_leaves_commit_witness:
  "\<exists>E'. finalize_solidification mem_platform node_bad_block node_engine = (Inl ''State Root Mismatch'', E')
     \<and> state E' = demo_state \<and> current_root (storage E') = node_root
     \<and> storage_get_atom mem_platform (storage E') [2] = Inr (Some ((new_receiver [2])\<lparr>mass := 7\<rparr>))"
proof (rule node_updates)
  fix ent ups t
  assume a: "engine_execute mem_platform (set_index (cr_index node_block) node_engine) (reactions_data node_block)
      = Inr (node_changeset, ent)"
    "prepare_updates mem_platform (inner node_changeset) = Inr ups"
    "trie_insert_all (mpt_ops mem_platform) (map (\<lambda>u. (fst u, fst (snd u))) ups) (st_mpt (storage node_engine)) = (Inr (), t)"
    and r: "mpt_root t = Some node_root"
  obtain S where c: "commit_changeset mem_platform node_changeset (cr_index node_bad_block) (storage node_engine) = (Inr node_root, S)"
    using mp.commit_changeset_succeeds [OF TrueI TrueI a(2,3)] r by auto
  have e: "engine_execute mem_platform (set_index (cr_index node_bad_block) node_engine) (reactions_data node_bad_block)
      = Inr (node_changeset, ent)" using a(1) by (simp add: node_bad_block_def)
  have n: "state_root node_bad_block \<noteq> zero_hash" "state_root node_bad_block \<noteq> node_root"
    by (code_simp, code_simp)
  show ?thesis
    using root_mismatch_leaves_commit [OF node_healthy TrueI e c n]
    by (auto simp: node_engine_with_def after_atoms_def node_changeset_def)
qed

section \<open>Committing\<close>

lemma update_value:
  assumes "list_all (\<lambda>(k, v, pk, a). k = trie_key_of P pk \<and> ser_atom P a = Inr v \<and> de_atom P v = Inr a) ups"
    and "map (\<lambda>u. snd (snd u)) ups = kvs" and "distinct (map fst kvs)" and "inj_on (sha3_256 P) (fst ` set kvs)"
    and "map_of kvs pk = Some a"
  shows "\<exists>b. map_of (rev (map (\<lambda>u. (fst u, fst (snd u))) ups)) (trie_key_of P pk) = Some b \<and> de_atom P b = Inr a"
proof -
  let ?kvs = "map (\<lambda>u. (fst u, fst (snd u))) ups"
  have "(pk, a) \<in> set (map (\<lambda>u. snd (snd u)) ups)" using assms(2,5) map_of_SomeD by metis
  then obtain k v where u: "(k, v, pk, a) \<in> set ups" by auto
  then have kv: "k = trie_key_of P pk" "de_atom P v = Inr a" using assms(1) by (auto simp: list_all_iff)
  have "map fst ?kvs = map (sha3_256 P) (map fst kvs)"
    using assms(1) by (auto simp: assms(2) [symmetric] list_all_iff trie_key_of_def)
  then have "distinct (map fst ?kvs)" using assms(3,4) by (simp add: distinct_map comp_inj_on)
  then have "map_of (rev ?kvs) k = Some v"
    using u by (simp add: map_of_rev_distinct) (force intro: map_of_is_SomeI)
  then show ?thesis using kv by auto
qed

text \<open>C7. What is committed can be read and proved: on a healthy platform whose hashes do not collide on
  the atoms and nodes involved, a commit succeeds, each changed atom is read back from the disk, and
  the proof for its key shows, under the returned root, a value that decodes to it. The verifier accepts
  this proof unless two extension steps of its path have the same length, which it cannot tell apart.\<close>

theorem committed_atom_proved:
  assumes "core_platform P healthy" and "healthy (db S)" and "healthy (gc_log S)"
    and "trie_repr (pf_nodes P) (mpt_ops P) (sled_ok (pf_nodes P) (pf_sled P) healthy) U (st_mpt S) T"
    and "inj_on (node_hash (pf_nodes P)) U" and "inj_on (sha3_256 P) (fst ` set (inner cs))" and "changeset_ok cs"
    and "prepare_updates P (inner cs) = Inr ups"
    and "covered_all (pf_nodes P) U (map (\<lambda>u. (fst u, fst (snd u))) ups) T"
    and "bt_get (inner cs) pk = Some a"
  shows "\<exists>r S' pf b. commit_changeset P cs idx S = (Inr r, S') \<and> storage_get_atom P S' pk = Inr (Some a)
    \<and> get_proof P S' pk = Inr pf \<and> trie_key pf = trie_key_of P pk \<and> mp_root pf = r \<and> mp_value pf = Some b \<and> de_atom P b = Inr a
    \<and> (distinct (filter is_extension (mp_path pf)) \<longrightarrow> verify_proof (pf_nodes P) pf)"
proof -
  let ?C = "pf_nodes P" and ?kvs = "map (\<lambda>u. (fst u, fst (snd u))) ups"
  have ups: "map (\<lambda>u. snd (snd u)) ups = inner cs"
      "list_all (\<lambda>(k, v, pk, a). k = trie_key_of P pk \<and> ser_atom P a = Inr v \<and> de_atom P v = Inr a) ups"
    using core_platform.prepare_updates_ok [OF assms(1), of "inner cs"] assms(8) by auto
  have len: "length (trie_key_of P x) = 32" for x
    using core_platform.sha3_length [OF assms(1)] by (simp add: trie_key_of_def)
  then have l32: "\<forall>(k, v) \<in> set ?kvs. length k = 32" using ups(2) by (auto simp: list_all_iff)
  have sc: "sled_contract ?C (pf_sled P) healthy" using assms(1) by (simp add: core_platform_def)
  obtain t where t: "trie_insert_all (mpt_ops P) ?kvs (st_mpt S) = (Inr (), t)"
      "trie_repr ?C (mpt_ops P) (sled_ok ?C (pf_sled P) healthy) U t (tree_insert_all ?kvs T)"
    using node_universe.trie_insert_all_correct [OF sled_universe [OF sc assms(5)] assms(4) l32 assms(9)] by blast
  obtain S' where S': "commit_changeset P cs idx S = (Inr (root_or_zero (mpt_root t)), S')" "st_mpt S' = t"
    using core_platform.commit_changeset_succeeds [OF assms(1-3,8) t(1)] by blast
  note cd = core_platform.commit_changeset_done [OF assms(1,2) S'(1)]
  have d: "distinct (map fst (inner cs))" using assms(7) bt_ordered_distinct by (auto simp: changeset_ok_def)
  obtain b where b: "map_of (rev ?kvs) (trie_key_of P pk) = Some b" "de_atom P b = Inr a"
    using update_value [OF ups(2,1) d assms(6,10)] by blast
  have lk: "olookup (tree_insert_all ?kvs T) (key_to_nibbles (trie_key_of P pk)) = Some b"
    using tree_insert_all_lookup [of T ?kvs "trie_key_of P pk", OF _ l32 len] assms(4) b(1)
    by (auto simp: trie_repr_def)
  then have "mpt_root t \<noteq> None" using t(2) by (cases "tree_insert_all ?kvs T") (auto simp: trie_repr_def)
  then have "trie_with_root_opt (mpt_store (st_mpt S')) (st_root S') = t"
    using cd S'(2) by (auto simp: trie_with_root_opt_def)
  then obtain pf where "get_proof P S' pk = Inr pf" "mp_root pf = root_or_zero (mpt_root t)" "mp_value pf = Some b"
      "trie_key pf = trie_key_of P pk" "distinct (filter is_extension (mp_path pf)) \<Longrightarrow> verify_proof (pf_nodes P) pf"
    using prove_correct [OF t(2) len, of pk] lk by (auto simp: get_proof_def clear_path_def split: option.splits)
  moreover have "storage_get_atom P S' pk = Inr (Some a)"
    using cd assms(10) map_of_rev_distinct [OF d] by (simp add: after_atoms_def)
  ultimately show ?thesis using S'(1) b(2) by blast
qed

theorem committed_atom_proved_witness:
  "\<exists>r S' pf b. commit_changeset mem_platform \<lparr>inner = [([2], new_receiver [2])], contracts = []\<rparr> 1 node_storage = (Inr r, S')
     \<and> storage_get_atom mem_platform S' [2] = Inr (Some (new_receiver [2]))
     \<and> get_proof mem_platform S' [2] = Inr pf \<and> mp_root pf = r \<and> mp_value pf = Some b
     \<and> de_atom mem_platform b = Inr (new_receiver [2]) \<and> verify_proof (pf_nodes mem_platform) pf"
proof -
  let ?cs = "\<lparr>inner = [([2], new_receiver [2])], contracts = []\<rparr>"
  let ?ups = "[(demo_hash [2], put_atom (new_receiver [2]), [2], new_receiver [2])]"
  let ?U = "{Leaf (key_to_nibbles (demo_hash [2])) (put_atom (new_receiver [2]))}"
  have p: "prepare_updates mem_platform (inner ?cs) = Inr ?ups"
    by (simp add: mem_platform_with_def trie_key_of_def)
  have r: "trie_repr (pf_nodes mem_platform) (mpt_ops mem_platform)
      (sled_ok (pf_nodes mem_platform) (pf_sled mem_platform) (\<lambda>_. True)) ?U (st_mpt node_storage) None"
    unfolding node_storage_parts by (rule trie_repr_new) (simp_all add: empty_store_def mem_platform_with_def mem_sled_def)
  have c: "covered_all (pf_nodes mem_platform) ?U (map (\<lambda>u. (fst u, fst (snd u))) ?ups) None"
    by (simp add: oinsert_def covered_simps)
  have "case commit_changeset mem_platform ?cs 1 node_storage of (x, S') \<Rightarrow>
      (case get_proof mem_platform S' [2] of Inl _ \<Rightarrow> False | Inr pf \<Rightarrow> distinct (filter is_extension (mp_path pf)))"
    by code_simp
  moreover have "\<exists>r S' pf b. commit_changeset mem_platform ?cs 1 node_storage = (Inr r, S')
     \<and> storage_get_atom mem_platform S' [2] = Inr (Some (new_receiver [2]))
     \<and> get_proof mem_platform S' [2] = Inr pf \<and> trie_key pf = trie_key_of mem_platform [2] \<and> mp_root pf = r \<and> mp_value pf = Some b
     \<and> de_atom mem_platform b = Inr (new_receiver [2])
     \<and> (distinct (filter is_extension (mp_path pf)) \<longrightarrow> verify_proof (pf_nodes mem_platform) pf)"
    by (rule committed_atom_proved [OF node_healthy TrueI TrueI r _ _ _ p c]) (simp_all add: changeset_ok_def)
  ultimately show ?thesis by fastforce
qed

section \<open>Reorganisation\<close>

text \<open>C6. A reorganisation returns to the fork point: when the local chain above a crystal has at most
  six blocks and the new chain attaches to that crystal, the local blocks are undone, in memory and
  on disk, to exactly the atoms and the height at the fork point, their crystals are gone, and the
  new chain is applied there in the order of its indices. The trie is not rolled back: the new chain is
  applied on the trie of the abandoned one.\<close>

theorem reorg_returns_to_fork_point:
  assumes "core_platform P healthy" and "healthy (db (storage E0))" and "coherent P E0" and "state_ok (state E0)"
    and "apply_chain P old E0 = (Inr (), E1)"
    and "map (\<lambda>c. unat (cr_index c)) old
       = [Suc (unat (current_crystal_index (state E0))) ..< Suc (unat (current_crystal_index (state E0)) + length old)]"
    and "length old \<le> 6"
    and "new \<noteq> []" and "cr_index (hd (sort_key cr_index new)) = current_crystal_index (state E0) + 1"
    and "current_crystal_index (state E0) + 1 \<noteq> 0"
    and "get_crystal P (storage E0) (current_crystal_index (state E0)) = Inr (Some b)"
    and "prev_hash (hd (sort_key cr_index new)) = calculate_density (blake3 (pf_nodes P)) b"
  shows "\<exists>E2. atoms (state E2) = atoms (state E0) \<and> current_crystal_index (state E2) = current_crystal_index (state E0)
    \<and> coherent P E2 \<and> (\<forall>c \<in> set old. get_crystal P (storage E2) (cr_index c) = Inr None)
    \<and> st_mpt (storage E2) = st_mpt (storage E1)
    \<and> perform_reorg P new E1 =
        en_then (apply_chain P (sort_key cr_index new) E2) (\<lambda>_ E3. (Inr (), cool_after_reorg E3))"
proof -
  let ?i = "current_crystal_index (state E0)" and ?tip = "current_crystal_index (state E1)"
  have "unwinds P (storage E0) (atoms (state E0)) (heights_down ?i ?i) (atoms (state E0))" by simp
  from core_platform.apply_chain_unwinds [OF assms(1-4) this assms(5,6)] assms(7)
  have e1: "healthy (db (storage E1))" "coherent P E1"
      "unwinds P (storage E1) (atoms (state E1)) (heights_down ?tip ?i) (atoms (state E0))"
      "unat ?tip = unat ?i + length old" "get_crystal P (storage E1) ?i = Inr (Some b)"
    using assms(11) by auto
  obtain logs where logs: "collect_undo_logs P (storage E1) (heights_down ?tip ?i) = Inr logs"
      "map fst logs = map of_nat (heights_down ?tip ?i)"
      "foldl (\<lambda>m u. restore_images (pre_images u) m) (atoms (state E1)) (map snd logs) = atoms (state E0)"
    using unwinds_collect [OF e1(3)] by blast
  obtain E2 where E2: "roll_back P ?i logs E1 = (Inr (), E2)" "atoms (state E2) = atoms (state E0)"
      "current_crystal_index (state E2) = ?i" "coherent P E2"
      "\<And>i. i \<in> fst ` set logs \<Longrightarrow> get_crystal P (storage E2) i = Inr None \<and> get_undo_log P (storage E2) i = Inr None"
      "st_mpt (storage E2) = st_mpt (storage E1)"
    by (rule core_platform.roll_back_done [OF assms(1) e1(1,2), of ?i logs]) (use logs(3) in auto)
  have "cr_index c \<in> fst ` set logs" if "c \<in> set old" for c
  proof -
    have "unat (cr_index c) \<in> set (map (\<lambda>c. unat (cr_index c)) old)" using that by auto
    then have "unat (cr_index c) \<in> set (heights_down ?tip ?i)"
      unfolding assms(6) using e1(4) by (auto simp: heights_down_def)
    then have "of_nat (unat (cr_index c)) \<in> set (map fst logs)" unfolding logs(2) by force
    then show ?thesis by simp
  qed
  moreover have "saturating_sub ?tip ?i \<le> FINALITY_DEPTH"
    using e1(4) assms(7) by (simp add: word_le_nat_alt sat_simps FINALITY_DEPTH_def)
  then have "perform_reorg P new E1 = en_then (roll_back P ?i logs E1) (\<lambda>_ E2.
      en_then (apply_chain P (sort_key cr_index new) E2) (\<lambda>_ E3. (Inr (), cool_after_reorg E3)))"
    by (intro core_platform.perform_reorg_step [OF assms(1,8,9,10) _ _ e1(5) assms(12) logs(1)]) simp_all
  ultimately show ?thesis using E2 by auto
qed

theorem reorg_returns_to_fork_point_witness:
  "\<exists>E1 E2. apply_chain mem_platform [node_block] node_engine = (Inr (), E1) \<and> atoms (state E2) = atoms demo_state
     \<and> get_crystal mem_platform (storage E2) 1 = Inr None
     \<and> perform_reorg mem_platform [node_block] E1 =
         en_then (apply_chain mem_platform [node_block] E2) (\<lambda>_ E3. (Inr (), cool_after_reorg E3))"
proof -
  obtain E1 where E1: "apply_chain mem_platform [node_block] node_engine = (Inr (), E1)" using node_chain by blast
  have s: "state node_engine = demo_state" "current_crystal_index demo_state = 0" "cr_index node_block = 1"
      "blake3 demo_codec = demo_hash"
    by (simp_all add: node_engine_with_def demo_state_def state_new_def node_block_def crystal_new_def mem_platform_with_def demo_codec_def)
  show ?thesis
    using reorg_returns_to_fork_point [OF node_healthy TrueI node_coherent E1, of "[node_block]" "crystal_new 0 zero_hash"] E1
    by (auto simp: s node_storage_parts node_engine_with_def node_block_def crystal_new_def)
qed

end
