(* ===== verification/Primus_Engine.thy ===== *)
theory Primus_Engine
  imports Primus_Processor
begin

text \<open>
  The engine \<open>primus-core/src/engine.rs\<close>: the genesis configuration, start-up, the genesis protocol,
  preparation of the next block, the epoch difficulty and mining. The readings of the wall clock,
  the contents of \<open>genesis.toml\<close> and the server seed from the environment are arguments.
\<close>

section \<open>Genesis configuration\<close>

record GenesisConfig =
  initial_supply :: u64
  g_timestamp :: u64
  server_seed_env :: string

text \<open>\<open>str::lines\<close>, \<open>str::trim\<close>, \<open>str::strip_prefix\<close>, \<open>str::parse::<u64>\<close> and \<open>str::trim_matches\<close> of the
  standard library.\<close>

fun str_lines :: "string \<Rightarrow> string list" where
  "str_lines [] = []"
| "str_lines (c # cs) =
     (if c = CHR 0x0A then [] # str_lines cs
      else (case str_lines cs of [] \<Rightarrow> [[c]] | l # ls \<Rightarrow> (c # l) # ls))"

definition is_space :: "char \<Rightarrow> bool" where
  "is_space c = List.member [CHR 0x09, CHR 0x0A, CHR 0x0B, CHR 0x0C, CHR 0x0D, CHR 0x20] c"

definition trim_by :: "(char \<Rightarrow> bool) \<Rightarrow> string \<Rightarrow> string" where
  "trim_by p s = rev (dropWhile p (rev (dropWhile p s)))"

definition strip_prefix :: "string \<Rightarrow> string \<Rightarrow> string option" where
  "strip_prefix p s = (if take (length p) s = p then Some (drop (length p) s) else None)"

definition digit_of :: "char \<Rightarrow> nat option" where
  "digit_of c = (let n = of_char c in if 48 \<le> n \<and> n \<le> 57 then Some (n - 48) else None)"

fun parse_digits :: "string \<Rightarrow> nat \<Rightarrow> nat option" where
  "parse_digits [] acc = Some acc"
| "parse_digits (c # cs) acc =
     (case digit_of c of
        None \<Rightarrow> None
      | Some d \<Rightarrow> if acc * 10 + d < 2 ^ 64 then parse_digits cs (acc * 10 + d) else None)"

definition parse_u64 :: "string \<Rightarrow> u64 option" where
  "parse_u64 s =
     (let t = (case s of c # cs \<Rightarrow> if c = CHR ''+'' then cs else s | [] \<Rightarrow> [])
      in if t = [] then None else map_option of_nat (parse_digits t 0))"

definition config_line :: "GenesisConfig \<Rightarrow> string \<Rightarrow> GenesisConfig" where
  "config_line c0 raw =
     (let line = trim_by is_space raw;
          c1 = (case strip_prefix ''initial_supply = '' line of
                  Some v \<Rightarrow> (case parse_u64 v of Some n \<Rightarrow> c0\<lparr>initial_supply := n\<rparr> | None \<Rightarrow> c0) | None \<Rightarrow> c0);
          c2 = (case strip_prefix ''timestamp = '' line of
                  Some v \<Rightarrow> (case parse_u64 v of Some n \<Rightarrow> c1\<lparr>g_timestamp := n\<rparr> | None \<Rightarrow> c1) | None \<Rightarrow> c1)
      in case strip_prefix ''server_seed_env = '' line of
           Some v \<Rightarrow> c2\<lparr>server_seed_env := trim_by (\<lambda>ch. ch = CHR 0x22) v\<rparr> | None \<Rightarrow> c2)"

definition genesis_default :: "string \<Rightarrow> GenesisConfig" where
  "genesis_default content =
     foldl config_line
       \<lparr>initial_supply = 1000000000, g_timestamp = 1735689600, server_seed_env = ''PRIMUS_SERVER_SEED''\<rparr>
       (str_lines content)"

section \<open>Start-up and genesis\<close>

definition genesis_crystal :: "GenesisConfig \<Rightarrow> hash32 \<Rightarrow> Crystal" where
  "genesis_crystal config rt =
     \<lparr>cr_index = 0, prev_hash = zero_hash, cr_timestamp = g_timestamp config, cr_nonce = 0, reactions = [],
      reactions_data = [], cumulative_energy = f32_zero, state_root = rt,
      final_temp = f32_lit 1000 1, final_entropy = f32_lit 5 10\<rparr>"

definition genesis_changeset :: "GenesisConfig \<Rightarrow> bytes \<Rightarrow> Changeset" where
  "genesis_changeset config architect =
     changeset_insert architect ((new_materialized architect Hydrogen)\<lparr>mass := initial_supply config\<rparr>) changeset_new"

definition try_auto_genesis :: "'t platform \<Rightarrow> GenesisConfig \<Rightarrow> 't PrimusEngine \<Rightarrow> ('t, unit) engined" where
  "try_auto_genesis P config E0 =
     (if atoms (state E0) \<noteq> [] then (Inr (), E0)
      else
        let cs = genesis_changeset config (eng_architect_pk E0);
            E1 = E0\<lparr>state := apply_changeset cs (state E0)\<rparr>
        in en_then (on_storage ''Genesis: failed to persist initial state''
                      (commit_changeset P cs (current_crystal_index (state E1))) E1) (\<lambda>_ E2.
             on_storage ''Genesis: failed to save crystal''
               (save_crystal P (genesis_crystal config (current_root (storage E2)))) E2))"

definition engine_new ::
  "'t platform \<Rightarrow> GenesisConfig \<Rightarrow> 't PrimusStorage \<Rightarrow> bytes \<Rightarrow> StateTree \<Rightarrow> ('t, unit) engined" where
  "engine_new P config S architect st =
     try_auto_genesis P config
       \<lparr>storage = S, state = st,
        chamber = chamber_new\<lparr>ch_temperature := gm_temperature (global_metrics st),
                              ch_entropy := gm_entropy (global_metrics st)\<rparr>,
        target_block_time = 10, eng_architect_pk = architect, is_syncing = False, sync_target = 0,
        epoch_difficulty = f32_lit 1 1\<rparr>"

text \<open>\<open>PrimusProcessor::new\<close>: load the atoms, the metrics and the height of the latest crystal.\<close>

definition processor_new ::
  "'t platform \<Rightarrow> GenesisConfig \<Rightarrow> 't PrimusStorage \<Rightarrow> bytes \<Rightarrow> string + ('t, unit) engined" where
  "processor_new P config S architect =
     and_then (get_all_atoms P S) (\<lambda>initial_atoms.
     and_then (get_global_metrics P S) (\<lambda>metrics.
       let st = state_load initial_atoms (case metrics of Some m \<Rightarrow> m | None \<Rightarrow> metrics_default) state_new;
           st1 = (case get_crystal_latest P S of
                    Inr (Some last_block) \<Rightarrow> st\<lparr>current_crystal_index := cr_index last_block\<rparr> | _ \<Rightarrow> st)
       in Inr (engine_new P config S architect st1)))"

section \<open>Preparing a block\<close>

definition next_timestamp :: "u64 \<Rightarrow> u64 \<Rightarrow> string + u64 \<Rightarrow> string + u64" where
  "next_timestamp parent block_time now =
     (if 0 < parent then Inr (parent + block_time) else context_msg ''System clock error'' now)"

definition block_difficulty :: "u64 \<Rightarrow> u64 \<Rightarrow> ReactionChamber \<Rightarrow> f32" where
  "block_difficulty time_diff block_time ch =
     (let d = fadd binary32 (if time_diff < block_time then f32_lit 12 10 else f32_lit 95 100)
                (fmul binary32 (ch_entropy ch) (f32_lit 5 1000))
      in if flt (f32_lit 100 1) (ch_temperature ch) then fmul binary32 d (f32_lit 15 10) else d)"

text \<open>\<open>now\<close> and \<open>now'\<close> are the two readings of the clock; the second defaults to zero on an error.\<close>

definition prepare_next_physical_state ::
  "'t platform \<Rightarrow> string + u64 \<Rightarrow> u64 \<Rightarrow> bytes \<Rightarrow> 't PrimusEngine
     \<Rightarrow> ('t, u64 \<times> hash32 \<times> f32 \<times> u64 \<times> GravityEngine) engined" where
  "prepare_next_physical_state P now now' seed E =
     (case context_msg ''prepare_next_physical_state: storage error'' (get_crystal_latest P (storage E)) of
        Inl e \<Rightarrow> (Inl e, E)
      | Inr last_block \<Rightarrow>
          let (last_index, prev, inherited, parent, ch) =
                (case last_block of
                   Some b \<Rightarrow> (cr_index b, calculate_density (blake3 (pf_nodes P)) b, cumulative_energy b,
                              cr_timestamp b, inherit_history b (chamber E))
                 | None \<Rightarrow> (0, zero_hash, f32_zero, 0, update_expansion (f32_lit 110 100) (chamber E)));
              E1 = E\<lparr>chamber := ch\<rparr>
          in case next_timestamp parent (target_block_time E1) now of
               Inl e \<Rightarrow> (Inl e, E1)
             | Inr ts \<Rightarrow>
                 let time_diff = (if 0 < parent then saturating_sub now' parent else target_block_time E1);
                     difficulty = block_difficulty time_diff (target_block_time E1) ch
                 in (Inr (last_index, prev, inherited, ts,
                          \<lparr>server_seed = seed, rtp = fmul binary32 (f32_lit 92 100) difficulty\<rparr>), E1))"

section \<open>Epoch difficulty\<close>

definition DIFFICULTY_EPOCH :: u64 where "DIFFICULTY_EPOCH = 100"
definition DIFFICULTY_CLAMP :: "f32 \<times> f32" where "DIFFICULTY_CLAMP = (f32_lit 25 100, f32_lit 64 1)"
definition MAX_NONCE_ATTEMPTS :: nat where "MAX_NONCE_ATTEMPTS = 100000"

definition timestamp_or_zero :: "string + Crystal option \<Rightarrow> u64" where
  "timestamp_or_zero r = (case r of Inr (Some c) \<Rightarrow> cr_timestamp c | _ \<Rightarrow> 0)"

definition calculate_epoch_difficulty :: "'t platform \<Rightarrow> 't PrimusEngine \<Rightarrow> f32" where
  "calculate_epoch_difficulty P E =
     (let current_height = current_crystal_index (state E)
      in if current_height < DIFFICULTY_EPOCH then epoch_difficulty E
         else
           let epoch_start = saturating_sub current_height DIFFICULTY_EPOCH;
               start_ts = timestamp_or_zero (get_crystal P (storage E) epoch_start);
               end_ts = timestamp_or_zero (get_crystal_latest P (storage E))
           in if start_ts = 0 \<or> end_ts \<le> start_ts then epoch_difficulty E
              else
                let elapsed = float_of_word binary32 (end_ts - start_ts);
                    ideal = fmul binary32 (float_of_word binary32 DIFFICULTY_EPOCH)
                              (float_of_word binary32 (target_block_time E));
                    ratio = fdiv binary32 ideal elapsed
                in fclamp (fmul binary32 (epoch_difficulty E) ratio) (fst DIFFICULTY_CLAMP) (snd DIFFICULTY_CLAMP))"

section \<open>Mining\<close>

definition build_mining_reward_rx :: "'t platform \<Rightarrow> 't PrimusEngine \<Rightarrow> u64 \<Rightarrow> SignedReaction option" where
  "build_mining_reward_rx P E idx =
     (case state_get_atom (state E) (eng_architect_pk E) of
        None \<Rightarrow> None
      | Some architect \<Rightarrow>
          Some \<lparr>sender = architect, receiver = architect,
                reaction_hash = mining_reward_hash (sha3_256 P) idx (eng_architect_pk E),
                energy = f32_zero, timestamp = 0, signature = [], payload = MiningReward 10\<rparr>)"

text \<open>The nonce loop: the crystal that is solved, if one of the attempts succeeds.\<close>

fun solve_nonce :: "(bytes \<Rightarrow> hash32) \<Rightarrow> f32 \<Rightarrow> f32 \<Rightarrow> nat \<Rightarrow> Crystal \<Rightarrow> Crystal option" where
  "solve_nonce hash_fn temp diff attempts c =
     (if attempts = 0 then None
      else if check_proof_of_work hash_fn c temp diff then Some c
      else solve_nonce hash_fn temp diff (attempts - 1) (c\<lparr>cr_nonce := cr_nonce c + 1\<rparr>))"

declare solve_nonce.simps [simp del]

definition candidate_crystal :: "u64 \<Rightarrow> hash32 \<Rightarrow> u64 \<Rightarrow> SignedReaction list \<Rightarrow> f32 \<Rightarrow> Crystal" where
  "candidate_crystal idx prev ts rxs eng =
     (crystal_new idx prev)\<lparr>cr_timestamp := ts, reactions_data := rxs, cumulative_energy := eng,
                            reactions := map reaction_hash rxs\<rparr>"

definition mine_block ::
  "'t platform \<Rightarrow> string + u64 \<Rightarrow> u64 \<Rightarrow> bytes \<Rightarrow> SignedReaction list \<Rightarrow> 't PrimusEngine
     \<Rightarrow> ('t, Crystal option) engined" where
  "mine_block P now now' seed rxs E0 =
     (let E1 = E0\<lparr>chamber := foldl (\<lambda>ch rx. inject_reaction rx ch) (chamber E0) rxs\<rparr>
      in en_then (prepare_next_physical_state P now now' seed E1) (\<lambda>(idx, prev, eng, ts, gravity) E2.
           let (candidates, ch) = synthesize_with_gravity (sha3_256 P) (ln_1p P) gravity prev (idx + 1) (chamber E2);
               E3 = E2\<lparr>chamber := ch\<rparr>;
               valid = filter (\<lambda>rx. is_ok (engine_execute P E3 [rx])) candidates;
               confirmed = (case build_mining_reward_rx P E3 (idx + 1) of Some r \<Rightarrow> r # valid | None \<Rightarrow> valid);
               crystal = candidate_crystal (idx + 1) prev ts confirmed eng;
               E4 = (if cr_index crystal mod DIFFICULTY_EPOCH = 0 \<and> 0 < cr_index crystal
                     then E3\<lparr>epoch_difficulty := calculate_epoch_difficulty P E3\<rparr> else E3)
           in case solve_nonce (blake3 (pf_nodes P)) (pow_temperature E4) (epoch_difficulty E4) MAX_NONCE_ATTEMPTS crystal of
                None \<Rightarrow> (Inr None, E4)
              | Some solved \<Rightarrow>
                  (case finalize_solidification P solved E4 of
                     (Inl e, E5) \<Rightarrow> (Inl (''Solidification failed: '' @ e), E5)
                   | (Inr c, E5) \<Rightarrow>
                       en_then (on_storage ''Sled flush failed after mine_block'' (storage_flush P None) E5) (\<lambda>_ E6.
                         (Inr (Some c), E6)))))"

end
