(* ===== verification/Engine_Claims.thy ===== *)
theory Engine_Claims
  imports Primus_Engine Demo_Node
begin

text \<open>
  What the engine guarantees: the genesis protocol starts a consistent node and runs once, the epoch
  difficulty stays within its clamp, and a mined crystal extends the chain.
\<close>

section \<open>Genesis\<close>

lemma changeset_ok_genesis: "changeset_ok (genesis_changeset config pk)"
  by (simp add: genesis_changeset_def changeset_ok_def changeset_insert_def changeset_new_def)

lemma inner_genesis:
  "inner (genesis_changeset config pk) = [(pk, (new_materialized pk Hydrogen)\<lparr>mass := initial_supply config\<rparr>)]"
  by (simp add: genesis_changeset_def changeset_insert_def changeset_new_def)

context core_platform
begin

lemma commit_single:
  assumes "healthy (mpt_store (st_mpt S))" and "mpt_root (st_mpt S) = None"
  shows "\<exists>ups t. prepare_updates P [(pk, a)] = Inr ups \<and>
     trie_insert_all (mpt_ops P) (map (\<lambda>u. (fst u, fst (snd u))) ups) (st_mpt S) = (Inr (), t)"
proof -
  obtain b where b: "ser_atom P a = Inr b" using atom_codec by blast
  let ?n = "Leaf (key_to_nibbles (trie_key_of P pk)) b"
  obtain s where "sled_insert (pf_sled P) (node_hash (pf_nodes P) ?n) (ser_node (pf_nodes P) ?n) (mpt_store (st_mpt S)) = (Inr (), s)"
    using sled_insert_law [OF assms(1)] by blast
  then have "trie_insert_all (mpt_ops P) [(trie_key_of P pk, b)] (st_mpt S)
      = (Inr (), \<lparr>mpt_root = Some (node_hash (pf_nodes P) ?n), mpt_store = s\<rparr>)"
    by (simp add: trie_insert_def assms(2) recursive_no_root MPT_FUEL_enough sled_put_node_def)
  then show ?thesis using b by simp
qed

lemma genesis_commits:
  assumes "healthy (db S)" and "healthy (gc_log S)" and "healthy (mpt_store (st_mpt S))" and "mpt_root (st_mpt S) = None"
  shows "\<exists>r S'. commit_changeset P (genesis_changeset config pk) idx S = (Inr r, S')"
proof -
  obtain ups t where "prepare_updates P (inner (genesis_changeset config pk)) = Inr ups"
      "trie_insert_all (mpt_ops P) (map (\<lambda>u. (fst u, fst (snd u))) ups) (st_mpt S) = (Inr (), t)"
    unfolding inner_genesis using commit_single [OF assms(3,4)] by blast
  then show ?thesis using commit_changeset_succeeds [OF assms(1,2)] by blast
qed

end

text \<open>C16. The genesis protocol succeeds on a healthy empty node and makes it a consistent one: the architect alone holds the
  initial supply, in memory and on disk, the genesis crystal with the root of that state is the
  latest crystal, and running the protocol again does nothing.\<close>

theorem genesis_establishes_node:
  assumes "core_platform P healthy" and "healthy (db (storage E))"
    and "atoms (state E) = []" and "\<And>pk. storage_get_atom P (storage E) pk = Inr None"
    and "healthy (gc_log (storage E))" and "healthy (mpt_store (st_mpt (storage E)))" and "mpt_root (st_mpt (storage E)) = None"
  shows "\<exists>E'. try_auto_genesis P config E = (Inr (), E') \<and> coherent P E'
    \<and> atoms (state E') = [(eng_architect_pk E, (new_materialized (eng_architect_pk E) Hydrogen)\<lparr>mass := initial_supply config\<rparr>)]
    \<and> get_crystal_latest P (storage E') = Inr (Some (genesis_crystal config (current_root (storage E'))))
    \<and> try_auto_genesis P config E' = (Inr (), E')"
proof -
  let ?cs = "genesis_changeset config (eng_architect_pk E)"
  let ?E1 = "E\<lparr>state := apply_changeset ?cs (state E)\<rparr>"
  obtain r S2 where c: "commit_changeset P ?cs (current_crystal_index (state ?E1)) (storage E) = (Inr r, S2)"
    using core_platform.genesis_commits [OF assms(1,2,5,6,7)] by blast
  note cd = core_platform.commit_changeset_done [OF assms(1,2) c]
  have h2: "healthy (db S2)" using cd by simp
  obtain d where d: "save_crystal P (genesis_crystal config (current_root S2)) S2 = (Inr (), S2\<lparr>db := d\<rparr>)" "healthy d"
      "unchanged P {3, 7} (db S2) d"
      "\<forall>T. db T = d \<longrightarrow> get_crystal P T (cr_index (genesis_crystal config (current_root S2)))
          = Inr (Some (genesis_crystal config (current_root S2)))"
      "tree_map P d latest_key = Some (to_le_bytes 8 (cr_index (genesis_crystal config (current_root S2))))"
    using core_platform.save_crystal_ex [OF assms(1) h2] by blast
  define S3 where S3: "S3 = S2\<lparr>db := d\<rparr>"
  define E' where E': "E' = ?E1\<lparr>storage := S3\<rparr>"
  have run: "try_auto_genesis P config E = (Inr (), E')"
    using assms(3) c d(1) by (simp add: try_auto_genesis_def Let_def on_storage_def context_msg_def E' S3)
  have ga: "storage_get_atom P S3 pk = storage_get_atom P S2 pk" for pk
    using core_platform.reads_unchanged(1) [OF assms(1) h2, of S3 "{3, 7}"] d(2,3) S3 by simp
  have "coherent P E'"
    using ga cd assms(3,4)
    by (simp add: E' coherent_def after_atoms_def state_get_atom_def apply_changeset_def inner_genesis)
  moreover have "get_crystal_latest P S3 = Inr (Some (genesis_crystal config (current_root S3)))"
    using core_platform.db_get_map [OF assms(1), of S3] d S3
    by (simp add: get_crystal_latest_def current_root_def genesis_crystal_def)
  moreover have "atoms (state E') = inner ?cs"
    using assms(3) by (simp add: E' apply_changeset_def inner_genesis)
  ultimately have "coherent P E' \<and> atoms (state E') = inner ?cs
      \<and> get_crystal_latest P (storage E') = Inr (Some (genesis_crystal config (current_root (storage E'))))"
    by (simp add: E')
  then show ?thesis
    using run by (intro exI [of _ E']) (simp add: inner_genesis try_auto_genesis_def [of _ _ E'])
qed

definition blank_engine :: "(bytes \<times> bytes) list PrimusEngine" where
  "blank_engine = \<lparr>storage = \<lparr>db = [], st_mpt = trie_new [], st_root = None, gc_log = []\<rparr>, state = state_new,
     chamber = chamber_new, target_block_time = 10, eng_architect_pk = [9], is_syncing = False, sync_target = 0,
     epoch_difficulty = f32_lit 1 1\<rparr>"

definition shipped_config :: GenesisConfig where
  "shipped_config = genesis_default (''initial_supply = 1000000000'' @ [CHR 0x0A] @ ''timestamp = 1735689600'')"

theorem genesis_establishes_node_witness:
  "\<exists>E'. try_auto_genesis mem_platform shipped_config blank_engine = (Inr (), E') \<and> coherent mem_platform E'
     \<and> map fst (atoms (state E')) = [[9]]"
proof -
  have "atoms (state blank_engine) = []" "\<And>pk. storage_get_atom mem_platform (storage blank_engine) pk = Inr None"
    "eng_architect_pk blank_engine = [9]" "mpt_root (st_mpt (storage blank_engine)) = None"
    by (simp_all add: blank_engine_def state_new_def storage_get_atom_def mp.db_get_with_map tree_map_mem trie_new_def)
  then show ?thesis
    using genesis_establishes_node [OF node_healthy TrueI _ _ TrueI TrueI, of blank_engine demo_hash shipped_config] by auto
qed

section \<open>Epoch difficulty\<close>

definition within_clamp :: "f32 \<Rightarrow> bool" where
  "within_clamp x = (fle (fst DIFFICULTY_CLAMP) x \<and> fle x (snd DIFFICULTY_CLAMP))"

lemma fround_not_NaN [simp]: "fround F s m e \<noteq> NaN"
  by (auto simp: fround_def split: prod.split)

lemma fmul_not_NaN: "fmul F (Fin s m e) y = NaN \<longleftrightarrow> y = NaN \<or> (m = 0 \<and> (\<exists>t. y = Inf t))"
  by (cases y) auto

lemma fle_refl_clamp: "fle (f32_lit 25 100) (f32_lit 64 1)" "flt f32_zero (f32_lit 25 100)"
  "f32_lit 25 100 = Fin False 8388608 (- 25)" "f32_lit 64 1 = Fin False 8388608 (- 17)"
  by code_simp+

lemma within_clamp_Fin:
  assumes "within_clamp x"
  obtains s m e where "x = Fin s m e" "m \<noteq> 0"
proof (cases x)
  case (Fin s m e)
  have "\<not> flt (Fin s m e) (Fin False 8388608 (- 25))"
    using assms Fin by (simp add: within_clamp_def DIFFICULTY_CLAMP_def fle_def fle_refl_clamp(3))
  then have "m \<noteq> 0" by (cases s) (auto simp: Let_def signed_mant_def)
  with Fin that show ?thesis by blast
qed (use assms in \<open>auto simp: within_clamp_def DIFFICULTY_CLAMP_def fle_def fle_refl_clamp(3,4)\<close>)

lemma fclamp_within: "x \<noteq> NaN \<Longrightarrow> within_clamp (fclamp x (fst DIFFICULTY_CLAMP) (snd DIFFICULTY_CLAMP))"
  using fle_refl_clamp(1) by (auto simp: within_clamp_def fclamp_def fle_def DIFFICULTY_CLAMP_def flt_irrefl)

lemma float_of_word_Fin:
  fixes w :: u64
  shows "\<exists>m e. float_of_word binary32 w = Fin False m e \<and> (w \<noteq> 0 \<longrightarrow> m \<noteq> 0)"
proof (cases "w = 0")
  case False
  then have w: "0 < uint w" "uint w < 2 ^ 64"
    using unsigned_less [of w, where ?'a = int] word_gt_0 [of w] by (simp_all add: word_less_def)
  obtain m' e' where r: "round_mant (prec binary32) (emin binary32) (uint w) 0 = (m', e')" by fastforce
  have b: "bit_length (uint w) \<le> 65" using bit_length_le [of "uint w" 64] w by simp
  have "e' \<le> emax binary32"
    using r b by (auto simp: round_mant_def round_exp_def Let_def split: if_splits)
  then have f: "float_of_word binary32 w = Fin False m' e'"
    using w r by (simp add: float_of_word_def float_of_int_def fround_def)
  have "rval 1 0 \<le> rval (uint w) 0" using w(1) by (simp add: rval_le_iff)
  then have "rval 1 0 \<le> rval m' e'"
    using round_mant_grid(1) [OF w(1) _ _ _ _ r, of 1 0] by simp
  then have "m' \<noteq> 0" by (auto simp: rval_def)
  with f show ?thesis by blast
qed (simp add: float_of_word_def float_of_int_def fround_def)

text \<open>The epoch difficulty stays within its clamp: from a value between 0.25 and 64 every
  recalculation, whatever the timestamps on the chain and the target block time, gives a value
  between 0.25 and 64; in particular it is never a NaN.\<close>

theorem epoch_difficulty_clamped:
  assumes "within_clamp (epoch_difficulty E)"
  shows "within_clamp (calculate_epoch_difficulty P E)"
proof -
  obtain s m e where d: "epoch_difficulty E = Fin s m e" "m \<noteq> 0" using assms by (rule within_clamp_Fin)
  have "fmul binary32 (epoch_difficulty E)
      (fdiv binary32 (fmul binary32 (float_of_word binary32 DIFFICULTY_EPOCH) (float_of_word binary32 (target_block_time E)))
         (float_of_word binary32 w)) \<noteq> NaN" if nz: "w \<noteq> 0" for w :: u64
  proof -
    obtain m1 e1 m2 e2 m3 e3 where f: "float_of_word binary32 DIFFICULTY_EPOCH = Fin False m1 e1"
        "float_of_word binary32 (target_block_time E) = Fin False m2 e2"
        "float_of_word binary32 w = Fin False m3 e3" "m3 \<noteq> 0"
      using float_of_word_Fin nz by metis
    have "fdiv binary32 x (Fin False m3 e3) \<noteq> NaN" if "x \<noteq> NaN" for x
      using that f(4) by (cases x) (auto simp: fround_ratio_def Let_def)
    then show ?thesis using f d by (simp add: fmul_not_NaN)
  qed
  then have "end_ts \<noteq> start_ts \<Longrightarrow> within_clamp (fclamp (fmul binary32 (epoch_difficulty E)
      (fdiv binary32 (fmul binary32 (float_of_word binary32 DIFFICULTY_EPOCH) (float_of_word binary32 (target_block_time E)))
         (float_of_word binary32 (end_ts - start_ts)))) (fst DIFFICULTY_CLAMP) (snd DIFFICULTY_CLAMP))" for end_ts start_ts :: u64
    by (intro fclamp_within) simp
  then show ?thesis using assms by (auto simp: calculate_epoch_difficulty_def Let_def)
qed

theorem epoch_difficulty_clamped_witness:
  "within_clamp (calculate_epoch_difficulty mem_platform blank_engine)"
proof (rule epoch_difficulty_clamped)
  have "within_clamp (f32_lit 1 1)" by code_simp
  then show "within_clamp (epoch_difficulty blank_engine)" by (simp add: blank_engine_def)
qed

section \<open>Mining\<close>

lemma solve_nonce_Some:
  "solve_nonce h temp diff n c = Some c' \<Longrightarrow>
     check_proof_of_work h c' temp diff \<and> (\<exists>k < n. c' = c\<lparr>cr_nonce := cr_nonce c + of_nat k\<rparr>)"
proof (induction n arbitrary: c)
  case (Suc n)
  show ?case
  proof (cases "check_proof_of_work h c temp diff")
    case True
    then show ?thesis using Suc.prems by (auto simp: solve_nonce.simps [of _ _ _ "Suc n"] intro!: exI [of _ 0])
  next
    case False
    with Suc.prems have "solve_nonce h temp diff n (c\<lparr>cr_nonce := cr_nonce c + 1\<rparr>) = Some c'"
      by (simp add: solve_nonce.simps [of _ _ _ "Suc n"])
    from Suc.IH [OF this] obtain k where "k < n" "c' = c\<lparr>cr_nonce := cr_nonce c + 1 + of_nat k\<rparr>"
        "check_proof_of_work h c' temp diff" by auto
    then show ?thesis by (intro conjI exI [of _ "Suc k"]) (simp_all add: ac_simps)
  qed
qed (simp add: solve_nonce.simps [of _ _ _ 0])

lemma prepare_next_done:
  assumes "prepare_next_physical_state P now now' seed E = (Inr (idx, prev, eng, ts, g), E')"
  shows "\<exists>ch. E' = E\<lparr>chamber := ch\<rparr>"
    and "get_crystal_latest P (storage E) = Inr (Some b) \<Longrightarrow>
      idx = cr_index b \<and> prev = calculate_density (blake3 (pf_nodes P)) b \<and> eng = cumulative_energy b
      \<and> (0 < cr_timestamp b \<longrightarrow> ts = cr_timestamp b + target_block_time E)"
  using assms
  by (auto simp: prepare_next_physical_state_def context_msg_def next_timestamp_def Let_def
      split: sum.splits option.splits prod.splits if_splits)

lemma mine_block_cases:
  assumes "mine_block P now now' seed rxs E = (Inr (Some c), E')"
  obtains idx prev eng ts g E2 confirmed E4 solved E5 where
    "prepare_next_physical_state P now now' seed (E\<lparr>chamber := foldl (\<lambda>ch rx. inject_reaction rx ch) (chamber E) rxs\<rparr>)
       = (Inr (idx, prev, eng, ts, g), E2)"
    "storage E4 = storage E2" "state E4 = state E2"
    "solve_nonce (blake3 (pf_nodes P)) (pow_temperature E4) (epoch_difficulty E4) MAX_NONCE_ATTEMPTS
       (candidate_crystal (idx + 1) prev ts confirmed eng) = Some solved"
    "finalize_solidification P solved E4 = (Inr c, E5)"
    "on_storage ''Sled flush failed after mine_block'' (storage_flush P None) E5 = (Inr (), E')"
proof -
  let ?E1 = "E\<lparr>chamber := foldl (\<lambda>ch rx. inject_reaction rx ch) (chamber E) rxs\<rparr>"
  obtain idx prev eng ts g E2 where pr: "prepare_next_physical_state P now now' seed ?E1 = (Inr (idx, prev, eng, ts, g), E2)"
    using assms by (auto simp: mine_block_def Let_def en_then_Inr)
  obtain candidates ch where sy: "synthesize_with_gravity (sha3_256 P) (ln_1p P) g prev (idx + 1) (chamber E2) = (candidates, ch)"
    by fastforce
  define E3 where "E3 = E2\<lparr>chamber := ch\<rparr>"
  define confirmed where "confirmed = (case build_mining_reward_rx P E3 (idx + 1) of
      Some r \<Rightarrow> r # filter (\<lambda>rx. is_ok (engine_execute P E3 [rx])) candidates
    | None \<Rightarrow> filter (\<lambda>rx. is_ok (engine_execute P E3 [rx])) candidates)"
  define crystal where "crystal = candidate_crystal (idx + 1) prev ts confirmed eng"
  define E4 where "E4 = (if cr_index crystal mod DIFFICULTY_EPOCH = 0 \<and> 0 < cr_index crystal
      then E3\<lparr>epoch_difficulty := calculate_epoch_difficulty P E3\<rparr> else E3)"
  have m: "(case solve_nonce (blake3 (pf_nodes P)) (pow_temperature E4) (epoch_difficulty E4) MAX_NONCE_ATTEMPTS crystal of
      None \<Rightarrow> (Inr None, E4)
    | Some solved \<Rightarrow>
        (case finalize_solidification P solved E4 of
           (Inl e, E5) \<Rightarrow> (Inl (''Solidification failed: '' @ e), E5)
         | (Inr c, E5) \<Rightarrow>
             en_then (on_storage ''Sled flush failed after mine_block'' (storage_flush P None) E5) (\<lambda>_ E6. (Inr (Some c), E6))))
     = (Inr (Some c), E')"
    using assms unfolding mine_block_def Let_def pr prod.case sum.case sy
      E3_def [symmetric] confirmed_def [symmetric] crystal_def [symmetric] E4_def [symmetric] by simp
  obtain solved where so: "solve_nonce (blake3 (pf_nodes P)) (pow_temperature E4) (epoch_difficulty E4) MAX_NONCE_ATTEMPTS crystal
      = Some solved" using m by (auto split: option.splits)
  obtain E5 where "finalize_solidification P solved E4 = (Inr c, E5)"
      "on_storage ''Sled flush failed after mine_block'' (storage_flush P None) E5 = (Inr (), E')"
    using m so by (auto simp: en_then_Inr split: prod.splits sum.splits)
  moreover have "storage E4 = storage E2" "state E4 = state E2" by (simp_all add: E4_def E3_def)
  ultimately show ?thesis using that pr so crystal_def by blast
qed

context core_platform
begin

lemma flush_engine:
  assumes "healthy (db (storage E))" and "on_storage msg (storage_flush P None) E = (Inr (), E')"
  shows "coherent P E' = coherent P E" "get_crystal_latest P (storage E') = get_crystal_latest P (storage E)"
    "current_root (storage E') = current_root (storage E)" "state E' = state E"
proof -
  obtain d where d: "storage_flush P None (storage E) = (Inr (), storage E\<lparr>db := d\<rparr>)" "healthy d"
      "tree_map P d = tree_map P (db (storage E))"
    using storage_flush_ok [OF assms(1)] by blast
  then have E': "E' = E\<lparr>storage := storage E\<lparr>db := d\<rparr>\<rparr>" using assms(2) by auto
  then show "coherent P E' = coherent P E" using d assms(1) by (simp add: coherent_mirrors)
  have "get_crystal P (storage E') = get_crystal P (storage E)"
    using d assms(1) by (simp add: E' fun_eq_iff get_crystal_def db_get_with_map)
  then show "get_crystal_latest P (storage E') = get_crystal_latest P (storage E)"
    using d assms(1) by (simp add: E' get_crystal_latest_def db_get_map split: option.split)
  show "current_root (storage E') = current_root (storage E)" "state E' = state E"
    by (simp_all add: E' current_root_def)
qed

end

text \<open>C15. A mined crystal extends the chain: it carries the index after the latest crystal, its hash as
  parent and its timestamp plus the block time; it is stored as the latest crystal with the root of
  the state it produces, memory and disk agree, and its nonce solves the proof of work for the header without the state root.\<close>

theorem mined_crystal_extends_chain:
  assumes "core_platform P healthy" and "healthy (db (storage E))" and "coherent P E"
    and "get_crystal_latest P (storage E) = Inr (Some b)"
    and "mine_block P now now' seed rxs E = (Inr (Some c), E')"
  shows "cr_index c = cr_index b + 1 \<and> prev_hash c = calculate_density (blake3 (pf_nodes P)) b
    \<and> (0 < cr_timestamp b \<longrightarrow> cr_timestamp c = cr_timestamp b + target_block_time E)
    \<and> reactions c = map reaction_hash (reactions_data c)
    \<and> get_crystal_latest P (storage E') = Inr (Some c) \<and> state_root c = current_root (storage E')
    \<and> current_crystal_index (state E') = cr_index c \<and> coherent P E'
    \<and> (\<exists>temp diff. check_proof_of_work (blake3 (pf_nodes P)) (c\<lparr>state_root := zero_hash\<rparr>) temp diff)"
proof -
  let ?E1 = "E\<lparr>chamber := foldl (\<lambda>ch rx. inject_reaction rx ch) (chamber E) rxs\<rparr>"
  obtain idx prev eng ts g E2 confirmed E4 solved E5 where
    pr: "prepare_next_physical_state P now now' seed ?E1 = (Inr (idx, prev, eng, ts, g), E2)"
    and E4: "storage E4 = storage E2" "state E4 = state E2"
    and so: "solve_nonce (blake3 (pf_nodes P)) (pow_temperature E4) (epoch_difficulty E4) MAX_NONCE_ATTEMPTS
        (candidate_crystal (idx + 1) prev ts confirmed eng) = Some solved"
    and fi: "finalize_solidification P solved E4 = (Inr c, E5)"
    and fl: "on_storage ''Sled flush failed after mine_block'' (storage_flush P None) E5 = (Inr (), E')"
    using assms(5) by (rule mine_block_cases)
  have E2: "storage E2 = storage E" "state E2 = state E"
    and ix: "idx = cr_index b" "prev = calculate_density (blake3 (pf_nodes P)) b"
      "0 < cr_timestamp b \<longrightarrow> ts = cr_timestamp b + target_block_time E"
    using prepare_next_done(1) [OF pr] prepare_next_done(2) [OF pr, of b] assms(4) by auto
  obtain k where s: "check_proof_of_work (blake3 (pf_nodes P)) solved (pow_temperature E4) (epoch_difficulty E4)"
      "solved = (candidate_crystal (idx + 1) prev ts confirmed eng)\<lparr>cr_nonce := of_nat k\<rparr>"
    using solve_nonce_Some [OF so] by (auto simp: candidate_crystal_def crystal_new_def)
  have h4: "healthy (db (storage E4))" "coherent P E4" using assms(2,3) E4 E2 by (simp_all add: coherent_def)
  obtain r where c: "c = solved\<lparr>state_root := r\<rparr>" "current_root (storage E5) = r" "healthy (db (storage E5))"
      "current_crystal_index (state E5) = cr_index solved"
    by (rule core_platform.finalize_done [OF assms(1) h4(1) fi]) auto
  have "c\<lparr>state_root := zero_hash\<rparr> = solved" using c(1) s(2) by (simp add: candidate_crystal_def crystal_new_def)
  then show ?thesis
    using core_platform.flush_engine [OF assms(1) c(3) fl] core_platform.finalize_coherent [OF assms(1) h4(1) fi h4(2)]
      core_platform.finalize_latest [OF assms(1) h4(1) fi] c s ix
    by (auto simp: candidate_crystal_def crystal_new_def)
qed

lemma synthesize_idle:
  "volatile_reactions ch = [] \<Longrightarrow> \<exists>ch'. synthesize_with_gravity sha3 lnf g prev idx ch = ([], ch')"
  by (simp add: synthesize_with_gravity_def calibrate_thermodynamics_def by_mass_def Let_def)

lemma volatile_inherit [simp]: "volatile_reactions (inherit_history c ch) = volatile_reactions ch"
  by (simp add: inherit_history_def Let_def)

lemma prepare_next_idle:
  assumes "get_crystal_latest P (storage E) = Inr (Some b)" and "0 < cr_timestamp b \<or> (\<exists>t. now = Inr t)"
  shows "\<exists>ts g. prepare_next_physical_state P now now' seed E
      = (Inr (cr_index b, calculate_density (blake3 (pf_nodes P)) b, cumulative_energy b, ts, g),
         E\<lparr>chamber := inherit_history b (chamber E)\<rparr>)"
  using assms by (auto simp: prepare_next_physical_state_def context_msg_def next_timestamp_def Let_def)

lemma execute_reward:
  assumes "state_get_atom (state E) (eng_architect_pk E) = Some a" and "public_key a = eng_architect_pk E"
    and "build_mining_reward_rx P E' idx = Some rx" and "atoms (state E') = atoms (state E)" "eng_architect_pk E' = eng_architect_pk E"
  shows "\<exists>a'. engine_execute P E [rx] = Inr (changeset_insert (eng_architect_pk E) a' changeset_new, f32_zero)"
proof -
  have "\<not> flt f32_zero f32_zero" by code_simp
  then show ?thesis
  using assms
  by (auto simp: engine_execute_def core_execute_payload_def execute_payload_def execute_single_def exec_mining_reward_def
      build_mining_reward_rx_def make_execution_context_def lookup_atom_def exec_start_def core_state_view_def result_simps state_get_atom_def changeset_get_def changeset_new_def)
qed

lemma zero_hash_meets:
  "check_proof_of_work (\<lambda>_. zero_hash) c temp diff"
proof -
  have "meets_target (replicate n 0) t" for n t
  proof (induction n arbitrary: t)
    case (Suc n)
    then show ?case by (cases t) (auto simp: word_gt_0)
  qed simp
  then show ?thesis by (simp add: check_proof_of_work_def calculate_density_def zero_hash_def)
qed

context core_platform
begin

lemma idle_mining_succeeds:
  assumes h: "healthy (db (storage E))" "healthy (gc_log (storage E))" "healthy (mpt_store (st_mpt (storage E)))"
    and root: "mpt_root (st_mpt (storage E)) = None"
    and b: "get_crystal_latest P (storage E) = Inr (Some b)" "0 < cr_timestamp b \<or> (\<exists>t. now = Inr t)" "cr_index b = 0"
    and arch: "state_get_atom (state E) (eng_architect_pk E) = Some a" "public_key a = eng_architect_pk E"
    and "volatile_reactions (chamber E) = []"
    and pow: "\<And>c temp diff. check_proof_of_work (blake3 (pf_nodes P)) c temp diff"
  shows "\<exists>c E'. mine_block P now now' seed [] E = (Inr (Some c), E')"
proof -
  obtain ts g where pr: "prepare_next_physical_state P now now' seed E
      = (Inr (0, calculate_density (blake3 (pf_nodes P)) b, cumulative_energy b, ts, g),
         E\<lparr>chamber := inherit_history b (chamber E)\<rparr>)"
    using prepare_next_idle [OF b(1,2)] b(3) by metis
  obtain ch where sy: "synthesize_with_gravity (sha3_256 P) (ln_1p P) g (calculate_density (blake3 (pf_nodes P)) b) 1
      (inherit_history b (chamber E)) = ([], ch)"
    using synthesize_idle assms(10) by fastforce
  let ?E = "E\<lparr>chamber := ch\<rparr>"
  obtain rx where rx: "build_mining_reward_rx P ?E 1 = Some rx"
    using arch(1) by (simp add: build_mining_reward_rx_def)
  let ?c = "candidate_crystal 1 (calculate_density (blake3 (pf_nodes P)) b) ts [rx] (cumulative_energy b)"
  have so: "solve_nonce (blake3 (pf_nodes P)) (pow_temperature ?E) (epoch_difficulty ?E) MAX_NONCE_ATTEMPTS ?c = Some ?c"
    using pow by (simp add: solve_nonce.simps MAX_NONCE_ATTEMPTS_def)
  have c: "cr_index ?c = 1" "reactions_data ?c = [rx]" "state_root ?c = zero_hash"
    by (simp_all add: candidate_crystal_def crystal_new_def)
  obtain a' where ex: "engine_execute P (set_index 1 ?E) [rx] = Inr (changeset_insert (eng_architect_pk E) a' changeset_new, f32_zero)"
    using execute_reward [of "set_index 1 ?E" a P ?E 1 rx] arch rx by (auto simp: state_get_atom_def)
  have i: "inner (changeset_insert (eng_architect_pk E) a' changeset_new) = [(eng_architect_pk E, a')]"
    by (simp add: changeset_insert_def changeset_new_def)
  obtain ups t where u: "prepare_updates P [(eng_architect_pk E, a')] = Inr ups"
      "trie_insert_all (mpt_ops P) (map (\<lambda>u. (fst u, fst (snd u))) ups) (st_mpt (storage E)) = (Inr (), t)"
    using commit_single [OF h(3) root] by blast
  obtain E5 where fi: "finalize_solidification P ?c ?E = (Inr (?c\<lparr>state_root := root_or_zero (mpt_root t)\<rparr>), E5)"
    using finalize_succeeds [of ?E ?c _ f32_zero ups t] h ex u c i by auto
  have "healthy (db (storage E5))" by (rule finalize_done [OF _ fi]) (use h in auto)
  then obtain d where "storage_flush P None (storage E5) = (Inr (), storage E5\<lparr>db := d\<rparr>)"
    using storage_flush_ok by blast
  then show ?thesis
    using pr sy rx so fi c by (simp add: mine_block_def Let_def on_storage_def context_msg_def DIFFICULTY_EPOCH_def)
qed

end

theorem mined_crystal_extends_chain_witness:
  "\<exists>c E'. mine_block (mem_platform_with (\<lambda>_. zero_hash)) (Inr 77) 77 [] [] (node_engine_with (\<lambda>_. zero_hash)) = (Inr (Some c), E')
     \<and> cr_index c = 1 \<and> get_crystal_latest (mem_platform_with (\<lambda>_. zero_hash)) (storage E') = Inr (Some c)"
proof -
  let ?h = "(\<lambda>_. zero_hash) :: bytes \<Rightarrow> hash32"
  have bl: "blake3 (pf_nodes (mem_platform_with ?h)) = ?h" by (simp add: mem_platform_with_def)
  have "\<exists>c E'. mine_block (mem_platform_with ?h) (Inr 77) 77 [] [] (node_engine_with ?h) = (Inr (Some c), E')"
    by (rule mp.idle_mining_succeeds [where b = "crystal_new 0 zero_hash" and a = demo_architect])
      (simp_all add: node_engine_with_def node_storage_parts trie_new_def crystal_new_def chamber_new_def demo_state_def
        state_get_atom_def zero_hash_meets bl demo_architect_def new_receiver_def new_materialized_def)
  then obtain c E' where m: "mine_block (mem_platform_with ?h) (Inr 77) 77 [] [] (node_engine_with ?h) = (Inr (Some c), E')" by blast
  have l: "get_crystal_latest (mem_platform_with ?h) (storage (node_engine_with ?h)) = Inr (Some (crystal_new 0 zero_hash))"
    by (simp add: node_engine_with_def node_storage_parts)
  show ?thesis
    using mined_crystal_extends_chain [OF node_healthy TrueI node_coherent(1) l m] m by (auto simp: crystal_new_def)
qed

end
