(* ===== verification/Primus_Mempool.thy ===== *)
theory Primus_Mempool
  imports Primus_Storage
begin

text \<open>
  The mempool \<open>primus-storage/src/mempool_v2.rs\<close>: 256 sectors, each with a sled tree of reactions by
  hash and a tree that orders the hashes by energy and age. The sled trees, the bincode codec of
  reactions and the rkyv check are third-party: the record \<open>mempool_env\<close> holds their operations, and
  the locale \<open>tree_contract\<close> what the code relies on, that a tree is an ordered map.
\<close>

section \<open>The environment\<close>

record 't tree_ops =
  tr_len :: "'t \<Rightarrow> nat"
  tr_contains :: "'t \<Rightarrow> bytes \<Rightarrow> string + bool"
  tr_insert :: "bytes \<Rightarrow> bytes \<Rightarrow> 't \<Rightarrow> ('t, unit) io"
  tr_remove :: "bytes \<Rightarrow> 't \<Rightarrow> ('t, bytes option) io"
  tr_iter :: "'t \<Rightarrow> (string + bytes \<times> bytes) list"

record 't mempool_env =
  mp_tree :: "'t tree_ops"
  mp_sha3 :: "bytes \<Rightarrow> hash32"
  ser_reaction :: "SignedReaction \<Rightarrow> string + bytes"
  de_reaction :: "bytes \<Rightarrow> string + SignedReaction"
  check_reaction :: "bytes \<Rightarrow> SignedReaction option"

section \<open>The mempool\<close>

record 't SectoralMempool =
  sectors :: "(u8, 't \<times> 't) btree"
  max_sector_capacity :: u64

fun open_sectors ::
  "(bytes \<Rightarrow> string + 't) \<Rightarrow> nat list \<Rightarrow> (u8, 't \<times> 't) btree \<Rightarrow> string + (u8, 't \<times> 't) btree" where
  "open_sectors open_tree [] m = Inr m"
| "open_sectors open_tree (i # is) m =
     and_then (open_tree (ascii ''v2_data_s'' @ decimal i)) (\<lambda>data_tree.
     and_then (open_tree (ascii ''v2_weights_s'' @ decimal i)) (\<lambda>weight_tree.
       open_sectors open_tree is (bt_insert (of_nat i) (data_tree, weight_tree) m)))"

definition mempool_new :: "(bytes \<Rightarrow> string + 't) \<Rightarrow> string + 't SectoralMempool" where
  "mempool_new open_tree =
     and_then (open_sectors open_tree [0 ..< 256] []) (\<lambda>m.
       Inr \<lparr>sectors = m, max_sector_capacity = 1000000\<rparr>)"

definition weight_key :: "f32 \<Rightarrow> u64 \<Rightarrow> bytes" where
  "weight_key eng ts = to_be_bytes 4 (f32_bits eng) @ to_be_bytes 8 (- 1 - ts)"

definition set_sector :: "u8 \<Rightarrow> 't \<times> 't \<Rightarrow> 't SectoralMempool \<Rightarrow> 't SectoralMempool" where
  "set_sector sid trees mp = mp\<lparr>sectors := bt_insert sid trees (sectors mp)\<rparr>"

text \<open>\<open>now\<close> is the wall clock in seconds, or the error of a clock before the epoch.\<close>

definition push ::
  "'t mempool_env \<Rightarrow> string + u64 \<Rightarrow> SignedReaction \<Rightarrow> 't SectoralMempool
     \<Rightarrow> (string + bool) \<times> 't SectoralMempool" where
  "push M now rx mp =
     (case validate_structure (mp_sha3 M) rx of
        Inl _ \<Rightarrow> (Inl ''Mempool: Structural validation failed'', mp)
      | Inr _ \<Rightarrow>
          let sector_id = sector (sender rx); T = mp_tree M
          in case bt_get (sectors mp) sector_id of
               None \<Rightarrow> (Inl ''MempoolV2: Sector out of range'', mp)
             | Some (data_tree, weight_tree) \<Rightarrow>
                 if unat (max_sector_capacity mp) \<le> tr_len T data_tree
                 then (Inl ''Mempool: Sector at maximum capacity'', mp)
                 else (case tr_contains T data_tree (reaction_hash rx) of
                     Inl e \<Rightarrow> (Inl e, mp)
                   | Inr found \<Rightarrow>
                       if found then (Inr False, mp)
                       else (case now of
                           Inl e \<Rightarrow> (Inl e, mp)
                         | Inr ts \<Rightarrow>
                             (case ser_reaction M rx of
                                Inl e \<Rightarrow> (Inl e, mp)
                              | Inr rx_data \<Rightarrow>
                                  (case tr_insert T (reaction_hash rx) rx_data data_tree of
                                     (Inl e, d) \<Rightarrow> (Inl e, set_sector sector_id (d, weight_tree) mp)
                                   | (Inr _, d) \<Rightarrow>
                                       (case tr_insert T (weight_key (energy rx) ts) (reaction_hash rx) weight_tree of
                                          (Inl e, w) \<Rightarrow> (Inl e, set_sector sector_id (d, w) mp)
                                        | (Inr _, w) \<Rightarrow> (Inr True, set_sector sector_id (d, w) mp)))))))"

definition push_bytes ::
  "'t mempool_env \<Rightarrow> string + u64 \<Rightarrow> bytes \<Rightarrow> 't SectoralMempool \<Rightarrow> (string + bool) \<times> 't SectoralMempool" where
  "push_bytes M now bs mp =
     (case from_bytes_zero_copy (check_reaction M) bs of
        Inl _ \<Rightarrow> (Inl ''Mempool Zero-Copy: rkyv validation failed'', mp)
      | Inr archived \<Rightarrow>
          (case archived_validate_structure (mp_sha3 M) archived of
             Inl _ \<Rightarrow> (Inl ''Mempool Zero-Copy: structural invalidity'', mp)
           | Inr _ \<Rightarrow> push M now archived mp))"

text \<open>The entries of the index are taken out in turn; a reaction that is missing or does not decode is dropped.\<close>

fun drain_entries ::
  "'t mempool_env \<Rightarrow> (bytes \<times> bytes) list \<Rightarrow> 't \<times> 't \<Rightarrow> SignedReaction list \<times> ('t \<times> 't)" where
  "drain_entries M [] trees = ([], trees)"
| "drain_entries M ((wk, h) # entries) (data_tree, weight_tree) =
     (case tr_remove (mp_tree M) h data_tree of
        (r, d) \<Rightarrow>
          let taken = (case r of
                         Inr (Some b) \<Rightarrow> (case de_reaction M b of Inr rx \<Rightarrow> [rx] | Inl _ \<Rightarrow> [])
                       | _ \<Rightarrow> []);
              (_, w) = tr_remove (mp_tree M) wk weight_tree;
              (rest, trees) = drain_entries M entries (d, w)
          in (taken @ rest, trees))"

definition drain_resonant ::
  "'t mempool_env \<Rightarrow> u8 \<Rightarrow> nat \<Rightarrow> 't SectoralMempool \<Rightarrow> SignedReaction list \<times> 't SectoralMempool" where
  "drain_resonant M drift limit mp =
     (case bt_get (sectors mp) drift of
        None \<Rightarrow> ([], mp)
      | Some (data_tree, weight_tree) \<Rightarrow>
          let entries = List.map_filter (\<lambda>r. case r of Inr e \<Rightarrow> Some e | Inl _ \<Rightarrow> None)
                          (take limit (rev (tr_iter (mp_tree M) weight_tree)));
              (results, trees) = drain_entries M entries (data_tree, weight_tree)
          in (results, set_sector drift trees mp))"

end
