(* ===== verification/Mempool_Correct.thy ===== *)
theory Mempool_Correct
  imports Primus_Mempool
begin

text \<open>
  What the mempool guarantees over trees that are ordered maps: the byte order of the index keys is
  the order by energy and age, the index and the data stay in agreement under every operation, and a
  drain hands out the reactions of highest energy once.
\<close>

section \<open>The order of byte strings\<close>

lemma append_less_append:
  fixes xs ys :: "'a::linorder list"
  assumes "length xs = length ys"
  shows "xs @ us < ys @ vs \<longleftrightarrow> xs < ys \<or> xs = ys \<and> us < vs"
  using assms by (induction xs ys rule: list_induct2) auto

lemma word_less_split:
  fixes v w :: "'a::len word"
  shows "v < w \<longleftrightarrow> drop_bit 8 v < drop_bit 8 w \<or> drop_bit 8 v = drop_bit 8 w \<and> take_bit 8 v < take_bit 8 w"
proof -
  have d: "unat (drop_bit 8 x) = unat x div 256" "unat (take_bit 8 x) = unat x mod 256" for x :: "'a word"
    by (simp_all only: unat_drop_bit_eq unsigned_take_bit_eq) (simp_all add: drop_bit_eq_div take_bit_eq_mod)
  have n: "(a :: nat) < b \<longleftrightarrow> a div 256 < b div 256 \<or> a div 256 = b div 256 \<and> a mod 256 < b mod 256" for a b
    using div_mult_mod_eq [of a 256] div_mult_mod_eq [of b 256] mod_less_divisor [of 256 a] mod_less_divisor [of 256 b] by linarith
  show ?thesis unfolding word_less_nat_alt word_unat_eq_iff d by (rule n)
qed

lemma to_be_bytes_Suc: "to_be_bytes (Suc n) w = to_be_bytes n (drop_bit 8 w) @ [ucast w]"
  by (simp add: to_be_bytes_def to_le_bytes_Suc)

lemma ucast_u8_less: "(ucast v :: u8) < ucast w \<longleftrightarrow> take_bit 8 v < take_bit 8 (w :: 'a::len word)"
  by (simp add: word_less_nat_alt unsigned_ucast_eq unsigned_take_bit_eq)

lemma drop_bit_all: "LENGTH('a) \<le> n \<Longrightarrow> drop_bit n (w :: 'a::len word) = 0"
  by (rule bit_word_eqI) (simp add: bit_simps)

lemma to_be_bytes_less:
  fixes v w :: "'a::len word"
  shows "drop_bit (8 * n) v = drop_bit (8 * n) w \<Longrightarrow> to_be_bytes n v < to_be_bytes n w \<longleftrightarrow> v < w"
proof (induction n arbitrary: v w)
  case (Suc n)
  have *: "drop_bit (8 * n) (drop_bit 8 v) = drop_bit (8 * n) (drop_bit 8 w)"
    using Suc.prems by (simp add: add.commute)
  note IH = Suc.IH [OF *]
  have eq: "to_be_bytes n (drop_bit 8 v) = to_be_bytes n (drop_bit 8 w) \<longleftrightarrow> drop_bit 8 v = drop_bit 8 w"
    using IH Suc.IH [OF * [symmetric]] by (cases "drop_bit 8 v" "drop_bit 8 w" rule: linorder_cases) auto
  show ?case
    unfolding to_be_bytes_Suc append_less_append [OF trans [OF length_to_be_bytes length_to_be_bytes [symmetric]]] IH eq
    by (simp add: ucast_u8_less word_less_split [of v w])
qed simp

lemma be_bytes_less [simp]:
  "to_be_bytes 4 v < to_be_bytes 4 (w :: u32) \<longleftrightarrow> v < w"
  "to_be_bytes 8 a < to_be_bytes 8 (b :: u64) \<longleftrightarrow> a < b"
  by (simp_all add: to_be_bytes_less drop_bit_all)

section \<open>The order of energies\<close>

fun is_f32 :: "rfloat \<Rightarrow> bool" where
  "is_f32 (Fin s m e) = (0 \<le> m \<and> m < 2 ^ 24 \<and> - 149 \<le> e \<and> e \<le> 104 \<and> (m < 2 ^ 23 \<longrightarrow> e = - 149))"
| "is_f32 _ = True"

definition bits_key :: "int \<Rightarrow> int \<Rightarrow> int" where
  "bits_key m e = (if m < 2 ^ 23 then m else (e + 150) * 2 ^ 23 + (m - 2 ^ 23))"

lemma bits_key_less:
  assumes "is_f32 (Fin False m e)" and "is_f32 (Fin False n f)" and "rval m e < rval n f"
  shows "bits_key m e < bits_key n f"
proof -
  consider "e = f" | "e < f" | "f < e" by linarith
  then show ?thesis
  proof cases
    case 1
    then show ?thesis using assms by (auto simp: bits_key_def rval_less_iff)
  next
    case 2
    then have "(e + 1) * 2 ^ 23 \<le> f * 2 ^ 23" by simp
    then show ?thesis using assms 2 by (auto simp: bits_key_def algebra_simps)
  next
    case 3
    then have m: "2 ^ 23 \<le> m" using assms by (cases "m < 2 ^ 23") auto
    have "rval n f < rval (2 ^ 23) (f + 1)"
      using rval_less_iff [of n f "2 ^ 24"] rval_shift [of 1 "2 ^ 23" f] assms(2) by simp
    also have "\<dots> \<le> rval (2 ^ 23) e"
      using 3 power_int_increasing [of "f + 1" e "2 :: real"] by (simp add: rval_def)
    also have "\<dots> \<le> rval m e" using m by (simp add: rval_le_iff)
    finally show ?thesis using assms(3) by simp
  qed
qed


lemma bits_key_bounds:
  assumes "is_f32 (Fin False m e)" shows "0 \<le> bits_key m e" "bits_key m e < 0x7F800000"
proof -
  have "0 \<le> (e + 150) * 2 ^ 23" "(e + 150) * 2 ^ 23 \<le> 254 * 2 ^ 23"
    using assms by (intro mult_nonneg_nonneg mult_right_mono; simp)+
  then show "0 \<le> bits_key m e" "bits_key m e < 0x7F800000"
    using assms by (auto simp: bits_key_def)
qed

lemma f32_bits_Fin: "is_f32 (Fin False m e) \<Longrightarrow> uint (f32_bits (Fin False m e)) = bits_key m e"
  using bits_key_bounds [of m e] by (simp add: f32_bits_def bits_key_def uint_word_of_int)

text \<open>A fee at or above the floor is a positive number or the positive infinity.\<close>

definition positive :: "f32 \<Rightarrow> bool" where
  "positive x = (case x of NaN \<Rightarrow> False | Inf s \<Rightarrow> \<not> s | Fin s m e \<Rightarrow> \<not> s)"

lemma f32_bits_mono:
  assumes "is_f32 x" "is_f32 y" "positive x" "positive y" "flt x y"
  shows "f32_bits x < f32_bits y"
proof (cases x)
  case x: (Fin s m e)
  then have s: "x = Fin False m e" using assms(3) by (simp add: positive_def)
  show ?thesis
  proof (cases y)
    case y: (Fin t n f)
    then have t: "y = Fin False n f" using assms(4) by (simp add: positive_def)
    have "rval m e < rval n f" using assms(5) flt_Fin_iff [of False m e False n f] s t by (simp add: fval_def signed_mant_def del: flt.simps)
    then show ?thesis using bits_key_less assms(1,2) s t by (simp add: word_less_def f32_bits_Fin del: is_f32.simps)
  next
    case (Inf b)
    then show ?thesis
      using assms(1,4) bits_key_bounds(2) [of m e] s
      by (simp add: word_less_def f32_bits_Fin positive_def del: is_f32.simps) (simp add: f32_bits_def)
  qed (use assms in \<open>auto simp: positive_def\<close>)
qed (use assms in \<open>cases y; auto simp: positive_def\<close>)+

lemma canon_encode_negative: "canon_encode (Fin True m e) = 0"
proof -
  obtain n f where n: "float_of_word binary64 FIXED_POINT_SCALE = Fin False n f" "0 \<le> n" "rval n f = 1000000000"
    using scale_float by auto
  then have "n \<noteq> 0" by (auto simp: rval_def)
  define z where "z = fmul binary64 (fcast binary64 (Fin True m e)) (Fin False n f)"
  have "z = Inf True \<or> (\<exists>k l. z = Fin True k l \<and> 0 \<le> k)"
  proof (cases "fround binary64 True m e")
    case (Fin s k l)
    then have "z = fround binary64 True (k * n) (l + f)"
      using fround_Fin_nonneg [OF Fin] by (simp add: z_def fcast_def)
    then show ?thesis using fround_cases [of binary64 True "k * n" "l + f"] fround_Fin_nonneg by metis
  qed (use fround_cases [of binary64 True m e] \<open>n \<noteq> 0\<close> in \<open>auto simp: z_def fcast_def\<close>)
  then show ?thesis
  proof (elim disjE exE conjE)
    fix k l assume z: "z = Fin True k l" "0 \<le> k"
    have lt: "flt (Fin True k l) (Fin False (2 ^ 52) 12)" "flt f64_zero (Fin False (2 ^ 52) 12)"
      using z(2) by (auto simp: Let_def signed_mant_def intro: order.strict_trans1 [of _ 0])
    then show ?thesis
      using z n(1) by (auto simp: canon_encode_def fmax_def Let_def fle_def u64_max_float z_def [symmetric] float_to_u64_def float_to_uint_def
          trunc_mant_def simp del: flt.simps)
  qed (use n(1) in \<open>simp add: canon_encode_def fmax_def Let_def fle_def u64_max_float z_def [symmetric] float_to_u64_def
          float_to_uint_def trunc_mant_def signed_mant_def\<close>)
qed

lemma fee_positive:
  assumes "PROTOCOL_MIN_FEE \<le> canon_encode x" shows "positive x"
proof (cases x)
  case (Fin s m e)
  with assms show ?thesis by (cases s) (auto simp: positive_def PROTOCOL_MIN_FEE_def canon_encode_negative)
next
  case (Inf s)
  with assms show ?thesis by (cases s) (auto simp: positive_def PROTOCOL_MIN_FEE_def)
qed (use assms in \<open>simp add: PROTOCOL_MIN_FEE_def\<close>)

lemma be_bytes_eq [simp]:
  "to_be_bytes 4 v = to_be_bytes 4 (w :: u32) \<longleftrightarrow> v = w"
  "to_be_bytes 8 a = to_be_bytes 8 (b :: u64) \<longleftrightarrow> a = b"
  using to_le_bytes_inj [of 4 v w] to_le_bytes_inj [of 8 a b] by (auto simp: to_be_bytes_def)

lemma weight_key_less:
  "weight_key e t < weight_key e' t' \<longleftrightarrow> f32_bits e < f32_bits e' \<or> f32_bits e = f32_bits e' \<and> t' < t"
proof -
  have "(- 1 - t < - 1 - t') \<longleftrightarrow> t' < (t :: u64)"
    using uint_lt2p [of t] uint_lt2p [of t']
    by (simp add: word_less_def uint_sub_if' unsigned_minus_1_eq_mask mask_eq_exp_minus_1)
  then show ?thesis by (simp add: weight_key_def append_less_append)
qed

section \<open>Trees are ordered maps\<close>

text \<open>A sector: every stored value is a reaction of the sector that passed validation, under its
  hash; every entry of the index has the key of a stored reaction, and none has two entries.\<close>

definition stored :: "'t mempool_env \<Rightarrow> u8 \<Rightarrow> bytes \<Rightarrow> bytes \<Rightarrow> SignedReaction \<Rightarrow> bool" where
  "stored M sid h b rx \<longleftrightarrow> de_reaction M b = Inr rx \<and> reaction_hash rx = h \<and> sector (sender rx) = sid
     \<and> validate_structure (mp_sha3 M) rx = Inr () \<and> is_f32 (energy rx)"

definition sector_ok ::
  "'t mempool_env \<Rightarrow> ('t \<Rightarrow> bool) \<Rightarrow> ('t \<Rightarrow> (bytes, bytes) btree) \<Rightarrow> nat \<Rightarrow> u8 \<Rightarrow> 't \<times> 't \<Rightarrow> bool" where
  "sector_ok M healthy contents cap sid trees \<longleftrightarrow> healthy (fst trees) \<and> healthy (snd trees)
     \<and> length (contents (fst trees)) \<le> cap
     \<and> (\<forall>(h, b) \<in> set (contents (fst trees)). \<exists>rx. stored M sid h b rx)
     \<and> (\<forall>(wk, h) \<in> set (contents (snd trees)). \<exists>b rx ts. bt_get (contents (fst trees)) h = Some b
           \<and> stored M sid h b rx \<and> wk = weight_key (energy rx) ts)
     \<and> distinct (map snd (contents (snd trees)))"

definition mempool_ok ::
  "'t mempool_env \<Rightarrow> ('t \<Rightarrow> bool) \<Rightarrow> ('t \<Rightarrow> (bytes, bytes) btree) \<Rightarrow> 't SectoralMempool \<Rightarrow> bool" where
  "mempool_ok M healthy contents mp \<longleftrightarrow> (\<forall>sid. \<exists>trees. bt_get (sectors mp) sid = Some trees
     \<and> sector_ok M healthy contents (unat (max_sector_capacity mp)) sid trees)"

text \<open>What a sector holds: the reaction stored under a hash, and the hashes in the order of the index.\<close>

definition pool_data :: "('t \<Rightarrow> (bytes, bytes) btree) \<Rightarrow> 't SectoralMempool \<Rightarrow> u8 \<Rightarrow> (bytes, bytes) btree" where
  "pool_data contents mp sid = (case bt_get (sectors mp) sid of None \<Rightarrow> [] | Some (d, w) \<Rightarrow> contents d)"

definition pool_index :: "('t \<Rightarrow> (bytes, bytes) btree) \<Rightarrow> 't SectoralMempool \<Rightarrow> u8 \<Rightarrow> (bytes, bytes) btree" where
  "pool_index contents mp sid = (case bt_get (sectors mp) sid of None \<Rightarrow> [] | Some (d, w) \<Rightarrow> contents w)"

lemma pool_simps [simp]:
  "bt_get (sectors mp) sid = Some (d, w) \<Longrightarrow> pool_data contents mp sid = contents d"
  "bt_get (sectors mp) sid = Some (d, w) \<Longrightarrow> pool_index contents mp sid = contents w"
  "pool_data contents (set_sector sid' (d, w) mp) sid = (if sid = sid' then contents d else pool_data contents mp sid)"
  "pool_index contents (set_sector sid' (d, w) mp) sid = (if sid = sid' then contents w else pool_index contents mp sid)"
  by (simp_all add: pool_data_def pool_index_def set_sector_def)

locale tree_contract =
  fixes M :: "'t mempool_env"
    and healthy :: "'t \<Rightarrow> bool"
    and contents :: "'t \<Rightarrow> (bytes, bytes) btree"
  assumes contents_ordered: "healthy t \<Longrightarrow> bt_ordered (contents t)"
    and len_law: "healthy t \<Longrightarrow> tr_len (mp_tree M) t = length (contents t)"
    and contains_law: "healthy t \<Longrightarrow> tr_contains (mp_tree M) t k = Inr (bt_get (contents t) k \<noteq> None)"
    and insert_law: "healthy t \<Longrightarrow> \<exists>t'. tr_insert (mp_tree M) k v t = (Inr (), t') \<and> healthy t'
          \<and> contents t' = bt_insert k v (contents t)"
    and remove_law: "healthy t \<Longrightarrow> \<exists>t'. tr_remove (mp_tree M) k t = (Inr (bt_get (contents t) k), t') \<and> healthy t'
          \<and> contents t' = bt_remove k (contents t)"
    and iter_law: "healthy t \<Longrightarrow> tr_iter (mp_tree M) t = map Inr (contents t)"
    and reaction_codec: "\<exists>b. ser_reaction M rx = Inr b \<and> de_reaction M b = Inr rx"
begin

lemma mempool_ok_set:
  "mempool_ok M healthy contents mp \<Longrightarrow> sector_ok M healthy contents (unat (max_sector_capacity mp)) sid trees \<Longrightarrow> mempool_ok M healthy contents (set_sector sid trees mp)"
  by (cases trees) (simp add: mempool_ok_def set_sector_def)

lemma sector_okD:
  assumes "sector_ok M healthy contents cap sid (d, w)"
  shows "healthy d" "healthy w" "length (contents d) \<le> cap"
    "bt_get (contents d) h = Some b \<Longrightarrow> \<exists>rx. stored M sid h b rx"
    "(wk, h) \<in> set (contents w) \<Longrightarrow> \<exists>b rx ts. bt_get (contents d) h = Some b \<and> stored M sid h b rx \<and> wk = weight_key (energy rx) ts"
    "distinct (map snd (contents w))"
  using assms map_of_SomeD [of "contents d" h b] by (auto simp: sector_ok_def)

lemma length_bt_insert_le: "length (bt_insert k v m) \<le> Suc (length m)"
  by (induction k v m rule: bt_insert.induct) auto

lemma set_bt_insert: "set (bt_insert k v m) \<subseteq> insert (k, v) (set m)"
  by (induction k v m rule: bt_insert.induct) auto

lemma distinct_snd_insert:
  "distinct (map snd m) \<Longrightarrow> v \<notin> snd ` set m \<Longrightarrow> distinct (map snd (bt_insert k v m))"
proof (induction k v m rule: bt_insert.induct)
  case (2 k v k' v' m)
  then show ?case using set_bt_insert [of k v m] by auto
qed simp

lemma sector_ok_insert:
  assumes ok: "sector_ok M healthy contents cap sid (d, w)" and new: "bt_get (contents d) (reaction_hash rx) = None"
    and room: "length (contents d) < cap" and rx: "stored M sid (reaction_hash rx) b rx"
    and d': "healthy d'" "contents d' = bt_insert (reaction_hash rx) b (contents d)"
    and w': "healthy w'" "contents w' = bt_insert (weight_key (energy rx) ts) (reaction_hash rx) (contents w)"
  shows "sector_ok M healthy contents cap sid (d', w')"
proof -
  note okD = sector_okD [OF ok]
  have old: "reaction_hash rx \<notin> snd ` set (contents w)"
    using okD(5) new by fastforce
  have "\<exists>b rx' ts'. bt_get (contents d') h = Some b \<and> stored M sid h b rx' \<and> wk = weight_key (energy rx') ts'"
    if "(wk, h) \<in> set (contents w')" for wk h
  proof -
    have "(wk, h) = (weight_key (energy rx) ts, reaction_hash rx) \<or> (wk, h) \<in> set (contents w)"
      using that w'(2) set_bt_insert by fastforce
    then show ?thesis using okD(5) [of wk h] rx old d'(2) by (cases "h = reaction_hash rx") force+
  qed
  moreover have "\<exists>rx'. stored M sid h b' rx'" if "(h, b') \<in> set (contents d')" for h b'
  proof -
    have "(h, b') = (reaction_hash rx, b) \<or> (h, b') \<in> set (contents d)"
      using that d'(2) set_bt_insert by fastforce
    then show ?thesis using rx ok by (auto simp: sector_ok_def)
  qed
  moreover have "length (contents d') \<le> cap" "distinct (map snd (contents w'))"
    using okD(6) old d' w' room length_bt_insert_le [of "reaction_hash rx" b "contents d"] distinct_snd_insert by auto
  ultimately show ?thesis using d'(1) w'(1) by (auto simp: sector_ok_def)
qed

lemma mempool_sector:
  assumes "mempool_ok M healthy contents mp"
  obtains d w where "bt_get (sectors mp) sid = Some (d, w)" "sector_ok M healthy contents (unat (max_sector_capacity mp)) sid (d, w)"
  using assms unfolding mempool_ok_def by (metis surj_pair)

lemma push_new:
  assumes ok: "mempool_ok M healthy contents mp" and valid: "validate_structure (mp_sha3 M) rx = Inr ()" and "is_f32 (energy rx)"
    and room: "length (pool_data contents mp (sector (sender rx))) < unat (max_sector_capacity mp)"
    and new: "bt_get (pool_data contents mp (sector (sender rx))) (reaction_hash rx) = None"
  shows "\<exists>mp' b. push M (Inr ts) rx mp = (Inr True, mp') \<and> mempool_ok M healthy contents mp'
    \<and> max_sector_capacity mp' = max_sector_capacity mp \<and> stored M (sector (sender rx)) (reaction_hash rx) b rx
    \<and> pool_data contents mp' = (pool_data contents mp)(sector (sender rx) :=
          bt_insert (reaction_hash rx) b (pool_data contents mp (sector (sender rx))))
    \<and> pool_index contents mp' = (pool_index contents mp)(sector (sender rx) :=
          bt_insert (weight_key (energy rx) ts) (reaction_hash rx) (pool_index contents mp (sector (sender rx))))"
proof -
  let ?sid = "sector (sender rx)"
  obtain d w where dw: "bt_get (sectors mp) ?sid = Some (d, w)" "sector_ok M healthy contents (unat (max_sector_capacity mp)) ?sid (d, w)"
    using ok by (rule mempool_sector)
  note h = sector_okD(1,2) [OF dw(2)]
  obtain b where b: "ser_reaction M rx = Inr b" "de_reaction M b = Inr rx" using reaction_codec by blast
  obtain d' where d': "tr_insert (mp_tree M) (reaction_hash rx) b d = (Inr (), d')" "healthy d'"
      "contents d' = bt_insert (reaction_hash rx) b (contents d)"
    using insert_law [OF h(1)] by blast
  obtain w' where w': "tr_insert (mp_tree M) (weight_key (energy rx) ts) (reaction_hash rx) w = (Inr (), w')" "healthy w'"
      "contents w' = bt_insert (weight_key (energy rx) ts) (reaction_hash rx) (contents w)"
    using insert_law [OF h(2)] by blast
  have st: "stored M ?sid (reaction_hash rx) b rx" using b valid assms(3) by (simp add: stored_def)
  have "sector_ok M healthy contents (unat (max_sector_capacity mp)) ?sid (d', w')"
    using sector_ok_insert [OF dw(2) _ _ st d'(2,3) w'(2,3)] new room dw(1) by simp
  moreover have "push M (Inr ts) rx mp = (Inr True, set_sector ?sid (d', w') mp)"
    using valid dw(1) room new b d' w' len_law [OF h(1)] contains_law [OF h(1)] by (simp add: push_def Let_def)
  ultimately show ?thesis
    using mempool_ok_set [OF ok] st d' w' dw(1)
    by (intro exI [of _ "set_sector ?sid (d', w') mp"] exI [of _ b]) (auto simp: fun_eq_iff set_sector_def pool_data_def pool_index_def)
qed

lemma push_duplicate:
  assumes ok: "mempool_ok M healthy contents mp" and valid: "validate_structure (mp_sha3 M) rx = Inr ()"
    and room: "length (pool_data contents mp (sector (sender rx))) < unat (max_sector_capacity mp)"
    and old: "bt_get (pool_data contents mp (sector (sender rx))) (reaction_hash rx) \<noteq> None"
  shows "push M now rx mp = (Inr False, mp)"
proof -
  obtain d w where dw: "bt_get (sectors mp) (sector (sender rx)) = Some (d, w)"
      "sector_ok M healthy contents (unat (max_sector_capacity mp)) (sector (sender rx)) (d, w)"
    using ok by (rule mempool_sector)
  note h = sector_okD(1) [OF dw(2)]
  show ?thesis using valid dw(1) room old len_law [OF h] contains_law [OF h] by (auto simp: push_def Let_def)
qed

lemma push_full:
  assumes ok: "mempool_ok M healthy contents mp" and valid: "validate_structure (mp_sha3 M) rx = Inr ()"
    and full: "unat (max_sector_capacity mp) \<le> length (pool_data contents mp (sector (sender rx)))"
  shows "push M now rx mp = (Inl ''Mempool: Sector at maximum capacity'', mp)"
proof -
  obtain d w where dw: "bt_get (sectors mp) (sector (sender rx)) = Some (d, w)"
      "sector_ok M healthy contents (unat (max_sector_capacity mp)) (sector (sender rx)) (d, w)"
    using ok by (rule mempool_sector)
  note h = sector_okD(1) [OF dw(2)]
  show ?thesis using valid dw(1) full len_law [OF h] by (auto simp: push_def Let_def)
qed

lemma push_no_clock:
  assumes ok: "mempool_ok M healthy contents mp"
  shows "snd (push M (Inl e) rx mp) = mp"
  by (auto simp: push_def Let_def split: sum.split option.split)

lemma push_ok:
  assumes ok: "mempool_ok M healthy contents mp" and "is_f32 (energy rx)"
  shows "mempool_ok M healthy contents (snd (push M now rx mp))"
proof (cases "validate_structure (mp_sha3 M) rx")
  case (Inr u)
  then have v: "validate_structure (mp_sha3 M) rx = Inr ()" by simp
  show ?thesis
  proof (cases now)
    case (Inr ts)
    let ?D = "pool_data contents mp (sector (sender rx))"
    consider "unat (max_sector_capacity mp) \<le> length ?D"
      | "length ?D < unat (max_sector_capacity mp)" "bt_get ?D (reaction_hash rx) \<noteq> None"
      | "length ?D < unat (max_sector_capacity mp)" "bt_get ?D (reaction_hash rx) = None" by linarith
    then show ?thesis
    proof cases
      case 3
      then show ?thesis using push_new [OF ok v assms(2), of ts] Inr by auto
    qed (use push_full [OF ok v] push_duplicate [OF ok v] ok in auto)
  qed (use push_no_clock [OF ok] ok in simp)
qed (use ok in \<open>simp add: push_def\<close>)

lemma bt_remove_filter: "bt_remove k m = filter (\<lambda>p. fst p \<noteq> k) m"
  by (induction k m rule: bt_remove.induct) auto

lemma sector_ok_remove:
  assumes ok: "sector_ok M healthy contents cap sid (d, w)" and e: "(wk, h) \<in> set (contents w)"
    and d': "healthy d'" "contents d' = bt_remove h (contents d)"
    and w': "healthy w'" "contents w' = bt_remove wk (contents w)"
  shows "sector_ok M healthy contents cap sid (d', w')"
proof -
  note okD = sector_okD [OF ok]
  have "h' \<noteq> h" if "(wk', h') \<in> set (contents w')" for wk' h'
  proof -
    have "(wk', h') \<in> set (contents w)" "wk' \<noteq> wk" using that w'(2) by (auto simp: bt_remove_filter)
    then show ?thesis using okD(6) e by (fastforce simp: distinct_map inj_on_def)
  qed
  then have "\<exists>b rx ts. bt_get (contents d') h' = Some b \<and> stored M sid h' b rx \<and> wk' = weight_key (energy rx) ts"
    if "(wk', h') \<in> set (contents w')" for wk' h'
    using that okD(5) [of wk' h'] d'(2) w'(2) by (fastforce simp: bt_remove_filter [of wk])
  moreover have "length (contents d') \<le> cap" "distinct (map snd (contents w'))"
    using okD(3,6) d'(2) w'(2) le_trans [OF length_filter_le]
    by (auto simp: bt_remove_filter distinct_map inj_on_def)
  moreover have "\<exists>rx. stored M sid h' b rx" if "(h', b) \<in> set (contents d')" for h' b
    using that ok d'(2) by (auto simp: sector_ok_def bt_remove_filter)
  ultimately show ?thesis using d'(1) w'(1) by (auto simp: sector_ok_def)
qed

text \<open>Draining a list of entries of the index yields the reactions stored for them, in their order.\<close>

lemma drain_entries_done:
  assumes "sector_ok M healthy contents cap sid (d, w)" and "set entries \<subseteq> set (contents w)" and "distinct entries"
  shows "\<exists>rxs d' w'. drain_entries M entries (d, w) = (rxs, (d', w')) \<and> sector_ok M healthy contents cap sid (d', w')
    \<and> contents w' = filter (\<lambda>p. fst p \<notin> fst ` set entries) (contents w)
    \<and> contents d' = filter (\<lambda>p. fst p \<notin> snd ` set entries) (contents d)
    \<and> list_all2 (\<lambda>(wk, h) rx. \<exists>b ts. bt_get (contents d) h = Some b \<and> stored M sid h b rx \<and> wk = weight_key (energy rx) ts) entries rxs"
  using assms
proof (induction entries arbitrary: d w)
  case (Cons e entries)
  obtain wk h where e: "e = (wk, h)" by fastforce
  then have m: "(wk, h) \<in> set (contents w)" using Cons.prems(2) by simp
  note okD = sector_okD [OF Cons.prems(1)]
  obtain b rx ts where b: "bt_get (contents d) h = Some b" "stored M sid h b rx" "wk = weight_key (energy rx) ts"
    using okD(5) [OF m] by blast
  obtain d1 where d1: "tr_remove (mp_tree M) h d = (Inr (Some b), d1)" "healthy d1" "contents d1 = bt_remove h (contents d)"
    using remove_law [OF okD(1), of h] b(1) by auto
  obtain w1 where w1: "tr_remove (mp_tree M) wk w = (Inr (bt_get (contents w) wk), w1)" "healthy w1" "contents w1 = bt_remove wk (contents w)"
    using remove_law [OF okD(2), of wk] by auto
  have ok1: "sector_ok M healthy contents cap sid (d1, w1)"
    using sector_ok_remove [OF Cons.prems(1) m d1(2,3) w1(2,3)] .
  have keys: "distinct (map fst (contents w))" using contents_ordered [OF okD(2)] by (rule bt_ordered_distinct)
  have other: "fst p \<noteq> wk \<and> snd p \<noteq> h" if "p \<in> set entries" for p
  proof -
    have "p \<in> set (contents w)" "p \<noteq> (wk, h)" using that Cons.prems(2,3) e by auto
    then show ?thesis using m keys okD(6) by (auto simp: distinct_map inj_on_def)
  qed
  then have "set entries \<subseteq> set (contents w1)" using Cons.prems(2) w1(3) by (fastforce simp: bt_remove_filter)
  then obtain rxs d' w' where IH: "drain_entries M entries (d1, w1) = (rxs, (d', w'))" "sector_ok M healthy contents cap sid (d', w')"
      "contents w' = filter (\<lambda>p. fst p \<notin> fst ` set entries) (contents w1)"
      "contents d' = filter (\<lambda>p. fst p \<notin> snd ` set entries) (contents d1)"
      "list_all2 (\<lambda>(wk, h) rx. \<exists>b ts. bt_get (contents d1) h = Some b \<and> stored M sid h b rx \<and> wk = weight_key (energy rx) ts) entries rxs"
    using Cons.IH [OF ok1] Cons.prems(3) by auto
  have "drain_entries M (e # entries) (d, w) = (rx # rxs, (d', w'))"
    using e d1(1) w1(1) b(2) IH(1) by (simp add: stored_def Let_def)
  moreover have "list_all2 (\<lambda>(wk, h) rx. \<exists>b ts. bt_get (contents d) h = Some b \<and> stored M sid h b rx \<and> wk = weight_key (energy rx) ts)
      (e # entries) (rx # rxs)"
    using IH(5) b e d1(3) other by (auto elim!: list.rel_mono_strong split: if_splits)
  moreover have "contents w' = filter (\<lambda>p. fst p \<notin> fst ` set (e # entries)) (contents w)"
      "contents d' = filter (\<lambda>p. fst p \<notin> snd ` set (e # entries)) (contents d)"
    unfolding IH(3,4) w1(3) d1(3) bt_remove_filter filter_filter using e by (auto intro: filter_cong)
  ultimately show ?case using IH(2) by blast
qed auto

lemma drain_done:
  assumes ok: "mempool_ok M healthy contents mp"
  shows "\<exists>rxs mp'. drain_resonant M sid limit mp = (rxs, mp') \<and> mempool_ok M healthy contents mp'
    \<and> pool_index contents mp' sid = filter (\<lambda>p. fst p \<notin> fst ` set (take limit (rev (pool_index contents mp sid)))) (pool_index contents mp sid)
    \<and> pool_data contents mp' sid = filter (\<lambda>p. fst p \<notin> snd ` set (take limit (rev (pool_index contents mp sid)))) (pool_data contents mp sid)
    \<and> list_all2 (\<lambda>(wk, h) rx. \<exists>b ts. bt_get (pool_data contents mp sid) h = Some b \<and> stored M sid h b rx \<and> wk = weight_key (energy rx) ts)
        (take limit (rev (pool_index contents mp sid))) rxs"
proof -
  obtain d w where dw: "bt_get (sectors mp) sid = Some (d, w)" "sector_ok M healthy contents (unat (max_sector_capacity mp)) sid (d, w)"
    using ok by (rule mempool_sector)
  note okD = sector_okD [OF dw(2)]
  let ?e = "take limit (rev (contents w))"
  have "distinct (contents w)" using okD(6) by (simp add: distinct_map)
  then have "set ?e \<subseteq> set (contents w)" "distinct ?e" using set_take_subset by fastforce+
  then obtain rxs d' w' where r: "drain_entries M ?e (d, w) = (rxs, (d', w'))" "sector_ok M healthy contents (unat (max_sector_capacity mp)) sid (d', w')"
      "contents w' = filter (\<lambda>p. fst p \<notin> fst ` set ?e) (contents w)"
      "contents d' = filter (\<lambda>p. fst p \<notin> snd ` set ?e) (contents d)"
      "list_all2 (\<lambda>(wk, h) rx. \<exists>b ts. bt_get (contents d) h = Some b \<and> stored M sid h b rx \<and> wk = weight_key (energy rx) ts) ?e rxs"
    using drain_entries_done [OF dw(2)] by blast
  have "List.map_filter (\<lambda>r. case r of Inr e \<Rightarrow> Some e | Inl _ \<Rightarrow> None) (take limit (rev (tr_iter (mp_tree M) w))) = ?e"
    using iter_law [OF okD(2)] by (simp add: map_filter_def rev_map take_map comp_def)
  then have "drain_resonant M sid limit mp = (rxs, set_sector sid (d', w') mp)"
    using dw(1) r(1) by (simp add: drain_resonant_def Let_def)
  then show ?thesis
    using mempool_ok_set [OF ok r(2)] r dw(1) by simp
qed

lemma weight_rank:
  assumes "stored M sid h x a" and "stored M sid h' y b" and "weight_key (energy b) t' < weight_key (energy a) t"
  shows "\<not> flt (energy a) (energy b)"
proof
  assume "flt (energy a) (energy b)"
  moreover have "positive (energy a)" "positive (energy b)" "is_f32 (energy a)" "is_f32 (energy b)"
    using assms(1,2) fee_positive by (auto simp: stored_def validate_structure_def Let_def not_less split: if_splits)
  ultimately have "f32_bits (energy a) < f32_bits (energy b)" by (intro f32_bits_mono)
  with assms(3) show False by (auto simp: weight_key_less)
qed

lemma drain_sorted:
  assumes ok: "mempool_ok M healthy contents mp" and dr: "drain_resonant M sid limit mp = (rxs, mp')"
  shows "sorted_wrt (\<lambda>a b. \<not> flt (energy a) (energy b)) rxs"
proof -
  let ?e = "take limit (rev (pool_index contents mp sid))"
  obtain d w where dw: "bt_get (sectors mp) sid = Some (d, w)" "sector_ok M healthy contents (unat (max_sector_capacity mp)) sid (d, w)"
    using ok by (rule mempool_sector)
  have "sorted_wrt (<) (map fst (contents w))" using contents_ordered sector_okD(2) [OF dw(2)] by (simp add: bt_ordered_def)
  then have s: "sorted_wrt (\<lambda>a b. fst b < fst a) ?e"
    using dw(1) by (simp add: sorted_wrt_take sorted_wrt_rev sorted_wrt_map)
  have l: "list_all2 (\<lambda>(wk, h) rx. \<exists>b ts. bt_get (pool_data contents mp sid) h = Some b \<and> stored M sid h b rx \<and> wk = weight_key (energy rx) ts) ?e rxs"
    using drain_done [OF ok, of sid limit] dr by auto
  have "\<not> flt (energy (rxs ! i)) (energy (rxs ! j))" if ij: "i < j" "j < length rxs" for i j
  proof -
    have n: "length ?e = length rxs" using l by (rule list_all2_lengthD)
    have "\<exists>b ts. stored M sid (snd (?e ! k)) b (rxs ! k) \<and> fst (?e ! k) = weight_key (energy (rxs ! k)) ts" if "k < length rxs" for k
      using list_all2_nthD2 [OF l that] by (auto simp: split_beta)
    then obtain b b' t t' where "stored M sid (snd (?e ! i)) b (rxs ! i)" "fst (?e ! i) = weight_key (energy (rxs ! i)) t"
        "stored M sid (snd (?e ! j)) b' (rxs ! j)" "fst (?e ! j) = weight_key (energy (rxs ! j)) t'"
      using ij by (meson less_trans)
    moreover have "fst (?e ! j) < fst (?e ! i)" by (rule sorted_wrt_nth_less [OF s ij(1)]) (simp only: n ij(2))
    ultimately show ?thesis using weight_rank by metis
  qed
  then show ?thesis by (simp add: sorted_wrt_iff_nth_less)
qed

text \<open>What stays in the pool and is listed in the index has at most the energy of what was drained.\<close>

lemma drain_best:
  assumes ok: "mempool_ok M healthy contents mp" and dr: "drain_resonant M sid limit mp = (rxs, mp')"
    and left: "(h, b) \<in> set (pool_data contents mp' sid)" and listed: "h \<in> snd ` set (pool_index contents mp sid)"
  shows "\<exists>rx'. de_reaction M b = Inr rx' \<and> (\<forall>rx \<in> set rxs. \<not> flt (energy rx) (energy rx'))"
proof -
  let ?i = "rev (pool_index contents mp sid)"
  let ?e = "take limit ?i"
  obtain d w where dw: "bt_get (sectors mp) sid = Some (d, w)" "sector_ok M healthy contents (unat (max_sector_capacity mp)) sid (d, w)"
    using ok by (rule mempool_sector)
  have o: "bt_ordered (contents w)" "bt_ordered (contents d)" using contents_ordered sector_okD(1,2) [OF dw(2)] by auto
  then have "sorted_wrt (<) (map fst (contents w))" by (simp add: bt_ordered_def)
  then have s: "sorted_wrt (\<lambda>a b. fst b < fst a) (?e @ drop limit ?i)"
    using dw(1) by (simp add: sorted_wrt_rev sorted_wrt_map)
  have l: "list_all2 (\<lambda>(wk, h) rx. \<exists>b ts. bt_get (pool_data contents mp sid) h = Some b \<and> stored M sid h b rx \<and> wk = weight_key (energy rx) ts) ?e rxs"
    and data: "pool_data contents mp' sid = filter (\<lambda>p. fst p \<notin> snd ` set ?e) (pool_data contents mp sid)"
    using drain_done [OF ok, of sid limit] dr by auto
  obtain wk where wk: "(wk, h) \<in> set ?i" using listed by auto
  moreover have "(wk, h) \<notin> set ?e" using left data by force
  ultimately have "(wk, h) \<in> set (drop limit ?i)" by (metis Un_iff append_take_drop_id set_append)
  then have less: "wk < fst p" if "p \<in> set ?e" for p using s that unfolding sorted_wrt_append by force
  obtain b' rx' ts where b': "bt_get (contents d) h = Some b'" "stored M sid h b' rx'" "wk = weight_key (energy rx') ts"
    using sector_okD [OF dw(2)] wk dw(1) by fastforce
  have "b' = b" using b'(1) left dw(1) map_of_is_SomeI [OF bt_ordered_distinct [OF o(2)]] by (auto simp: data)
  moreover have "\<not> flt (energy rx) (energy rx')" if mem: "rx \<in> set rxs" for rx
  proof -
    obtain k where k: "k < length rxs" "rx = rxs ! k" using mem by (auto simp: in_set_conv_nth)
    then obtain x t where "stored M sid (snd (?e ! k)) x rx" "fst (?e ! k) = weight_key (energy rx) t"
      using list_all2_nthD2 [OF l k(1)] by (auto simp: split_beta)
    moreover have "?e ! k \<in> set ?e" using k(1) list_all2_lengthD [OF l] by (intro nth_mem) simp
    ultimately show ?thesis using weight_rank b'(2,3) less by metis
  qed
  ultimately show ?thesis using b'(2) by (auto simp: stored_def)
qed

end

end
