(* ===== verification/Mempool_Claims.thy ===== *)
theory Mempool_Claims
  imports Mempool_Correct Memory_Platform
begin

text \<open>
  The properties of the mempool: the invariant of every reachable pool, admission, draining in the
  order of energy, and the reaction that is lost when two index keys collide. The contract of the
  trees is interpreted on ordered lists in memory.
\<close>

section \<open>Trees in memory\<close>

definition mem_tree :: "(bytes, bytes) btree tree_ops" where
  "mem_tree = \<lparr>tr_len = length, tr_contains = (\<lambda>t k. Inr (bt_get t k \<noteq> None)),
     tr_insert = (\<lambda>k v t. (Inr (), bt_insert k v t)), tr_remove = (\<lambda>k t. (Inr (bt_get t k), bt_remove k t)),
     tr_iter = map Inr\<rparr>"

definition mem_pool :: "(bytes \<Rightarrow> hash32) \<Rightarrow> (bytes, bytes) btree mempool_env" where
  "mem_pool h = \<lparr>mp_tree = mem_tree, mp_sha3 = h, ser_reaction = (\<lambda>rx. Inr (put_reaction rx)),
     de_reaction = (\<lambda>b. Inr (fst (get_reaction b))), check_reaction = (\<lambda>b. Some (fst (get_reaction b)))\<rparr>"

interpretation mm: tree_contract "mem_pool h" bt_ordered "\<lambda>t. t" for h
proof unfold_locales
  fix rx
  have "get_reaction (put_reaction rx @ []) = (rx, [])" by (rule get_put_reaction)
  then show "\<exists>b. ser_reaction (mem_pool h) rx = Inr b \<and> de_reaction (mem_pool h) b = Inr rx"
    by (simp add: mem_pool_def)
qed (simp_all add: mem_pool_def mem_tree_def)

section \<open>Reachable pools\<close>

inductive pool_reach :: "'t mempool_env \<Rightarrow> (bytes \<Rightarrow> string + 't) \<Rightarrow> 't SectoralMempool \<Rightarrow> bool"
  for M open_tree where
  fresh: "mempool_new open_tree = Inr mp \<Longrightarrow> pool_reach M open_tree mp"
| pushed: "pool_reach M open_tree mp \<Longrightarrow> is_f32 (energy rx) \<Longrightarrow> pool_reach M open_tree (snd (push M now rx mp))"
| pushed_bytes: "pool_reach M open_tree mp \<Longrightarrow> (\<And>rx. check_reaction M bs = Some rx \<Longrightarrow> is_f32 (energy rx)) \<Longrightarrow>
     pool_reach M open_tree (snd (push_bytes M now bs mp))"
| drained: "pool_reach M open_tree mp \<Longrightarrow> pool_reach M open_tree (snd (drain_resonant M sid limit mp))"

definition both_trees :: "('t \<Rightarrow> bool) \<Rightarrow> (u8, 't \<times> 't) btree \<Rightarrow> bool" where
  "both_trees P m = (\<forall>sid d w. bt_get m sid = Some (d, w) \<longrightarrow> P d \<and> P w)"

lemma open_sectors_get:
  assumes "open_sectors open_tree is m = Inr m'" and "\<And>n t. open_tree n = Inr t \<Longrightarrow> P t" and "both_trees P m"
  shows "both_trees P m' \<and> dom (bt_get m') = dom (bt_get m) \<union> of_nat ` set is"
  using assms(1,3)
proof (induction "is" arbitrary: m)
  case (Cons i "is")
  then obtain d w where dw: "open_tree (ascii ''v2_data_s'' @ decimal i) = Inr d" "open_tree (ascii ''v2_weights_s'' @ decimal i) = Inr w"
      "open_sectors open_tree is (bt_insert (of_nat i) (d, w) m) = Inr m'"
    by (auto simp: result_simps)
  moreover have "both_trees P (bt_insert (of_nat i) (d, w) m)"
    using Cons.prems(2) assms(2) [OF dw(1)] assms(2) [OF dw(2)] by (simp add: both_trees_def)
  ultimately have "both_trees P m'" "dom (bt_get m') = dom (bt_get (bt_insert (of_nat i) (d, w) m)) \<union> of_nat ` set is"
    using Cons.IH by blast+
  then show ?case by auto
qed simp

lemma all_sectors: "(of_nat ` {0..<256} :: u8 set) = UNIV"
proof -
  have "x \<in> of_nat ` {0..<256}" for x :: u8
    using unsigned_less [of x] by (intro image_eqI [of _ _ "unat x"]) simp_all
  then show ?thesis by auto
qed

context tree_contract
begin

lemma mempool_new_ok:
  assumes "mempool_new open_tree = Inr mp" and "\<And>n t. open_tree n = Inr t \<Longrightarrow> healthy t \<and> contents t = []"
  shows "mempool_ok M healthy contents mp" "pool_data contents mp sid = []" "pool_index contents mp sid = []"
proof -
  obtain m where m: "open_sectors open_tree [0 ..< 256] [] = Inr m" "mp = \<lparr>sectors = m, max_sector_capacity = 1000000\<rparr>"
    using assms(1) by (auto simp: mempool_new_def result_simps)
  have "both_trees (\<lambda>t. healthy t \<and> contents t = []) []" by (simp add: both_trees_def)
  then have o: "both_trees (\<lambda>t. healthy t \<and> contents t = []) m \<and> dom (bt_get m) = of_nat ` set [0 ..< 256]"
    using open_sectors_get [OF m(1) assms(2)] by simp
  then have "dom (bt_get m) = UNIV" using all_sectors by simp
  then have "\<exists>d w. bt_get m sid = Some (d, w)" for sid by (metis UNIV_I domD surj_pair)
  then show "mempool_ok M healthy contents mp" using o m(2) by (fastforce simp: mempool_ok_def sector_ok_def both_trees_def)
  show "pool_data contents mp sid = []" "pool_index contents mp sid = []"
    using o m(2) by (auto simp: both_trees_def pool_data_def pool_index_def split: option.split)
qed

lemma reach_ok:
  assumes "pool_reach M open_tree mp" and "\<And>n t. open_tree n = Inr t \<Longrightarrow> healthy t \<and> contents t = []"
  shows "mempool_ok M healthy contents mp"
  using assms(1)
proof induction
  case (fresh mp)
  then show ?case using mempool_new_ok assms(2) by blast
next
  case (pushed_bytes mp bs now)
  then show ?case
    by (auto simp: push_bytes_def from_bytes_zero_copy_def ok_or_def intro!: push_ok split: sum.splits option.splits)
next
  case (drained mp sid limit)
  then show ?case using drain_done [of mp sid limit] by auto
qed (rule push_ok)

end

text \<open>Every reachable mempool is consistent: from freshly opened trees on, whatever is pushed or
  drained, each of the 256 sectors holds at most the capacity of reactions, each of them valid,
  of its sector and under its hash, and every entry of the energy index points to a stored reaction
  whose energy is in its key, with no reaction indexed twice.\<close>

theorem mempool_invariant:
  assumes "tree_contract M healthy contents" and "pool_reach M open_tree mp"
    and "\<And>n t. open_tree n = Inr t \<Longrightarrow> healthy t \<and> contents t = []"
  shows "mempool_ok M healthy contents mp"
  using tree_contract.reach_ok [OF assms(1,2)] assms(3) by blast

lemma mempool_new_mem: "\<exists>mp. mempool_new (\<lambda>_. Inr t) = Inr mp \<and> max_sector_capacity mp = 1000000"
proof -
  have "\<exists>m'. open_sectors (\<lambda>_. Inr t) is m = Inr m'" for "is" m
    by (induction "is" arbitrary: m) simp_all
  then obtain m' where "open_sectors (\<lambda>_. Inr t) [0 ..< 256] [] = Inr m'" by blast
  then show ?thesis by (simp add: mempool_new_def)
qed

theorem mempool_invariant_witness:
  "\<exists>mp. mempool_new (\<lambda>_. Inr []) = Inr mp
     \<and> mempool_ok (mem_pool demo_hash) bt_ordered (\<lambda>t. t) (snd (drain_resonant (mem_pool demo_hash) 7 3 mp))"
proof -
  obtain mp where "mempool_new (\<lambda>_. Inr []) = Inr (mp :: (bytes, bytes) btree SectoralMempool)"
    using mempool_new_mem [of "[]"] by auto
  moreover from this have "pool_reach (mem_pool demo_hash) (\<lambda>_. Inr []) (snd (drain_resonant (mem_pool demo_hash) 7 3 mp))"
    by (intro drained fresh)
  ultimately show ?thesis using mempool_invariant [OF mm.tree_contract_axioms, of demo_hash "\<lambda>_. Inr []"] by auto
qed

section \<open>Admission\<close>

text \<open>C20. A valid reaction that is new to a sector with room is admitted: it can be read back under its
  hash, the pool stays consistent, pushing it again reports a duplicate and changes nothing, and
  the other sectors are untouched.\<close>

theorem push_admits:
  assumes "tree_contract M healthy contents" and "mempool_ok M healthy contents mp"
    and "validate_structure (mp_sha3 M) rx = Inr ()" and "is_f32 (energy rx)"
    and "length (pool_data contents mp (sector (sender rx))) + 1 < unat (max_sector_capacity mp)"
    and "bt_get (pool_data contents mp (sector (sender rx))) (reaction_hash rx) = None"
  shows "\<exists>mp' b. push M (Inr ts) rx mp = (Inr True, mp') \<and> mempool_ok M healthy contents mp'
    \<and> bt_get (pool_data contents mp' (sector (sender rx))) (reaction_hash rx) = Some b \<and> de_reaction M b = Inr rx
    \<and> push M now rx mp' = (Inr False, mp')
    \<and> (\<forall>sid. sid \<noteq> sector (sender rx) \<longrightarrow> pool_data contents mp' sid = pool_data contents mp sid
          \<and> pool_index contents mp' sid = pool_index contents mp sid)"
proof -
  have room: "length (pool_data contents mp (sector (sender rx))) < unat (max_sector_capacity mp)" using assms(5) by simp
  obtain mp' b where p: "push M (Inr ts) rx mp = (Inr True, mp')" "mempool_ok M healthy contents mp'"
      "max_sector_capacity mp' = max_sector_capacity mp" "stored M (sector (sender rx)) (reaction_hash rx) b rx"
      "pool_data contents mp' = (pool_data contents mp)(sector (sender rx) :=
          bt_insert (reaction_hash rx) b (pool_data contents mp (sector (sender rx))))"
      "pool_index contents mp' = (pool_index contents mp)(sector (sender rx) :=
          bt_insert (weight_key (energy rx) ts) (reaction_hash rx) (pool_index contents mp (sector (sender rx))))"
    using tree_contract.push_new [OF assms(1-4) room assms(6), of ts] by blast
  have "length (pool_data contents mp' (sector (sender rx))) < unat (max_sector_capacity mp')"
    using p(3,5) assms(5) tree_contract.length_bt_insert_le [OF assms(1), of "reaction_hash rx" b "pool_data contents mp (sector (sender rx))"]
    by simp
  then have "push M now rx mp' = (Inr False, mp')"
    using tree_contract.push_duplicate [OF assms(1) p(2) assms(3)] p(5) by simp
  then show ?thesis using p by (intro exI [of _ mp'] exI [of _ b]) (simp add: stored_def)
qed

definition tail_hash :: "bytes \<Rightarrow> hash32" where
  "tail_hash bs = drop 5184 bs"

definition pool_rx :: "u64 \<Rightarrow> SignedReaction" where
  "pool_rx n = (let rx = \<lparr>sender = new_receiver (replicate 2592 1), receiver = new_receiver (replicate 2592 2),
      reaction_hash = [], energy = f32_lit 10 1, timestamp = 0, signature = [], payload = MiningReward n\<rparr>
    in rx\<lparr>reaction_hash := compute_reaction_hash tail_hash rx\<rparr>)"

lemma pool_rx_valid:
  "validate_structure tail_hash (pool_rx n) = Inr ()" "is_f32 (energy (pool_rx n))" "sector (sender (pool_rx n)) = 1"
  "energy (pool_rx n) = energy (pool_rx 0)"
proof -
  have "\<not> canon_encode (f32_lit 10 1) < PROTOCOL_MIN_FEE" "is_f32 (f32_lit 10 1)" by code_simp+
  moreover have "(replicate 2592 1 :: bytes) = 1 # replicate 2591 1" by (simp add: replicate_Suc [symmetric] del: replicate_Suc)
  ultimately show "validate_structure tail_hash (pool_rx n) = Inr ()" "is_f32 (energy (pool_rx n))" "sector (sender (pool_rx n)) = 1"
    "energy (pool_rx n) = energy (pool_rx 0)"
    by (simp_all add: pool_rx_def validate_structure_def Let_def new_receiver_def new_materialized_def PK_BYTES_def
        requires_signature_verification_def compute_reaction_hash_def signing_digest_def signing_input_def sector_def)
qed

lemma pool_rx_hash: "reaction_hash (pool_rx m) = reaction_hash (pool_rx n) \<longleftrightarrow> m = n"
  using to_le_bytes_inj [of 8 m n]
  by (auto simp: pool_rx_def Let_def compute_reaction_hash_def signing_digest_def signing_input_def tail_hash_def
      new_receiver_def new_materialized_def transfer_amount_def)

lemma mem_pool_fresh:
  obtains mp where "mempool_new (\<lambda>_. Inr []) = Inr mp" "mempool_ok (mem_pool h) bt_ordered (\<lambda>t. t) mp"
    "\<And>sid. pool_data (\<lambda>t. t) mp sid = []" "\<And>sid. pool_index (\<lambda>t. t) mp sid = []" "unat (max_sector_capacity mp) = 1000000"
proof -
  obtain mp where "mempool_new (\<lambda>_. Inr []) = Inr (mp :: (bytes, bytes) btree SectoralMempool)" "max_sector_capacity mp = 1000000"
    using mempool_new_mem [of "[]"] by auto
  then show ?thesis using that mm.mempool_new_ok [of "\<lambda>_. Inr []" mp] by simp
qed

lemma mem_pool_sha3 [simp]: "mp_sha3 (mem_pool h) = h"
  by (simp add: mem_pool_def)

theorem push_admits_witness:
  "\<exists>mp mp'. mempool_new (\<lambda>_. Inr []) = Inr mp \<and> push (mem_pool tail_hash) (Inr 5) (pool_rx 7) mp = (Inr True, mp')
     \<and> push (mem_pool tail_hash) (Inr 6) (pool_rx 7) mp' = (Inr False, mp')"
proof -
  obtain mp where mp: "mempool_new (\<lambda>_. Inr []) = Inr mp" "mempool_ok (mem_pool tail_hash) bt_ordered (\<lambda>t. t) mp"
    "\<And>sid. pool_data (\<lambda>t. t) mp sid = []" "unat (max_sector_capacity mp) = 1000000" by (rule mem_pool_fresh) auto
  then show ?thesis
    using push_admits [OF mm.tree_contract_axioms mp(2), of "pool_rx 7" 5 "Inr 6"] pool_rx_valid by fastforce
qed

section \<open>Draining\<close>

text \<open>C21. A drain of a sector hands out the reactions of highest energy among those its energy index lists: at most
  the limit, all valid and of the sector, in an order in which no reaction has more energy than an
  earlier one. None of them is left in the pool, nothing else is removed, every reaction that stays and
  is listed has at most the energy of each one handed out, and the pool stays consistent. A reaction
  whose index entry was replaced by one of equal energy from the same second is not listed, and not
  handed out.\<close>

theorem drain_takes_best:
  assumes "tree_contract M healthy contents" and "mempool_ok M healthy contents mp"
    and "drain_resonant M sid limit mp = (rxs, mp')"
  shows "mempool_ok M healthy contents mp' \<and> length rxs = min limit (length (pool_index contents mp sid))
    \<and> sorted_wrt (\<lambda>a b. \<not> flt (energy a) (energy b)) rxs
    \<and> (\<forall>rx \<in> set rxs. validate_structure (mp_sha3 M) rx = Inr () \<and> sector (sender rx) = sid)
    \<and> map reaction_hash rxs = map snd (take limit (rev (pool_index contents mp sid)))
    \<and> pool_data contents mp' sid = filter (\<lambda>(h, _). h \<notin> reaction_hash ` set rxs) (pool_data contents mp sid)
    \<and> (\<forall>(h, b) \<in> set (pool_data contents mp' sid). h \<in> snd ` set (pool_index contents mp sid) \<longrightarrow>
         (\<exists>rx'. de_reaction M b = Inr rx' \<and> (\<forall>rx \<in> set rxs. \<not> flt (energy rx) (energy rx'))))"
proof -
  let ?e = "take limit (rev (pool_index contents mp sid))"
  let ?R = "\<lambda>(wk, h) rx. \<exists>b ts. bt_get (pool_data contents mp sid) h = Some b \<and> stored M sid h b rx \<and> wk = weight_key (energy rx) ts"
  have d: "mempool_ok M healthy contents mp'" "list_all2 ?R ?e rxs"
      "pool_data contents mp' sid = filter (\<lambda>p. fst p \<notin> snd ` set ?e) (pool_data contents mp sid)"
    using tree_contract.drain_done [OF assms(1,2), of sid limit] assms(3) by auto
  have h: "map reaction_hash rxs = map snd ?e"
    using d(2) by (induction rule: list_all2_induct) (auto simp: stored_def)
  have "\<forall>rx \<in> set rxs. validate_structure (mp_sha3 M) rx = Inr () \<and> sector (sender rx) = sid"
    using d(2) by (induction rule: list_all2_induct) (auto simp: stored_def)
  moreover have "pool_data contents mp' sid = filter (\<lambda>(h, _). h \<notin> reaction_hash ` set rxs) (pool_data contents mp sid)"
    unfolding d(3) using arg_cong [OF h, of set] by (intro filter_cong) (simp_all add: split_beta)
  moreover have "length rxs = min limit (length (pool_index contents mp sid))"
    using list_all2_lengthD [OF d(2)] by (simp add: min.commute)
  moreover have "\<forall>(h, b) \<in> set (pool_data contents mp' sid). h \<in> snd ` set (pool_index contents mp sid) \<longrightarrow>
      (\<exists>rx'. de_reaction M b = Inr rx' \<and> (\<forall>rx \<in> set rxs. \<not> flt (energy rx) (energy rx')))"
    using tree_contract.drain_best [OF assms] by blast
  ultimately show ?thesis using d(1) h tree_contract.drain_sorted [OF assms] by blast
qed

theorem drain_takes_best_witness:
  "\<exists>mp mp1 rxs mp2. mempool_new (\<lambda>_. Inr []) = Inr mp \<and> push (mem_pool tail_hash) (Inr 5) (pool_rx 7) mp = (Inr True, mp1)
     \<and> drain_resonant (mem_pool tail_hash) 1 50 mp1 = (rxs, mp2) \<and> map reaction_hash rxs = [reaction_hash (pool_rx 7)]"
proof -
  obtain mp where mp: "mempool_new (\<lambda>_. Inr []) = Inr mp" "mempool_ok (mem_pool tail_hash) bt_ordered (\<lambda>t. t) mp"
    "\<And>sid. pool_data (\<lambda>t. t) mp sid = []" "\<And>sid. pool_index (\<lambda>t. t) mp sid = []" "unat (max_sector_capacity mp) = 1000000"
    by (rule mem_pool_fresh) auto
  obtain mp1 where p: "push (mem_pool tail_hash) (Inr 5) (pool_rx 7) mp = (Inr True, mp1)" "mempool_ok (mem_pool tail_hash) bt_ordered (\<lambda>t. t) mp1"
      "pool_index (\<lambda>t. t) mp1 1 = [(weight_key (energy (pool_rx 7)) 5, reaction_hash (pool_rx 7))]"
    using mm.push_new [OF mp(2), of "pool_rx 7" 5] mp(3-5) pool_rx_valid by (auto simp: fun_eq_iff)
  obtain rxs mp2 where "drain_resonant (mem_pool tail_hash) 1 50 mp1 = (rxs, mp2)" by fastforce
  then show ?thesis using drain_takes_best [OF mm.tree_contract_axioms p(2)] p mp(1) by fastforce
qed

section \<open>Colliding index keys\<close>

text \<open>Two reactions of one sector with equal energy that arrive within the same second have the same
  index key: the second entry replaces the first. The first reaction stays in the pool, no drain
  ever hands it out, and pushing it again is refused as a duplicate.\<close>

theorem equal_weight_strands_reaction:
  assumes "tree_contract M healthy contents" and "mempool_ok M healthy contents mp"
    and "validate_structure (mp_sha3 M) a = Inr ()" and "validate_structure (mp_sha3 M) b = Inr ()"
    and "is_f32 (energy a)" and "energy b = energy a" and "sector (sender b) = sector (sender a)"
    and "reaction_hash a \<noteq> reaction_hash b"
    and "pool_data contents mp (sector (sender a)) = []" and "pool_index contents mp (sector (sender a)) = []"
    and "2 < unat (max_sector_capacity mp)"
  shows "\<exists>mp1 mp2. push M (Inr ts) a mp = (Inr True, mp1) \<and> push M (Inr ts) b mp1 = (Inr True, mp2)
    \<and> fst (drain_resonant M (sector (sender a)) limit mp2) = (if limit = 0 then [] else [b])
    \<and> push M now a (snd (drain_resonant M (sector (sender a)) limit mp2))
        = (Inr False, snd (drain_resonant M (sector (sender a)) limit mp2))"
proof -
  let ?sid = "sector (sender a)"
  obtain mp1 x where p1: "push M (Inr ts) a mp = (Inr True, mp1)" "mempool_ok M healthy contents mp1"
      "max_sector_capacity mp1 = max_sector_capacity mp"
      "pool_data contents mp1 ?sid = [(reaction_hash a, x)]"
      "pool_index contents mp1 ?sid = [(weight_key (energy a) ts, reaction_hash a)]"
    using tree_contract.push_new [OF assms(1-3,5), of ts] assms(9-11) by auto
  obtain mp2 y where p2: "push M (Inr ts) b mp1 = (Inr True, mp2)" "mempool_ok M healthy contents mp2"
      "max_sector_capacity mp2 = max_sector_capacity mp" "stored M ?sid (reaction_hash b) y b"
      "pool_data contents mp2 ?sid = bt_insert (reaction_hash b) y [(reaction_hash a, x)]"
      "pool_index contents mp2 ?sid = [(weight_key (energy a) ts, reaction_hash b)]"
    using tree_contract.push_new [OF assms(1) p1(2) assms(4), of ts] assms p1(3-5) by auto
  obtain rxs mp3 where d: "drain_resonant M ?sid limit mp2 = (rxs, mp3)" "mempool_ok M healthy contents mp3"
      "pool_data contents mp3 ?sid = filter (\<lambda>p. fst p \<notin> snd ` set (take limit (rev (pool_index contents mp2 ?sid)))) (pool_data contents mp2 ?sid)"
      "list_all2 (\<lambda>(wk, h) rx. \<exists>b ts. bt_get (pool_data contents mp2 ?sid) h = Some b \<and> stored M ?sid h b rx \<and> wk = weight_key (energy rx) ts)
        (take limit (rev (pool_index contents mp2 ?sid))) rxs"
    using tree_contract.drain_done [OF assms(1) p2(2)] by blast
  have two: "bt_insert (reaction_hash b) y [(reaction_hash a, x)] = [(reaction_hash b, y), (reaction_hash a, x)]
      \<or> bt_insert (reaction_hash b) y [(reaction_hash a, x)] = [(reaction_hash a, x), (reaction_hash b, y)]"
    using assms(8) by auto
  have "rxs = (if limit = 0 then [] else [b])"
  proof (cases limit)
    case (Suc n)
    have "bt_get (pool_data contents mp2 ?sid) (reaction_hash b) = Some y" by (simp only: p2(5) bt_get_insert) simp
    then show ?thesis using d(4) p2(4) Suc unfolding p2(6) by (auto simp: list_all2_Cons1 stored_def)
  qed (use d(4) in simp)
  moreover have "bt_get (pool_data contents mp3 ?sid) (reaction_hash a) \<noteq> None" "length (pool_data contents mp3 ?sid) \<le> 2"
    using two assms(8) unfolding d(3) p2(5,6) by (cases limit; auto)+
  moreover have "max_sector_capacity mp3 = max_sector_capacity mp"
    using d(1) p2(3) by (auto simp: drain_resonant_def set_sector_def Let_def split: option.splits prod.splits)
  ultimately show ?thesis
    using p1(1) p2(1) d(1) tree_contract.push_duplicate [OF assms(1) d(2) assms(3)] assms(11) by auto
qed

theorem equal_weight_strands_reaction_witness:
  "\<exists>mp mp1 mp2. mempool_new (\<lambda>_. Inr []) = Inr mp
     \<and> push (mem_pool tail_hash) (Inr 5) (pool_rx 7) mp = (Inr True, mp1) \<and> push (mem_pool tail_hash) (Inr 5) (pool_rx 8) mp1 = (Inr True, mp2)
     \<and> fst (drain_resonant (mem_pool tail_hash) 1 50 mp2) = [pool_rx 8]"
proof -
  obtain mp where mp: "mempool_new (\<lambda>_. Inr []) = Inr mp" "mempool_ok (mem_pool tail_hash) bt_ordered (\<lambda>t. t) mp"
    "\<And>sid. pool_data (\<lambda>t. t) mp sid = []" "\<And>sid. pool_index (\<lambda>t. t) mp sid = []" "unat (max_sector_capacity mp) = 1000000"
    by (rule mem_pool_fresh) auto
  then show ?thesis
    using equal_weight_strands_reaction [OF mm.tree_contract_axioms mp(2), of "pool_rx 7" "pool_rx 8" 5 50 "Inr 6"]
      pool_rx_valid [of 7] pool_rx_valid [of 8] pool_rx_hash [of 7 8] by auto
qed

end
