(* ===== verification/Primus_Dht.thy ===== *)
theory Primus_Dht
  imports Primus_Types
begin

text \<open>
  Peer routing: the Kademlia table and the peer lists of \<open>primus-net-opt/src/dht.rs\<close>, and the
  iterative lookup of \<open>primus-net-opt/src/lib.rs\<close>. SHA3-256 and ML-DSA are arguments, the answers
  of other nodes are the fields of \<open>kad_env\<close>. A lock of the source protects one bucket, so the two
  halves of an insertion, before and after the ping, are separate operations.
\<close>

section \<open>Distances\<close>

definition BUCKET_SIZE :: nat where "BUCKET_SIZE = 20"
definition NBUCKETS :: nat where "NBUCKETS = 256"
definition ALPHA :: nat where "ALPHA = 3"

type_synonym NodeID = hash32

definition xor_distance :: "NodeID \<Rightarrow> NodeID \<Rightarrow> NodeID" where
  "xor_distance a b = xor_bytes a b"

text \<open>\<open>u8::leading_zeros\<close>.\<close>

definition leading_zeros :: "u8 \<Rightarrow> nat" where
  "leading_zeros b = length (takeWhile (\<lambda>i. \<not> bit b i) (rev [0 ..< 8]))"

fun bucket_scan :: "nat \<Rightarrow> bytes \<Rightarrow> nat" where
  "bucket_scan i [] = NBUCKETS - 1"
| "bucket_scan i (byte # rest) = (if byte \<noteq> 0 then i * 8 + leading_zeros byte else bucket_scan (i + 1) rest)"

definition bucket_index :: "NodeID \<Rightarrow> nat" where
  "bucket_index d = bucket_scan 0 d"

section \<open>Buckets\<close>

type_synonym KBucket = "PrimusNR list"

text \<open>A full bucket is left as it is and its tail returned as a candidate for eviction.\<close>

definition bucket_insert :: "(bytes \<Rightarrow> hash32) \<Rightarrow> PrimusNR \<Rightarrow> KBucket \<Rightarrow> PrimusNR option \<times> KBucket" where
  "bucket_insert sha3 nr nodes =
     (case List.extract (\<lambda>n. node_id sha3 n = node_id sha3 nr) nodes of
        Some (before_pos, existing, after_pos) \<Rightarrow> (None, existing # before_pos @ after_pos)
      | None \<Rightarrow>
          if length nodes < BUCKET_SIZE then (None, nr # nodes)
          else (if nodes = [] then None else Some (last nodes), nodes))"

definition replace_tail :: "PrimusNR \<Rightarrow> KBucket \<Rightarrow> KBucket" where
  "replace_tail new_node nodes = (if nodes \<noteq> [] then new_node # butlast nodes else nodes)"

definition bucket_remove :: "(bytes \<Rightarrow> hash32) \<Rightarrow> NodeID \<Rightarrow> KBucket \<Rightarrow> KBucket" where
  "bucket_remove sha3 i nodes = filter (\<lambda>n. node_id sha3 n \<noteq> i) nodes"

section \<open>The routing table\<close>

record RoutingTable =
  local_id :: NodeID
  buckets :: "KBucket list"

definition table_new :: "NodeID \<Rightarrow> RoutingTable" where
  "table_new i = \<lparr>local_id = i, buckets = replicate NBUCKETS []\<rparr>"

definition bucket_of :: "RoutingTable \<Rightarrow> NodeID \<Rightarrow> nat" where
  "bucket_of T i = bucket_index (xor_distance (local_id T) i)"

text \<open>The two critical sections of an insertion.\<close>

definition insert_begin :: "(bytes \<Rightarrow> hash32) \<Rightarrow> PrimusNR \<Rightarrow> RoutingTable \<Rightarrow> PrimusNR option \<times> RoutingTable" where
  "insert_begin sha3 nr T =
     (let i = bucket_of T (node_id sha3 nr);
          (candidate, nodes) = bucket_insert sha3 nr (buckets T ! i)
      in (candidate, T\<lparr>buckets := (buckets T)[i := nodes]\<rparr>))"

definition insert_end :: "(bytes \<Rightarrow> hash32) \<Rightarrow> PrimusNR \<Rightarrow> RoutingTable \<Rightarrow> RoutingTable" where
  "insert_end sha3 nr T =
     (let i = bucket_of T (node_id sha3 nr)
      in T\<lparr>buckets := (buckets T)[i := replace_tail nr (buckets T ! i)]\<rparr>)"

text \<open>An insertion that no other task interrupts; \<open>dht_step\<close> below has its two sections as separate steps.\<close>

definition table_insert :: "(bytes \<Rightarrow> hash32) \<Rightarrow> (PrimusNR \<Rightarrow> bool) \<Rightarrow> PrimusNR \<Rightarrow> RoutingTable \<Rightarrow> RoutingTable" where
  "table_insert sha3 ping nr T =
     (if node_id sha3 nr = local_id T then T
      else (case insert_begin sha3 nr T of
              (None, T1) \<Rightarrow> T1
            | (Some tail, T1) \<Rightarrow> if \<not> ping tail then insert_end sha3 nr T1 else T1))"

definition table_remove :: "(bytes \<Rightarrow> hash32) \<Rightarrow> NodeID \<Rightarrow> RoutingTable \<Rightarrow> RoutingTable" where
  "table_remove sha3 i T =
     (let j = bucket_of T i in T\<lparr>buckets := (buckets T)[j := bucket_remove sha3 i (buckets T ! j)]\<rparr>)"

definition all_peers :: "RoutingTable \<Rightarrow> PrimusNR list" where
  "all_peers T = concat (buckets T)"

text \<open>\<open>sort_unstable_by\<close> the distance: distinct peers have distinct distances, so the order of ties is irrelevant.\<close>

definition get_closest :: "(bytes \<Rightarrow> hash32) \<Rightarrow> NodeID \<Rightarrow> nat \<Rightarrow> RoutingTable \<Rightarrow> PrimusNR list" where
  "get_closest sha3 target k T =
     take k (sort_key (\<lambda>n. xor_distance (node_id sha3 n) target) (all_peers T))"

definition table_len :: "RoutingTable \<Rightarrow> nat" where
  "table_len T = sum_list (map length (buckets T))"

definition table_is_empty :: "RoutingTable \<Rightarrow> bool" where
  "table_is_empty T = (table_len T = 0)"

section \<open>Addresses as text\<close>

text \<open>\<open>Display\<close> of integers and socket addresses in the standard library.\<close>

fun show_nat :: "nat \<Rightarrow> string" where
  "show_nat n = (if n < 10 then [char_of (48 + n)] else show_nat (n div 10) @ [char_of (48 + n mod 10)])"

fun show_hex :: "nat \<Rightarrow> string" where
  "show_hex n =
     (let digit = (\<lambda>d. char_of (if d < 10 then 48 + d else 87 + d))
      in if n < 16 then [digit n] else show_hex (n div 16) @ [digit (n mod 16)])"

declare show_nat.simps [simp del] show_hex.simps [simp del]

fun join_with :: "char \<Rightarrow> string list \<Rightarrow> string" where
  "join_with c [] = []"
| "join_with c [s] = s"
| "join_with c (s # ss) = s @ c # join_with c ss"

definition show_ipv4 :: "u32 \<Rightarrow> string" where
  "show_ipv4 ip = join_with (CHR ''.'') (map (\<lambda>b. show_nat (unat b)) (to_be_bytes 4 ip))"

definition ipv6_segments :: "u128 \<Rightarrow> nat list" where
  "ipv6_segments ip = map (\<lambda>i. unat (take_bit 16 (drop_bit (16 * i) ip))) (rev [0 ..< 8])"

text \<open>The first longest run of zero segments, as its start and length.\<close>

fun zero_run :: "nat \<Rightarrow> nat list \<Rightarrow> nat \<times> nat \<Rightarrow> nat \<times> nat \<Rightarrow> nat \<times> nat" where
  "zero_run i [] cur best = best"
| "zero_run i (s # ss) (cs, cl) (bs, bl) =
     (if s = 0
      then
        let cur = (if cl = 0 then (i, 1) else (cs, cl + 1))
        in zero_run (i + 1) ss cur (if bl < snd cur then cur else (bs, bl))
      else zero_run (i + 1) ss (0, 0) (bs, bl))"

definition show_ipv6 :: "u128 \<Rightarrow> string" where
  "show_ipv6 ip =
     (case to_ipv4_mapped ip of
        Some v4 \<Rightarrow> ''::ffff:'' @ show_ipv4 v4
      | None \<Rightarrow>
          let segs = ipv6_segments ip; (start, len) = zero_run 0 segs (0, 0) (0, 0);
              hex = (\<lambda>ss. join_with (CHR '':'') (map show_hex ss))
          in if 1 < len then hex (take start segs) @ ''::'' @ hex (drop (start + len) segs) else hex segs)"

definition show_ip :: "IpAddr \<Rightarrow> string" where
  "show_ip ip = (case ip of V4 v4 \<Rightarrow> show_ipv4 v4 | V6 v6 \<Rightarrow> show_ipv6 v6)"

definition show_addr :: "SocketAddr \<Rightarrow> string" where
  "show_addr a =
     (case fst a of V4 v4 \<Rightarrow> show_ipv4 v4 | V6 v6 \<Rightarrow> ''['' @ show_ipv6 v6 @ '']'') @ '':'' @ show_nat (unat (snd a))"

section \<open>The peer lists\<close>

record PrimusDHT =
  table :: RoutingTable
  addr_peers :: "string list"

definition dht_new :: "(bytes \<Rightarrow> hash32) \<Rightarrow> PrimusNR \<Rightarrow> PrimusDHT" where
  "dht_new sha3 nr = \<lparr>table = table_new (node_id sha3 nr), addr_peers = []\<rparr>"

definition dht_insert ::
  "(bytes \<Rightarrow> hash32) \<Rightarrow> 'sg mldsa \<Rightarrow> (PrimusNR \<Rightarrow> bool) \<Rightarrow> PrimusNR \<Rightarrow> PrimusDHT \<Rightarrow> PrimusDHT" where
  "dht_insert sha3 D ping nr dht =
     (if \<not> nr_verify D nr then dht else dht\<lparr>table := table_insert sha3 ping nr (table dht)\<rparr>)"

definition dht_remove :: "(bytes \<Rightarrow> hash32) \<Rightarrow> NodeID \<Rightarrow> PrimusDHT \<Rightarrow> PrimusDHT" where
  "dht_remove sha3 i dht = dht\<lparr>table := table_remove sha3 i (table dht)\<rparr>"

definition register_peer_addr :: "string \<Rightarrow> PrimusDHT \<Rightarrow> PrimusDHT" where
  "register_peer_addr addr dht =
     (if List.member (addr_peers dht) addr then dht else dht\<lparr>addr_peers := addr_peers dht @ [addr]\<rparr>)"

definition remove_peer_addr :: "string \<Rightarrow> PrimusDHT \<Rightarrow> PrimusDHT" where
  "remove_peer_addr addr dht = dht\<lparr>addr_peers := filter (\<lambda>a. a \<noteq> addr) (addr_peers dht)\<rparr>"

fun merge_peers :: "string list \<Rightarrow> string list \<Rightarrow> string list" where
  "merge_peers merged [] = merged"
| "merge_peers merged (a # as) = merge_peers (if List.member merged a then merged else merged @ [a]) as"

definition get_peer_list :: "PrimusDHT \<Rightarrow> string list" where
  "get_peer_list dht =
     merge_peers (map (\<lambda>nr. show_addr (nr_addr nr)) (all_peers (table dht))) (addr_peers dht)"

definition get_all_records :: "PrimusDHT \<Rightarrow> PrimusNR list" where
  "get_all_records dht = all_peers (table dht)"

definition find_closest :: "(bytes \<Rightarrow> hash32) \<Rightarrow> NodeID \<Rightarrow> nat \<Rightarrow> PrimusDHT \<Rightarrow> PrimusNR list" where
  "find_closest sha3 target k dht = get_closest sha3 target k (table dht)"

definition peer_count :: "PrimusDHT \<Rightarrow> nat" where
  "peer_count dht = table_len (table dht)"

section \<open>Tasks that share the peer lists\<close>

text \<open>An insertion locks its bucket twice, and between the two sections it pings the tail with no lock held. The
  steps of all tasks on one peer list: \<open>waiting\<close> are the records whose insertion waits for the ping. The
  lookups of the engine touch a table by the same two sections and by removals. With \<open>once\<close>, no insertion
  begins while one of the same identity waits.\<close>

inductive dht_step ::
  "bool \<Rightarrow> (bytes \<Rightarrow> hash32) \<Rightarrow> 'sg mldsa \<Rightarrow> PrimusDHT \<times> PrimusNR list \<Rightarrow> PrimusDHT \<times> PrimusNR list \<Rightarrow> bool" for once sha3 D where
  begun: "nr_verify D nr \<Longrightarrow> node_id sha3 nr \<noteq> local_id (table dht) \<Longrightarrow> (once \<longrightarrow> node_id sha3 nr \<notin> node_id sha3 ` set waiting)
    \<Longrightarrow> insert_begin sha3 nr (table dht) = (candidate, T)
    \<Longrightarrow> dht_step once sha3 D (dht, waiting) (dht\<lparr>table := T\<rparr>, if candidate = None then waiting else nr # waiting)"
| tail_dead: "nr \<in> set waiting \<Longrightarrow> dht_step once sha3 D (dht, waiting) (dht\<lparr>table := insert_end sha3 nr (table dht)\<rparr>, remove1 nr waiting)"
| tail_alive: "nr \<in> set waiting \<Longrightarrow> dht_step once sha3 D (dht, waiting) (dht, remove1 nr waiting)"
| removed: "length i = 32 \<Longrightarrow> dht_step once sha3 D (dht, waiting) (dht_remove sha3 i dht, waiting)"
| registered: "dht_step once sha3 D (dht, waiting) (register_peer_addr a dht, waiting)"
| unregistered: "dht_step once sha3 D (dht, waiting) (remove_peer_addr a dht, waiting)"

abbreviation dht_steps ::
  "bool \<Rightarrow> (bytes \<Rightarrow> hash32) \<Rightarrow> 'sg mldsa \<Rightarrow> PrimusDHT \<times> PrimusNR list \<Rightarrow> PrimusDHT \<times> PrimusNR list \<Rightarrow> bool" where
  "dht_steps once sha3 D \<equiv> (dht_step once sha3 D)\<^sup>*\<^sup>*"

section \<open>The iterative lookup\<close>

datatype KademliaMsg = FindNodeRequest NodeID | FindNodeResponse "PrimusNR list"

text \<open>The answers of the network in each round: whether a node responds to a ping (indexed by
  the answers still to be processed), and what it returns for a lookup.\<close>

record 'sg kad_env =
  kd_sha3 :: "bytes \<Rightarrow> hash32"
  kd_dsa :: "'sg mldsa"
  kd_ping :: "nat \<times> nat \<Rightarrow> PrimusNR \<Rightarrow> bool"
  kd_rpc :: "nat \<Rightarrow> SocketAddr \<Rightarrow> NodeID \<Rightarrow> string + PrimusNR list"

definition handle_new_peer :: "'sg kad_env \<Rightarrow> nat \<times> nat \<Rightarrow> PrimusNR \<Rightarrow> RoutingTable \<Rightarrow> RoutingTable" where
  "handle_new_peer N t nr T =
     (if nr_verify (kd_dsa N) nr then table_insert (kd_sha3 N) (kd_ping N t) nr T else T)"

definition mark_failed :: "'sg kad_env \<Rightarrow> NodeID \<Rightarrow> RoutingTable \<Rightarrow> RoutingTable" where
  "mark_failed N i T = table_remove (kd_sha3 N) i T"

text \<open>\<open>dedup_by_key\<close>: of consecutive elements with one key the first is kept.\<close>

fun dedup_by :: "('a \<Rightarrow> 'b) \<Rightarrow> 'a list \<Rightarrow> 'a list" where
  "dedup_by f (x # y # xs) = (if f x = f y then dedup_by f (x # xs) else x # dedup_by f (y # xs))"
| "dedup_by f xs = xs"

text \<open>The answers of one round, in order: every node is offered to the routing table, an unvisited
  one is queued.\<close>

fun absorb_nodes ::
  "'sg kad_env \<Rightarrow> nat \<Rightarrow> NodeID list \<Rightarrow> PrimusNR list \<Rightarrow> RoutingTable \<Rightarrow> PrimusNR list \<Rightarrow> bool
     \<Rightarrow> RoutingTable \<times> PrimusNR list \<times> bool" where
  "absorb_nodes N rnd visited [] T queue found = (T, queue, found)"
| "absorb_nodes N rnd visited (n # ns) T queue found =
     (let T1 = handle_new_peer N (rnd, length ns) n T
      in if \<not> List.member visited (node_id (kd_sha3 N) n)
         then absorb_nodes N rnd visited ns T1 (queue @ [n]) True
         else absorb_nodes N rnd visited ns T1 queue found)"

definition lookup_round ::
  "'sg kad_env \<Rightarrow> NodeID \<Rightarrow> nat \<Rightarrow> PrimusNR list \<Rightarrow> PrimusNR list \<Rightarrow> NodeID list \<Rightarrow> RoutingTable
     \<Rightarrow> RoutingTable \<times> PrimusNR list \<times> NodeID list \<times> bool" where
  "lookup_round N target rnd batch queue visited T =
     (let ids = map (node_id (kd_sha3 N)) batch;
          answers = map (\<lambda>n. kd_rpc N rnd (nr_addr n) target) batch;
          T1 = foldl (\<lambda>T (i, r). case r of Inl _ \<Rightarrow> mark_failed N i T | Inr _ \<Rightarrow> T) T (zip ids answers);
          visited1 = rev ids @ visited;
          nodes = concat (map (\<lambda>r. case r of Inl _ \<Rightarrow> [] | Inr ns \<Rightarrow> ns) answers);
          (T2, queue1, found) = absorb_nodes N rnd visited1 nodes T1 queue False
      in (T2, queue1, visited1, found))"

partial_function (option) find_loop ::
  "'sg kad_env \<Rightarrow> NodeID \<Rightarrow> nat \<Rightarrow> PrimusNR list \<Rightarrow> PrimusNR list \<Rightarrow> NodeID list \<Rightarrow> RoutingTable
     \<Rightarrow> (PrimusNR list \<times> RoutingTable) option" where
  "find_loop N target rnd queue closest visited T =
     (let batch = take ALPHA (filter (\<lambda>n. \<not> List.member visited (node_id (kd_sha3 N) n)) queue)
      in if batch = [] then Some (closest, T)
         else
           let (T1, queue1, visited1, found) = lookup_round N target rnd batch queue visited T
           in if \<not> found then Some (closest, T1)
              else
                let closest1 = take BUCKET_SIZE (dedup_by (node_id (kd_sha3 N))
                                 (sort_key (\<lambda>n. xor_distance (node_id (kd_sha3 N) n) target) (closest @ queue1)));
                    queue2 = filter (\<lambda>n. \<not> List.member visited1 (node_id (kd_sha3 N) n)) closest1
                in if queue2 = [] then Some (closest1, T1)
                   else find_loop N target (rnd + 1) queue2 closest1 visited1 T1)"

definition find_node :: "'sg kad_env \<Rightarrow> NodeID \<Rightarrow> RoutingTable \<Rightarrow> (PrimusNR list \<times> RoutingTable) option" where
  "find_node N target T =
     find_loop N target 0 (get_closest (kd_sha3 N) target BUCKET_SIZE T) [] [local_id T] T"

text \<open>The answer to a lookup from another node.\<close>

definition handle_rpc :: "(bytes \<Rightarrow> hash32) \<Rightarrow> KademliaMsg \<Rightarrow> RoutingTable \<Rightarrow> string + KademliaMsg" where
  "handle_rpc sha3 msg T =
     (case msg of
        FindNodeRequest target \<Rightarrow> Inr (FindNodeResponse (get_closest sha3 target BUCKET_SIZE T))
      | FindNodeResponse _ \<Rightarrow> Inl ''Unexpected RPC message type'')"

end
