(* ===== verification/Dht_Correct.thy ===== *)
theory Dht_Correct
  imports Primus_Dht
begin

text \<open>
  Correctness of the routing table: the invariant \<open>table_ok\<close> and what every operation does to it,
  the meaning of a closest-peer query, and the measure and the invariant of the iterative lookup.
\<close>

section \<open>Bucket numbers\<close>

lemma leading_zeros_less: "b \<noteq> 0 \<Longrightarrow> leading_zeros b < 8"
proof (rule ccontr)
  assume "b \<noteq> 0" and "\<not> leading_zeros b < 8"
  moreover have "length (takeWhile P xs) \<le> length xs" for P :: "nat \<Rightarrow> bool" and xs
    by (rule length_takeWhile_le)
  ultimately have "takeWhile (\<lambda>i. \<not> bit b i) (rev [0 ..< 8]) = rev [0 ..< 8]"
    by (metis diff_zero leading_zeros_def length_rev length_upt linorder_not_less nat_less_le takeWhile_eq_take take_all)
  then have "\<forall>i < 8. \<not> bit b i"
    by (auto simp: takeWhile_eq_all_conv)
  then have "b = 0"
    by (intro bit_word_eqI) simp
  with \<open>b \<noteq> 0\<close> show False by contradiction
qed

lemma bucket_scan_less: "i + length bs = 32 \<Longrightarrow> bucket_scan i bs < NBUCKETS"
proof (induction bs arbitrary: i)
  case (Cons b bs)
  then show ?case
    using leading_zeros_less [of b] by (auto simp: NBUCKETS_def)
qed (simp add: NBUCKETS_def)

lemma bucket_index_less: "length d = 32 \<Longrightarrow> bucket_index d < NBUCKETS"
  by (simp add: bucket_index_def bucket_scan_less)

lemma xor_distance_inject:
  assumes "length a = 32" and "length b = 32" and "length t = 32"
  shows "xor_distance a t = xor_distance b t \<longleftrightarrow> a = b"
  using assms by (metis xor_bytes_cancel xor_distance_def)

lemma xor_distance_self: "xor_distance a a = replicate (length a) 0"
  by (simp add: xor_distance_def xor_bytes_self)

text \<open>The zero distance is the least of its length in the lexicographic order.\<close>

lemma zeros_least: "length d = n \<Longrightarrow> replicate n (0 :: u8) \<le> d"
proof (induction n arbitrary: d)
  case (Suc n)
  then obtain b e where "d = b # e" "length e = n"
    by (cases d) auto
  with Suc.IH [of e] show ?case
    by (cases "b = 0") (auto simp: word_gt_0)
qed simp

section \<open>The invariant of the table\<close>

definition bucket_ok :: "(bytes \<Rightarrow> hash32) \<Rightarrow> RoutingTable \<Rightarrow> nat \<Rightarrow> KBucket \<Rightarrow> bool" where
  "bucket_ok sha3 T i nodes \<longleftrightarrow>
     length nodes \<le> BUCKET_SIZE \<and> distinct (map (node_id sha3) nodes)
     \<and> (\<forall>n \<in> set nodes. node_id sha3 n \<noteq> local_id T \<and> bucket_of T (node_id sha3 n) = i)"

definition table_ok :: "(bytes \<Rightarrow> hash32) \<Rightarrow> RoutingTable \<Rightarrow> bool" where
  "table_ok sha3 T \<longleftrightarrow>
     length (local_id T) = 32 \<and> length (buckets T) = NBUCKETS
     \<and> (\<forall>i < NBUCKETS. bucket_ok sha3 T i (buckets T ! i))"

text \<open>The identities known to a table, and the authenticity of its records.\<close>

definition known :: "(bytes \<Rightarrow> hash32) \<Rightarrow> RoutingTable \<Rightarrow> NodeID set" where
  "known sha3 T = node_id sha3 ` set (all_peers T)"

definition authentic :: "'sg mldsa \<Rightarrow> RoutingTable \<Rightarrow> bool" where
  "authentic D T \<longleftrightarrow> (\<forall>n \<in> set (all_peers T). nr_verify D n)"

lemma table_new_ok: "length i = 32 \<Longrightarrow> table_ok sha3 (table_new i)"
  by (simp add: table_ok_def table_new_def bucket_ok_def)

lemma authentic_new: "authentic D (table_new i)"
  by (simp add: authentic_def all_peers_def table_new_def)

lemma bucket_of_update [simp]: "bucket_of (T\<lparr>buckets := bs\<rparr>) = bucket_of T"
  by (rule ext) (simp add: bucket_of_def)

lemma bucket_ok_update [simp]: "bucket_ok sha3 (T\<lparr>buckets := bs\<rparr>) = bucket_ok sha3 T"
  by (intro ext) (simp add: bucket_ok_def)

lemma bucket_of_less:
  assumes "table_ok sha3 T" and "length i = 32"
  shows "bucket_of T i < NBUCKETS" and "bucket_of T i < length (buckets T)"
  using assms by (simp_all add: bucket_of_def table_ok_def xor_distance_def bucket_index_less)

lemma table_bucket_ok: "table_ok sha3 T \<Longrightarrow> i < NBUCKETS \<Longrightarrow> bucket_ok sha3 T i (buckets T ! i)"
  by (simp add: table_ok_def)

lemma table_ok_update:
  assumes "table_ok sha3 T" and "bucket_ok sha3 T i nodes"
  shows "table_ok sha3 (T\<lparr>buckets := (buckets T)[i := nodes]\<rparr>)"
proof -
  have "bucket_ok sha3 T j ((buckets T)[i := nodes] ! j)" if "j < NBUCKETS" for j
    using assms that by (cases "i = j") (simp_all add: table_ok_def)
  with assms(1) show ?thesis by (simp add: table_ok_def)
qed

lemma all_peers_nth: "set (all_peers T) = (\<Union>i < length (buckets T). set (buckets T ! i))"
  by (auto simp: all_peers_def set_conv_nth [of "buckets T"])

text \<open>A record of the table lies in the bucket of its identity.\<close>

lemma all_peers_bucket:
  assumes "table_ok sha3 T"
  shows "n \<in> set (all_peers T) \<longleftrightarrow>
    bucket_of T (node_id sha3 n) < NBUCKETS \<and> n \<in> set (buckets T ! bucket_of T (node_id sha3 n))"
  using assms by (auto simp: all_peers_nth table_ok_def bucket_ok_def)

lemma authentic_update:
  assumes "authentic D T" and "set nodes \<subseteq> insert nr (set (all_peers T))" and "nr_verify D nr"
  shows "authentic D (T\<lparr>buckets := (buckets T)[i := nodes]\<rparr>)"
proof -
  have "set (all_peers (T\<lparr>buckets := (buckets T)[i := nodes]\<rparr>)) \<subseteq> insert nr (set (all_peers T))"
    using assms(2) set_update_subset_insert [of "buckets T" i nodes] by (fastforce simp: all_peers_def)
  with assms(1,3) show ?thesis by (auto simp: authentic_def)
qed

lemma distinct_concat_indexed:
  assumes "\<And>i. i < length bs \<Longrightarrow> distinct (map f (bs ! i)) \<and> (\<forall>x \<in> set (bs ! i). g (f x) = i + k)"
  shows "distinct (map f (concat bs)) \<and> (\<forall>x \<in> set (concat bs). k \<le> g (f x))"
  using assms
proof (induction bs arbitrary: k)
  case (Cons b bs)
  have *: "distinct (map f (concat bs)) \<and> (\<forall>x \<in> set (concat bs). Suc k \<le> g (f x))"
    by (rule Cons.IH) (use Cons.prems [of "Suc _"] in auto)
  have b: "distinct (map f b)" "\<forall>x \<in> set b. g (f x) = k"
    using Cons.prems [of 0] by auto
  have "f ` set b \<inter> f ` set (concat bs) = {}"
    using * b(2) by fastforce
  with * b show ?case by fastforce
qed simp

lemma distinct_ids:
  assumes "table_ok sha3 T" shows "distinct (map (node_id sha3) (all_peers T))"
  using distinct_concat_indexed [of "buckets T" "node_id sha3" "bucket_of T" 0] assms
  by (simp add: table_ok_def bucket_ok_def all_peers_def)

lemma length_all_peers: "length (all_peers T) = table_len T"
  by (simp add: all_peers_def table_len_def length_concat)

section \<open>Operations\<close>

lemma bucket_insert_spec:
  assumes "bucket_ok sha3 T i nodes" and "bucket_of T (node_id sha3 nr) = i" and "node_id sha3 nr \<noteq> local_id T"
    and "bucket_insert sha3 nr nodes = (c, nodes')"
  shows "bucket_ok sha3 T i nodes'" and "set nodes' \<subseteq> insert nr (set nodes)"
    and "c = None \<Longrightarrow> node_id sha3 ` set nodes' = insert (node_id sha3 nr) (node_id sha3 ` set nodes)"
    and "c = Some t \<Longrightarrow> nodes' = nodes \<and> length nodes = BUCKET_SIZE \<and> t = last nodes
           \<and> node_id sha3 nr \<notin> node_id sha3 ` set nodes"
proof -
  let ?P = "\<lambda>n. node_id sha3 n = node_id sha3 nr"
  have "bucket_ok sha3 T i nodes' \<and> set nodes' \<subseteq> insert nr (set nodes)
    \<and> (c = None \<longrightarrow> node_id sha3 ` set nodes' = insert (node_id sha3 nr) (node_id sha3 ` set nodes))
    \<and> (c = Some t \<longrightarrow> nodes' = nodes \<and> length nodes = BUCKET_SIZE \<and> t = last nodes
           \<and> node_id sha3 nr \<notin> node_id sha3 ` set nodes)"
  proof (cases "List.extract ?P nodes")
    case None
    then have "\<forall>n \<in> set nodes. \<not> ?P n"
      by (simp add: extract_None_iff)
    then have new: "node_id sha3 nr \<notin> node_id sha3 ` set nodes"
      by force
    show ?thesis
    proof (cases "length nodes < BUCKET_SIZE")
      case True
      with None assms(4) have "c = None" "nodes' = nr # nodes"
        by (simp_all add: bucket_insert_def)
      with True new assms(1-3) show ?thesis
        by (auto simp: bucket_ok_def)
    next
      case False
      with assms(1) have full: "length nodes = BUCKET_SIZE"
        by (simp add: bucket_ok_def)
      then have "nodes \<noteq> []"
        by (auto simp: BUCKET_SIZE_def)
      with False None assms(4) have "c = Some (last nodes)" "nodes' = nodes"
        by (auto simp: bucket_insert_def)
      with full new assms(1) show ?thesis
        by auto
    qed
  next
    case (Some r)
    obtain as y bs where r: "r = (as, y, bs)"
      by (cases r)
    from Some r have split: "nodes = as @ y # bs" "?P y"
      by (simp_all add: extract_Some_iff)
    from Some r assms(4) have "c = None" "nodes' = y # as @ bs"
      by (simp_all add: bucket_insert_def)
    with split assms(1) show ?thesis
      by (auto simp: bucket_ok_def)
  qed
  then show "bucket_ok sha3 T i nodes'" and "set nodes' \<subseteq> insert nr (set nodes)"
    and "c = None \<Longrightarrow> node_id sha3 ` set nodes' = insert (node_id sha3 nr) (node_id sha3 ` set nodes)"
    and "c = Some t \<Longrightarrow> nodes' = nodes \<and> length nodes = BUCKET_SIZE \<and> t = last nodes
           \<and> node_id sha3 nr \<notin> node_id sha3 ` set nodes"
    by auto
qed

lemma replace_tail_spec:
  assumes "bucket_ok sha3 T i nodes" and "bucket_of T (node_id sha3 nr) = i" and "node_id sha3 nr \<noteq> local_id T"
    and "node_id sha3 nr \<notin> node_id sha3 ` set nodes"
  shows "bucket_ok sha3 T i (replace_tail nr nodes)" and "set (replace_tail nr nodes) \<subseteq> insert nr (set nodes)"
proof -
  have "bucket_ok sha3 T i (replace_tail nr nodes) \<and> set (replace_tail nr nodes) \<subseteq> insert nr (set nodes)"
  proof (cases nodes rule: rev_cases)
    case (snoc ns n)
    with assms show ?thesis by (auto simp: replace_tail_def bucket_ok_def)
  qed (use assms in \<open>simp add: replace_tail_def bucket_ok_def\<close>)
  then show "bucket_ok sha3 T i (replace_tail nr nodes)" "set (replace_tail nr nodes) \<subseteq> insert nr (set nodes)"
    by auto
qed

lemma bucket_remove_ok: "bucket_ok sha3 T i nodes \<Longrightarrow> bucket_ok sha3 T i (bucket_remove sha3 j nodes)"
  by (auto simp: bucket_ok_def bucket_remove_def distinct_map_filter intro: le_trans [OF length_filter_le])

text \<open>An insertion changes the bucket of the new identity only, to one of two contents.\<close>

lemma table_insert_cases:
  assumes "table_ok sha3 T" and "length (node_id sha3 nr) = 32" and "node_id sha3 nr \<noteq> local_id T"
  defines "i \<equiv> bucket_of T (node_id sha3 nr)"
  obtains nodes' where "bucket_insert sha3 nr (buckets T ! i) = (None, nodes')"
      "table_insert sha3 ping nr T = T\<lparr>buckets := (buckets T)[i := nodes']\<rparr>"
    | "bucket_insert sha3 nr (buckets T ! i) = (Some (last (buckets T ! i)), buckets T ! i)"
      "ping (last (buckets T ! i))" "table_insert sha3 ping nr T = T"
    | "bucket_insert sha3 nr (buckets T ! i) = (Some (last (buckets T ! i)), buckets T ! i)"
      "\<not> ping (last (buckets T ! i))"
      "table_insert sha3 ping nr T = T\<lparr>buckets := (buckets T)[i := replace_tail nr (buckets T ! i)]\<rparr>"
proof -
  have i: "i < NBUCKETS" "i < length (buckets T)"
    using bucket_of_less [OF assms(1,2)] by (simp_all add: i_def)
  obtain c nodes' where b: "bucket_insert sha3 nr (buckets T ! i) = (c, nodes')"
    by fastforce
  note spec = bucket_insert_spec [OF table_bucket_ok [OF assms(1) i(1)] i_def [symmetric, THEN meta_eq_to_obj_eq] assms(3) b]
  show thesis
  proof (cases c)
    case None
    with b assms(3) that(1) [of nodes'] show ?thesis
      by (simp add: table_insert_def insert_begin_def i_def [symmetric])
  next
    case (Some t)
    with spec(4) have n: "nodes' = buckets T ! i" "t = last (buckets T ! i)"
      by auto
    with Some b i(2) assms(3) that(2,3) show ?thesis
      by (cases "ping t") (simp_all add: table_insert_def insert_begin_def insert_end_def i_def [symmetric])
  qed
qed

lemma table_insert_local [simp]: "local_id (table_insert sha3 ping nr T) = local_id T"
  by (auto simp: table_insert_def insert_begin_def insert_end_def Let_def split: prod.splits option.splits)

lemma table_insert_keeps:
  assumes ok: "table_ok sha3 T" and len: "length (node_id sha3 nr) = 32"
  shows "table_ok sha3 (table_insert sha3 ping nr T)"
    and "authentic D T \<Longrightarrow> nr_verify D nr \<Longrightarrow> authentic D (table_insert sha3 ping nr T)"
proof -
  have "table_ok sha3 (table_insert sha3 ping nr T)
    \<and> (authentic D T \<longrightarrow> nr_verify D nr \<longrightarrow> authentic D (table_insert sha3 ping nr T))"
  proof (cases "node_id sha3 nr = local_id T")
    case True
    with ok show ?thesis by (simp add: table_insert_def)
  next
    case False
    let ?i = "bucket_of T (node_id sha3 nr)"
    have i: "?i < NBUCKETS" "?i < length (buckets T)"
      using bucket_of_less [OF ok len] by simp_all
    have sub: "set (buckets T ! ?i) \<subseteq> set (all_peers T)"
      using i(2) by (auto simp: all_peers_nth)
    note bok = table_bucket_ok [OF ok i(1)]
    show ?thesis
    proof (rule table_insert_cases [OF ok len False, of ping])
      fix nodes' assume b: "bucket_insert sha3 nr (buckets T ! ?i) = (None, nodes')"
        and T': "table_insert sha3 ping nr T = T\<lparr>buckets := (buckets T)[?i := nodes']\<rparr>"
      note spec = bucket_insert_spec(1,2) [OF bok refl False b]
      show ?thesis
        unfolding T' using table_ok_update [OF ok spec(1)] authentic_update [of D T nodes' nr] spec(2) sub by blast
    next
      assume "bucket_insert sha3 nr (buckets T ! ?i) = (Some (last (buckets T ! ?i)), buckets T ! ?i)"
        and T': "table_insert sha3 ping nr T = T\<lparr>buckets := (buckets T)[?i := replace_tail nr (buckets T ! ?i)]\<rparr>"
      then have "node_id sha3 nr \<notin> node_id sha3 ` set (buckets T ! ?i)"
        using bucket_insert_spec(4) [OF bok refl False] by blast
      note spec = replace_tail_spec [OF bok refl False this]
      show ?thesis
        unfolding T' using table_ok_update [OF ok spec(1)] authentic_update [of D T "replace_tail nr (buckets T ! ?i)" nr]
          spec(2) sub by blast
    qed (use ok in simp)
  qed
  then show "table_ok sha3 (table_insert sha3 ping nr T)"
    and "authentic D T \<Longrightarrow> nr_verify D nr \<Longrightarrow> authentic D (table_insert sha3 ping nr T)"
    by blast+
qed

text \<open>An insertion adds its identity, or drops it when the bucket is full of responsive peers.\<close>

lemma table_insert_known:
  assumes ok: "table_ok sha3 T" and len: "length (node_id sha3 nr) = 32" and "node_id sha3 nr \<noteq> local_id T"
  defines "b \<equiv> buckets T ! bucket_of T (node_id sha3 nr)"
  assumes room: "node_id sha3 nr \<in> known sha3 T \<or> length b < BUCKET_SIZE \<or> \<not> ping (last b)"
  shows "node_id sha3 nr \<in> known sha3 (table_insert sha3 ping nr T)"
proof -
  let ?i = "bucket_of T (node_id sha3 nr)"
  have i: "?i < NBUCKETS" "?i < length (buckets T)"
    using bucket_of_less [OF ok len] by simp_all
  note bok = table_bucket_ok [OF ok i(1)]
  have in_bucket: "node_id sha3 nr \<in> known sha3 (T\<lparr>buckets := (buckets T)[?i := ns]\<rparr>)"
    if "node_id sha3 nr \<in> node_id sha3 ` set ns" for ns
  proof -
    have "ns \<in> set ((buckets T)[?i := ns])"
      using i(2) by (rule set_update_memI)
    with that show ?thesis by (auto simp: known_def all_peers_def)
  qed
  show ?thesis
  proof (rule table_insert_cases [OF ok len assms(3), of ping])
    fix nodes' assume "bucket_insert sha3 nr (buckets T ! ?i) = (None, nodes')"
      and T': "table_insert sha3 ping nr T = T\<lparr>buckets := (buckets T)[?i := nodes']\<rparr>"
    from bucket_insert_spec(3) [OF bok refl assms(3) this(1)] in_bucket [of nodes'] show ?thesis
      unfolding T' by blast
  next
    assume full: "bucket_insert sha3 nr (buckets T ! ?i) = (Some (last (buckets T ! ?i)), buckets T ! ?i)"
      and "ping (last (buckets T ! ?i))"
    with room bucket_insert_spec(4) [OF bok refl assms(3) full refl] show ?thesis
      using all_peers_bucket [OF ok] by (fastforce simp: b_def known_def)
  next
    assume full: "bucket_insert sha3 nr (buckets T ! ?i) = (Some (last (buckets T ! ?i)), buckets T ! ?i)"
      and T': "table_insert sha3 ping nr T = T\<lparr>buckets := (buckets T)[?i := replace_tail nr (buckets T ! ?i)]\<rparr>"
    have "buckets T ! ?i \<noteq> []"
      using bucket_insert_spec(4) [OF bok refl assms(3) full refl] by (auto simp: BUCKET_SIZE_def)
    then have "node_id sha3 nr \<in> node_id sha3 ` set (replace_tail nr (buckets T ! ?i))"
      by (simp add: replace_tail_def)
    from in_bucket [OF this] show ?thesis unfolding T' .
  qed
qed

lemma table_remove_local [simp]: "local_id (table_remove sha3 i T) = local_id T"
  by (simp add: table_remove_def Let_def)

lemma table_remove_peers:
  assumes ok: "table_ok sha3 T" and len: "length i = 32"
  shows "set (all_peers (table_remove sha3 i T)) = {n \<in> set (all_peers T). node_id sha3 n \<noteq> i}"
proof -
  let ?j = "bucket_of T i"
  have j: "?j < length (buckets T)" and lb: "length (buckets T) = NBUCKETS"
    using bucket_of_less [OF ok len] ok by (simp_all add: table_ok_def)
  have "n \<in> set ((buckets T)[?j := bucket_remove sha3 i (buckets T ! ?j)] ! k)
      \<longleftrightarrow> n \<in> set (buckets T ! k) \<and> node_id sha3 n \<noteq> i" if "k < NBUCKETS" for k n
    using that j lb table_bucket_ok [OF ok that] by (cases "k = ?j") (auto simp: bucket_remove_def bucket_ok_def)
  then show ?thesis
    using lb by (auto simp: all_peers_nth table_remove_def Let_def)
qed

lemma table_remove_keeps:
  assumes ok: "table_ok sha3 T" and len: "length i = 32"
  shows "table_ok sha3 (table_remove sha3 i T)" and "authentic D T \<Longrightarrow> authentic D (table_remove sha3 i T)"
  using table_ok_update [OF ok bucket_remove_ok [OF table_bucket_ok [OF ok bucket_of_less(1) [OF ok len]]]]
  by (simp_all add: table_remove_def Let_def authentic_def table_remove_peers [OF ok len, unfolded table_remove_def Let_def])

section \<open>Closest peers\<close>

definition distance_to :: "(bytes \<Rightarrow> hash32) \<Rightarrow> NodeID \<Rightarrow> PrimusNR \<Rightarrow> NodeID" where
  "distance_to sha3 target n = xor_distance (node_id sha3 n) target"

text \<open>A duplicate-free answer in increasing distance of at most \<open>k\<close> records.\<close>

definition ranked :: "(bytes \<Rightarrow> hash32) \<Rightarrow> NodeID \<Rightarrow> nat \<Rightarrow> PrimusNR list \<Rightarrow> bool" where
  "ranked sha3 target k ns \<longleftrightarrow>
     length ns \<le> k \<and> distinct (map (node_id sha3) ns) \<and> sorted (map (distance_to sha3 target) ns)"

lemma get_closest_key:
  "get_closest sha3 target k T = take k (sort_key (distance_to sha3 target) (all_peers T))"
  by (simp add: get_closest_def distance_to_def [abs_def])

lemma take_sort_key_least:
  assumes "m \<in> set (take k (sort_key f xs))" and "n \<in> set xs" and "n \<notin> set (take k (sort_key f xs))"
  shows "f m \<le> f n"
proof -
  have "set (sort_key f xs) = set (take k (sort_key f xs)) \<union> set (drop k (sort_key f xs))"
    by (metis append_take_drop_id set_append)
  with assms(2,3) have "n \<in> set (drop k (sort_key f xs))"
    by auto
  moreover have "sorted (map f (take k (sort_key f xs)) @ map f (drop k (sort_key f xs)))"
    by (metis append_take_drop_id map_append sorted_sort_key)
  ultimately show ?thesis
    using assms(1) by (auto simp: sorted_append)
qed

lemma get_closest_ranked:
  assumes "table_ok sha3 T" shows "ranked sha3 target k (get_closest sha3 target k T)"
proof -
  let ?s = "sort_key (distance_to sha3 target) (all_peers T)"
  have "distinct (map (node_id sha3) ?s)"
    using distinct_ids [OF assms] by (simp add: distinct_map)
  then show ?thesis
    by (simp add: ranked_def get_closest_key take_map [symmetric] sorted_wrt_take)
qed

lemma get_closest_peers: "set (get_closest sha3 target k T) \<subseteq> set (all_peers T)"
  unfolding get_closest_key by (metis set_sort set_take_subset)

lemma length_get_closest: "length (get_closest sha3 target k T) = min k (table_len T)"
  by (simp add: get_closest_key length_all_peers min.commute)

text \<open>The peer that has the target as its identity is the first one.\<close>

lemma get_closest_self:
  assumes "table_ok sha3 T" and "n \<in> set (all_peers T)" and ids: "\<And>m. length (node_id sha3 m) = 32"
  shows "get_closest sha3 (node_id sha3 n) 1 T = [n]"
proof -
  let ?f = "distance_to sha3 (node_id sha3 n)"
  obtain m ms where s: "sort_key ?f (all_peers T) = m # ms"
    using assms(2) by (metis empty_iff list.set(1) neq_Nil_conv set_sort)
  have "m \<in> set (all_peers T)"
    using s by (metis list.set_intros(1) set_sort)
  have "?f m \<le> ?f n"
    using take_sort_key_least [of m 1 ?f "all_peers T" n] assms(2) s by (cases "m = n") auto
  moreover have "?f n \<le> ?f m"
    using zeros_least [of "?f m" 32] ids by (simp add: distance_to_def xor_distance_self) (simp add: xor_distance_def)
  ultimately have "node_id sha3 m = node_id sha3 n"
    using ids by (metis antisym distance_to_def xor_distance_inject)
  with distinct_ids [OF assms(1)] \<open>m \<in> _\<close> assms(2) have "m = n"
    by (auto simp: distinct_map dest: inj_onD)
  with s show ?thesis by (simp add: get_closest_key)
qed

section \<open>The iterative lookup\<close>

lemma set_dedup_by: "set (dedup_by f xs) \<subseteq> set xs"
  by (induction f xs rule: dedup_by.induct) auto

lemma dedup_by_sorted:
  assumes "sorted (map g xs)" shows "sorted (map g (dedup_by f xs))"
  using assms
proof (induction f xs rule: dedup_by.induct)
  case (1 f x y xs)
  then show ?case
    using set_dedup_by [of f "y # xs"] by (auto simp: image_iff)
qed auto

lemma dedup_by_distinct:
  assumes "sorted (map g xs)" and "\<And>x y. x \<in> set xs \<Longrightarrow> y \<in> set xs \<Longrightarrow> g x = g y \<longleftrightarrow> f x = f y"
  shows "distinct (map f (dedup_by f xs))"
  using assms
proof (induction f xs rule: dedup_by.induct)
  case (1 f x y xs)
  show ?case
  proof (cases "f x = f y")
    case False
    have "f x \<noteq> f z" if "z \<in> set (dedup_by f (y # xs))" for z
    proof -
      have z: "z \<in> set (y # xs)"
        using that set_dedup_by by fastforce
      with 1(3) have "g y \<le> g z" "g x \<le> g y"
        by auto
      moreover have "g x \<noteq> g y"
        using False 1(4) [of x y] by simp
      ultimately show ?thesis
        using 1(4) [of x z] z by auto
    qed
    with False 1 show ?thesis by auto
  qed (use 1 in auto)
qed auto

text \<open>What a lookup keeps of the table: its invariant, its owner and the authenticity of its records.\<close>

definition kept :: "'sg kad_env \<Rightarrow> RoutingTable \<Rightarrow> RoutingTable \<Rightarrow> bool" where
  "kept N T T' \<longleftrightarrow>
     (table_ok (kd_sha3 N) T \<longrightarrow> table_ok (kd_sha3 N) T') \<and> local_id T' = local_id T
     \<and> (table_ok (kd_sha3 N) T \<longrightarrow> authentic (kd_dsa N) T \<longrightarrow> authentic (kd_dsa N) T')"

lemma kept_refl [simp]: "kept N T T"
  by (simp add: kept_def)

lemma kept_trans: "kept N T T1 \<Longrightarrow> kept N T1 T2 \<Longrightarrow> kept N T T2"
  by (auto simp: kept_def)

abbreviation digest32 :: "(bytes \<Rightarrow> hash32) \<Rightarrow> bool" where
  "digest32 sha3 \<equiv> \<forall>b. length (sha3 b) = 32"

lemma length_node_id: "digest32 sha3 \<Longrightarrow> length (node_id sha3 n) = 32"
  by (simp add: node_id_def)

lemma handle_new_peer_kept: "digest32 (kd_sha3 N) \<Longrightarrow> kept N T (handle_new_peer N t n T)"
  by (simp add: kept_def handle_new_peer_def table_insert_keeps length_node_id)

lemma mark_failed_kept: "length i = 32 \<Longrightarrow> kept N T (mark_failed N i T)"
  by (simp add: kept_def mark_failed_def table_remove_keeps)

lemma absorb_nodes_spec:
  assumes "digest32 (kd_sha3 N)" and "absorb_nodes N rnd visited ns T queue found = (T', queue', found')"
  shows "kept N T T'
    \<and> set queue' = set queue \<union> {n \<in> set ns. node_id (kd_sha3 N) n \<notin> set visited}
    \<and> (found' \<longleftrightarrow> found \<or> (\<exists>n \<in> set ns. node_id (kd_sha3 N) n \<notin> set visited))"
  using assms(2)
proof (induction ns arbitrary: T queue found)
  case (Cons n ns)
  let ?T1 = "handle_new_peer N (rnd, length ns) n T"
  have T1: "kept N T ?T1"
    using assms(1) by (rule handle_new_peer_kept)
  show ?case
  proof (cases "node_id (kd_sha3 N) n \<in> set visited")
    case True
    with Cons.prems have "absorb_nodes N rnd visited ns ?T1 queue found = (T', queue', found')"
      by (simp add: List.member_iff)
    from Cons.IH [OF this] True kept_trans [OF T1] show ?thesis by auto
  next
    case False
    with Cons.prems have "absorb_nodes N rnd visited ns ?T1 (queue @ [n]) True = (T', queue', found')"
      by (simp add: List.member_iff)
    from Cons.IH [OF this] False kept_trans [OF T1] show ?thesis by auto
  qed
qed simp

lemma fail_fold_kept:
  assumes "\<forall>(i, r) \<in> set xs. length i = 32"
  shows "kept N T (foldl (\<lambda>T (i, r). case r of Inl _ \<Rightarrow> mark_failed N i T | Inr _ \<Rightarrow> T) T xs)"
  using assms
proof (induction xs arbitrary: T)
  case (Cons x xs)
  then show ?case
    by (cases x; cases "snd x") (auto intro: kept_trans [OF mark_failed_kept])
qed simp

lemma lookup_round_spec:
  assumes "digest32 (kd_sha3 N)"
    and "lookup_round N target rnd batch queue visited T = (T', queue', visited', found)"
  shows "kept N T T'" and "set visited' = set visited \<union> node_id (kd_sha3 N) ` set batch"
    and "\<And>n. n \<in> set queue' \<Longrightarrow> n \<in> set queue \<or> node_id (kd_sha3 N) n \<notin> set visited"
    and "found \<longleftrightarrow> (\<exists>n \<in> set batch. \<exists>ns. kd_rpc N rnd (nr_addr n) target = Inr ns
           \<and> \<not> node_id (kd_sha3 N) ` set ns \<subseteq> set visited')"
proof -
  let ?ids = "map (node_id (kd_sha3 N)) batch"
  let ?ans = "map (\<lambda>n. kd_rpc N rnd (nr_addr n) target) batch"
  let ?T1 = "foldl (\<lambda>T (i, r). case r of Inl _ \<Rightarrow> mark_failed N i T | Inr _ \<Rightarrow> T) T (zip ?ids ?ans)"
  let ?ns = "concat (map (\<lambda>r. case r of Inl _ \<Rightarrow> [] | Inr ns \<Rightarrow> ns) ?ans)"
  have ab: "absorb_nodes N rnd (rev ?ids @ visited) ?ns ?T1 queue False = (T', queue', found)"
    and v: "visited' = rev ?ids @ visited"
    using assms(2) by (auto simp: lookup_round_def Let_def split: prod.splits)
  have "kept N T ?T1"
    by (rule fail_fold_kept) (auto dest!: set_zip_leftD simp: length_node_id [OF assms(1)])
  with absorb_nodes_spec [OF assms(1) ab] show "kept N T T'"
    by (blast intro: kept_trans)
  from v show "set visited' = set visited \<union> node_id (kd_sha3 N) ` set batch"
    by auto
  show "n \<in> set queue \<or> node_id (kd_sha3 N) n \<notin> set visited" if "n \<in> set queue'" for n
    using absorb_nodes_spec [OF assms(1) ab] that by auto
  have "found \<longleftrightarrow> (\<exists>m \<in> set ?ns. node_id (kd_sha3 N) m \<notin> set visited')"
    unfolding v using absorb_nodes_spec [OF assms(1) ab] by blast
  also have "\<dots> \<longleftrightarrow> (\<exists>n \<in> set batch. \<exists>ns. kd_rpc N rnd (nr_addr n) target = Inr ns
           \<and> \<not> node_id (kd_sha3 N) ` set ns \<subseteq> set visited')"
    by (simp add: subset_iff) metis
  finally show "found \<longleftrightarrow> (\<exists>n \<in> set batch. \<exists>ns. kd_rpc N rnd (nr_addr n) target = Inr ns
           \<and> \<not> node_id (kd_sha3 N) ` set ns \<subseteq> set visited')" .
qed

lemma get_closest_foreign:
  assumes "table_ok sha3 T" and "n \<in> set (get_closest sha3 target k T)"
  shows "node_id sha3 n \<noteq> local_id T"
  using assms get_closest_peers [of sha3 target k T] all_peers_bucket [OF assms(1), of n]
  by (auto simp: table_ok_def bucket_ok_def)

text \<open>The state of the loop between two rounds: the answer so far is ranked, and the node itself is
  visited and neither queued nor in the answer.\<close>

definition lookup_ok ::
  "'sg kad_env \<Rightarrow> NodeID \<Rightarrow> NodeID \<Rightarrow> PrimusNR list \<Rightarrow> PrimusNR list \<Rightarrow> NodeID list \<Rightarrow> bool" where
  "lookup_ok N target me queue closest visited \<longleftrightarrow>
     me \<in> set visited \<and> (\<forall>n \<in> set (queue @ closest). node_id (kd_sha3 N) n \<noteq> me)
     \<and> ranked (kd_sha3 N) target BUCKET_SIZE closest"

lemma rank_merge:
  assumes "digest32 (kd_sha3 N)" and "length target = 32"
  shows "ranked (kd_sha3 N) target k (take k (dedup_by (node_id (kd_sha3 N))
           (sort_key (\<lambda>n. xor_distance (node_id (kd_sha3 N) n) target) ns)))"
proof -
  let ?f = "node_id (kd_sha3 N)" and ?g = "distance_to (kd_sha3 N) target"
  have "sorted (map ?g (sort_key ?g ns))"
    by simp
  moreover have "?g x = ?g y \<longleftrightarrow> ?f x = ?f y" for x y
    by (simp add: distance_to_def xor_distance_inject length_node_id assms)
  ultimately have "sorted (map ?g (dedup_by ?f (sort_key ?g ns)))" "distinct (map ?f (dedup_by ?f (sort_key ?g ns)))"
    by (blast intro: dedup_by_sorted dedup_by_distinct [of ?g])+
  then show ?thesis
    by (simp add: ranked_def distance_to_def [abs_def] take_map [symmetric] sorted_wrt_take)
qed

definition unvisited :: "NodeID list \<Rightarrow> nat" where
  "unvisited visited = card ({i :: NodeID. length i = 32} - set visited)"

lemma unvisited_decreases:
  assumes "i \<notin> set visited" and "length i = 32" and "set visited \<subseteq> set visited'" and "i \<in> set visited'"
  shows "unvisited visited' < unvisited visited"
proof -
  have "finite {i :: NodeID. length i = 32}"
    using finite_lists_length_eq [of "UNIV :: u8 set" 32] by simp
  then show ?thesis
    unfolding unvisited_def using assms by (intro psubset_card_mono) auto
qed

theorem find_loop_returns:
  assumes digest: "digest32 (kd_sha3 N)" and "length target = 32"
    and "lookup_ok N target me queue closest visited"
  shows "\<exists>ns T'. find_loop N target rnd queue closest visited T = Some (ns, T') \<and> kept N T T'
    \<and> ranked (kd_sha3 N) target BUCKET_SIZE ns \<and> (\<forall>n \<in> set ns. node_id (kd_sha3 N) n \<noteq> me)"
  using assms(3)
proof (induction "unvisited visited" arbitrary: rnd queue closest visited T rule: less_induct)
  case less
  let ?id = "node_id (kd_sha3 N)"
  let ?batch = "take ALPHA (filter (\<lambda>n. \<not> List.member visited (?id n)) queue)"
  have base: "ranked (kd_sha3 N) target BUCKET_SIZE closest" "\<forall>n \<in> set closest. ?id n \<noteq> me"
    using less.prems by (auto simp: lookup_ok_def)
  show ?case
  proof (cases "?batch = []")
    case True
    with base show ?thesis by (subst find_loop.simps) simp
  next
    case False
    obtain T1 queue1 visited1 found
      where round: "lookup_round N target rnd ?batch queue visited T = (T1, queue1, visited1, found)"
      by (metis prod_cases4)
    note spec = lookup_round_spec [OF digest round]
    let ?c = "take BUCKET_SIZE (dedup_by ?id (sort_key (\<lambda>n. xor_distance (?id n) target) (closest @ queue1)))"
    let ?q = "filter (\<lambda>n. \<not> List.member visited1 (?id n)) ?c"
    have c: "ranked (kd_sha3 N) target BUCKET_SIZE ?c"
      by (rule rank_merge [OF digest assms(2)])
    have sub: "set ?c \<subseteq> set (closest @ queue1)"
      using set_take_subset set_dedup_by by fastforce
    have notme: "\<forall>n \<in> set ?c. ?id n \<noteq> me"
      using sub spec(3) less.prems unfolding lookup_ok_def by fastforce
    have step: "find_loop N target rnd queue closest visited T =
        (if \<not> found then Some (closest, T1)
         else if ?q = [] then Some (?c, T1) else find_loop N target (rnd + 1) ?q ?c visited1 T1)"
      by (subst find_loop.simps) (use False round in \<open>simp add: Let_def\<close>)
    obtain n where n: "n \<in> set ?batch"
      using False by (meson list.set_sel(1))
    then have "?id n \<notin> set visited"
      by (auto dest!: in_set_takeD simp: List.member_iff)
    then have dec: "unvisited visited1 < unvisited visited"
      using n spec(2) by (intro unvisited_decreases [of "?id n"]) (auto simp: length_node_id [OF digest])
    have ok: "lookup_ok N target me ?q ?c visited1"
      using less.prems c notme spec(2) by (auto simp: lookup_ok_def)
    obtain ns T' where "find_loop N target (rnd + 1) ?q ?c visited1 T1 = Some (ns, T')" "kept N T1 T'"
        "ranked (kd_sha3 N) target BUCKET_SIZE ns" "\<forall>n \<in> set ns. ?id n \<noteq> me"
      using less.hyps [OF dec ok, of "rnd + 1" T1] by blast
    then show ?thesis
      unfolding step using spec(1) base c notme by (auto intro: kept_trans)
  qed
qed

section \<open>Interleaved insertions\<close>

text \<open>An insertion that no other task interrupts is one or two of these steps.\<close>

lemma dht_insert_steps:
  assumes "once \<longrightarrow> node_id sha3 nr \<notin> node_id sha3 ` set waiting"
  shows "dht_steps once sha3 D (dht, waiting) (dht_insert sha3 D ping nr dht, waiting)"
proof (cases "nr_verify D nr \<and> node_id sha3 nr \<noteq> local_id (table dht)")
  case True
  obtain c T where b: "insert_begin sha3 nr (table dht) = (c, T)" by fastforce
  have s: "dht_step once sha3 D (dht, waiting) (dht\<lparr>table := T\<rparr>, if c = None then waiting else nr # waiting)"
    using True assms b by (intro begun) auto
  have r: "remove1 nr (nr # waiting) = waiting" by simp
  show ?thesis
  proof (cases c)
    case None
    with True b s show ?thesis by (auto simp: dht_insert_def table_insert_def)
  next
    case (Some t)
    have "dht_step once sha3 D (dht\<lparr>table := T\<rparr>, nr # waiting) (dht\<lparr>table := insert_end sha3 nr T\<rparr>, waiting)"
      "dht_step once sha3 D (dht\<lparr>table := T\<rparr>, nr # waiting) (dht\<lparr>table := T\<rparr>, waiting)"
      using tail_dead [of nr "nr # waiting" once sha3 D "dht\<lparr>table := T\<rparr>"] tail_alive [of nr "nr # waiting" once sha3 D "dht\<lparr>table := T\<rparr>"] by simp_all
    then have "dht_steps once sha3 D (dht, waiting) (dht\<lparr>table := insert_end sha3 nr T\<rparr>, waiting)"
      "dht_steps once sha3 D (dht, waiting) (dht\<lparr>table := T\<rparr>, waiting)"
      using s Some by (simp_all add: converse_rtranclp_into_rtranclp)
    then show ?thesis using True b Some by (simp add: dht_insert_def table_insert_def)
  qed
qed (auto simp: dht_insert_def table_insert_def)

text \<open>The part of the invariant that survives every interleaving.\<close>

definition table_shape :: "(bytes \<Rightarrow> hash32) \<Rightarrow> RoutingTable \<Rightarrow> bool" where
  "table_shape sha3 T \<longleftrightarrow> length (local_id T) = 32 \<and> length (buckets T) = NBUCKETS
     \<and> (\<forall>i < NBUCKETS. length (buckets T ! i) \<le> BUCKET_SIZE
          \<and> (\<forall>n \<in> set (buckets T ! i). node_id sha3 n \<noteq> local_id T \<and> bucket_of T (node_id sha3 n) = i))"

definition ids_once :: "(bytes \<Rightarrow> hash32) \<Rightarrow> RoutingTable \<Rightarrow> PrimusNR list \<Rightarrow> bool" where
  "ids_once sha3 T waiting \<longleftrightarrow> (\<forall>i < NBUCKETS. distinct (map (node_id sha3) (buckets T ! i)))
     \<and> distinct (map (node_id sha3) waiting) \<and> node_id sha3 ` set waiting \<inter> known sha3 T = {}"

lemma table_ok_shape: "table_ok sha3 T \<longleftrightarrow> table_shape sha3 T \<and> (\<forall>i < NBUCKETS. distinct (map (node_id sha3) (buckets T ! i)))"
  by (auto simp: table_ok_def table_shape_def bucket_ok_def)

lemma shape_bucket_less: "table_shape sha3 T \<Longrightarrow> length i = 32 \<Longrightarrow> bucket_of T i < NBUCKETS"
  by (simp add: bucket_of_def table_shape_def xor_distance_def bucket_index_less)

lemma known_bucket:
  assumes "table_shape sha3 T" and "length i = 32"
  shows "i \<in> known sha3 T \<longleftrightarrow> i \<in> node_id sha3 ` set (buckets T ! bucket_of T i)"
  using assms shape_bucket_less [OF assms] by (fastforce simp: known_def all_peers_nth table_shape_def)

text \<open>Replacing one bucket by records it had before and at most one new one.\<close>

lemma shape_update:
  assumes "table_shape sha3 T" and "length (node_id sha3 nr) = 32" and "node_id sha3 nr \<noteq> local_id T"
    and "i = bucket_of T (node_id sha3 nr)" and "set nodes \<subseteq> insert nr (set (buckets T ! i))" and "length nodes \<le> BUCKET_SIZE"
  shows "table_shape sha3 (T\<lparr>buckets := (buckets T)[i := nodes]\<rparr>)"
    and "known sha3 (T\<lparr>buckets := (buckets T)[i := nodes]\<rparr>) \<subseteq> insert (node_id sha3 nr) (known sha3 T)"
    and "authentic D T \<Longrightarrow> nr_verify D nr \<Longrightarrow> authentic D (T\<lparr>buckets := (buckets T)[i := nodes]\<rparr>)"
proof -
  have i: "i < NBUCKETS" "i < length (buckets T)" using shape_bucket_less [OF assms(1,2)] assms(1,4) by (simp_all add: table_shape_def)
  show "table_shape sha3 (T\<lparr>buckets := (buckets T)[i := nodes]\<rparr>)"
    using assms i by (auto simp: table_shape_def nth_list_update)
  have sub: "set (buckets T ! i) \<subseteq> set (all_peers T)" using i(2) by (auto simp: all_peers_nth)
  have "set (all_peers (T\<lparr>buckets := (buckets T)[i := nodes]\<rparr>)) \<subseteq> insert nr (set (all_peers T))"
    using assms(5) sub set_update_subset_insert [of "buckets T" i nodes] by (fastforce simp: all_peers_def)
  then show "known sha3 (T\<lparr>buckets := (buckets T)[i := nodes]\<rparr>) \<subseteq> insert (node_id sha3 nr) (known sha3 T)" by (auto simp: known_def)
  show "authentic D T \<Longrightarrow> nr_verify D nr \<Longrightarrow> authentic D (T\<lparr>buckets := (buckets T)[i := nodes]\<rparr>)"
    using authentic_update [of D T nodes nr i] assms(5) sub by blast
qed

lemma bucket_insert_shape:
  assumes "bucket_insert sha3 nr nodes = (c, nodes')" and "length nodes \<le> BUCKET_SIZE"
  shows "set nodes' \<subseteq> insert nr (set nodes)" and "length nodes' \<le> BUCKET_SIZE"
    and "distinct (map (node_id sha3) nodes) \<Longrightarrow> distinct (map (node_id sha3) nodes')"
    and "c \<noteq> None \<Longrightarrow> nodes' = nodes \<and> node_id sha3 nr \<notin> node_id sha3 ` set nodes"
  using assms
  by (auto simp: bucket_insert_def extract_Some_iff extract_None_iff split: option.splits if_splits) force+

lemma replace_tail_shape:
  "set (replace_tail nr nodes) \<subseteq> insert nr (set nodes)" "length (replace_tail nr nodes) = length nodes"
  "distinct (map f nodes) \<Longrightarrow> f nr \<notin> f ` set nodes \<Longrightarrow> distinct (map f (replace_tail nr nodes))"
  by (cases nodes rule: rev_cases; auto simp: replace_tail_def)+

lemma disjoint_grow: "A \<inter> B = {} \<Longrightarrow> x \<notin> A' \<Longrightarrow> A' \<subseteq> A \<Longrightarrow> C \<subseteq> insert x B \<Longrightarrow> A' \<inter> C = {}"
  by auto

definition dht_inv :: "bool \<Rightarrow> (bytes \<Rightarrow> hash32) \<Rightarrow> 'sg mldsa \<Rightarrow> NodeID \<Rightarrow> PrimusDHT \<Rightarrow> PrimusNR list \<Rightarrow> bool" where
  "dht_inv once sha3 D me dht waiting \<longleftrightarrow> table_shape sha3 (table dht) \<and> authentic D (table dht) \<and> local_id (table dht) = me
     \<and> distinct (addr_peers dht) \<and> (\<forall>nr \<in> set waiting. nr_verify D nr \<and> node_id sha3 nr \<noteq> me)
     \<and> (once \<longrightarrow> ids_once sha3 (table dht) waiting)"

lemma begin_keeps:
  assumes "digest32 sha3" and "dht_inv once sha3 D me dht waiting" and "nr_verify D nr" and "node_id sha3 nr \<noteq> local_id (table dht)"
    and "once \<longrightarrow> node_id sha3 nr \<notin> node_id sha3 ` set waiting" and "insert_begin sha3 nr (table dht) = (c, T)"
  shows "dht_inv once sha3 D me (dht\<lparr>table := T\<rparr>) (if c = None then waiting else nr # waiting)"
proof -
  let ?T = "table dht" and ?i = "bucket_of (table dht) (node_id sha3 nr)"
  have inv: "table_shape sha3 ?T" "authentic D ?T" "local_id ?T = me" "distinct (addr_peers dht)"
      "\<forall>nr \<in> set waiting. nr_verify D nr \<and> node_id sha3 nr \<noteq> me" "once \<longrightarrow> ids_once sha3 ?T waiting"
    using assms(2) by (auto simp: dht_inv_def)
  have len: "length (node_id sha3 n) = 32" for n by (rule length_node_id [OF assms(1)])
  have i: "?i < NBUCKETS" by (rule shape_bucket_less [OF inv(1) len])
  obtain nodes where b: "bucket_insert sha3 nr (buckets ?T ! ?i) = (c, nodes)" and T: "T = ?T\<lparr>buckets := (buckets ?T)[?i := nodes]\<rparr>"
    using assms(6) by (auto simp: insert_begin_def Let_def split: prod.splits)
  have lb: "length (buckets ?T) = NBUCKETS" using inv(1) by (simp add: table_shape_def)
  have full: "length (buckets ?T ! ?i) \<le> BUCKET_SIZE" using inv(1) i by (simp add: table_shape_def)
  note s = bucket_insert_shape [OF b full]
  note u = shape_update [OF inv(1) len assms(4) refl s(1,2), folded T]
  have "ids_once sha3 T (if c = None then waiting else nr # waiting)" if on: once
  proof -
    have new: "node_id sha3 nr \<notin> node_id sha3 ` set waiting" using assms(5) on by simp
    have o: "\<forall>j < NBUCKETS. distinct (map (node_id sha3) (buckets ?T ! j))" "distinct (map (node_id sha3) waiting)"
        "node_id sha3 ` set waiting \<inter> known sha3 ?T = {}"
      using inv(6) on by (auto simp: ids_once_def)
    have "distinct (map (node_id sha3) (buckets T ! j))" if "j < NBUCKETS" for j
      using o(1) s(3) i that by (cases "j = ?i") (simp_all add: T lb)
    moreover have "node_id sha3 ` set waiting \<inter> known sha3 T = {}" by (rule disjoint_grow [OF o(3) new subset_refl u(2)])
    moreover have "node_id sha3 nr \<notin> known sha3 T" if "c \<noteq> None"
      using s(4) [OF that] known_bucket [OF u(1) len, of nr] i by (simp add: T lb)
    ultimately show ?thesis using o(2) new by (cases "c = None") (simp_all add: ids_once_def)
  qed
  then show ?thesis using u(1,3) inv assms(3,4) by (auto simp: dht_inv_def T)
qed

lemma end_keeps:
  assumes "digest32 sha3" and "dht_inv once sha3 D me dht waiting" and "nr \<in> set waiting"
  shows "dht_inv once sha3 D me (dht\<lparr>table := insert_end sha3 nr (table dht)\<rparr>) (remove1 nr waiting)"
proof -
  let ?T = "table dht" and ?i = "bucket_of (table dht) (node_id sha3 nr)"
  have inv: "table_shape sha3 ?T" "authentic D ?T" "local_id ?T = me" "distinct (addr_peers dht)"
      "\<forall>nr \<in> set waiting. nr_verify D nr \<and> node_id sha3 nr \<noteq> me" "once \<longrightarrow> ids_once sha3 ?T waiting"
    using assms(2) by (auto simp: dht_inv_def)
  have len: "length (node_id sha3 n) = 32" for n by (rule length_node_id [OF assms(1)])
  have i: "?i < NBUCKETS" by (rule shape_bucket_less [OF inv(1) len])
  have foreign: "node_id sha3 nr \<noteq> local_id ?T" "nr_verify D nr" using inv(3,5) assms(3) by auto
  have full: "length (replace_tail nr (buckets ?T ! ?i)) \<le> BUCKET_SIZE" using inv(1) i by (simp add: table_shape_def replace_tail_shape(2))
  let ?T1 = "insert_end sha3 nr ?T"
  have T: "?T1 = ?T\<lparr>buckets := (buckets ?T)[?i := replace_tail nr (buckets ?T ! ?i)]\<rparr>" by (simp add: insert_end_def Let_def)
  note u = shape_update [OF inv(1) len foreign(1) refl replace_tail_shape(1) full, folded T]
  have "ids_once sha3 ?T1 (remove1 nr waiting)" if once
  proof -
    have o: "\<forall>j < NBUCKETS. distinct (map (node_id sha3) (buckets ?T ! j))" "distinct (map (node_id sha3) waiting)"
        "node_id sha3 ` set waiting \<inter> known sha3 ?T = {}"
      using inv(6) that by (auto simp: ids_once_def)
    have "node_id sha3 nr \<notin> node_id sha3 ` set (buckets ?T ! ?i)"
      using o(3) assms(3) known_bucket [OF inv(1) len, of nr] by blast
    then have "\<forall>j < NBUCKETS. distinct (map (node_id sha3) (buckets ?T1 ! j))"
      using o(1) i inv(1) replace_tail_shape(3) [of "node_id sha3"] by (auto simp: T nth_list_update table_shape_def)
    moreover have rest: "node_id sha3 nr \<notin> node_id sha3 ` set (remove1 nr waiting)" "distinct (map (node_id sha3) (remove1 nr waiting))"
      using o(2) assms(3) by (auto simp: distinct_map inj_on_def)
    moreover have "node_id sha3 ` set (remove1 nr waiting) \<inter> known sha3 ?T1 = {}" 
      by (rule disjoint_grow [OF o(3) rest(1) image_mono [OF set_remove1_subset] u(2)])
    ultimately show ?thesis by (simp add: ids_once_def)
  qed
  then show ?thesis using u(1,3) inv foreign set_remove1_subset [of nr waiting] by (auto simp: dht_inv_def T)
qed

lemma remove_keeps:
  assumes "dht_inv once sha3 D me dht waiting" and "length i = 32"
  shows "dht_inv once sha3 D me (dht_remove sha3 i dht) waiting"
proof -
  let ?T = "table dht" and ?j = "bucket_of (table dht) i"
  have inv: "table_shape sha3 ?T" "authentic D ?T" "once \<longrightarrow> ids_once sha3 ?T waiting"
    using assms(1) by (auto simp: dht_inv_def)
  have j: "?j < NBUCKETS" by (rule shape_bucket_less [OF inv(1) assms(2)])
  let ?T1 = "table_remove sha3 i ?T"
  have "length (bucket_remove sha3 i ns) \<le> length ns" for ns by (simp add: bucket_remove_def)
  then have shape: "table_shape sha3 ?T1"
    using inv(1) j by (auto simp: table_shape_def table_remove_def Let_def nth_list_update bucket_remove_def intro: order_trans [OF length_filter_le])
  have sub: "set (all_peers ?T1) \<subseteq> set (all_peers ?T)"
    using inv(1) j by (auto simp: all_peers_nth table_remove_def Let_def nth_list_update bucket_remove_def table_shape_def split: if_splits)
  have "ids_once sha3 ?T1 waiting" if on: once
  proof -
    have "known sha3 ?T1 \<subseteq> known sha3 ?T" using sub by (auto simp: known_def)
    moreover have "distinct (map (node_id sha3) (buckets ?T1 ! k))" if "k < NBUCKETS" for k
      using inv on that j by (cases "k = ?j") (auto simp: ids_once_def table_shape_def table_remove_def Let_def bucket_remove_def distinct_map_filter)
    ultimately show ?thesis using inv(3) on unfolding ids_once_def by blast
  qed
  then show ?thesis using assms(1) shape sub by (auto simp: dht_inv_def dht_remove_def authentic_def)
qed

lemma dht_step_keeps:
  assumes "digest32 sha3" and "dht_step once sha3 D s s'" and "dht_inv once sha3 D me (fst s) (snd s)"
  shows "dht_inv once sha3 D me (fst s') (snd s')"
  using assms(2,3)
proof cases
  case (tail_alive nr waiting dht)
  have "set (remove1 nr waiting) \<subseteq> set waiting" by (rule set_remove1_subset)
  moreover have "distinct (map f waiting) \<Longrightarrow> distinct (map f (remove1 nr waiting))" for f :: "PrimusNR \<Rightarrow> hash32"
    by (auto simp: distinct_map distinct_remove1 inj_on_def dest: notin_set_remove1)
  ultimately have "ids_once sha3 T waiting \<Longrightarrow> ids_once sha3 T (remove1 nr waiting)" for T
    unfolding ids_once_def by blast
  with \<open>set (remove1 nr waiting) \<subseteq> set waiting\<close> show ?thesis using tail_alive assms(3) by (auto simp: dht_inv_def)
next
  case (begun nr dht waiting c T)
  then show ?thesis using begin_keeps [OF assms(1), of once D me dht waiting nr c T] assms(3) by simp
next
  case (tail_dead nr waiting dht)
  then show ?thesis using end_keeps [OF assms(1), of once D me dht waiting nr] assms(3) by simp
next
  case (removed i dht waiting)
  then show ?thesis using remove_keeps [of once sha3 D me dht waiting i] assms(3) by simp
qed (use assms(3) in \<open>auto simp: dht_inv_def register_peer_addr_def remove_peer_addr_def\<close>)

lemma dht_steps_keep:
  assumes "digest32 sha3" and "dht_steps once sha3 D s s'" and "dht_inv once sha3 D me (fst s) (snd s)"
  shows "dht_inv once sha3 D me (fst s') (snd s')"
  using assms(2,3) by (induction rule: rtranclp_induct) (auto intro: dht_step_keeps [OF assms(1)])

end
