(* ===== verification/Dht_Claims.thy ===== *)
theory Dht_Claims
  imports Dht_Correct
begin

text \<open>
  The properties of peer routing: the invariant of the routing table in every interleaving of tasks, closest-peer
  queries, the termination of the iterative lookup, and two behaviours that lose peers: concurrent
  insertions of one record, and a lookup whose first round brings nothing new.
\<close>

section \<open>A concrete identity function\<close>

text \<open>Identities are public keys cut or padded to 32 bytes.\<close>

definition pad32 :: "bytes \<Rightarrow> hash32" where
  "pad32 b = take 32 (b @ replicate 32 0)"

definition demo_peer :: "u8 \<Rightarrow> PrimusNR" where
  "demo_peer b = \<lparr>nr_public_key = b # replicate (PK_BYTES - 1) 0, addr_ip = 1, addr_port = 9000,
     nr_signature = replicate SIG_BYTES 0, nr_timestamp = 0\<rparr>"

definition demo_id :: "u8 \<Rightarrow> NodeID" where
  "demo_id b = b # replicate 31 0"

lemma digest32_pad32: "digest32 pad32"
  by (auto simp: pad32_def)

lemma demo_peer_id [simp]: "node_id pad32 (demo_peer b) = demo_id b"
  by (simp add: node_id_def pad32_def demo_peer_def demo_id_def PK_BYTES_def take_Cons')

lemma length_demo_id [simp]: "length (demo_id b) = 32" and demo_id_eq [simp]: "demo_id a = demo_id b \<longleftrightarrow> a = b"
  by (simp_all add: demo_id_def)

definition full_bucket :: KBucket where
  "full_bucket = map (\<lambda>i. demo_peer (of_nat i)) [128 ..< 148]"

definition full_table :: RoutingTable where
  "full_table = (table_new (demo_id 0))\<lparr>buckets := (buckets (table_new (demo_id 0)))[0 := full_bucket]\<rparr>"

lemma demo_bucket:
  assumes "bit b 7" shows "bucket_of (table_new (demo_id 0)) (demo_id b) = 0" and "b \<noteq> 0"
proof -
  have "rev [0 ..< 8] = 7 # rev [0 ..< 7]"
    by (simp add: upt_rec)
  then have "leading_zeros b = 0"
    using assms by (simp add: leading_zeros_def)
  moreover show "b \<noteq> 0"
    using assms by auto
  moreover have "xor_distance (demo_id 0) (demo_id b) = demo_id b"
    by (rule nth_equalityI) (auto simp: xor_distance_def demo_id_def nth_Cons split: nat.split)
  ultimately show "bucket_of (table_new (demo_id 0)) (demo_id b) = 0"
    by (simp add: bucket_of_def table_new_def bucket_index_def demo_id_def)
qed

lemma full_bucket_ok: "bucket_ok pad32 (table_new (demo_id 0)) 0 full_bucket"
proof -
  have dist: "distinct (map (\<lambda>i. of_nat i :: u8) [128 ..< 148])" and top: "\<forall>i \<in> set [128 ..< 148]. bit (of_nat i :: u8) 7"
    by code_simp+
  have ids: "map (node_id pad32) full_bucket = map demo_id (map (\<lambda>i. of_nat i) [128 ..< 148])"
    unfolding full_bucket_def map_map by (rule map_cong) simp_all
  have "distinct (map (node_id pad32) full_bucket)"
    unfolding ids distinct_map [of demo_id] using dist by (blast intro: inj_onI dest: iffD1 [OF demo_id_eq])
  moreover have "bucket_of (table_new (demo_id 0)) i = 0 \<and> i \<noteq> demo_id 0" if m: "i \<in> set (map (node_id pad32) full_bucket)" for i
  proof -
    obtain j where j: "j \<in> set [128 ..< 148]" "i = demo_id (of_nat j)"
      using m unfolding ids set_map by blast
    with top demo_bucket [of "of_nat j"] show ?thesis by (metis demo_id_eq)
  qed
  ultimately show ?thesis
    by (auto simp: bucket_ok_def table_new_def full_bucket_def BUCKET_SIZE_def)
qed

lemma full_table_ok: "table_ok pad32 full_table"
  unfolding full_table_def by (intro table_ok_update table_new_ok full_bucket_ok) simp

text \<open>A signature scheme that accepts everything of the right lengths, and a network in which every
  lookup is answered with no record.\<close>

definition accept_all :: "bytes mldsa" where
  "accept_all = \<lparr>decode_sig = Some, verify_sig = (\<lambda>pk m sg. True)\<rparr>"

definition quiet_net :: "bytes kad_env" where
  "quiet_net = \<lparr>kd_sha3 = pad32, kd_dsa = accept_all, kd_ping = (\<lambda>_ _. True), kd_rpc = (\<lambda>_ _ _. Inr [])\<rparr>"

lemma demo_peer_verified: "nr_verify accept_all (demo_peer b)"
  by (simp add: nr_verify_def accept_all_def demo_peer_def PK_BYTES_def)

lemma full_table_peers: "all_peers full_table = full_bucket"
proof -
  have "concat ((replicate (Suc n) [])[0 := b]) = b" for n and b :: KBucket
    by simp
  from this [of 255 full_bucket] show ?thesis
    by (simp add: all_peers_def full_table_def table_new_def NBUCKETS_def)
qed

lemma full_table_len: "table_len full_table = 20"
  by (simp add: length_all_peers [symmetric] full_table_peers) (simp add: full_bucket_def)

lemma full_table_authentic: "authentic accept_all full_table"
  by (auto simp: authentic_def full_table_peers full_bucket_def demo_peer_verified)

text \<open>A newcomer to the full bucket.\<close>

lemma full_table_newcomer:
  "demo_id 148 \<noteq> local_id full_table" "demo_id 148 \<notin> known pad32 full_table"
  "bucket_of full_table (demo_id 148) = 0" "length (buckets full_table ! 0) = BUCKET_SIZE"
proof -
  have top: "bit (148 :: u8) 7" and new: "\<forall>i \<in> set [128 ..< 148]. (of_nat i :: u8) \<noteq> 148"
    by code_simp+
  from new show "demo_id 148 \<notin> known pad32 full_table"
    unfolding known_def full_table_peers full_bucket_def set_map image_image by (auto simp del: set_upt)
  show "demo_id 148 \<noteq> local_id full_table"
    by (simp add: full_table_def table_new_def)
  from demo_bucket [OF top] show "bucket_of full_table (demo_id 148) = 0"
    by (simp add: full_table_def)
  show "length (buckets full_table ! 0) = BUCKET_SIZE"
    by (simp add: full_table_def table_new_def NBUCKETS_def full_bucket_def BUCKET_SIZE_def)
qed

section \<open>Reachable peer lists\<close>

text \<open>C18. Every peer list reached from a new one by any interleaving of tasks, insertions with the ping between their
  two critical sections, removals and address registrations, has 256 buckets of at most 20 records, each
  verified and in the bucket of its distance from the node, never the node itself, and no address
  registered twice. If no two insertions of one identity overlap, no identity is stored twice.\<close>

theorem dht_well_formed:
  assumes "digest32 sha3" and "dht_steps once sha3 D (dht_new sha3 me, []) (dht, waiting)"
  shows "table_shape sha3 (table dht) \<and> authentic D (table dht) \<and> local_id (table dht) = node_id sha3 me \<and> distinct (addr_peers dht)
    \<and> (once \<longrightarrow> table_ok sha3 (table dht) \<and> distinct (map (node_id sha3) (get_all_records dht)))"
proof -
  have len: "length (node_id sha3 me) = 32" by (rule length_node_id [OF assms(1)])
  then have "table_shape sha3 (table_new (node_id sha3 me))" using table_new_ok table_ok_shape by blast
  then have "dht_inv once sha3 D (node_id sha3 me) (dht_new sha3 me) []"
    by (auto simp: dht_inv_def dht_new_def authentic_new ids_once_def known_def all_peers_def) (simp_all add: table_new_def)
  then have "dht_inv once sha3 D (node_id sha3 me) dht waiting"
    using dht_steps_keep [OF assms, of "node_id sha3 me"] by simp
  then show ?thesis
    by (auto simp: dht_inv_def ids_once_def table_ok_shape get_all_records_def intro: distinct_ids)
qed

theorem dht_well_formed_witness:
  "table_ok pad32 (table (register_peer_addr ''seed'' (dht_insert pad32 accept_all (\<lambda>_. True) (demo_peer 200) (dht_new pad32 (demo_peer 1)))))"
proof -
  have "dht_steps True pad32 accept_all (dht_new pad32 (demo_peer 1), [])
      (dht_insert pad32 accept_all (\<lambda>_. True) (demo_peer 200) (dht_new pad32 (demo_peer 1)), [])"
    by (rule dht_insert_steps) simp
  then have "dht_steps True pad32 accept_all (dht_new pad32 (demo_peer 1), [])
      (register_peer_addr ''seed'' (dht_insert pad32 accept_all (\<lambda>_. True) (demo_peer 200) (dht_new pad32 (demo_peer 1))), [])"
    by (rule rtranclp.rtrancl_into_rtrancl) (rule registered)
  from dht_well_formed [OF digest32_pad32 this] show ?thesis by simp
qed


section \<open>Closest peers\<close>

text \<open>A closest-peer query on a well-formed table returns as many peers as asked for and known, each
  once, in increasing distance, and no peer left out is closer than one returned.\<close>

theorem closest_peers:
  assumes "table_ok sha3 T"
  shows "length (get_closest sha3 target k T) = min k (table_len T)
    \<and> ranked sha3 target k (get_closest sha3 target k T)
    \<and> set (get_closest sha3 target k T) \<subseteq> set (all_peers T)
    \<and> (\<forall>m \<in> set (get_closest sha3 target k T). \<forall>n \<in> set (all_peers T) - set (get_closest sha3 target k T).
         xor_distance (node_id sha3 m) target \<le> xor_distance (node_id sha3 n) target)"
  using get_closest_ranked [OF assms] get_closest_peers
    take_sort_key_least [of _ k "\<lambda>n. xor_distance (node_id sha3 n) target" "all_peers T"]
  by (simp add: length_get_closest) (auto simp: get_closest_def)

theorem closest_peers_witness:
  "length (get_closest pad32 (demo_id 200) 5 full_table) = 5 \<and> ranked pad32 (demo_id 200) 5 (get_closest pad32 (demo_id 200) 5 full_table)"
  using closest_peers [OF full_table_ok, of "demo_id 200" 5] full_table_len by simp


text \<open>After an insertion of another node's record a query for its identity finds that identity first,
  unless its bucket is full and the tail answers the ping; in that case the table is unchanged.\<close>

theorem insert_then_closest:
  assumes "digest32 sha3" and "table_ok sha3 T" and "node_id sha3 nr \<noteq> local_id T"
  shows "(let b = buckets T ! bucket_of T (node_id sha3 nr)
     in if node_id sha3 nr \<notin> known sha3 T \<and> length b = BUCKET_SIZE \<and> ping (last b)
        then table_insert sha3 ping nr T = T
        else map (node_id sha3) (get_closest sha3 (node_id sha3 nr) 1 (table_insert sha3 ping nr T)) = [node_id sha3 nr])"
proof -
  let ?id = "node_id sha3 nr" and ?T' = "table_insert sha3 ping nr T"
  let ?b = "buckets T ! bucket_of T ?id"
  have len: "length (node_id sha3 n) = 32" for n
    by (rule length_node_id [OF assms(1)])
  have i: "bucket_of T ?id < NBUCKETS" by (rule bucket_of_less(1) [OF assms(2) len])
  note bok = table_bucket_ok [OF assms(2) i]
  have "?T' = T" if "?id \<notin> known sha3 T" "length ?b = BUCKET_SIZE" "ping (last ?b)"
  proof (rule table_insert_cases [OF assms(2) len assms(3), of ping])
    fix nodes' assume b: "bucket_insert sha3 nr ?b = (None, nodes')"
    then have "?id \<in> node_id sha3 ` set ?b"
      using that(2) by (auto simp: bucket_insert_def BUCKET_SIZE_def extract_Some_iff split: option.splits if_splits)
    then have "?id \<in> known sha3 T"
      using all_peers_bucket [OF assms(2)] i by (fastforce simp: known_def)
    with that(1) show ?thesis by contradiction
  qed (use that in simp_all)
  moreover have "map (node_id sha3) (get_closest sha3 ?id 1 ?T') = [?id]"
    if "?id \<in> known sha3 T \<or> length ?b \<noteq> BUCKET_SIZE \<or> \<not> ping (last ?b)"
  proof -
    have "?id \<in> known sha3 ?T'"
      using table_insert_known [OF assms(2) len assms(3)] that bok by (force simp: bucket_ok_def)
    then obtain n where n: "n \<in> set (all_peers ?T')" "node_id sha3 n = ?id"
      by (auto simp: known_def)
    with get_closest_self [OF table_insert_keeps(1) [OF assms(2) len] n(1) len] show ?thesis
      by simp
  qed
  ultimately show ?thesis by (auto simp: Let_def)
qed

theorem insert_then_closest_witness:
  "table_insert pad32 (\<lambda>_. True) (demo_peer 148) full_table = full_table
   \<and> map (node_id pad32) (get_closest pad32 (demo_id 148) 1 (table_insert pad32 (\<lambda>_. False) (demo_peer 148) full_table)) = [demo_id 148]"
  using insert_then_closest [OF digest32_pad32 full_table_ok, of "demo_peer 148" "\<lambda>_. True"]
    insert_then_closest [OF digest32_pad32 full_table_ok, of "demo_peer 148" "\<lambda>_. False"] full_table_newcomer
  by (simp add: Let_def)


section \<open>The lookup\<close>

text \<open>C19. Whatever the other nodes answer, the iterative lookup ends: every round asks a node it has not
  asked before. It returns at most 20 records in increasing distance to the target, no identity
  twice and never the node itself, and it leaves the table well formed with verified records.\<close>

theorem find_node_ends:
  assumes "digest32 (kd_sha3 N)" and "length target = 32" and "table_ok (kd_sha3 N) T" and "authentic (kd_dsa N) T"
  shows "\<exists>ns T'. find_node N target T = Some (ns, T') \<and> ranked (kd_sha3 N) target BUCKET_SIZE ns
    \<and> (\<forall>n \<in> set ns. node_id (kd_sha3 N) n \<noteq> local_id T)
    \<and> table_ok (kd_sha3 N) T' \<and> authentic (kd_dsa N) T' \<and> local_id T' = local_id T"
proof -
  have "lookup_ok N target (local_id T) (get_closest (kd_sha3 N) target BUCKET_SIZE T) [] [local_id T]"
    by (simp add: lookup_ok_def ranked_def get_closest_foreign [OF assms(3)])
  from find_loop_returns [OF assms(1,2) this, of 0 T] assms(3,4) show ?thesis
    unfolding find_node_def kept_def by blast
qed

theorem find_node_ends_witness:
  "\<exists>ns T'. find_node quiet_net (demo_id 200) full_table = Some (ns, T') \<and> ranked pad32 (demo_id 200) BUCKET_SIZE ns"
  using find_node_ends [of quiet_net "demo_id 200" full_table] digest32_pad32 full_table_ok
  by (fastforce simp: quiet_net_def full_table_authentic)


text \<open>A lookup whose first round brings no identity it has not asked yet returns no record at all, even
  when the table holds close peers: the nodes asked are merged into the answer only after a round
  that found something new.\<close>

theorem find_node_forgets_seed:
  assumes "digest32 (kd_sha3 N)" and "table_ok (kd_sha3 N) T"
    and "\<forall>n \<in> set (take ALPHA (get_closest (kd_sha3 N) target BUCKET_SIZE T)). \<forall>ns. kd_rpc N 0 (nr_addr n) target = Inr ns \<longrightarrow>
       node_id (kd_sha3 N) ` set ns \<subseteq> insert (local_id T)
         (node_id (kd_sha3 N) ` set (take ALPHA (get_closest (kd_sha3 N) target BUCKET_SIZE T)))"
  shows "\<exists>T'. find_node N target T = Some ([], T')"
proof -
  let ?seed = "get_closest (kd_sha3 N) target BUCKET_SIZE T"
  have "filter (\<lambda>n. \<not> List.member [local_id T] (node_id (kd_sha3 N) n)) ?seed = ?seed"
    using get_closest_foreign [OF assms(2)] by (intro filter_True) auto
  then have batch: "take ALPHA (filter (\<lambda>n. \<not> List.member [local_id T] (node_id (kd_sha3 N) n)) ?seed) = take ALPHA ?seed"
    by (rule arg_cong)
  obtain T1 queue1 visited1 found
    where round: "lookup_round N target 0 (take ALPHA ?seed) ?seed [local_id T] T = (T1, queue1, visited1, found)"
    by (metis prod_cases4)
  have "\<not> found"
    using lookup_round_spec(2,4) [OF assms(1) round] assms(3) by auto
  then show ?thesis
    unfolding find_node_def by (subst find_loop.simps) (simp only: Let_def batch round, simp)
qed

theorem find_node_forgets_seed_witness:
  "(\<exists>T'. find_node quiet_net (demo_id 200) full_table = Some ([], T')) \<and> length (get_closest pad32 (demo_id 200) BUCKET_SIZE full_table) = 20"
  using find_node_forgets_seed [of quiet_net full_table "demo_id 200"] digest32_pad32 full_table_ok full_table_len
  by (simp add: quiet_net_def length_get_closest BUCKET_SIZE_def)


section \<open>Concurrent insertions\<close>

text \<open>Insertions of one identity that do overlap: two tasks that insert one unknown record into a full bucket
  and both see the dead tail replace the tail twice: the record is stored twice and a second peer, which
  nobody pinged, is dropped.\<close>

theorem concurrent_insert_duplicates:
  assumes "digest32 sha3" and "table_ok sha3 T" and "node_id sha3 nr \<noteq> local_id T" and "node_id sha3 nr \<notin> known sha3 T"
    and "length (buckets T ! bucket_of T (node_id sha3 nr)) = BUCKET_SIZE"
  shows "(let b = buckets T ! bucket_of T (node_id sha3 nr);
          T2 = insert_end sha3 nr (insert_end sha3 nr T)
     in insert_begin sha3 nr T = (Some (last b), T)
        \<and> buckets T2 ! bucket_of T (node_id sha3 nr) = nr # nr # take (BUCKET_SIZE - 2) b \<and> \<not> table_ok sha3 T2)"
proof -
  let ?i = "bucket_of T (node_id sha3 nr)"
  let ?b = "buckets T ! ?i" and ?T2 = "insert_end sha3 nr (insert_end sha3 nr T)"
  have i: "?i < NBUCKETS" "?i < length (buckets T)"
    using bucket_of_less [OF assms(2) length_node_id [OF assms(1)]] by simp_all
  have "node_id sha3 nr \<notin> node_id sha3 ` set ?b"
    using assms(4) i(2) by (auto simp: known_def all_peers_nth)
  then have none: "List.extract (\<lambda>n. node_id sha3 n = node_id sha3 nr) ?b = None"
    unfolding extract_None_iff by (metis image_eqI)
  have nonempty: "?b \<noteq> []"
    using assms(5) by (auto simp: BUCKET_SIZE_def)
  with none assms(5) have first: "insert_begin sha3 nr T = (Some (last ?b), T)"
    by (simp add: insert_begin_def bucket_insert_def Let_def)
  have "buckets ?T2 ! ?i = nr # butlast (nr # butlast ?b)"
    using i(2) nonempty by (simp add: insert_end_def replace_tail_def Let_def)
  also have "\<dots> = nr # nr # take (BUCKET_SIZE - 2) ?b"
    using assms(5) by (simp add: butlast_conv_take BUCKET_SIZE_def)
  finally have bucket: "buckets ?T2 ! ?i = nr # nr # take (BUCKET_SIZE - 2) ?b" .
  then have "\<not> bucket_ok sha3 ?T2 ?i (buckets ?T2 ! ?i)"
    by (simp add: bucket_ok_def)
  then have "\<not> table_ok sha3 ?T2"
    using i(1) by (auto simp: table_ok_def)
  with first bucket show ?thesis by (simp add: Let_def)
qed

theorem concurrent_insert_duplicates_witness:
  "take 2 (buckets (insert_end pad32 (demo_peer 148) (insert_end pad32 (demo_peer 148) full_table)) ! 0) = [demo_peer 148, demo_peer 148]
   \<and> \<not> table_ok pad32 (insert_end pad32 (demo_peer 148) (insert_end pad32 (demo_peer 148) full_table))"
  using concurrent_insert_duplicates [OF digest32_pad32 full_table_ok, of "demo_peer 148"] full_table_newcomer
  by (simp add: Let_def)

end
