(* ===== verification/Primus_Sdk.thy ===== *)
theory Primus_Sdk
  imports Primus_Mpt Primus_Pvm
begin

text \<open>
  The client library: \<open>primus-sdk/src/crypto\<close>, \<open>wallet\<close>, \<open>transaction\<close> and \<open>proof.rs\<close>, and the key
  handling of the node in \<open>primus-core/src/crypto.rs\<close> and \<open>crypto_shim.rs\<close>. ML-DSA-87, SHA3-256,
  BIP-39, hex, bincode, rkyv and the file system are arguments (the records \<open>dsa_suite\<close> and
  \<open>sdk_env\<close>); what the clients rely on is stated in the locales of \<open>Sdk_Claims\<close>.
\<close>

section \<open>Seeded generators\<close>

record SeededRng =
  rng_seed :: bytes
  rng_counter :: u64

definition rng_new :: "hash32 \<Rightarrow> SeededRng" where
  "rng_new sd = \<lparr>rng_seed = sd, rng_counter = 0\<rparr>"

text \<open>\<open>chunks_mut(32)\<close>: whole blocks of 32 bytes and one shorter block at the end.\<close>

function fill_with :: "(u64 \<Rightarrow> bytes) \<Rightarrow> (bytes \<Rightarrow> hash32) \<Rightarrow> nat \<Rightarrow> SeededRng \<Rightarrow> bytes \<times> SeededRng" where
  "fill_with enc sha3 n rng =
     (if n = 0 then ([], rng)
      else
        let block = take (min 32 n) (sha3 (rng_seed rng @ enc (rng_counter rng)));
            (rest, rng') = fill_with enc sha3 (n - min 32 n) (rng\<lparr>rng_counter := rng_counter rng + 1\<rparr>)
        in (block @ rest, rng'))"
  by pat_completeness auto
termination by (relation "measure (\<lambda>(enc, sha3, n, rng). n)") auto

declare fill_with.simps [simp del]

text \<open>The generator of the SDK counts in little-endian, the one of the node in big-endian order.\<close>

definition sdk_fill :: "(bytes \<Rightarrow> hash32) \<Rightarrow> nat \<Rightarrow> SeededRng \<Rightarrow> bytes \<times> SeededRng" where
  "sdk_fill sha3 = fill_with (to_le_bytes 8) sha3"

definition core_fill_bytes :: "(bytes \<Rightarrow> hash32) \<Rightarrow> nat \<Rightarrow> SeededRng \<Rightarrow> bytes \<times> SeededRng" where
  "core_fill_bytes sha3 = fill_with (to_be_bytes 8) sha3"

section \<open>Keys and signatures\<close>

text \<open>The operations of the ml-dsa crate: key generation from a random generator, the encodings, and
  signing; \<open>suite_dsa\<close> holds decoding and verification of signatures.\<close>

record ('sg, 'k) dsa_suite =
  suite_dsa :: "'sg mldsa"
  key_gen :: "(nat \<Rightarrow> SeededRng \<Rightarrow> bytes \<times> SeededRng) \<Rightarrow> SeededRng \<Rightarrow> 'k"
  verifying_key :: "'k \<Rightarrow> bytes"
  signing_key :: "'k \<Rightarrow> bytes"
  decode_sk :: "bytes \<Rightarrow> 'k"
  sign_bytes :: "'k \<Rightarrow> bytes \<Rightarrow> bytes"

definition SK_BYTES :: nat where "SK_BYTES = 4896"

record KeyPairBytes =
  kp_pk :: bytes
  kp_sk :: bytes
  kp_seed :: hash32

definition derive_seed :: "(bytes \<Rightarrow> hash32) \<Rightarrow> bytes \<Rightarrow> u32 \<Rightarrow> hash32" where
  "derive_seed sha3 master_seed idx = sha3 (master_seed @ to_le_bytes 4 idx @ ascii ''PRIMUS_SDK'')"

definition keypair_from_seed :: "(bytes \<Rightarrow> hash32) \<Rightarrow> ('sg, 'k) dsa_suite \<Rightarrow> hash32 \<Rightarrow> KeyPairBytes" where
  "keypair_from_seed sha3 D sd =
     (let kp = key_gen D (sdk_fill sha3) (rng_new sd)
      in \<lparr>kp_pk = verifying_key D kp, kp_sk = signing_key D kp, kp_seed = sd\<rparr>)"

definition sign_with_seed :: "(bytes \<Rightarrow> hash32) \<Rightarrow> ('sg, 'k) dsa_suite \<Rightarrow> hash32 \<Rightarrow> bytes \<Rightarrow> bytes" where
  "sign_with_seed sha3 D sd msg = sign_bytes D (key_gen D (sdk_fill sha3) (rng_new sd)) msg"

definition dsa_verify :: "('sg, 'k) dsa_suite \<Rightarrow> bytes \<Rightarrow> bytes \<Rightarrow> bytes \<Rightarrow> bool" where
  "dsa_verify D pk message sig_bytes =
     (if length pk \<noteq> PK_BYTES then False
      else if length sig_bytes \<noteq> SIG_BYTES then False
      else (case decode_sig (suite_dsa D) sig_bytes of
              Some sig \<Rightarrow> verify_sig (suite_dsa D) pk message sig
            | None \<Rightarrow> False))"

text \<open>The node's copy, and the shim that runs it on its own thread: the thread returns its result.\<close>

definition core_verify :: "('sg, 'k) dsa_suite \<Rightarrow> bytes \<Rightarrow> bytes \<Rightarrow> bytes \<Rightarrow> bool" where
  "core_verify D pk message sig_bytes =
     (if length pk \<noteq> PK_BYTES then False
      else if length sig_bytes \<noteq> SIG_BYTES then False
      else (case decode_sig (suite_dsa D) sig_bytes of
              Some sig \<Rightarrow> verify_sig (suite_dsa D) pk message sig
            | None \<Rightarrow> False))"

definition perform_ml_dsa_verify :: "('sg, 'k) dsa_suite \<Rightarrow> bytes \<Rightarrow> bytes \<Rightarrow> bytes \<Rightarrow> bool" where
  "perform_ml_dsa_verify D pubkey message sg = core_verify D pubkey message sg"

definition core_sign :: "('sg, 'k) dsa_suite \<Rightarrow> bytes \<Rightarrow> bytes \<Rightarrow> string + bytes" where
  "core_sign D sk message =
     (if length sk \<noteq> SK_BYTES then Inl ''sign(): signing key length''
      else Inr (sign_bytes D (decode_sk D sk) message))"

section \<open>The environment\<close>

text \<open>BIP-39 phrases, hex, the bincode layout of the key files and the rkyv encoding of reactions;
  \<open>'f\<close> is the file system.\<close>

record WalletFile =
  wf_version :: u32
  wf_mnemonic_phrase :: string
  wf_derivation_index :: u32

record ('sg, 'k, 'f) sdk_env =
  sdk_sha3 :: "bytes \<Rightarrow> hash32"
  sdk_suite :: "('sg, 'k) dsa_suite"
  parse_mnemonic :: "string \<Rightarrow> string + bytes"
  phrase_of_entropy :: "bytes \<Rightarrow> string + string"
  hex_encode :: "bytes \<Rightarrow> string"
  hex_decode :: "string \<Rightarrow> string + bytes"
  ser_wallet :: "WalletFile \<Rightarrow> string + bytes"
  de_wallet :: "bytes \<Rightarrow> string + WalletFile"
  ser_keys :: "bytes \<times> bytes \<Rightarrow> string + bytes"
  de_keys :: "bytes \<Rightarrow> string + bytes \<times> bytes"
  rkyv_reaction :: "SignedReaction \<Rightarrow> string + bytes"
  fs_write :: "string \<Rightarrow> bytes \<Rightarrow> 'f \<Rightarrow> (string + unit) \<times> 'f"
  fs_read :: "string \<Rightarrow> 'f \<Rightarrow> string + bytes"

section \<open>The keys of the node\<close>

record ArchitectKeys =
  arch_pk :: bytes
  arch_sk :: bytes

definition generate_and_save_key ::
  "('sg, 'k, 'f) sdk_env \<Rightarrow> bytes \<Rightarrow> string \<Rightarrow> 'f \<Rightarrow> (string + ArchitectKeys) \<times> 'f" where
  "generate_and_save_key X secret_phrase path fs =
     (let kp = key_gen (sdk_suite X) (core_fill_bytes (sdk_sha3 X)) (rng_new (sdk_sha3 X secret_phrase));
          pk = verifying_key (sdk_suite X) kp; sk = signing_key (sdk_suite X) kp
      in case ser_keys X (pk, sk) of
           Inl e \<Rightarrow> (Inl e, fs)
         | Inr encoded \<Rightarrow>
             (case fs_write X path encoded fs of
                (Inl e, fs1) \<Rightarrow> (Inl e, fs1)
              | (Inr _, fs1) \<Rightarrow> (Inr \<lparr>arch_pk = pk, arch_sk = sk\<rparr>, fs1)))"

definition load_master_key :: "('sg, 'k, 'f) sdk_env \<Rightarrow> string \<Rightarrow> 'f \<Rightarrow> string + ArchitectKeys" where
  "load_master_key X path fs =
     and_then (fs_read X path fs) (\<lambda>raw.
     and_then (de_keys X raw) (\<lambda>(pk, sk).
       if length pk \<noteq> PK_BYTES then Inl ''master.key verifying key length''
       else if length sk \<noteq> SK_BYTES then Inl ''master.key signing key length''
       else Inr \<lparr>arch_pk = pk, arch_sk = sk\<rparr>))"

definition generate_architect_key_from_seed :: "('sg, 'k, 'f) sdk_env \<Rightarrow> bytes \<Rightarrow> bytes \<times> bytes" where
  "generate_architect_key_from_seed X phrase =
     (let kp = key_gen (sdk_suite X) (core_fill_bytes (sdk_sha3 X)) (rng_new (sdk_sha3 X phrase))
      in (verifying_key (sdk_suite X) kp, signing_key (sdk_suite X) kp))"

section \<open>Wallets\<close>

record Wallet =
  mnemonic_phrase :: string
  derivation_index :: u32
  key_seed :: hash32
  address :: string
  public_key_bytes :: bytes

definition from_mnemonic :: "('sg, 'k, 'f) sdk_env \<Rightarrow> string \<Rightarrow> u32 \<Rightarrow> string + Wallet" where
  "from_mnemonic X phrase idx =
     and_then (parse_mnemonic X phrase) (\<lambda>bip39_seed.
       let child_seed = derive_seed (sdk_sha3 X) bip39_seed idx;
           kp = keypair_from_seed (sdk_sha3 X) (sdk_suite X) child_seed
       in Inr \<lparr>mnemonic_phrase = phrase, derivation_index = idx, key_seed = child_seed,
               address = hex_encode X (kp_pk kp), public_key_bytes = kp_pk kp\<rparr>)"

text \<open>\<open>random n\<close> are the bytes of the thread's generator.\<close>

definition wallet_generate ::
  "('sg, 'k, 'f) sdk_env \<Rightarrow> (nat \<Rightarrow> bytes) \<Rightarrow> u32 \<Rightarrow> u32 \<Rightarrow> string + Wallet" where
  "wallet_generate X random word_count idx =
     and_then (if word_count = 12 then Inr 16 else if word_count = 24 then Inr 32
               else Inl ''Unsupported word count'') (\<lambda>entropy_len.
     and_then (phrase_of_entropy X (random entropy_len)) (\<lambda>phrase. from_mnemonic X phrase idx))"

definition wallet_save :: "('sg, 'k, 'f) sdk_env \<Rightarrow> string \<Rightarrow> Wallet \<Rightarrow> 'f \<Rightarrow> (string + unit) \<times> 'f" where
  "wallet_save X path w fs =
     (case ser_wallet X \<lparr>wf_version = 1, wf_mnemonic_phrase = mnemonic_phrase w,
                         wf_derivation_index = derivation_index w\<rparr> of
        Inl e \<Rightarrow> (Inl e, fs)
      | Inr encoded \<Rightarrow> fs_write X path encoded fs)"

definition wallet_load :: "('sg, 'k, 'f) sdk_env \<Rightarrow> string \<Rightarrow> 'f \<Rightarrow> string + Wallet" where
  "wallet_load X path fs =
     and_then (fs_read X path fs) (\<lambda>raw.
     and_then (de_wallet X raw) (\<lambda>wf.
       if wf_version wf \<noteq> 1 then Inl ''Unsupported wallet file version''
       else from_mnemonic X (wf_mnemonic_phrase wf) (wf_derivation_index wf)))"

definition get_short_address :: "Wallet \<Rightarrow> string" where
  "get_short_address w = take 16 (address w)"

definition get_secret_key_bytes :: "('sg, 'k, 'f) sdk_env \<Rightarrow> Wallet \<Rightarrow> bytes" where
  "get_secret_key_bytes X w = kp_sk (keypair_from_seed (sdk_sha3 X) (sdk_suite X) (key_seed w))"

definition wallet_sign :: "('sg, 'k, 'f) sdk_env \<Rightarrow> Wallet \<Rightarrow> bytes \<Rightarrow> bytes" where
  "wallet_sign X w msg = sign_with_seed (sdk_sha3 X) (sdk_suite X) (key_seed w) msg"

definition wallet_verify :: "('sg, 'k, 'f) sdk_env \<Rightarrow> Wallet \<Rightarrow> bytes \<Rightarrow> bytes \<Rightarrow> bool" where
  "wallet_verify X w msg sg = dsa_verify (sdk_suite X) (public_key_bytes w) msg sg"

definition decode_address :: "('sg, 'k, 'f) sdk_env \<Rightarrow> string \<Rightarrow> string + bytes" where
  "decode_address X hex_address =
     and_then (hex_decode X hex_address) (\<lambda>bs.
       if length bs \<noteq> PK_BYTES then Inl ''Address decoded to the wrong length'' else Inr bs)"

section \<open>Transactions\<close>

text \<open>The mirrored types of the SDK.\<close>

datatype AtomElement = SdkHydrogen | SdkCarbon | SdkOxygen | SdkGold

datatype QuantumLogicSnapshot = SdkStable | SdkEntangled hash32 | SdkSuperposition u64

record AtomSnapshot =
  as_public_key :: bytes
  as_element :: AtomElement
  as_neutron_count :: u32
  as_mass :: u64
  as_charge :: f32
  as_last_reaction_hash :: hash32
  as_last_active_index :: u64
  as_nonce :: u64
  as_quantum_state :: QuantumLogicSnapshot

definition snapshot_sender :: "bytes \<Rightarrow> u64 \<Rightarrow> hash32 \<Rightarrow> u64 \<Rightarrow> AtomElement \<Rightarrow> AtomSnapshot" where
  "snapshot_sender pk ms last_hash nc el =
     \<lparr>as_public_key = pk, as_element = el, as_neutron_count = 0, as_mass = ms,
      as_charge = (case el of SdkHydrogen \<Rightarrow> f32_lit 220 100 | SdkCarbon \<Rightarrow> f32_lit 255 100
                            | SdkOxygen \<Rightarrow> f32_lit 344 100 | SdkGold \<Rightarrow> f32_lit 254 100),
      as_last_reaction_hash = last_hash, as_last_active_index = 0, as_nonce = nc, as_quantum_state = SdkStable\<rparr>"

definition snapshot_new_receiver :: "bytes \<Rightarrow> AtomSnapshot" where
  "snapshot_new_receiver pk =
     \<lparr>as_public_key = pk, as_element = SdkHydrogen, as_neutron_count = 0, as_mass = 0, as_charge = f32_lit 220 100,
      as_last_reaction_hash = zero_hash, as_last_active_index = 0, as_nonce = 0, as_quantum_state = SdkStable\<rparr>"

datatype SdkPayload = SdkGeneric | SdkTransfer u64 | SdkUnknown

record Transaction =
  tx_sender :: AtomSnapshot
  tx_receiver :: AtomSnapshot
  tx_reaction_hash :: hash32
  tx_energy :: f32
  tx_timestamp :: u64
  tx_signature :: bytes
  tx_payload :: SdkPayload

primrec map_element :: "AtomElement \<Rightarrow> Element" where
  "map_element SdkHydrogen = Hydrogen"
| "map_element SdkCarbon = Carbon"
| "map_element SdkOxygen = Oxygen"
| "map_element SdkGold = Gold"

primrec map_quantum :: "QuantumLogicSnapshot \<Rightarrow> QuantumState" where
  "map_quantum SdkStable = Stable"
| "map_quantum (SdkEntangled arr) = Entangled arr"
| "map_quantum (SdkSuperposition n) = Superposition n"

definition make_atom :: "AtomSnapshot \<Rightarrow> Atom" where
  "make_atom s =
     \<lparr>public_key = as_public_key s, element = map_element (as_element s), neutron_count = as_neutron_count s,
      mass = as_mass s, charge = as_charge s, last_reaction_hash = as_last_reaction_hash s,
      last_active_index = as_last_active_index s, nonce = as_nonce s, quantum_state = map_quantum (as_quantum_state s)\<rparr>"

primrec types_payload :: "SdkPayload \<Rightarrow> Payload" where
  "types_payload SdkGeneric = Generic"
| "types_payload (SdkTransfer amount) = Transfer amount"
| "types_payload SdkUnknown = Generic"

definition signed_reaction :: "Transaction \<Rightarrow> SignedReaction" where
  "signed_reaction tx =
     \<lparr>sender = make_atom (tx_sender tx), receiver = make_atom (tx_receiver tx), reaction_hash = tx_reaction_hash tx,
      energy = tx_energy tx, timestamp = tx_timestamp tx, signature = tx_signature tx,
      payload = types_payload (tx_payload tx)\<rparr>"

definition to_bytes :: "('sg, 'k, 'f) sdk_env \<Rightarrow> Transaction \<Rightarrow> string + bytes" where
  "to_bytes X tx = rkyv_reaction X (signed_reaction tx)"

definition to_hex :: "('sg, 'k, 'f) sdk_env \<Rightarrow> Transaction \<Rightarrow> string + string" where
  "to_hex X tx = and_then (to_bytes X tx) (\<lambda>bs. Inr (hex_encode X bs))"

section \<open>The transaction builder\<close>

record TransactionBuilder =
  tb_wallet :: Wallet
  tb_recipient_pk :: "bytes option"
  tb_amount :: u64
  tb_fee :: u64
  tb_sender_mass :: u64
  tb_sender_last_hash :: hash32
  tb_sender_nonce :: u64
  tb_sender_element :: AtomElement

definition builder_new :: "Wallet \<Rightarrow> TransactionBuilder" where
  "builder_new w =
     \<lparr>tb_wallet = w, tb_recipient_pk = None, tb_amount = 0, tb_fee = PROTOCOL_MIN_FEE, tb_sender_mass = 0,
      tb_sender_last_hash = zero_hash, tb_sender_nonce = 0, tb_sender_element = SdkHydrogen\<rparr>"

definition builder_recipient :: "bytes \<Rightarrow> TransactionBuilder \<Rightarrow> TransactionBuilder" where
  "builder_recipient pk b = b\<lparr>tb_recipient_pk := Some pk\<rparr>"

definition builder_amount :: "u64 \<Rightarrow> TransactionBuilder \<Rightarrow> TransactionBuilder" where
  "builder_amount n b = b\<lparr>tb_amount := n\<rparr>"

definition builder_fee :: "u64 \<Rightarrow> TransactionBuilder \<Rightarrow> TransactionBuilder" where
  "builder_fee n b = b\<lparr>tb_fee := n\<rparr>"

definition builder_sender_mass :: "u64 \<Rightarrow> TransactionBuilder \<Rightarrow> TransactionBuilder" where
  "builder_sender_mass n b = b\<lparr>tb_sender_mass := n\<rparr>"

definition builder_sender_last_hash :: "hash32 \<Rightarrow> TransactionBuilder \<Rightarrow> TransactionBuilder" where
  "builder_sender_last_hash h b = b\<lparr>tb_sender_last_hash := h\<rparr>"

definition builder_sender_nonce :: "u64 \<Rightarrow> TransactionBuilder \<Rightarrow> TransactionBuilder" where
  "builder_sender_nonce n b = b\<lparr>tb_sender_nonce := n\<rparr>"

definition builder_sender_element :: "AtomElement \<Rightarrow> TransactionBuilder \<Rightarrow> TransactionBuilder" where
  "builder_sender_element e b = b\<lparr>tb_sender_element := e\<rparr>"

text \<open>The reaction that is hashed and signed: its charges, timestamp and signature are placeholders.\<close>

definition hashed_reaction :: "TransactionBuilder \<Rightarrow> bytes \<Rightarrow> SignedReaction" where
  "hashed_reaction b recipient_pk =
     \<lparr>sender = \<lparr>public_key = public_key_bytes (tb_wallet b), element = map_element (tb_sender_element b),
                neutron_count = 0, mass = tb_sender_mass b, charge = f32_zero,
                last_reaction_hash = tb_sender_last_hash b, last_active_index = 0,
                nonce = tb_sender_nonce b, quantum_state = Stable\<rparr>,
      receiver = \<lparr>public_key = recipient_pk, element = Hydrogen, neutron_count = 0, mass = 0, charge = f32_zero,
                  last_reaction_hash = zero_hash, last_active_index = 0, nonce = 0, quantum_state = Stable\<rparr>,
      reaction_hash = zero_hash, energy = float_of_word binary32 (tb_fee b), timestamp = 0, signature = [],
      payload = Transfer (tb_amount b)\<rparr>"

definition build ::
  "('sg, 'k, 'f) sdk_env \<Rightarrow> string + u64 \<Rightarrow> TransactionBuilder \<Rightarrow> string + Transaction" where
  "build X now b =
     and_then (ok_or ''TransactionBuilder: recipient public key is required'' (tb_recipient_pk b)) (\<lambda>recipient_pk.
       if tb_amount b = 0 then Inl ''TransactionBuilder: amount must be greater than 0''
       else if tb_fee b < PROTOCOL_MIN_FEE then Inl ''TransactionBuilder: fee is below PROTOCOL_MIN_FEE''
       else
         and_then (ok_or ''TransactionBuilder: amount + fee overflows u64'' (checked_add (tb_amount b) (tb_fee b)))
           (\<lambda>total_cost.
           if tb_sender_mass b < total_cost then Inl ''TransactionBuilder: insufficient sender mass''
           else
             let types_rx = hashed_reaction b recipient_pk;
                 rx_hash = compute_reaction_hash (sdk_sha3 X) types_rx;
                 digest = signing_digest (sdk_sha3 X) types_rx;
                 sg = wallet_sign X (tb_wallet b) digest
             in and_then now (\<lambda>ts.
                  Inr \<lparr>tx_sender = snapshot_sender (public_key_bytes (tb_wallet b)) (tb_sender_mass b)
                                     (tb_sender_last_hash b) (tb_sender_nonce b) (tb_sender_element b),
                       tx_receiver = snapshot_new_receiver recipient_pk, tx_reaction_hash = rx_hash,
                       tx_energy = float_of_word binary32 (tb_fee b), tx_timestamp = ts, tx_signature = sg,
                       tx_payload = SdkTransfer (tb_amount b)\<rparr>)))"

section \<open>Proofs for light clients\<close>

definition MAX_PROOF_AGE_BLOCKS :: u64 where "MAX_PROOF_AGE_BLOCKS = 8"

text \<open>The bincode layouts of \<open>LeafRepr\<close> and \<open>ExtRepr\<close> and the decoder of atoms. \<open>None\<close> is a panic: an
  index out of range or a subtraction below zero.\<close>

record proof_codec =
  pc_blake3 :: "bytes \<Rightarrow> hash32"
  ser_leaf_repr :: "nibbles \<Rightarrow> bytes \<Rightarrow> bytes"
  ser_ext_repr :: "nibbles \<Rightarrow> hash32 \<Rightarrow> bytes"
  pc_de_atom :: "bytes \<Rightarrow> string + Atom"

definition sdk_key_to_nibbles :: "bytes \<Rightarrow> nibbles" where
  "sdk_key_to_nibbles key = concat (map (\<lambda>byte. [drop_bit 4 byte, byte AND 15]) key)"

definition suffix_step :: "PathStep \<Rightarrow> nat" where
  "suffix_step st = (case st of
     BranchStep nb \<Rightarrow> (if nb \<noteq> 16 then 1 else 0)
   | ExtensionStep l \<Rightarrow> unat l
   | LeafStep \<Rightarrow> 0)"

fun fold_up ::
  "proof_codec \<Rightarrow> nibbles \<Rightarrow> PathStep list \<Rightarrow> hash32 \<Rightarrow> hash32 list \<Rightarrow> nat \<Rightarrow> hash32 option option" where
  "fold_up C ns [] h sibs pos = Some (Some h)"
| "fold_up C ns (BranchStep nb # todo) h sibs pos =
     (if sibs = [] then Some None
      else if pos = 0 then None
      else fold_up C ns todo (pc_blake3 C (nb # h @ last sibs)) (butlast sibs) (pos - 1))"
| "fold_up C ns (ExtensionStep l # todo) h sibs pos =
     (if pos < unat l then None
      else fold_up C ns todo (pc_blake3 C (ser_ext_repr C (take (unat l) (drop (pos - unat l) ns)) h)) sibs (pos - unat l))"
| "fold_up C ns (LeafStep # todo) h sibs pos = Some None"

definition verify_proof_pure :: "proof_codec \<Rightarrow> MerkleProof \<Rightarrow> bool option" where
  "verify_proof_pure C pf =
     (if mp_path pf = [] then Some (mp_root pf = zero_hash \<and> mp_value pf = None)
      else
        let ns = sdk_key_to_nibbles (trie_key pf)
        in case last (mp_path pf) of
             LeafStep \<Rightarrow>
               let suffix_start = sum_list (map suffix_step (mp_path pf))
               in if length ns < suffix_start then None
                  else (case mp_value pf of
                          None \<Rightarrow> Some True
                        | Some v \<Rightarrow>
                            (case fold_up C ns (tl (rev (mp_path pf)))
                                    (pc_blake3 C (ser_leaf_repr C (drop suffix_start ns) v)) (siblings pf) (length ns) of
                               None \<Rightarrow> None
                             | Some None \<Rightarrow> Some False
                             | Some (Some h) \<Rightarrow> Some (h = mp_root pf)))
           | _ \<Rightarrow> Some False)"

datatype ProofError = ProofTooOld u64 u64 | RootMismatch | InvalidProof | BadAtom string | ProofPanic

definition verify_balance_proof ::
  "proof_codec \<Rightarrow> MerkleProof \<Rightarrow> hash32 \<Rightarrow> u64 \<Rightarrow> u64 \<Rightarrow> ProofError + Atom option" where
  "verify_balance_proof C pf expected_root proof_height current_height =
     (if MAX_PROOF_AGE_BLOCKS < saturating_sub current_height proof_height
      then Inl (ProofTooOld proof_height current_height)
      else if mp_root pf \<noteq> expected_root then Inl RootMismatch
      else (case verify_proof_pure C pf of
              None \<Rightarrow> Inl ProofPanic
            | Some False \<Rightarrow> Inl InvalidProof
            | Some True \<Rightarrow>
                (case mp_value pf of
                   Some atom_bytes \<Rightarrow> (case pc_de_atom C atom_bytes of Inl e \<Rightarrow> Inl (BadAtom e) | Inr a \<Rightarrow> Inr (Some a))
                 | None \<Rightarrow> Inr None)))"

end
