(* ===== verification/Sdk_Claims.thy ===== *)
theory Sdk_Claims
  imports Primus_Sdk Memory_Platform
begin

text \<open>
  The properties of the client library: a transaction of the builder passes the node's checks and is
  charged what the builder checked, wallets and master keys survive a round trip through their
  files, and what the proof verification of the SDK accepts and rejects. The contracts of ML-DSA-87
  and of the codecs and files are locales, interpreted on a scheme and a file system in memory.
\<close>

section \<open>Contracts\<close>

text \<open>ML-DSA-87: sizes of the encodings, and a signature under a generated key verifies under its
  verifying key.\<close>

locale dsa_contract =
  fixes D :: "('sg, 'k) dsa_suite"
  assumes vk_length: "length (verifying_key D (key_gen D fill rng)) = PK_BYTES"
    and sk_length: "length (signing_key D (key_gen D fill rng)) = SK_BYTES"
    and sig_length: "length (sign_bytes D (key_gen D fill rng) msg) = SIG_BYTES"
    and sign_verify: "\<exists>sg. decode_sig (suite_dsa D) (sign_bytes D (key_gen D fill rng) msg) = Some sg
          \<and> verify_sig (suite_dsa D) (verifying_key D (key_gen D fill rng)) msg sg"
    and sk_codec: "decode_sk D (signing_key D (key_gen D fill rng)) = key_gen D fill rng"
begin

lemma generated_verifies:
  "dsa_verify D (verifying_key D (key_gen D fill rng)) msg (sign_bytes D (key_gen D fill rng) msg)"
  using sign_verify [of fill rng msg] by (auto simp: dsa_verify_def vk_length sig_length)

lemma seed_verifies:
  "dsa_verify D (kp_pk (keypair_from_seed sha3 D sd)) msg (sign_with_seed sha3 D sd msg)"
  using generated_verifies by (simp add: keypair_from_seed_def sign_with_seed_def Let_def)

end

text \<open>Codecs and files: what is encoded decodes, what is written is read.\<close>

locale sdk_platform = dsa_contract "sdk_suite X" for X :: "('sg, 'k, 'f) sdk_env" +
  assumes hex_law: "hex_decode X (hex_encode X bs) = Inr bs"
    and wallet_codec: "ser_wallet X file = Inr bs \<Longrightarrow> de_wallet X bs = Inr file"
    and keys_codec: "ser_keys X ks = Inr bs \<Longrightarrow> de_keys X bs = Inr ks"
    and write_law: "fs_write X path bs fs = (Inr (), fs') \<Longrightarrow> fs_read X path fs' = Inr bs"
begin

lemma wallet_key:
  assumes "from_mnemonic X phrase idx = Inr w"
  shows "length (public_key_bytes w) = PK_BYTES" and "length (wallet_sign X w msg) = SIG_BYTES"
    and "dsa_verify (sdk_suite X) (public_key_bytes w) msg (wallet_sign X w msg)"
proof -
  obtain s where w: "public_key_bytes w = kp_pk (keypair_from_seed (sdk_sha3 X) (sdk_suite X) s)" "key_seed w = s"
    using assms by (auto simp: from_mnemonic_def result_simps Let_def)
  then show "dsa_verify (sdk_suite X) (public_key_bytes w) msg (wallet_sign X w msg)"
    by (simp add: wallet_sign_def seed_verifies)
  show "length (public_key_bytes w) = PK_BYTES" "length (wallet_sign X w msg) = SIG_BYTES"
    using w by (simp_all add: keypair_from_seed_def Let_def vk_length wallet_sign_def sign_with_seed_def sig_length)
qed

lemma save_load:
  assumes "from_mnemonic X phrase idx = Inr w" and "wallet_save X path w fs = (Inr (), fs')"
  shows "wallet_load X path fs' = Inr w"
proof -
  let ?wf = "\<lparr>wf_version = 1, wf_mnemonic_phrase = mnemonic_phrase w, wf_derivation_index = derivation_index w\<rparr>"
  obtain bs where "ser_wallet X ?wf = Inr bs" "fs_write X path bs fs = (Inr (), fs')"
    using assms(2) by (auto simp: wallet_save_def split: sum.splits)
  then have "fs_read X path fs' = Inr bs" "de_wallet X bs = Inr ?wf"
    using write_law wallet_codec by blast+
  moreover have "mnemonic_phrase w = phrase" "derivation_index w = idx"
    using assms(1) by (auto simp: from_mnemonic_def result_simps Let_def)
  ultimately show ?thesis
    using assms(1) by (simp add: wallet_load_def)
qed

lemma address_decodes:
  assumes "from_mnemonic X phrase idx = Inr w"
  shows "decode_address X (address w) = Inr (public_key_bytes w)"
proof -
  have "address w = hex_encode X (public_key_bytes w)"
    using assms by (auto simp: from_mnemonic_def result_simps Let_def)
  then show ?thesis
    using wallet_key(1) [OF assms] by (simp add: decode_address_def hex_law)
qed

lemma master_key:
  assumes "generate_and_save_key X secret path fs = (Inr keys, fs')"
  shows "load_master_key X path fs' = Inr keys"
    and "\<exists>sg. core_sign (sdk_suite X) (arch_sk keys) msg = Inr sg \<and> core_verify (sdk_suite X) (arch_pk keys) msg sg"
proof -
  let ?D = "sdk_suite X"
  define kp where "kp = key_gen ?D (core_fill_bytes (sdk_sha3 X)) (rng_new (sdk_sha3 X secret))"
  obtain bs where b: "ser_keys X (verifying_key ?D kp, signing_key ?D kp) = Inr bs"
    using assms by (cases "ser_keys X (verifying_key ?D kp, signing_key ?D kp)")
      (simp_all add: generate_and_save_key_def Let_def kp_def [symmetric])
  with assms have w: "fs_write X path bs fs = (Inr (), fs')"
    and keys: "keys = \<lparr>arch_pk = verifying_key ?D kp, arch_sk = signing_key ?D kp\<rparr>"
    by (simp_all add: generate_and_save_key_def Let_def kp_def [symmetric] split: sum.splits prod.splits)
  have len: "length (verifying_key ?D kp) = PK_BYTES" "length (signing_key ?D kp) = SK_BYTES"
    by (simp_all add: kp_def vk_length sk_length)
  with write_law [OF w] keys_codec [OF b] show "load_master_key X path fs' = Inr keys"
    by (simp add: load_master_key_def keys)
  have "core_verify ?D (verifying_key ?D kp) msg (sign_bytes ?D kp msg)"
    using generated_verifies [of "core_fill_bytes (sdk_sha3 X)" "rng_new (sdk_sha3 X secret)" msg]
    by (simp add: core_verify_def dsa_verify_def kp_def)
  with len(2) show "\<exists>sg. core_sign ?D (arch_sk keys) msg = Inr sg \<and> core_verify ?D (arch_pk keys) msg sg"
    by (simp add: core_sign_def keys) (simp add: kp_def sk_codec)
qed

end

section \<open>A scheme and a file system in memory\<close>

text \<open>A key is 32 random bytes; the verifying key pads it, and a signature is the verifying key
  followed by the message, cut to size.\<close>

definition padded :: "nat \<Rightarrow> bytes \<Rightarrow> bytes" where
  "padded n b = take n (b @ replicate n 0)"

lemma length_padded [simp]: "length (padded n b) = n"
  by (auto simp: padded_def)

definition mem_suite :: "(bytes, bytes) dsa_suite" where
  "mem_suite = \<lparr>suite_dsa = \<lparr>decode_sig = Some, verify_sig = (\<lambda>pk m sg. sg = padded SIG_BYTES (pk @ m))\<rparr>,
     key_gen = (\<lambda>fill rng. padded 32 (fst (fill 32 rng))), verifying_key = padded PK_BYTES,
     signing_key = padded SK_BYTES, decode_sk = take 32,
     sign_bytes = (\<lambda>k m. padded SIG_BYTES (padded PK_BYTES k @ m))\<rparr>"

definition put_string :: "string \<Rightarrow> bytes" where
  "put_string s = put_list (\<lambda>c. [of_nat (of_char c)]) s"

definition get_string :: "bytes \<Rightarrow> string \<times> bytes" where
  "get_string = get_list (\<lambda>b. (char_of (unat (hd b)), tl b))"

lemma get_put_string [codec_simps]: "get_string (put_string s @ r) = (s, r)"
  unfolding get_string_def put_string_def
  by (rule get_put_list) (simp add: unat_of_nat of_char_mod_256)

definition put_wallet :: "WalletFile \<Rightarrow> bytes" where
  "put_wallet file = put_word (wf_version file) @ put_string (wf_mnemonic_phrase file) @ put_word (wf_derivation_index file)"

definition get_wallet :: "bytes \<Rightarrow> WalletFile" where
  "get_wallet bs =
     (let (v, r) = get_word bs; (p, r1) = get_string r; (i, r2) = get_word r1
      in \<lparr>wf_version = v, wf_mnemonic_phrase = p, wf_derivation_index = i\<rparr>)"

lemma get_put_wallet: "get_wallet (put_wallet file) = file"
proof -
  have "get_word (put_word w) = (w, [])" for w :: u32
    using get_put_word [of w "[]"] by simp
  then show ?thesis
    by (simp add: get_wallet_def put_wallet_def codec_simps)
qed

definition mem_sdk :: "(bytes \<Rightarrow> hash32) \<Rightarrow> (bytes, bytes, string \<Rightarrow> bytes option) sdk_env" where
  "mem_sdk h =
     \<lparr>sdk_sha3 = h, sdk_suite = mem_suite, parse_mnemonic = (\<lambda>p. if p = [] then Inl ''empty'' else Inr (ascii p)),
      phrase_of_entropy = (\<lambda>e. Inr (map (\<lambda>b. char_of (unat b)) e)),
      hex_encode = map (\<lambda>b. char_of (unat b)), hex_decode = (\<lambda>s. Inr (map (\<lambda>c. of_nat (of_char c)) s)),
      ser_wallet = (\<lambda>wf. Inr (put_wallet wf)), de_wallet = (\<lambda>b. Inr (get_wallet b)),
      ser_keys = (\<lambda>(pk, sk). Inr (put_bytes pk @ put_bytes sk)),
      de_keys = (\<lambda>b. let (pk, r) = get_bytes b; (sk, r') = get_bytes r in Inr (pk, sk)),
      rkyv_reaction = (\<lambda>rx. Inr (put_reaction rx)),
      fs_write = (\<lambda>p b fs. (Inr (), fs(p \<mapsto> b))), fs_read = (\<lambda>p fs. ok_or ''not found'' (fs p))\<rparr>"

lemma byte_of_unat: "word_of_nat (unat b mod 256) = (b :: u8)"
  using unsigned_less [of b, where ?'a = nat] by simp

interpretation mem_dsa: dsa_contract mem_suite
  by unfold_locales (simp_all add: mem_suite_def, simp add: padded_def SK_BYTES_def)

interpretation mem_wallet: sdk_platform "mem_sdk h" for h
proof -
  have *: "get_bytes (put_bytes bs) = (bs, [])" for bs
    using get_put_bytes [of bs "[]"] by simp
  show "sdk_platform (mem_sdk h)"
  proof (intro sdk_platform.intro sdk_platform_axioms.intro)
    show "dsa_contract (sdk_suite (mem_sdk h))"
      using mem_dsa.dsa_contract_axioms by (simp add: mem_sdk_def)
  qed (auto simp: mem_sdk_def get_put_wallet codec_simps * o_def byte_of_unat)
qed

section \<open>Wallets\<close>

text \<open>A wallet restored from a mnemonic survives a round trip through its file, its address decodes to
  its public key, and what it signs verifies under that key.\<close>

theorem wallet_round_trip:
  assumes "sdk_platform X" and "from_mnemonic X phrase idx = Inr w" and "wallet_save X path w fs = (Inr (), fs')"
  shows "wallet_load X path fs' = Inr w \<and> decode_address X (address w) = Inr (public_key_bytes w)
    \<and> wallet_verify X w msg (wallet_sign X w msg)"
  using sdk_platform.save_load [OF assms] sdk_platform.address_decodes [OF assms(1,2)]
    sdk_platform.wallet_key(3) [OF assms(1,2)] by (simp add: wallet_verify_def)

theorem wallet_round_trip_witness:
  "\<exists>w fs'. from_mnemonic (mem_sdk demo_hash) ''abandon about'' 1 = Inr w
     \<and> wallet_save (mem_sdk demo_hash) ''wallet'' w Map.empty = (Inr (), fs') \<and> wallet_load (mem_sdk demo_hash) ''wallet'' fs' = Inr w"
proof -
  obtain w where w: "from_mnemonic (mem_sdk demo_hash) ''abandon about'' 1 = Inr w"
    by (simp add: from_mnemonic_def mem_sdk_def Let_def)
  moreover obtain fs' where f: "wallet_save (mem_sdk demo_hash) ''wallet'' w Map.empty = (Inr (), fs')"
    by (simp add: wallet_save_def mem_sdk_def)
  ultimately show ?thesis
    using wallet_round_trip [OF mem_wallet.sdk_platform_axioms w f] by blast
qed

text \<open>The master key of a node: the keys written by the generator are the keys loaded at the start, and
  what the node signs with them verifies, also after the shim of the virtual machine.\<close>

theorem master_key_round_trip:
  assumes "sdk_platform X" and "generate_and_save_key X secret path fs = (Inr keys, fs')"
  shows "load_master_key X path fs' = Inr keys
    \<and> (\<exists>sg. core_sign (sdk_suite X) (arch_sk keys) msg = Inr sg
          \<and> perform_ml_dsa_verify (sdk_suite X) (arch_pk keys) msg sg)"
  using sdk_platform.master_key [OF assms] by (simp add: perform_ml_dsa_verify_def)

theorem master_key_round_trip_witness:
  "\<exists>keys fs'. generate_and_save_key (mem_sdk demo_hash) [1, 2] ''master.key'' Map.empty = (Inr keys, fs')
     \<and> load_master_key (mem_sdk demo_hash) ''master.key'' fs' = Inr keys"
proof -
  obtain keys fs' where "generate_and_save_key (mem_sdk demo_hash) [1, 2] ''master.key'' Map.empty = (Inr keys, fs')"
    by (simp add: generate_and_save_key_def mem_sdk_def Let_def)
  with master_key_round_trip [OF mem_wallet.sdk_platform_axioms this] show ?thesis by blast
qed

section \<open>Transactions\<close>

text \<open>Numbers that are at least a small integer stay so under rounding.\<close>

definition at_or_above :: "int \<Rightarrow> rfloat \<Rightarrow> bool" where
  "at_or_above n x \<longleftrightarrow> x = Inf False \<or> (\<exists>m e. x = Fin False m e \<and> 0 \<le> m \<and> real_of_int n \<le> rval m e)"

lemma at_or_above_fround:
  assumes "0 \<le> m" and "real_of_int n \<le> rval m e" and "0 \<le> n" and "n \<le> 2 ^ nat (prec F)" and "format_ok F"
  shows "at_or_above n (fround F False m e)"
proof (cases "fround F False m e = Inf False")
  case False
  then obtain m' e' where m': "fround F False m e = Fin False m' e'"
    using fround_cases [of F False m e] by auto
  have "rval n 0 \<le> rval m' e'"
    using fround_grid(1) [OF m' assms(1) _ assms(3,4), of 0] assms(2,5) by (auto simp: rval_def format_ok_def)
  with m' fround_Fin_nonneg [OF m'] show ?thesis
    by (simp add: at_or_above_def rval_def)
qed (simp add: at_or_above_def)

lemma at_or_above_u64: "at_or_above n x \<Longrightarrow> 0 \<le> n \<Longrightarrow> n < 2 ^ 64 \<Longrightarrow> n \<le> uint (float_to_u64 x)"
  using float_to_u64_ge by (auto simp: at_or_above_def float_to_u64_def float_to_uint_def)

lemma fee_encoding:
  assumes "10 \<le> (fee :: u64)" shows "PROTOCOL_MIN_FEE \<le> canon_encode (float_of_word binary32 fee)"
proof -
  obtain n f where n: "float_of_word binary64 FIXED_POINT_SCALE = Fin False n f" "0 \<le> n" "rval n f = 1000000000"
    using scale_float by auto
  then have "n \<noteq> 0" by (auto simp: rval_def)
  have "at_or_above 10 (float_of_word binary32 fee)"
  proof -
    have "real_of_int 10 \<le> real_of_int (uint fee)"
      using assms unfolding word_le_def of_int_le_iff by simp
    then show ?thesis
      using at_or_above_fround [of "uint fee" 10 0 binary32] by (simp add: float_of_word_def float_of_int_def rval_def)
  qed
  then have "at_or_above 10 (fcast binary64 (float_of_word binary32 fee))"
    by (auto simp: at_or_above_def [of _ "float_of_word _ _"] fcast_def intro!: at_or_above_fround) (simp add: at_or_above_def)
  then have mul: "at_or_above 10 (fmul binary64 (fcast binary64 (float_of_word binary32 fee)) (Fin False n f))"
    (is "at_or_above 10 ?z")
    unfolding at_or_above_def [of _ "fcast _ _"]
  proof (elim disjE exE conjE)
    fix m e assume m: "fcast binary64 (float_of_word binary32 fee) = Fin False m e" "0 \<le> m" "real_of_int 10 \<le> rval m e"
    have "10 * 1 \<le> rval m e * rval n f"
      using m(3) n(3) by (intro mult_mono) auto
    then show ?thesis
      unfolding m(1) using m(2) n(2) by (auto simp: rval_mult intro!: at_or_above_fround)
  qed (use \<open>n \<noteq> 0\<close> in \<open>simp add: at_or_above_def\<close>)
  have "\<not> flt ?z f64_zero"
    using mul by (auto simp: at_or_above_def Let_def signed_mant_def not_less mult_less_0_iff)
  then have "fmax ?z f64_zero = ?z"
    using mul by (auto simp: fmax_def at_or_above_def)
  then have "canon_encode (float_of_word binary32 fee)
      = (if fle (float_of_word binary64 (- 1 :: u64)) ?z then - 1 else float_to_u64 ?z)"
    by (simp add: canon_encode_def n(1) Let_def)
  moreover have "(10 :: u64) \<le> - 1"
    by code_simp
  ultimately show ?thesis
    using at_or_above_u64 [OF mul] by (auto simp: PROTOCOL_MIN_FEE_def word_le_def [of 10 "float_to_u64 _"])
qed


definition built :: "('sg, 'k, 'f) sdk_env \<Rightarrow> TransactionBuilder \<Rightarrow> bytes \<Rightarrow> u64 \<Rightarrow> Transaction" where
  "built X b r ts =
     \<lparr>tx_sender = snapshot_sender (public_key_bytes (tb_wallet b)) (tb_sender_mass b)
                    (tb_sender_last_hash b) (tb_sender_nonce b) (tb_sender_element b),
      tx_receiver = snapshot_new_receiver r, tx_reaction_hash = compute_reaction_hash (sdk_sha3 X) (hashed_reaction b r),
      tx_energy = float_of_word binary32 (tb_fee b), tx_timestamp = ts,
      tx_signature = wallet_sign X (tb_wallet b) (signing_digest (sdk_sha3 X) (hashed_reaction b r)),
      tx_payload = SdkTransfer (tb_amount b)\<rparr>"

lemma covers_iff:
  "(\<exists>c. checked_add a f = Some c \<and> \<not> m < c) \<longleftrightarrow> unat a + unat f \<le> unat (m :: u64)"
proof
  assume "unat a + unat f \<le> unat m"
  moreover have "unat m < 2 ^ 64"
    using unsigned_less [of m, where ?'a = nat] by simp
  ultimately have "unat a + unat f < 2 ^ LENGTH(64)" "unat (a + f) = unat a + unat f"
    by (simp_all add: unat_word_ariths)
  with \<open>unat a + unat f \<le> unat m\<close> show "\<exists>c. checked_add a f = Some c \<and> \<not> m < c"
    using uint_fits(1) [of a f] by (auto simp: checked_add_def word_less_nat_alt)
qed (auto dest!: checked_add_Some simp: word_less_nat_alt)

lemma build_eq:
  "build X now b = Inr tx \<longleftrightarrow> (\<exists>r ts. tb_recipient_pk b = Some r \<and> now = Inr ts \<and> 0 < tb_amount b
     \<and> PROTOCOL_MIN_FEE \<le> tb_fee b \<and> unat (tb_amount b) + unat (tb_fee b) \<le> unat (tb_sender_mass b)
     \<and> tx = built X b r ts)"
  unfolding covers_iff [symmetric]
  by (auto simp: build_def built_def result_simps Let_def word_gt_0 not_less split: if_splits)

text \<open>The builder succeeds exactly when a recipient is set, the amount is positive, the fee reaches the
  protocol minimum, the mass covers amount and fee as integers, and the clock reads.\<close>

theorem build_succeeds_iff:
  "(\<exists>tx. build X now b = Inr tx) \<longleftrightarrow>
     tb_recipient_pk b \<noteq> None \<and> 0 < tb_amount b \<and> PROTOCOL_MIN_FEE \<le> tb_fee b
     \<and> unat (tb_amount b) + unat (tb_fee b) \<le> unat (tb_sender_mass b) \<and> (\<exists>ts. now = Inr ts)"
  unfolding build_eq by auto

lemma signed_built:
  "signing_input (signed_reaction (built X b r ts)) = signing_input (hashed_reaction b r)"
  "public_key (sender (signed_reaction (built X b r ts))) = public_key_bytes (tb_wallet b)"
  "public_key (receiver (signed_reaction (built X b r ts))) = r"
  "nonce (sender (signed_reaction (built X b r ts))) = tb_sender_nonce b"
  "payload (signed_reaction (built X b r ts)) = Transfer (tb_amount b)"
  "energy (signed_reaction (built X b r ts)) = float_of_word binary32 (tb_fee b)"
  "signature (signed_reaction (built X b r ts)) = wallet_sign X (tb_wallet b) (signing_digest (sdk_sha3 X) (hashed_reaction b r))"
  "reaction_hash (signed_reaction (built X b r ts)) = sdk_sha3 X (signing_input (hashed_reaction b r))"
  by (simp_all add: signed_reaction_def built_def make_atom_def snapshot_sender_def snapshot_new_receiver_def
      hashed_reaction_def signing_input_def transfer_amount_def compute_reaction_hash_def signing_digest_def)

text \<open>A wallet, an account and a builder for the examples.\<close>

definition sdk_wallet_of :: Wallet where
  "sdk_wallet_of = (case from_mnemonic (mem_sdk demo_hash) ''abandon about'' 0 of Inr w \<Rightarrow> w)"

definition sdk_builder_for :: "u64 \<Rightarrow> u64 \<Rightarrow> TransactionBuilder" where
  "sdk_builder_for fee ms = \<lparr>tb_wallet = sdk_wallet_of, tb_recipient_pk = Some (replicate PK_BYTES 7), tb_amount = 500,
     tb_fee = fee, tb_sender_mass = ms, tb_sender_last_hash = zero_hash, tb_sender_nonce = 3, tb_sender_element = SdkHydrogen\<rparr>"

definition sdk_builder :: TransactionBuilder where "sdk_builder = sdk_builder_for 10 510"

definition sdk_account :: Atom where
  "sdk_account = (new_receiver (public_key_bytes sdk_wallet_of))\<lparr>mass := 510, nonce := 3\<rparr>"

lemma sdk_wallet: "from_mnemonic (mem_sdk demo_hash) ''abandon about'' 0 = Inr sdk_wallet_of"
  by (simp add: sdk_wallet_of_def from_mnemonic_def mem_sdk_def Let_def)

lemma mem_wallet_key:
  assumes "from_mnemonic (mem_sdk h) phrase idx = Inr w"
  shows "replicate PK_BYTES 7 \<noteq> public_key_bytes w"
proof -
  obtain k where "public_key_bytes w = padded PK_BYTES (padded 32 k)"
    using assms by (auto simp: from_mnemonic_def mem_sdk_def Let_def keypair_from_seed_def mem_suite_def result_simps split: if_splits)
  moreover have "padded PK_BYTES (padded 32 k) ! 100 = 0"
    unfolding padded_def [of PK_BYTES] by (simp add: PK_BYTES_def nth_append)
  moreover have "replicate PK_BYTES (7 :: u8) ! 100 = 7" by (simp add: PK_BYTES_def)
  ultimately show ?thesis by auto
qed

lemma sdk_wallet_key: "replicate PK_BYTES 7 \<noteq> public_key_bytes sdk_wallet_of"
  using sdk_wallet by (rule mem_wallet_key)

lemma sdk_builder_ok:
  assumes "unat fee + 500 \<le> unat ms" and "10 \<le> fee"
  shows "\<exists>tx. build (mem_sdk demo_hash) (Inr 7) (sdk_builder_for fee ms) = Inr tx"
proof -
  have "(0 :: u64) < 500" "unat (500 :: u64) = 500"
    by code_simp+
  then show ?thesis
    using assms unfolding build_eq by (simp add: sdk_builder_for_def PROTOCOL_MIN_FEE_def add.commute del: zero_less_numeral)
qed

text \<open>Every transaction the builder returns for a wallet and a recipient key of protocol length passes
  the structural validation of mempool and network and the signature check of the virtual machine:
  both sides hash and sign the same bytes.\<close>

theorem built_transaction_accepted:
  assumes "sdk_platform X" and "from_mnemonic X phrase idx = Inr (tb_wallet b)" and "build X now b = Inr tx"
    and "length (the (tb_recipient_pk b)) = PK_BYTES" and "ctx_verify ctx = core_verify (sdk_suite X)"
  shows "validate_structure (sdk_sha3 X) (signed_reaction tx) = Inr ()
    \<and> signature_gate (sdk_sha3 X) ctx (signed_reaction tx) = Inr ()"
proof -
  obtain r ts where b: "tb_recipient_pk b = Some r" "PROTOCOL_MIN_FEE \<le> tb_fee b" "tx = built X b r ts"
    using assms(3) unfolding build_eq by blast
  note key = sdk_platform.wallet_key [OF assms(1,2)]
  have "core_verify (sdk_suite X) = dsa_verify (sdk_suite X)"
    by (simp add: fun_eq_iff core_verify_def dsa_verify_def)
  then have "signature_gate (sdk_sha3 X) ctx (signed_reaction tx) = Inr ()"
    using key(3) by (simp add: signature_gate_def Let_def b(3) signed_built assms(5) signing_digest_def)
  moreover have "validate_structure (sdk_sha3 X) (signed_reaction tx) = Inr ()"
    using key(1,2) assms(4) b fee_encoding [of "tb_fee b"]
    by (simp add: validate_structure_def compute_reaction_hash_def signing_digest_def Let_def signed_built PROTOCOL_MIN_FEE_def not_less)
  ultimately show ?thesis by simp
qed

theorem built_transaction_accepted_witness:
  "\<exists>tx. build (mem_sdk demo_hash) (Inr 7) sdk_builder = Inr tx \<and> validate_structure demo_hash (signed_reaction tx) = Inr ()"
proof -
  obtain tx where tx: "build (mem_sdk demo_hash) (Inr 7) sdk_builder = Inr tx"
    using sdk_builder_ok [of 10 510] by (auto simp: sdk_builder_def)
  have "from_mnemonic (mem_sdk demo_hash) ''abandon about'' 0 = Inr (tb_wallet sdk_builder)"
    by (simp add: sdk_builder_def sdk_builder_for_def sdk_wallet)
  from built_transaction_accepted [OF mem_wallet.sdk_platform_axioms this tx, of "demo_ctx\<lparr>ctx_verify := core_verify mem_suite\<rparr>"] tx
  show ?thesis
    by (simp add: sdk_builder_def sdk_builder_for_def mem_sdk_def)
qed














text \<open>Above \<open>2 ^ 24\<close> the fee is rounded to a multiple of two or more on its way into the reaction, up or
  down: a sender whose mass covers amount and fee exactly passes the builder and is turned away by
  the virtual machine for one unit.\<close>

theorem rounded_fee_rejected:
  assumes "build X now b = Inr tx" and "tb_fee b = 16777219" and "tb_sender_mass b = tb_amount b + 16777219"
    and "tb_amount b \<le> 1000000000" and "mass a = tb_sender_mass b"
  shows "payload_dispatch (sdk_sha3 X) ctx (signed_reaction tx) tax (Some a) cs
    = Inl (InsufficientMass (tb_amount b + 16777219) (tb_amount b + 16777220))"
proof -
  obtain r ts where r: "tx = built X b r ts"
    using assms(1) unfolding build_eq by blast
  have fee: "float_to_u64 (float_of_word binary32 (16777219 :: u64)) = 16777220"
    by code_simp
  have small: "unat (tb_amount b) \<le> 1000000000"
    using assms(4) by (simp add: word_le_nat_alt)
  have "checked_add (tb_amount b) 16777220 = Some (tb_amount b + 16777220)"
    using small uint_fits(1) [of "tb_amount b" 16777220] by (simp add: checked_add_def)
  moreover have "tb_amount b + 16777219 < tb_amount b + 16777220"
    using small by (simp add: word_less_nat_alt unat_word_ariths)
  ultimately show ?thesis
    by (simp add: payload_dispatch_def exec_transfer_def r signed_built assms fee)
qed

theorem rounded_fee_rejected_witness:
  "\<exists>tx. build (mem_sdk demo_hash) (Inr 7) (sdk_builder_for 16777219 16777719) = Inr tx
     \<and> payload_dispatch demo_hash demo_ctx (signed_reaction tx) 0 (Some (sdk_account\<lparr>mass := 16777719\<rparr>)) changeset_new
         = Inl (InsufficientMass 16777719 16777720)"
proof -
  obtain tx where tx: "build (mem_sdk demo_hash) (Inr 7) (sdk_builder_for 16777219 16777719) = Inr tx"
    using sdk_builder_ok [of 16777219 16777719] by auto
  show ?thesis
    using rounded_fee_rejected [OF tx, of "sdk_account\<lparr>mass := 16777719\<rparr>" demo_ctx 0 changeset_new] tx
    by (simp add: sdk_builder_for_def mem_sdk_def)
qed


section \<open>Proof verification\<close>

lemma fold_up_root:
  assumes "fold_up C ns (todo @ [BranchStep nb]) h sibs pos = Some (Some h')"
  shows "\<exists>g sib. h' = pc_blake3 C (nb # g @ sib)"
  using assms
proof (induction C ns todo h sibs pos rule: fold_up.induct)
  case (1 C ns h sibs pos)
  then show ?case by (auto split: if_splits)
qed (auto split: if_splits)

lemma walk_up_root:
  assumes "walk_up C path ns (todo @ [BranchStep nb]) h sibs = Some r"
  shows "\<exists>x. r = blake3 C (ascii ''BRANCH'' @ x)"
  using assms
proof (induction C path ns todo h sibs rule: walk_up.induct)
  case (1 C path ns h sibs)
  then show ?case by (auto simp: branch_digest_def split: if_splits)
qed (auto simp: Let_def split: if_splits)

text \<open>The SDK never confirms a balance in a trie whose root is a branch: the node hashes a branch as
  \<open>BRANCH\<close> and the combined children, the SDK as the nibble and two hashes. Whatever proof of
  inclusion the node's verifier accepts, the SDK's verifier rejects, unless the hash function maps
  an input that starts with a nibble and one that starts with \<open>BRANCH\<close> to the same digest.\<close>

theorem sdk_rejects_branch_proofs:
  assumes "verify_proof C pf" and "mp_path pf = BranchStep nb # rest" and "rest \<noteq> []" and "mp_value pf = Some v"
    and "\<And>x y. blake3 C (nb # x) \<noteq> blake3 C (ascii ''BRANCH'' @ y)" and "pc_blake3 C' = blake3 C"
  shows "verify_proof_pure C' pf \<noteq> Some True"
proof
  assume sdk: "verify_proof_pure C' pf = Some True"
  have path: "tl (rev (mp_path pf)) = tl (rev rest) @ [BranchStep nb]" "mp_path pf \<noteq> []"
    using assms(2,3) by (simp_all add: tl_append2)
  obtain x where "mp_root pf = blake3 C (ascii ''BRANCH'' @ x)"
    using assms(1) path walk_up_root by (fastforce simp: verify_proof_def split: option.splits)
  moreover obtain g sib where "mp_root pf = pc_blake3 C' (nb # g @ sib)"
    using sdk path assms(4) fold_up_root
    by (fastforce simp: verify_proof_pure_def Let_def split: PathStep.splits if_splits option.splits)
  ultimately show False
    using assms(5) [of "g @ sib" x] assms(6) by simp
qed

definition first_byte_codec :: node_codec where
  "first_byte_codec = demo_codec\<lparr>blake3 := padded 32\<rparr>"

definition first_byte_proofs :: proof_codec where
  "first_byte_proofs = \<lparr>pc_blake3 = padded 32, ser_leaf_repr = (\<lambda>s v. s @ v), ser_ext_repr = (\<lambda>p h. p @ h),
     pc_de_atom = (\<lambda>_. Inl ''none'')\<rparr>"

definition branch_proof :: MerkleProof where
  "branch_proof =
     \<lparr>trie_key = replicate 32 85, mp_value = Some [1],
      mp_root = branch_digest first_byte_codec (xor_bytes zero_hash
                  (node_hash first_byte_codec (Leaf (drop 1 (key_to_nibbles (replicate 32 85))) [1]))),
      siblings = [zero_hash], mp_path = [BranchStep 5, LeafStep]\<rparr>"

theorem sdk_rejects_branch_proofs_witness:
  "verify_proof first_byte_codec branch_proof \<and> verify_proof_pure first_byte_proofs branch_proof \<noteq> Some True"
proof -
  have len: "length (key_to_nibbles (replicate n b)) = 2 * n" for n b
    by (induction n) simp_all
  have "verify_proof first_byte_codec branch_proof"
    by (simp add: verify_proof_def terminal_hash_def branch_proof_def step_len_def len)
  moreover have "blake3 first_byte_codec (5 # x) \<noteq> blake3 first_byte_codec (ascii ''BRANCH'' @ y)" for x y
    by (simp add: first_byte_codec_def padded_def ascii_def)
  ultimately show ?thesis
    using sdk_rejects_branch_proofs [of first_byte_codec branch_proof 5 "[LeafStep]" "[1]" first_byte_proofs]
    by (simp add: branch_proof_def first_byte_proofs_def) (simp add: first_byte_codec_def)
qed

text \<open>The SDK confirms the absence of any account against any root: an exclusion proof that consists of
  one leaf step is accepted without a look at its hashes, as long as it is not too old.\<close>

theorem sdk_accepts_forged_exclusion:
  assumes "unat current_height \<le> unat proof_height + 8"
  shows "verify_balance_proof C \<lparr>trie_key = k, mp_value = None, mp_root = trusted, siblings = sibs, mp_path = [LeafStep]\<rparr>
    trusted proof_height current_height = Inr None"
proof -
  have "saturating_sub current_height proof_height \<le> MAX_PROOF_AGE_BLOCKS"
    using assms by (simp add: word_le_nat_alt sat_simps MAX_PROOF_AGE_BLOCKS_def)
  then show ?thesis
    by (simp add: verify_balance_proof_def verify_proof_pure_def suffix_step_def not_less)
qed

theorem sdk_accepts_forged_exclusion_witness:
  "verify_balance_proof first_byte_proofs
     \<lparr>trie_key = replicate 32 85, mp_value = None, mp_root = mp_root branch_proof, siblings = [], mp_path = [LeafStep]\<rparr>
     (mp_root branch_proof) 5 13 = Inr None"
  using sdk_accepts_forged_exclusion [of 13 5] by simp

end
