(* ===== verification/Primus_Node.thy ===== *)
theory Primus_Node
  imports Primus_Engine Primus_Mempool Primus_Dht Chunk_Framing
begin

text \<open>
  The node: the pre-filter \<open>gravity_shield.rs\<close>, gossip \<open>gossip.rs\<close> and the message handler
  \<open>network.rs\<close> of \<open>primus-net-opt\<close>, composed with engine, mempool and reassembler by the bridge in
  \<open>primus-core/src/main.rs\<close>. A spawned task is an entry of \<open>nd_tasks\<close> and runs later in any order;
  the frames a handler sends on its connection are its output. rkyv, bincode and the iteration order
  of hash sets are fields of \<open>node_env\<close>; the clocks are arguments. The mutex of the reassembler is
  modelled where a task can wait for it forever; the other locks are held for one operation only. The
  time-outs around single requests and the cache of TCP connections are left out.
\<close>

section \<open>Messages\<close>

datatype PrimusMessage =
    Ping
  | Pong
  | PeerHandshake (hs_version: string) (hs_node_id: string) (hs_chain_height: u64) (hs_total_energy: f32) (hs_listener_port: u16)
  | GetPeers
  | PeersResponse "string list"
  | NewReaction bytes u8
  | NewCrystal bytes u8
  | GetCrystal u64
  | CrystalResponse bytes
  | Sync SyncMessage
  | FetchState bytes
  | StateResponse (sr_mass: u64) (sr_nonce: u64) (sr_last_hash: hash32) (sr_element: string)
  | SubmitReaction bytes
  | ReactionAck hash32
  | NodeError string
  | GetProof bytes
  | ProofResponse MerkleProof

text \<open>Work handed to \<open>tokio::spawn\<close>.\<close>

datatype task =
    PushReaction bytes PrimusMessage string
  | AcceptCrystal bytes PrimusMessage string
  | LocalReaction bytes
  | LocalCrystal bytes
  | SendPeer string PrimusMessage
  | ConnectPeer string

section \<open>State\<close>

record ('t, 'm) node_env =
  ne_pf :: "'t platform"
  ne_mp :: "'m mempool_env"
  from_envelope :: "bytes \<Rightarrow> ChunkEnvelope option"
  ser_message :: "PrimusMessage \<Rightarrow> string + bytes"
  de_message :: "bytes \<Rightarrow> string + PrimusMessage"
  debug_message :: "PrimusMessage \<Rightarrow> bytes"
  set_order :: "hash32 list \<Rightarrow> hash32 list"

record ('t, 'm) node =
  nd_port :: u16
  nd_engine :: "'t PrimusEngine"
  nd_mempool :: "'m SectoralMempool"
  nd_reassembler :: ChunkReassembler
  nd_locked :: bool
  nd_drops :: u64
  nd_dht :: PrimusDHT
  nd_seen :: "hash32 list"
  nd_tasks :: "task list"

text \<open>\<open>nd_locked\<close> says that the mutex of the reassembler is held by a task that never releases it. An
  operation that waits for it forever has the result \<open>None\<close>.\<close>

type_synonym ('t, 'm, 'a) noded = "(string + 'a) \<times> ('t, 'm) node"
type_synonym ('t, 'm, 'a) waiting = "(string + 'a) option \<times> ('t, 'm) node"

definition returns :: "('t, 'm, 'a) noded \<Rightarrow> ('t, 'm, 'a) waiting" where
  "returns x = (case x of (r, nd) \<Rightarrow> (Some r, nd))"

abbreviation count_drop :: "('t, 'm) node \<Rightarrow> ('t, 'm) node" where
  "count_drop nd \<equiv> nd\<lparr>nd_drops := nd_drops nd + 1\<rparr>"

abbreviation spawn :: "task list \<Rightarrow> ('t, 'm) node \<Rightarrow> ('t, 'm) node" where
  "spawn ts nd \<equiv> nd\<lparr>nd_tasks := nd_tasks nd @ ts\<rparr>"

section \<open>Gravity shield\<close>

definition filter_bytes_inner :: "('t, 'm) node_env \<Rightarrow> bytes \<Rightarrow> string + SignedReaction" where
  "filter_bytes_inner N raw =
     and_then (ok_or ''GravityShield: malformed frame (rkyv)'' (check_reaction (ne_mp N) raw)) (\<lambda>rx.
       case validate_structure (sha3_256 (ne_pf N)) rx of
         Inl _ \<Rightarrow> Inl ''GravityShield: structural check failed''
       | Inr _ \<Rightarrow>
           if public_key (sender rx) = [] then Inl ''GravityShield: zero-length sender public key''
           else if flt (energy rx) f32_zero then Inl ''GravityShield: negative energy''
           else Inr rx)"

text \<open>The counter of drops of the shield itself.\<close>

definition filter_bytes :: "('t, 'm) node_env \<Rightarrow> bytes \<Rightarrow> u64 \<Rightarrow> (string + SignedReaction) \<times> u64" where
  "filter_bytes N raw drops =
     (case filter_bytes_inner N raw of Inl e \<Rightarrow> (Inl e, drops + 1) | Inr rx \<Rightarrow> (Inr rx, drops))"

definition net_galactic_drift :: "u64 \<Rightarrow> u8" where
  "net_galactic_drift idx = ucast (idx mod 256)"

definition is_resonant :: "u8 \<Rightarrow> u64 \<Rightarrow> bool" where
  "is_resonant b idx = (b = net_galactic_drift idx)"

section \<open>Broadcast\<close>

definition broadcast_message :: "PrimusMessage \<Rightarrow> ('t, 'm) node \<Rightarrow> ('t, 'm) node" where
  "broadcast_message msg nd = spawn (map (\<lambda>addr. SendPeer addr msg) (get_peer_list (nd_dht nd))) nd"

section \<open>The bridge to the core\<close>

definition has_balance :: "('t, 'm) node_env \<Rightarrow> ('t, 'm) node \<Rightarrow> bytes \<Rightarrow> bool" where
  "has_balance N nd pk =
     (case storage_get_atom (ne_pf N) (storage (nd_engine nd)) pk of
        Inr (Some a) \<Rightarrow> 0 < mass a | _ \<Rightarrow> False)"

text \<open>From the structural check to the mempool; \<open>wall\<close> is the wall clock in seconds.\<close>

definition ingest_reaction :: "('t, 'm) node_env \<Rightarrow> string + u64 \<Rightarrow> bytes \<Rightarrow> ('t, 'm) node \<Rightarrow> ('t, 'm, unit) noded" where
  "ingest_reaction N wall bs nd =
     (case check_reaction (ne_mp N) bs of
        None \<Rightarrow> (Inl ''MalformedFrame'', count_drop nd)
      | Some rx \<Rightarrow>
          if public_key (sender rx) \<noteq> eng_architect_pk (nd_engine nd) \<and> \<not> has_balance N nd (public_key (sender rx))
          then (Inr (), count_drop nd)
          else (case push (ne_mp N) wall rx (nd_mempool nd) of
                  (Inl e, mp) \<Rightarrow> (Inl e, nd\<lparr>nd_mempool := mp\<rparr>)
                | (Inr is_new, mp) \<Rightarrow>
                    (Inr (), if is_new then broadcast_message (NewReaction bs 8) (nd\<lparr>nd_mempool := mp\<rparr>)
                             else nd\<lparr>nd_mempool := mp\<rparr>)))"

definition core_push_bytes ::
  "('t, 'm) node_env \<Rightarrow> string + u64 \<Rightarrow> int \<Rightarrow> bytes \<Rightarrow> ('t, 'm) node \<Rightarrow> ('t, 'm, unit) waiting" where
  "core_push_bytes N wall inst bs nd =
     (if APP_MAX_MESSAGE < length bs then (Some (Inl ''push_bytes: payload too large''), count_drop nd)
      else if check_reaction (ne_mp N) bs \<noteq> None then returns (ingest_reaction N wall bs nd)
      else (case from_envelope N bs of
              None \<Rightarrow> returns (ingest_reaction N wall bs nd)
            | Some env \<Rightarrow>
                if nd_locked nd then (None, nd)
                else (case feed (blake3 (pf_nodes (ne_pf N))) inst env (nd_reassembler nd) of
                        (Inr (Some full), r) \<Rightarrow> returns (ingest_reaction N wall full (nd\<lparr>nd_reassembler := r\<rparr>))
                      | (Inr None, r) \<Rightarrow> (Some (Inr ()), nd\<lparr>nd_reassembler := r\<rparr>)
                      | (Inl _, r) \<Rightarrow> (Some (Inr ()), count_drop (nd\<lparr>nd_reassembler := r\<rparr>)))))"

text \<open>\<open>MempoolIngress::push_bytes\<close>, the entry of the QUIC server.\<close>

definition ingress_push_bytes ::
  "('t, 'm) node_env \<Rightarrow> string + u64 \<Rightarrow> bytes \<Rightarrow> ('t, 'm) node \<Rightarrow> ('t, 'm, bool) noded" where
  "ingress_push_bytes N wall bs nd =
     (if APP_MAX_MESSAGE < length bs then (Inl ''MempoolIngress::push_bytes: payload too large'', nd)
      else (case check_reaction (ne_mp N) bs of
              None \<Rightarrow> (Inl ''rkyv zero-copy check failed'', nd)
            | Some rx \<Rightarrow>
                (case push (ne_mp N) wall rx (nd_mempool nd) of
                   (Inl e, mp) \<Rightarrow> (Inl e, nd\<lparr>nd_mempool := mp\<rparr>)
                 | (Inr is_new, mp) \<Rightarrow>
                     (Inr is_new, if is_new then broadcast_message (NewReaction bs 8) (nd\<lparr>nd_mempool := mp\<rparr>)
                                  else nd\<lparr>nd_mempool := mp\<rparr>))))"

text \<open>A crystal may arrive in chunks: the handler then calls itself on the reassembled message, and it
  still holds the mutex of the reassembler during that call. The argument \<open>held\<close> says so: when the
  message is a chunk again, the call waits for a mutex of its own task.\<close>

definition accept_crystal :: "('t, 'm) node_env \<Rightarrow> bytes \<Rightarrow> ('t, 'm) node \<Rightarrow> ('t, 'm, unit) noded" where
  "accept_crystal N bs nd =
     (case de_crystal (ne_pf N) bs of
        Inl e \<Rightarrow> (Inl e, nd)
      | Inr c \<Rightarrow>
          (case process_network_crystal (ne_pf N) c (nd_engine nd) of (r, E) \<Rightarrow> (r, nd\<lparr>nd_engine := E\<rparr>)))"

function on_crystal_with ::
  "bool \<Rightarrow> ('t, 'm) node_env \<Rightarrow> int \<Rightarrow> bytes \<Rightarrow> ('t, 'm) node \<Rightarrow> ('t, 'm, unit) waiting" where
  "on_crystal_with held N inst bs nd =
     (case from_envelope N bs of
        None \<Rightarrow> returns (accept_crystal N bs nd)
      | Some env \<Rightarrow>
          if held \<or> nd_locked nd then (None, nd\<lparr>nd_locked := True\<rparr>)
          else (case feed (blake3 (pf_nodes (ne_pf N))) inst env (nd_reassembler nd) of
                  (Inr (Some full), r) \<Rightarrow> on_crystal_with True N inst full (nd\<lparr>nd_reassembler := r\<rparr>)
                | (Inr None, r) \<Rightarrow> (Some (Inr ()), nd\<lparr>nd_reassembler := r\<rparr>)
                | (Inl _, r) \<Rightarrow> (Some (Inr ()), count_drop (nd\<lparr>nd_reassembler := r\<rparr>))))"
  by pat_completeness auto
termination
  by (relation "measure (\<lambda>(held, _). if held then 0 else 1)") simp_all

declare on_crystal_with.simps [simp del]

definition on_crystal :: "('t, 'm) node_env \<Rightarrow> int \<Rightarrow> bytes \<Rightarrow> ('t, 'm) node \<Rightarrow> ('t, 'm, unit) waiting" where
  "on_crystal N inst bs nd = on_crystal_with False N inst bs nd"

definition get_crystal_bytes :: "('t, 'm) node_env \<Rightarrow> ('t, 'm) node \<Rightarrow> u64 \<Rightarrow> bytes option" where
  "get_crystal_bytes N nd idx =
     (case get_crystal (ne_pf N) (storage (nd_engine nd)) idx of
        Inr (Some c) \<Rightarrow> (case ser_crystal (ne_pf N) c of Inr b \<Rightarrow> Some b | Inl _ \<Rightarrow> None)
      | _ \<Rightarrow> None)"

definition local_state :: "('t, 'm) node_env \<Rightarrow> ('t, 'm) node \<Rightarrow> u64 \<times> f32 \<times> f32" where
  "local_state N nd =
     (current_crystal_index (state (nd_engine nd)), gm_entropy (global_metrics (state (nd_engine nd))),
      case get_crystal_latest (ne_pf N) (storage (nd_engine nd)) of
        Inr (Some c) \<Rightarrow> cumulative_energy c | _ \<Rightarrow> f32_zero)"

definition set_sync_target :: "u64 \<Rightarrow> ('t, 'm) node \<Rightarrow> ('t, 'm) node" where
  "set_sync_target height nd = nd\<lparr>nd_engine := (nd_engine nd)\<lparr>is_syncing := True, sync_target := height\<rparr>\<rparr>"

definition finish_sync :: "('t, 'm) node \<Rightarrow> ('t, 'm) node" where
  "finish_sync nd =
     (if is_syncing (nd_engine nd) then nd\<lparr>nd_engine := (nd_engine nd)\<lparr>is_syncing := False\<rparr>\<rparr> else nd)"

definition on_get_proof :: "('t, 'm) node_env \<Rightarrow> ('t, 'm) node \<Rightarrow> bytes \<Rightarrow> string + MerkleProof" where
  "on_get_proof N nd addr =
     (let S = storage (nd_engine nd)
      in and_then (storage_open (ne_pf N) (db S) (mpt_store (st_mpt S)) (gc_log S)) (\<lambda>temp_storage.
           get_proof (ne_pf N) temp_storage addr))"

definition debug_element :: "Element \<Rightarrow> string" where
  "debug_element el = (case el of Hydrogen \<Rightarrow> ''Hydrogen'' | Carbon \<Rightarrow> ''Carbon'' | Oxygen \<Rightarrow> ''Oxygen'' | Gold \<Rightarrow> ''Gold'')"

definition get_atom_state :: "('t, 'm) node \<Rightarrow> bytes \<Rightarrow> string + u64 \<times> u64 \<times> hash32 \<times> string" where
  "get_atom_state nd addr =
     (case state_get_atom (state (nd_engine nd)) addr of
        None \<Rightarrow> Inl ''Atom not found''
      | Some a \<Rightarrow> Inr (mass a, nonce a, last_reaction_hash a, debug_element (element a)))"

section \<open>Gossip\<close>

definition MAX_SEEN :: nat where "MAX_SEEN = 10000"
definition EVICT_COUNT :: nat where "EVICT_COUNT = 1000"

definition message_id :: "('t, 'm) node_env \<Rightarrow> PrimusMessage \<Rightarrow> hash32" where
  "message_id N msg =
     sha3_256 (ne_pf N) (case ser_message N msg of Inr bs \<Rightarrow> bs | Inl _ \<Rightarrow> debug_message N msg)"

text \<open>A new message enters the set of seen ones; beyond \<open>MAX_SEEN\<close> the first \<open>EVICT_COUNT\<close> in the order
  of the hash set leave it.\<close>

definition remember :: "('t, 'm) node_env \<Rightarrow> hash32 \<Rightarrow> hash32 list \<Rightarrow> hash32 list" where
  "remember N i seen =
     (let seen1 = i # seen
      in if MAX_SEEN < length seen1
         then let to_remove = take EVICT_COUNT (set_order N seen1)
              in filter (\<lambda>k. \<not> List.member to_remove k) seen1
         else seen1)"

definition message_ttl :: "PrimusMessage \<Rightarrow> (u8 \<times> bool) option" where
  "message_ttl msg = (case msg of
     NewReaction _ ttl \<Rightarrow> Some (ttl, True)
   | NewCrystal _ ttl \<Rightarrow> Some (ttl, False)
   | Sync _ \<Rightarrow> Some (1, True)
   | _ \<Rightarrow> None)"

definition next_ttl :: "u8 \<Rightarrow> bool \<Rightarrow> u8 option" where
  "next_ttl ttl decay =
     (if decay then (case checked_sub ttl 1 of None \<Rightarrow> None | Some t \<Rightarrow> if t = 0 then None else Some t)
      else Some ttl)"

definition with_ttl :: "PrimusMessage \<Rightarrow> u8 \<Rightarrow> PrimusMessage" where
  "with_ttl msg t = (case msg of
     NewReaction d _ \<Rightarrow> NewReaction d t
   | NewCrystal d _ \<Rightarrow> NewCrystal d t
   | _ \<Rightarrow> msg)"

definition local_tasks :: "PrimusMessage \<Rightarrow> task list" where
  "local_tasks msg = (case msg of
     NewReaction data _ \<Rightarrow> [LocalReaction data]
   | NewCrystal data _ \<Rightarrow> [LocalCrystal data]
   | _ \<Rightarrow> [])"

definition spread :: "('t, 'm) node_env \<Rightarrow> PrimusMessage \<Rightarrow> string option \<Rightarrow> ('t, 'm) node \<Rightarrow> ('t, 'm) node" where
  "spread N msg src nd =
     (case message_ttl msg of
        None \<Rightarrow> nd
      | Some (ttl, decay) \<Rightarrow>
          if ttl = 0 then nd
          else if List.member (nd_seen nd) (message_id N msg) then nd
          else
            let nd1 = nd\<lparr>nd_seen := remember N (message_id N msg) (nd_seen nd)\<rparr>;
                peers = filter (\<lambda>p. src \<noteq> Some p) (get_peer_list (nd_dht nd1));
                sends = (case next_ttl ttl decay of
                           None \<Rightarrow> []
                         | Some t \<Rightarrow> map (\<lambda>p. SendPeer p (with_ttl msg t)) peers)
            in spawn (local_tasks msg @ sends) nd1)"

section \<open>Connections\<close>

text \<open>After a message the session goes on, ends with a failure, or waits forever; with it the frames sent
  before.\<close>

datatype session = Open | Failed string | Waits

type_synonym ('t, 'm) served = "session \<times> bytes list \<times> ('t, 'm) node"

fun send_all :: "('t, 'm) node_env \<Rightarrow> PrimusMessage list \<Rightarrow> session \<times> bytes list" where
  "send_all N [] = (Open, [])"
| "send_all N (m # ms) =
     (case ser_message N m of
        Inl e \<Rightarrow> (Failed e, [])
      | Inr b \<Rightarrow> (case send_all N ms of (err, bs) \<Rightarrow> (err, b # bs)))"

abbreviation served_with :: "('t, 'm) node_env \<Rightarrow> PrimusMessage list \<Rightarrow> ('t, 'm) node \<Rightarrow> ('t, 'm) served" where
  "served_with N ms nd \<equiv> (case send_all N ms of (err, bs) \<Rightarrow> (err, bs, nd))"

definition ends_with :: "string \<Rightarrow> string \<Rightarrow> bool" where
  "ends_with s suf = (length suf \<le> length s \<and> drop (length s - length suf) s = suf)"

text \<open>\<open>reachable\<close> tells whether the TCP connection is established.\<close>

definition connect_to_peer :: "('t, 'm) node_env \<Rightarrow> bool \<Rightarrow> string \<Rightarrow> ('t, 'm) node \<Rightarrow> ('t, 'm) served" where
  "connect_to_peer N reachable target nd =
     (if ends_with target ('':'' @ show_nat (unat (nd_port nd))) then (Open, [], nd)
      else if List.member (get_peer_list (nd_dht nd)) target then (Open, [], nd)
      else if \<not> reachable then (Failed ''connection failed'', [], nd)
      else
        let nd1 = nd\<lparr>nd_dht := register_peer_addr target (nd_dht nd)\<rparr>;
            (height, eng, cum) = local_state N nd1
        in served_with N
             [PeerHandshake ''0.1.0'' (''Node-'' @ show_nat (unat (nd_port nd))) height eng (nd_port nd),
              Sync (Handshake (status_from_engine height eng cum)), GetPeers] nd1)"

fun feed_crystals :: "('t, 'm) node_env \<Rightarrow> int \<Rightarrow> bytes list \<Rightarrow> ('t, 'm) node \<Rightarrow> session \<times> ('t, 'm) node" where
  "feed_crystals N inst [] nd = (Open, nd)"
| "feed_crystals N inst (b # bs) nd =
     (case on_crystal N inst b nd of
        (None, nd1) \<Rightarrow> (Waits, nd1)
      | (Some _, nd1) \<Rightarrow> feed_crystals N inst bs nd1)"

definition crystals_between :: "('t, 'm) node_env \<Rightarrow> ('t, 'm) node \<Rightarrow> u64 \<Rightarrow> u64 \<Rightarrow> PrimusMessage list" where
  "crystals_between N nd start finish =
     map CrystalResponse (List.map_filter (\<lambda>i. get_crystal_bytes N nd (of_nat i)) [unat start ..< Suc (unat finish)])"

definition handle_sync :: "('t, 'm) node_env \<Rightarrow> int \<Rightarrow> SyncMessage \<Rightarrow> ('t, 'm) node \<Rightarrow> ('t, 'm) served" where
  "handle_sync N inst msg nd =
     (case msg of
        Handshake their_status \<Rightarrow>
          let (h, e, cum) = local_state N nd
          in if is_more_dominant_than their_status (status_from_engine h e cum)
             then served_with N [Sync (RequestCrystals (h + 1) (gs_crystal_index their_status))]
                    (set_sync_target (gs_crystal_index their_status) nd)
             else (Open, [], nd)
      | RequestCrystals start finish \<Rightarrow> served_with N (crystals_between N nd start finish) nd
      | InventoryResponse crystals \<Rightarrow>
          (case feed_crystals N inst crystals nd of
             (Open, nd1) \<Rightarrow> (Open, [], if \<not> is_syncing (nd_engine nd1) then finish_sync nd1 else nd1)
           | (s, nd1) \<Rightarrow> (s, [], nd1)))"

definition submit_reaction ::
  "('t, 'm) node_env \<Rightarrow> string + u64 \<Rightarrow> int \<Rightarrow> bytes \<Rightarrow> ('t, 'm) node \<Rightarrow> PrimusMessage \<times> ('t, 'm) node" where
  "submit_reaction N wall inst bs nd =
     (case fst (filter_bytes N bs 0) of
        Inl e \<Rightarrow> (NodeError e, count_drop nd)
      | Inr _ \<Rightarrow>
          (case core_push_bytes N wall inst bs nd of
             (None, nd1) \<Rightarrow> (NodeError ''SubmitReaction timed out'', nd1)
           | (Some (Inl e), nd1) \<Rightarrow> (NodeError e, nd1)
           | (Some (Inr _), nd1) \<Rightarrow> (ReactionAck (blake3 (pf_nodes (ne_pf N)) bs), nd1)))"

definition handle_handshake ::
  "('t, 'm) node_env \<Rightarrow> string \<Rightarrow> u64 \<Rightarrow> f32 \<Rightarrow> u16 \<Rightarrow> ('t, 'm) node \<Rightarrow> ('t, 'm) served" where
  "handle_handshake N peer_ip chain_height total_energy listener_port nd =
     (let nd1 = nd\<lparr>nd_dht := register_peer_addr (peer_ip @ '':'' @ show_nat (unat listener_port)) (nd_dht nd)\<rparr>;
          (h, e, cum) = local_state N nd1
      in if flt e total_energy \<or> h < chain_height
         then served_with N [Sync (Handshake (status_from_engine h e cum)), Sync (RequestCrystals (h + 1) chain_height)]
                (if h + 5 < chain_height then set_sync_target chain_height nd1 else nd1)
         else (Open, [], nd1))"

definition handle_message ::
  "('t, 'm) node_env \<Rightarrow> string + u64 \<Rightarrow> int \<Rightarrow> string \<Rightarrow> PrimusMessage \<Rightarrow> ('t, 'm) node \<Rightarrow> ('t, 'm) served" where
  "handle_message N wall inst peer_ip msg nd =
     (case msg of
        Ping \<Rightarrow> served_with N [Pong] nd
      | GetPeers \<Rightarrow> served_with N [PeersResponse (get_peer_list (nd_dht nd))] nd
      | PeersResponse peers \<Rightarrow> (Open, [], spawn (map ConnectPeer peers) nd)
      | PeerHandshake _ _ chain_height total_energy listener_port \<Rightarrow>
          handle_handshake N peer_ip chain_height total_energy listener_port nd
      | NewReaction data _ \<Rightarrow> (Open, [], spawn [PushReaction data msg peer_ip] nd)
      | NewCrystal data _ \<Rightarrow> (Open, [], spawn [AcceptCrystal data msg peer_ip] nd)
      | GetCrystal idx \<Rightarrow>
          (case get_crystal_bytes N nd idx of
             Some b \<Rightarrow> served_with N [CrystalResponse b] nd | None \<Rightarrow> (Open, [], nd))
      | CrystalResponse data \<Rightarrow>
          (case on_crystal N inst data nd of (None, nd1) \<Rightarrow> (Waits, [], nd1) | (Some _, nd1) \<Rightarrow> (Open, [], nd1))
      | Sync sync_msg \<Rightarrow> handle_sync N inst sync_msg nd
      | FetchState addr \<Rightarrow>
          served_with N [case get_atom_state nd addr of
                           Inr (ms, nc, last_hash, el) \<Rightarrow> StateResponse ms nc last_hash el
                         | Inl e \<Rightarrow> NodeError e] nd
      | SubmitReaction reaction_bytes \<Rightarrow>
          (case submit_reaction N wall inst reaction_bytes nd of (resp, nd1) \<Rightarrow> served_with N [resp] nd1)
      | GetProof addr \<Rightarrow>
          served_with N [case on_get_proof N nd addr of Inr pf \<Rightarrow> ProofResponse pf | Inl e \<Rightarrow> NodeError e] nd
      | _ \<Rightarrow> (Open, [], nd))"

definition handle_frame ::
  "('t, 'm) node_env \<Rightarrow> string + u64 \<Rightarrow> int \<Rightarrow> string \<Rightarrow> bytes \<Rightarrow> ('t, 'm) node \<Rightarrow> ('t, 'm) served" where
  "handle_frame N wall inst peer_ip frame nd =
     (case de_message N frame of
        Inl e \<Rightarrow> (Failed e, [], nd)
      | Inr msg \<Rightarrow> handle_message N wall inst peer_ip msg nd)"

text \<open>The end of a session: the peer is removed by its bare address.\<close>

definition session_end :: "string \<Rightarrow> ('t, 'm) node \<Rightarrow> ('t, 'm) node" where
  "session_end peer_ip nd = nd\<lparr>nd_dht := remove_peer_addr peer_ip (nd_dht nd)\<rparr>"

section \<open>Spawned tasks\<close>

text \<open>The body of a task, with the frames it sends to other peers.\<close>

definition run_task ::
  "('t, 'm) node_env \<Rightarrow> string + u64 \<Rightarrow> int \<Rightarrow> bool \<Rightarrow> task \<Rightarrow> ('t, 'm) node \<Rightarrow> (string \<times> bytes) list \<times> ('t, 'm) node" where
  "run_task N wall inst reachable t nd =
     (case t of
        PushReaction data msg peer \<Rightarrow>
          (case core_push_bytes N wall inst data nd of
             (Some (Inr _), nd1) \<Rightarrow> ([], spread N msg (Some peer) nd1)
           | (_, nd1) \<Rightarrow> ([], nd1))
      | AcceptCrystal data msg peer \<Rightarrow>
          (case on_crystal N inst data nd of
             (Some (Inr _), nd1) \<Rightarrow> ([], spread N msg (Some peer) nd1)
           | (_, nd1) \<Rightarrow> ([], nd1))
      | LocalReaction data \<Rightarrow> ([], snd (core_push_bytes N wall inst data nd))
      | LocalCrystal data \<Rightarrow> ([], snd (on_crystal N inst data nd))
      | SendPeer addr msg \<Rightarrow>
          (if reachable then map (Pair addr) (snd (send_all N [msg])) else [], nd)
      | ConnectPeer addr \<Rightarrow>
          (case connect_to_peer N reachable addr nd of (_, bs, nd1) \<Rightarrow> (map (Pair addr) bs, nd1)))"

definition take_task :: "nat \<Rightarrow> ('t, 'm) node \<Rightarrow> ('t, 'm) node" where
  "take_task i nd = nd\<lparr>nd_tasks := take i (nd_tasks nd) @ drop (Suc i) (nd_tasks nd)\<rparr>"

section \<open>Background loops\<close>

text \<open>One turn of the mining loop.\<close>

definition drain_for_block :: "('t, 'm) node_env \<Rightarrow> ('t, 'm) node \<Rightarrow> SignedReaction list \<times> 'm SectoralMempool" where
  "drain_for_block N nd =
     (let drift = get_galactic_drift (current_crystal_index (state (nd_engine nd)));
          (rxs, mp) = drain_resonant (ne_mp N) drift 50 (nd_mempool nd);
          architect_sector = (case eng_architect_pk (nd_engine nd) of [] \<Rightarrow> 0 | b # _ \<Rightarrow> b)
      in if architect_sector \<noteq> drift \<and> length rxs < 50
         then (case drain_resonant (ne_mp N) architect_sector (50 - length rxs) mp of
                 (extra, mp1) \<Rightarrow> (rxs @ extra, mp1))
         else (rxs, mp))"

definition mining_turn ::
  "('t, 'm) node_env \<Rightarrow> string + u64 \<Rightarrow> u64 \<Rightarrow> bytes \<Rightarrow> ('t, 'm) node \<Rightarrow> ('t, 'm) node" where
  "mining_turn N now now' seed nd =
     (if is_syncing (nd_engine nd) then nd
      else
        let (rxs, mp) = drain_for_block N nd;
            nd1 = nd\<lparr>nd_mempool := mp\<rparr>
        in case mine_block (ne_pf N) now now' seed rxs (nd_engine nd1) of
             (Inr (Some crystal), E) \<Rightarrow>
               (case ser_crystal (ne_pf N) crystal of
                  Inr serialized \<Rightarrow> broadcast_message (NewCrystal serialized 8) (nd1\<lparr>nd_engine := E\<rparr>)
                | Inl _ \<Rightarrow> nd1\<lparr>nd_engine := E\<rparr>)
           | (_, E) \<Rightarrow> nd1\<lparr>nd_engine := E\<rparr>)"

definition reassembler_gc :: "int \<Rightarrow> ('t, 'm) node \<Rightarrow> ('t, 'm) node" where
  "reassembler_gc inst nd =
     (if nd_locked nd then nd else nd\<lparr>nd_reassembler := evict_expired inst (nd_reassembler nd)\<rparr>)"

text \<open>The periodic request for peers.\<close>

definition discovery_turn :: "('t, 'm) node \<Rightarrow> ('t, 'm) node" where
  "discovery_turn nd = spawn (map (\<lambda>p. SendPeer p GetPeers) (get_peer_list (nd_dht nd))) nd"

text \<open>The commit on shutdown; failures are logged and the next step is taken.\<close>

definition shutdown_commit :: "('t, 'm) node_env \<Rightarrow> ('t, 'm) node \<Rightarrow> ('t, 'm) node" where
  "shutdown_commit N nd =
     (let E = nd_engine nd;
          metrics = \<lparr>gm_temperature = ch_temperature (chamber E), gm_entropy = ch_entropy (chamber E)\<rparr>;
          E1 = E\<lparr>state := (state E)\<lparr>global_metrics := metrics\<rparr>\<rparr>;
          cs = foldl (\<lambda>cs (pk, a). changeset_insert pk a cs) changeset_new (atoms (state E1));
          S1 = snd (commit_changeset (ne_pf N) cs (current_crystal_index (state E1)) (storage E1));
          S2 = snd (storage_flush (ne_pf N) (Some metrics) S1);
          S3 = S2\<lparr>db := snd (db_flush (ne_pf N) (db S2))\<rparr>
      in nd\<lparr>nd_engine := E1\<lparr>storage := S3\<rparr>\<rparr>)"

section \<open>Runs of a node\<close>

text \<open>One step: a frame of some connection, a spawned task in any order, a reaction from the QUIC
  server, the end of a session or a turn of a background loop.\<close>

inductive node_step :: "('t, 'm) node_env \<Rightarrow> ('t, 'm) node \<Rightarrow> ('t, 'm) node \<Rightarrow> bool" for N where
  frame: "handle_frame N wall inst peer_ip bs nd = (err, sent, nd') \<Longrightarrow> node_step N nd nd'"
| task: "i < length (nd_tasks nd) \<Longrightarrow>
     run_task N wall inst reachable (nd_tasks nd ! i) (take_task i nd) = (sent, nd') \<Longrightarrow> node_step N nd nd'"
| quic: "ingress_push_bytes N wall bs nd = (r, nd') \<Longrightarrow> node_step N nd nd'"
| closed: "node_step N nd (session_end peer_ip nd)"
| mined: "node_step N nd (mining_turn N now now' seed nd)"
| gc: "node_step N nd (reassembler_gc inst nd)"
| discovery: "node_step N nd (discovery_turn nd)"

end
