(* ===== verification/Node_Correct.thy ===== *)
theory Node_Correct
  imports Primus_Node Mempool_Correct Dht_Correct
begin

text \<open>
  Lemmas on the composed node: what every operation does to the synchronisation flag and to a mutex
  that is never released, and the invariant of mempool, peer table and gossip memory under every step.
\<close>

section \<open>The reassembler\<close>

lemma feed_ordered: "feed h inst env r = (res, r') \<Longrightarrow> reassembler_ok r \<Longrightarrow> reassembler_ok r'"
  using reassembler_ok_feed [of r h inst env] by simp

lemma reassembler_ok_evict: "reassembler_ok r \<Longrightarrow> reassembler_ok (evict_expired inst r)"
  by (simp add: reassembler_ok_def evict_expired_def bt_ordered_filter)

lemma returns_eq: "returns x = (r, nd) \<longleftrightarrow> (\<exists>y. x = (y, nd) \<and> r = Some y)"
  by (cases x) (auto simp: returns_def)

section \<open>The synchronisation flag\<close>

named_theorems sync_rules \<open>operations of the engine keep the synchronisation flag\<close>

lemma on_storage_sync [sync_rules]: "on_storage m f E = (r, E') \<Longrightarrow> is_syncing E' = is_syncing E"
  by (auto simp: on_storage_def split: prod.splits)

lemma seal_crystal_sync [sync_rules]: "seal_crystal P c cs consumed pre E = (r, E') \<Longrightarrow> is_syncing E' = is_syncing E"
  by (auto simp: seal_crystal_def Let_def split: prod.splits sum.splits dest!: sync_rules)

lemma finalize_sync [sync_rules]: "finalize_solidification P c E = (r, E') \<Longrightarrow> is_syncing E' = is_syncing E"
  by (auto simp: finalize_solidification_def Let_def split: prod.splits sum.splits if_splits dest!: sync_rules)

lemma apply_chain_sync [sync_rules]: "apply_chain P cs E = (r, E') \<Longrightarrow> is_syncing E' = is_syncing E"
  by (induction cs arbitrary: E) (auto split: prod.splits sum.splits dest!: sync_rules)

lemma roll_back_sync [sync_rules]: "roll_back P a logs E = (r, E') \<Longrightarrow> is_syncing E' = is_syncing E"
  by (auto simp: roll_back_def Let_def split: prod.splits sum.splits dest!: sync_rules)

lemma perform_reorg_sync [sync_rules]: "perform_reorg P cs E = (r, E') \<Longrightarrow> is_syncing E' = is_syncing E"
  by (auto simp: perform_reorg_def Let_def split: prod.splits sum.splits if_splits dest!: sync_rules)

lemma solidify_sync [sync_rules]: "solidify_checked P c E = (r, E') \<Longrightarrow> is_syncing E' = is_syncing E"
  by (auto simp: solidify_checked_def split: prod.splits sum.splits dest!: sync_rules)

lemma network_crystal_sync [sync_rules]: "process_network_crystal P c E = (r, E') \<Longrightarrow> is_syncing E' = is_syncing E"
  by (auto simp: process_network_crystal_def split: prod.splits sum.splits option.splits if_splits dest!: sync_rules)

section \<open>The invariant of the node\<close>

definition node_ok ::
  "('t, 'm) node_env \<Rightarrow> ('m \<Rightarrow> bool) \<Rightarrow> ('m \<Rightarrow> (bytes, bytes) btree) \<Rightarrow> ('t, 'm) node \<Rightarrow> bool" where
  "node_ok N healthy contents nd \<longleftrightarrow>
     mempool_ok (ne_mp N) healthy contents (nd_mempool nd)
     \<and> table_ok (sha3_256 (ne_pf N)) (table (nd_dht nd)) \<and> distinct (addr_peers (nd_dht nd))
     \<and> distinct (nd_seen nd) \<and> length (nd_seen nd) \<le> MAX_SEEN
     \<and> reassembler_ok (nd_reassembler nd)"

text \<open>What every operation keeps: the invariant, the synchronisation flag once it is set, and the contents
  of the reassembler once its mutex is never released.\<close>

definition evolves ::
  "('t, 'm) node_env \<Rightarrow> ('m \<Rightarrow> bool) \<Rightarrow> ('m \<Rightarrow> (bytes, bytes) btree) \<Rightarrow> ('t, 'm) node \<Rightarrow> ('t, 'm) node \<Rightarrow> bool" where
  "evolves N healthy contents nd nd' \<longleftrightarrow>
     (node_ok N healthy contents nd \<longrightarrow> node_ok N healthy contents nd')
     \<and> (is_syncing (nd_engine nd) \<longrightarrow> is_syncing (nd_engine nd'))
     \<and> (nd_locked nd \<longrightarrow> nd_locked nd' \<and> nd_reassembler nd' = nd_reassembler nd)"

locale node_contract = tree_contract "ne_mp N" healthy contents
  for N :: "('t, 'm) node_env" and healthy :: "'m \<Rightarrow> bool" and contents :: "'m \<Rightarrow> (bytes, bytes) btree" +
  assumes float_law: "check_reaction (ne_mp N) bs = Some rx \<Longrightarrow> is_f32 (energy rx)"
    and order_law: "distinct xs \<Longrightarrow> distinct (set_order N xs) \<and> set (set_order N xs) = set xs"
begin

abbreviation ev :: "('t, 'm) node \<Rightarrow> ('t, 'm) node \<Rightarrow> bool" where
  "ev \<equiv> evolves N healthy contents"

lemma ev_refl [simp]: "ev nd nd"
  by (simp add: evolves_def)

lemma ev_trans: "ev a b \<Longrightarrow> ev b c \<Longrightarrow> ev a c"
  by (auto simp: evolves_def)

text \<open>Changes of single fields.\<close>

lemma ev_spawn: "ev nd (nd\<lparr>nd_tasks := ts\<rparr>)" and ev_drop: "ev nd (nd\<lparr>nd_drops := d\<rparr>)"
  by (simp_all add: evolves_def node_ok_def)

lemma ev_engine: "(is_syncing (nd_engine nd) \<Longrightarrow> is_syncing E) \<Longrightarrow> ev nd (nd\<lparr>nd_engine := E\<rparr>)"
  by (simp add: evolves_def node_ok_def)

lemma ev_reassembler: "(reassembler_ok (nd_reassembler nd) \<Longrightarrow> reassembler_ok r) \<Longrightarrow> \<not> nd_locked nd \<Longrightarrow> ev nd (nd\<lparr>nd_reassembler := r\<rparr>)"
  by (simp add: evolves_def node_ok_def)

lemma ev_lock: "ev nd (nd\<lparr>nd_locked := True\<rparr>)"
  by (simp add: evolves_def node_ok_def)

lemma ev_mempool:
  "(mempool_ok (ne_mp N) healthy contents (nd_mempool nd) \<Longrightarrow> mempool_ok (ne_mp N) healthy contents mp) \<Longrightarrow> ev nd (nd\<lparr>nd_mempool := mp\<rparr>)"
  by (simp add: evolves_def node_ok_def)

lemma ev_register: "ev nd (nd\<lparr>nd_dht := register_peer_addr a (nd_dht nd)\<rparr>)"
  and ev_unregister: "ev nd (nd\<lparr>nd_dht := remove_peer_addr a (nd_dht nd)\<rparr>)"
  by (simp_all add: evolves_def node_ok_def register_peer_addr_def remove_peer_addr_def)

lemma ev_broadcast: "ev nd (broadcast_message msg nd)"
  by (simp add: broadcast_message_def ev_spawn)

lemma ev_target: "ev nd (set_sync_target h nd)"
  by (simp add: set_sync_target_def ev_engine)

lemma remember_ok:
  assumes "distinct seen" and "length seen \<le> MAX_SEEN" and "i \<notin> set seen"
  shows "distinct (remember N i seen) \<and> length (remember N i seen) \<le> MAX_SEEN"
proof -
  let ?s = "i # seen" and ?rm = "take EVICT_COUNT (set_order N (i # seen))"
  have o: "distinct (set_order N ?s)" "set (set_order N ?s) = set ?s"
    using order_law [of ?s] assms by simp_all
  have len: "length (set_order N ?s) = length ?s"
    using o assms(1,3) by (metis distinct.simps(2) distinct_card)
  have "distinct (filter (\<lambda>k. k \<notin> set ?rm) ?s)"
    using assms(1,3) by (intro distinct_filter) simp
  then have "length (filter (\<lambda>k. k \<notin> set ?rm) ?s) = card (set (filter (\<lambda>k. k \<notin> set ?rm) ?s))"
    by (rule distinct_card [symmetric])
  also have "set (filter (\<lambda>k. k \<notin> set ?rm) ?s) = set ?s - set ?rm"
    unfolding set_filter by blast
  also have "card (set ?s - set ?rm) = length ?s - length ?rm"
    using o assms len by (subst card_Diff_subset) (auto simp: distinct_card dest: in_set_takeD)
  finally have "MAX_SEEN < length ?s \<Longrightarrow> length (filter (\<lambda>k. k \<notin> set ?rm) ?s) \<le> MAX_SEEN"
    using assms(2) len by (simp add: EVICT_COUNT_def MAX_SEEN_def)
  then show ?thesis
    using assms by (auto simp: remember_def Let_def)
qed

lemma ev_spread: "ev nd (spread N msg src nd)"
proof -
  have "ev nd (nd\<lparr>nd_seen := remember N i (nd_seen nd)\<rparr>)" if "i \<notin> set (nd_seen nd)" for i
    using that remember_ok [of "nd_seen nd" i] by (simp add: evolves_def node_ok_def)
  then show ?thesis
    by (auto simp: spread_def Let_def split: option.split intro: ev_trans [OF _ ev_spawn])
qed

lemma ev_ingest: "ingest_reaction N wall bs nd = (r, nd') \<Longrightarrow> ev nd nd'"
proof -
  assume i: "ingest_reaction N wall bs nd = (r, nd')"
  have "ev nd (nd\<lparr>nd_mempool := snd (push (ne_mp N) wall rx (nd_mempool nd))\<rparr>)" if "check_reaction (ne_mp N) bs = Some rx" for rx
    by (rule ev_mempool) (use push_ok float_law that in blast)
  with i show ?thesis
    by (auto simp: ingest_reaction_def ev_drop split: option.splits if_splits prod.splits sum.splits
        intro: ev_trans [OF _ ev_broadcast] dest!: meta_spec) 
qed

lemma ev_feed:
  "feed h inst env (nd_reassembler nd) = (res, r) \<Longrightarrow> \<not> nd_locked nd \<Longrightarrow> ev nd (nd\<lparr>nd_reassembler := r\<rparr>)"
  by (rule ev_reassembler) (rule feed_ordered)

lemma ev_feed_drop:
  "feed h inst env (nd_reassembler nd) = (res, r) \<Longrightarrow> \<not> nd_locked nd \<Longrightarrow> ev nd (nd\<lparr>nd_reassembler := r, nd_drops := d\<rparr>)"
  using ev_trans [OF ev_feed ev_drop] by simp

lemma ev_core_push:
  assumes "core_push_bytes N wall inst bs nd = (r, nd')"
  shows "ev nd nd'"
proof (cases "APP_MAX_MESSAGE < length bs \<or> check_reaction (ne_mp N) bs \<noteq> None \<or> from_envelope N bs = None \<or> nd_locked nd")
  case True
  with assms show ?thesis
    by (auto simp: core_push_bytes_def returns_eq ev_drop split: if_splits option.splits dest: ev_ingest)
next
  case False
  then obtain env where env: "from_envelope N bs = Some env" by auto
  obtain res q where f: "feed (blake3 (pf_nodes (ne_pf N))) inst env (nd_reassembler nd) = (res, q)" by fastforce
  have u: "\<not> nd_locked nd" using False by blast
  from assms False env f show ?thesis
    by (auto simp: core_push_bytes_def returns_eq split: sum.splits option.splits
        intro: ev_feed [OF f u] ev_feed_drop [OF f u] ev_trans [OF ev_feed [OF f u] ev_ingest])
qed

lemma ev_ingress: "ingress_push_bytes N wall bs nd = (r, nd') \<Longrightarrow> ev nd nd'"
proof -
  assume i: "ingress_push_bytes N wall bs nd = (r, nd')"
  have "ev nd (nd\<lparr>nd_mempool := snd (push (ne_mp N) wall rx (nd_mempool nd))\<rparr>)" if "check_reaction (ne_mp N) bs = Some rx" for rx
    by (rule ev_mempool) (use push_ok float_law that in blast)
  with i show ?thesis
    by (auto simp: ingress_push_bytes_def split: option.splits if_splits prod.splits sum.splits
        intro: ev_trans [OF _ ev_broadcast] dest!: meta_spec)
qed

lemma ev_accept: "accept_crystal N bs nd = (r, nd') \<Longrightarrow> ev nd nd'"
  by (auto simp: accept_crystal_def split: sum.splits prod.splits intro!: ev_engine dest: network_crystal_sync)

lemma ev_crystal_held: "on_crystal_with True N inst bs nd = (r, nd') \<Longrightarrow> ev nd nd'"
  by (auto simp: on_crystal_with.simps [of True] returns_eq ev_lock dest: ev_accept split: option.splits)

lemma ev_crystal:
  assumes "on_crystal N inst bs nd = (r, nd')"
  shows "ev nd nd'"
proof (cases "from_envelope N bs")
  case None
  with assms show ?thesis
    by (auto simp: on_crystal_def on_crystal_with.simps [of False] returns_eq dest: ev_accept)
next
  case (Some env)
  obtain res q where f: "feed (blake3 (pf_nodes (ne_pf N))) inst env (nd_reassembler nd) = (res, q)" by fastforce
  show ?thesis
  proof (cases "nd_locked nd")
    case u: False
    from assms Some f show ?thesis
      by (auto simp: on_crystal_def on_crystal_with.simps [of False] u split: sum.splits option.splits
          intro: ev_feed [OF f u] ev_feed_drop [OF f u] ev_trans [OF ev_feed [OF f u] ev_crystal_held])
  qed (use assms Some in \<open>auto simp: on_crystal_def on_crystal_with.simps [of False] ev_lock\<close>)
qed

lemma ev_feed_crystals: "feed_crystals N inst bs nd = (s, nd') \<Longrightarrow> ev nd nd'"
  by (induction bs arbitrary: nd) (auto split: prod.splits option.splits dest: ev_crystal intro: ev_trans)

lemma ev_connect: "connect_to_peer N reachable target nd = (err, bs, nd') \<Longrightarrow> ev nd nd'"
  by (auto simp: connect_to_peer_def Let_def ev_register split: if_splits prod.splits)

lemma ev_sync: "handle_sync N inst msg nd = (err, bs, nd') \<Longrightarrow> ev nd nd'"
  by (auto simp: handle_sync_def Let_def finish_sync_def ev_target
      split: SyncMessage.splits if_splits prod.splits session.splits dest: ev_feed_crystals)

lemma ev_submit: "submit_reaction N wall inst bs nd = (resp, nd') \<Longrightarrow> ev nd nd'"
  by (auto simp: submit_reaction_def ev_drop dest: ev_core_push split: sum.splits prod.splits option.splits)

lemma ev_handshake: "handle_handshake N ip ch te lp nd = (err, bs, nd') \<Longrightarrow> ev nd nd'"
  by (auto simp: handle_handshake_def Let_def ev_register intro: ev_trans [OF ev_register ev_target] split: if_splits prod.splits)

lemma ev_message: "handle_message N wall inst ip msg nd = (err, bs, nd') \<Longrightarrow> ev nd nd'"
  by (cases msg) (auto simp: handle_message_def ev_spawn
      dest: ev_crystal ev_handshake ev_sync ev_submit split: option.splits prod.splits)

lemma ev_frame: "handle_frame N wall inst ip frame nd = (err, bs, nd') \<Longrightarrow> ev nd nd'"
  by (auto simp: handle_frame_def dest: ev_message split: sum.splits)

lemma ev_core_push_snd: "ev nd (snd (core_push_bytes N wall inst bs nd))"
  by (rule ev_core_push) (rule surjective_pairing)

lemma ev_crystal_snd: "ev nd (snd (on_crystal N inst bs nd))"
  by (rule ev_crystal) (rule surjective_pairing)

lemma ev_task: "run_task N wall inst reachable t nd = (sent, nd') \<Longrightarrow> ev nd nd'"
  by (cases t) (auto simp: run_task_def split: sum.splits prod.splits if_splits option.splits
      intro: ev_core_push ev_core_push_snd ev_crystal ev_crystal_snd ev_connect
        ev_trans [OF ev_core_push ev_spread] ev_trans [OF ev_crystal ev_spread])

lemma drain_block_ok:
  assumes "drain_for_block N nd = (rxs, mp)" and "mempool_ok (ne_mp N) healthy contents (nd_mempool nd)"
  shows "mempool_ok (ne_mp N) healthy contents mp"
proof -
  have dr: "mempool_ok (ne_mp N) healthy contents mp'"
    if "drain_resonant (ne_mp N) sid limit mp0 = (rs, mp')" "mempool_ok (ne_mp N) healthy contents mp0" for sid limit mp0 rs mp'
    using drain_done [OF that(2), of sid limit] that(1) by auto
  show ?thesis
    using assms by (auto simp: drain_for_block_def Let_def split: prod.splits if_splits intro: dr)
qed

lemma ev_mining: "ev nd (mining_turn N now now' seed nd)"
proof (cases "is_syncing (nd_engine nd)")
  case False
  obtain rxs mp where d: "drain_for_block N nd = (rxs, mp)" by fastforce
  then have "mempool_ok (ne_mp N) healthy contents (nd_mempool nd) \<Longrightarrow> mempool_ok (ne_mp N) healthy contents mp"
    by (rule drain_block_ok)
  then have nd1: "ev nd (nd\<lparr>nd_mempool := mp, nd_engine := E\<rparr>)" for E
    using False by (simp add: evolves_def node_ok_def)
  show ?thesis
    using False by (auto simp: mining_turn_def d Let_def nd1 ev_trans [OF nd1 ev_broadcast]
        split: sum.splits prod.splits option.splits)
qed (simp add: mining_turn_def)

lemma ev_step: "node_step N nd nd' \<Longrightarrow> ev nd nd'"
  by (induction rule: node_step.induct)
    (auto simp: take_task_def session_end_def ev_unregister ev_mining reassembler_gc_def discovery_turn_def ev_spawn
      intro: ev_frame ev_ingress ev_trans [OF ev_spawn ev_task] ev_reassembler reassembler_ok_evict)

lemma ev_run: "(node_step N)\<^sup>*\<^sup>* nd nd' \<Longrightarrow> ev nd nd'"
  by (induction rule: rtranclp_induct) (auto intro: ev_trans ev_step)

end

end
