(* ===== verification/Node_Claims.thy ===== *)
theory Node_Claims
  imports Node_Correct Mempool_Claims Demo_Node
begin

text \<open>
  The properties of the composed node: the invariant of every run, termination of crystal reassembly,
  admission of reactions, gossip, and what the handlers do to peers and to the synchronisation flag.
  The contract is interpreted on the in-memory platform, pool and a chunk codec.
\<close>

section \<open>A node in memory\<close>

definition mem_envelope :: "bytes \<Rightarrow> ChunkEnvelope option" where
  "mem_envelope bs = (case bs of
     b # i # t # rest \<Rightarrow>
       if b = 255 then Some \<lparr>stream_id = [], chunk_index = ucast i, total_chunks = ucast t,
         payload_hash = take 32 rest, chunk_data = drop 32 rest\<rparr> else None
   | _ \<Rightarrow> None)"

definition mem_env :: "((bytes \<times> bytes) list, (bytes, bytes) btree) node_env" where
  "mem_env = \<lparr>ne_pf = mem_platform\<lparr>sha3_256 := tail_hash\<rparr>,
     ne_mp = (mem_pool tail_hash)\<lparr>check_reaction := (\<lambda>b. case b of [n] \<Rightarrow> Some (pool_rx (ucast n)) | _ \<Rightarrow> None)\<rparr>,
     from_envelope = mem_envelope, ser_message = (\<lambda>_. Inr []), de_message = (\<lambda>_. Inr Ping), debug_message = (\<lambda>_. []),
     set_order = (\<lambda>xs. xs)\<rparr>"

definition mem_identity :: PrimusNR where
  "mem_identity = \<lparr>nr_public_key = replicate 5216 0, addr_ip = 1, addr_port = 9000, nr_signature = [], nr_timestamp = 0\<rparr>"

definition mem_node :: "(bytes, bytes) btree SectoralMempool \<Rightarrow> ((bytes \<times> bytes) list, (bytes, bytes) btree) node" where
  "mem_node mp = \<lparr>nd_port = 9000, nd_engine = node_engine, nd_mempool = mp, nd_reassembler = reassembler_new, nd_locked = False, nd_drops = 0,
     nd_dht = dht_new tail_hash mem_identity, nd_seen = [], nd_tasks = []\<rparr>"

lemma mem_env_parts [simp]:
  "ne_pf mem_env = mem_platform\<lparr>sha3_256 := tail_hash\<rparr>" "mp_sha3 (ne_mp mem_env) = tail_hash"
  "check_reaction (ne_mp mem_env) [n] = Some (pool_rx (ucast n))"
  by (simp_all add: mem_env_def)

lemma mem_env_trees: "tree_contract (ne_mp mem_env) bt_ordered (\<lambda>t. t)"
  using mm.tree_contract_axioms [of tail_hash] by (simp add: tree_contract_def mem_env_def)

interpretation mn: node_contract mem_env bt_ordered "\<lambda>t. t"
proof (intro node_contract.intro mem_env_trees node_contract_axioms.intro)
  fix bs rx assume "check_reaction (ne_mp mem_env) bs = Some rx"
  then have "\<exists>n :: u8. rx = pool_rx (ucast n)" by (auto simp: mem_env_def split: list.splits)
  then show "is_f32 (energy rx)" using pool_rx_valid(2) by blast
qed (simp add: mem_env_def)

lemma mem_env_pool: "mempool_ok (mem_pool tail_hash) bt_ordered (\<lambda>t. t) mp \<Longrightarrow> mempool_ok (ne_mp mem_env) bt_ordered (\<lambda>t. t) mp"
  by (simp add: mempool_ok_def sector_ok_def stored_def mem_env_def)

lemma mem_env_reads:
  "storage_get_atom (mem_platform\<lparr>sha3_256 := g\<rparr>) node_storage pk = Inr (state_get_atom demo_state pk)"
  using node_storage_parts(3) [of demo_hash pk] by (simp add: storage_get_atom_def db_get_with_def db_get_def)

section \<open>The invariant of a run\<close>

text \<open>C12. A node that starts with a freshly opened mempool, an empty peer table and no memory of messages
  keeps its data consistent whatever it receives, in whatever order its spawned tasks run: the mempool
  and the routing table are consistent, no peer address is registered twice, no more than
  \<open>MAX_SEEN\<close> messages are remembered, none twice, and the reassembler is ordered.\<close>

theorem node_invariant:
  assumes "node_contract N healthy contents" and "(node_step N)\<^sup>*\<^sup>* nd nd'"
    and "\<And>n t. open_tree n = Inr t \<Longrightarrow> healthy t \<and> contents t = []" and "mempool_new open_tree = Inr (nd_mempool nd)"
    and "nd_dht nd = dht_new (sha3_256 (ne_pf N)) nr" and "length (node_id (sha3_256 (ne_pf N)) nr) = 32"
    and "nd_seen nd = []" and "nd_reassembler nd = reassembler_new"
  shows "node_ok N healthy contents nd'"
proof -
  have "tree_contract (ne_mp N) healthy contents" using assms(1) by (rule node_contract.axioms(1))
  then have "mempool_ok (ne_mp N) healthy contents (nd_mempool nd)"
    using tree_contract.mempool_new_ok(1) assms(3,4) by blast
  then have "node_ok N healthy contents nd"
    using assms(5-8) by (simp add: node_ok_def dht_new_def table_new_ok)
  then show ?thesis using node_contract.ev_run [OF assms(1,2)] by (simp add: evolves_def)
qed

theorem node_invariant_witness:
  "\<exists>mp. mempool_new (\<lambda>_. Inr []) = Inr mp
     \<and> node_ok mem_env bt_ordered (\<lambda>t. t) (mining_turn mem_env (Inr 5) 6 [] (session_end ''10.0.0.1'' (mem_node mp)))"
proof -
  obtain mp :: "(bytes, bytes) btree SectoralMempool" where mp: "mempool_new (\<lambda>_. Inr []) = Inr mp"
    using mempool_new_mem [of "[]"] by blast
  let ?nd = "mem_node mp"
  have "node_step mem_env ?nd (session_end ''10.0.0.1'' ?nd)" by (rule node_step.closed)
  then have "(node_step mem_env)\<^sup>*\<^sup>* ?nd (mining_turn mem_env (Inr 5) 6 [] (session_end ''10.0.0.1'' ?nd))"
    by (meson node_step.mined r_into_rtranclp rtranclp.rtrancl_into_rtrancl)
  then show ?thesis
    using node_invariant [OF mn.node_contract_axioms, of ?nd _ "\<lambda>_. Inr []" mem_identity] mp
    by (auto simp: mem_node_def mem_env_def node_id_def tail_hash_def mem_identity_def)
qed

section \<open>Crystals in chunks\<close>

lemma on_crystal_chunk:
  assumes "from_envelope N b = Some env" and "\<not> nd_locked nd"
    and "feed (blake3 (pf_nodes (ne_pf N))) inst env (nd_reassembler nd) = (Inr None, r)"
  shows "on_crystal N inst b nd = (Some (Inr ()), nd\<lparr>nd_reassembler := r\<rparr>)"
  using assms by (simp add: on_crystal_def on_crystal_with.simps [of False])

lemma on_crystal_last_chunk:
  assumes "from_envelope N b = Some env" and "\<not> nd_locked nd"
    and "feed (blake3 (pf_nodes (ne_pf N))) inst env (nd_reassembler nd) = (Inr (Some msg), r)" and "from_envelope N msg = None"
  shows "on_crystal N inst b nd = returns (accept_crystal N msg (nd\<lparr>nd_reassembler := r\<rparr>))"
  using assms by (simp add: on_crystal_def on_crystal_with.simps)

lemma length_feed_all: "length (fst (feed_all h evs r)) = length evs"
  by (induction h evs r rule: feed_all.induct) (auto simp: Let_def split: prod.split)

lemma results_for_own:
  assumes "length rs = length evs" and "\<forall>ev \<in> set evs. stream_id (snd ev) = sid"
  shows "results_for sid evs rs = rs"
proof -
  have "filter (\<lambda>((_, e), _). stream_id e = sid) (zip evs rs) = zip evs rs"
    using assms(2) by (intro filter_True) (auto dest!: set_zip_leftD)
  then show ?thesis using assms(1) by (simp add: results_for_def map_snd_zip)
qed

lemma accept_crystal_frame:
  "nd_engine (snd (accept_crystal N msg (nd\<lparr>nd_reassembler := r\<rparr>))) = nd_engine (snd (accept_crystal N msg nd))"
  "nd_mempool (snd (accept_crystal N msg nd)) = nd_mempool nd"
  by (simp_all add: accept_crystal_def split: sum.split prod.split)

lemma feed_crystals_stream:
  assumes "\<forall>(b, env) \<in> set bes. from_envelope N b = Some env" and "\<not> nd_locked nd"
    and "fst (feed_all (blake3 (pf_nodes (ne_pf N))) (map (\<lambda>(_, env). (inst, env)) bes) (nd_reassembler nd)) = replicate n (Inr None) @ [Inr (Some msg)]"
    and "from_envelope N msg = None"
  shows "\<exists>r. feed_crystals N inst (map fst bes) nd = (Open, snd (accept_crystal N msg (nd\<lparr>nd_reassembler := r\<rparr>)))"
  using assms
proof (induction bes arbitrary: nd n)
  case (Cons be bes)
  obtain b env where be: "be = (b, env)" "from_envelope N b = Some env" using Cons.prems(1) by (cases be) auto
  obtain res r where f: "feed (blake3 (pf_nodes (ne_pf N))) inst env (nd_reassembler nd) = (res, r)" by fastforce
  show ?case
  proof (cases n)
    case 0
    then have "res = Inr (Some msg)" "length (fst (feed_all (blake3 (pf_nodes (ne_pf N))) (map (\<lambda>(_, env). (inst, env)) bes) r)) = 0"
      using Cons.prems(3) be f by (auto split: prod.splits)
    then have "res = Inr (Some msg)" "bes = []" by (simp_all add: length_feed_all)
    then show ?thesis
      using on_crystal_last_chunk [OF be(2) Cons.prems(2) _ Cons.prems(4)] f be(1)
      by (intro exI [of _ r]) (simp add: returns_def split_beta)
  next
    case (Suc m)
    then have res: "res = Inr None"
      "fst (feed_all (blake3 (pf_nodes (ne_pf N))) (map (\<lambda>(_, env). (inst, env)) bes) r) = replicate m (Inr None) @ [Inr (Some msg)]"
      using Cons.prems(3) be f by (auto split: prod.splits)
    then show ?thesis
      using on_crystal_chunk [OF be(2) Cons.prems(2)] f be(1) Cons.IH [of "nd\<lparr>nd_reassembler := r\<rparr>" m] Cons.prems(1,2,4) by simp
  qed
qed simp

text \<open>C31. A crystal that is sent in chunks is processed like one that is sent whole: when the encoded chunks of
  its bytes are handled in any order by a node that has no chunk of that stream, every one but the last is
  only stored, and with the last the engine is in the state it has after the crystal as a whole.\<close>

theorem chunked_crystal_accepted:
  assumes "chunk_message (blake3 (pf_nodes (ne_pf N))) msg sid = Inr cs" and "msg \<noteq> []" and "mset (map snd bes) = mset cs"
    and "\<forall>(b, env) \<in> set bes. from_envelope N b = Some env" and "from_envelope N msg = None"
    and "\<not> nd_locked nd" and "reassembler_ok (nd_reassembler nd)" and "bt_get (streams (nd_reassembler nd)) sid = None"
  shows "\<exists>nd'. feed_crystals N inst (map fst bes) nd = (Open, nd')
    \<and> nd_engine nd' = nd_engine (snd (on_crystal N inst msg nd)) \<and> nd_mempool nd' = nd_mempool nd"
proof -
  let ?h = "blake3 (pf_nodes (ne_pf N))" and ?evs = "map (\<lambda>(_, env). (inst, env)) bes"
  have e: "envelopes_of ?h msg sid cs" by (rule chunk_message_envelopes [OF assms(1)])
  have sid: "\<forall>env \<in> set (map snd bes). stream_id env = sid"
    using envelopes_same(1) [OF e] mset_eq_setD [OF assms(3)] by blast
  have "map snd ?evs = map snd bes" by (simp add: split_def comp_def)
  then have a: "arrivals sid ?evs = map snd bes" using filter_True [OF sid] by metis
  have "cs \<noteq> []" using assms(2) e by (auto simp: envelopes_of_def)
  then have ne: "arrivals sid ?evs \<noteq> []" using a assms(3) by (metis mset_zero_iff)
  have "\<forall>(now, _) \<in> set ?evs. inst \<le> now \<and> now < inst + ttl_nanos"
    by (auto simp: ttl_nanos_def CHUNK_STREAM_TTL_SECS_def)
  with ne have "results_for sid ?evs (fst (feed_all ?h ?evs (nd_reassembler nd)))
      = replicate (length bes - 1) (Inr None) @ [Inr (Some msg)]"
    using feed_all_stream [OF e assms(7), of inst "[]" ?evs] assms(3,8) unfolding a by (simp add: stream_state_def)
  moreover have "\<forall>ev \<in> set ?evs. stream_id (snd ev) = sid" using sid by fastforce
  ultimately have "fst (feed_all ?h ?evs (nd_reassembler nd)) = replicate (length bes - 1) (Inr None) @ [Inr (Some msg)]"
    by (simp only: results_for_own length_feed_all)
  then obtain r where "feed_crystals N inst (map fst bes) nd = (Open, snd (accept_crystal N msg (nd\<lparr>nd_reassembler := r\<rparr>)))"
    using feed_crystals_stream [OF assms(4,6) _ assms(5)] by blast
  moreover have "snd (on_crystal N inst msg nd) = snd (accept_crystal N msg nd)"
    using assms(5) by (simp add: on_crystal_def on_crystal_with.simps [of False] returns_def split_beta)
  ultimately show ?thesis by (simp add: accept_crystal_frame)
qed

definition mem_chunk :: "bytes \<Rightarrow> bytes" where
  "mem_chunk data = [255, 0, 1] @ demo_hash data @ data"

abbreviation bare_node :: "((bytes \<times> bytes) list, (bytes, bytes) btree) node" where
  "bare_node \<equiv> mem_node \<lparr>sectors = [], max_sector_capacity = 1\<rparr>"

lemma mem_chunk_envelope:
  "from_envelope mem_env (mem_chunk data) = Some \<lparr>stream_id = [], chunk_index = 0, total_chunks = 1, payload_hash = demo_hash data, chunk_data = data\<rparr>"
proof -
  have "length (demo_hash data) = 32" by (simp add: demo_hash_def Let_def)
  then show ?thesis by (simp add: mem_env_def mem_envelope_def mem_chunk_def)
qed

theorem chunked_crystal_accepted_witness:
  "\<exists>nd'. feed_crystals mem_env 0 [mem_chunk [1, 2]] bare_node = (Open, nd')
     \<and> nd_engine nd' = nd_engine (snd (on_crystal mem_env 0 [1, 2] bare_node))"
proof -
  let ?e = "\<lparr>stream_id = [], chunk_index = 0, total_chunks = 1, payload_hash = demo_hash [1, 2], chunk_data = [1, 2]\<rparr>"
  have "chunks NOISE_MAX_PAYLOAD [1, 2 :: u8] = [[1, 2]]"
    by (subst chunks.simps) (simp add: NOISE_MAX_PAYLOAD_def)
  then have c: "chunk_message (blake3 (pf_nodes (ne_pf mem_env))) [1, 2] [] = Inr [?e]"
    by (simp add: chunk_message_def APP_MAX_MESSAGE_def demo_codec_def)
  have d: "from_envelope mem_env [1, 2] = None" by (simp add: mem_env_def mem_envelope_def)
  have "\<exists>nd'. feed_crystals mem_env 0 (map fst [(mem_chunk [1, 2], ?e)]) bare_node = (Open, nd')
      \<and> nd_engine nd' = nd_engine (snd (on_crystal mem_env 0 [1, 2] bare_node)) \<and> nd_mempool nd' = nd_mempool bare_node"
    by (rule chunked_crystal_accepted [OF c _ _ _ d])
      (simp_all add: mem_chunk_envelope, simp_all add: mem_node_def reassembler_new_def reassembler_ok_def)
  then show ?thesis by (auto simp del: feed_crystals.simps)
qed

text \<open>The handler of crystals keeps the mutex of the reassembler while it handles the reassembled message. A
  stream whose message is itself an encoded chunk makes it wait for its own mutex: it never returns, and
  from then on, in every state the node can reach, every chunk waits forever and no stream is completed.\<close>

theorem nested_chunk_blocks_reassembly:
  assumes "node_contract N healthy contents" and "from_envelope N bs = Some env" and "\<not> nd_locked nd"
    and "feed (blake3 (pf_nodes (ne_pf N))) inst env (nd_reassembler nd) = (Inr (Some full), r)"
    and "from_envelope N full \<noteq> None" and "(node_step N)\<^sup>*\<^sup>* (snd (on_crystal N inst bs nd)) nd'"
    and "from_envelope N chunk \<noteq> None" and "length chunk \<le> APP_MAX_MESSAGE" and "check_reaction (ne_mp N) chunk = None"
  shows "fst (on_crystal N inst bs nd) = None \<and> nd_reassembler nd' = r \<and> reassembler_gc inst' nd' = nd'
    \<and> on_crystal N inst' chunk nd' = (None, nd') \<and> core_push_bytes N wall inst' chunk nd' = (None, nd')"
proof -
  have "on_crystal N inst bs nd = (None, nd\<lparr>nd_reassembler := r, nd_locked := True\<rparr>)"
    using assms(2-5) by (auto simp: on_crystal_def on_crystal_with.simps)
  moreover from this have "nd_locked nd' \<and> nd_reassembler nd' = r"
    using node_contract.ev_run [OF assms(1,6)] by (simp add: evolves_def)
  ultimately show ?thesis
    using assms(7-9) by (auto simp: on_crystal_def on_crystal_with.simps [of False] core_push_bytes_def reassembler_gc_def)
qed

theorem nested_chunk_blocks_reassembly_witness:
  "fst (on_crystal mem_env 0 (mem_chunk (mem_chunk [])) bare_node) = None
   \<and> fst (on_crystal mem_env 1 (mem_chunk [7]) (snd (on_crystal mem_env 0 (mem_chunk (mem_chunk [])) bare_node))) = None"
proof -
  let ?full = "mem_chunk []"
  let ?e = "\<lparr>stream_id = [], chunk_index = 0, total_chunks = 1, payload_hash = demo_hash ?full, chunk_data = ?full\<rparr>"
  let ?nd' = "snd (on_crystal mem_env 0 (mem_chunk ?full) bare_node)"
  have "\<not> nd_locked bare_node" by (simp add: mem_node_def)
  moreover have "feed (blake3 (pf_nodes (ne_pf mem_env))) 0 ?e (nd_reassembler bare_node) = (Inr (Some ?full), reassembler_new)"
    by (simp add: mem_node_def reassembler_new_def feed_def feed_stream_def evict_expired_def reassemble_def demo_codec_def)
  moreover have "from_envelope mem_env ?full \<noteq> None" by (simp add: mem_chunk_envelope)
  moreover have "(node_step mem_env)\<^sup>*\<^sup>* ?nd' ?nd'" by simp
  moreover have "from_envelope mem_env (mem_chunk [7]) \<noteq> None" by (simp add: mem_chunk_envelope)
  moreover have "length (mem_chunk [7]) \<le> APP_MAX_MESSAGE" "check_reaction (ne_mp mem_env) (mem_chunk [7]) = None"
    by (simp_all add: mem_chunk_def demo_hash_def Let_def APP_MAX_MESSAGE_def mem_env_def)
  ultimately have "fst (on_crystal mem_env 0 (mem_chunk ?full) bare_node) = None \<and> nd_reassembler ?nd' = reassembler_new
    \<and> reassembler_gc 1 ?nd' = ?nd' \<and> on_crystal mem_env 1 (mem_chunk [7]) ?nd' = (None, ?nd')
    \<and> core_push_bytes mem_env (Inr 5) 1 (mem_chunk [7]) ?nd' = (None, ?nd')"
    by (rule nested_chunk_blocks_reassembly [OF mn.node_contract_axioms mem_chunk_envelope])
  then show ?thesis by simp
qed

section \<open>Admission of reactions\<close>

lemma push_changes: "snd (push M now rx mp) \<noteq> mp \<Longrightarrow> validate_structure (mp_sha3 M) rx = Inr ()"
  by (auto simp: push_def split: sum.splits)

lemma ingest_changes:
  assumes "ingest_reaction N wall bs nd = (r, nd')" and "nd_mempool nd' \<noteq> nd_mempool nd"
  obtains rx where "check_reaction (ne_mp N) bs = Some rx" "validate_structure (mp_sha3 (ne_mp N)) rx = Inr ()"
    "public_key (sender rx) = eng_architect_pk (nd_engine nd) \<or> has_balance N nd (public_key (sender rx))"
    "nd_mempool nd' = snd (push (ne_mp N) wall rx (nd_mempool nd))"
  using assms push_changes [of "ne_mp N" wall _ "nd_mempool nd"]
  by (fastforce simp: ingest_reaction_def broadcast_message_def split: option.splits if_splits prod.splits sum.splits)

lemma ingest_frame:
  "ingest_reaction N wall bs nd = (r, nd') \<Longrightarrow> nd_engine nd' = nd_engine nd \<and> nd_dht nd' = nd_dht nd"
  by (auto simp: ingest_reaction_def broadcast_message_def split: option.splits if_splits prod.splits sum.splits)

text \<open>The entry of peer connections.\<close>

lemma core_push_changes:
  assumes "core_push_bytes N wall inst bs nd = (res, nd')" and "nd_mempool nd' \<noteq> nd_mempool nd"
  shows "\<exists>full rx. (full = bs \<or> (\<exists>env r'. from_envelope N bs = Some env
        \<and> feed (blake3 (pf_nodes (ne_pf N))) inst env (nd_reassembler nd) = (Inr (Some full), r')))
    \<and> length bs \<le> APP_MAX_MESSAGE \<and> check_reaction (ne_mp N) full = Some rx
    \<and> validate_structure (mp_sha3 (ne_mp N)) rx = Inr ()
    \<and> (public_key (sender rx) = eng_architect_pk (nd_engine nd) \<or> has_balance N nd (public_key (sender rx)))
    \<and> nd_mempool nd' = snd (push (ne_mp N) wall rx (nd_mempool nd))
    \<and> nd_engine nd' = nd_engine nd \<and> nd_dht nd' = nd_dht nd"
proof -
  have len: "length bs \<le> APP_MAX_MESSAGE"
    using assms by (auto simp: core_push_bytes_def split: if_splits)
  consider r where "ingest_reaction N wall bs nd = (r, nd')"
    | r env full q where "from_envelope N bs = Some env"
        "feed (blake3 (pf_nodes (ne_pf N))) inst env (nd_reassembler nd) = (Inr (Some full), q)"
        "ingest_reaction N wall full (nd\<lparr>nd_reassembler := q\<rparr>) = (r, nd')"
    using assms by (auto simp: core_push_bytes_def returns_eq split: if_splits option.splits prod.splits sum.splits)
  then show ?thesis
  proof cases
    case 1
    then show ?thesis
      using ingest_changes [OF 1 assms(2)] ingest_frame [OF 1] len by blast
  next
    case (2 r env full q)
    obtain rx where "check_reaction (ne_mp N) full = Some rx" "validate_structure (mp_sha3 (ne_mp N)) rx = Inr ()"
        "public_key (sender rx) = eng_architect_pk (nd_engine nd) \<or> has_balance N nd (public_key (sender rx))"
        "nd_mempool nd' = snd (push (ne_mp N) wall rx (nd_mempool nd))"
      using ingest_changes [OF 2(3)] assms(2) by (auto simp: has_balance_def)
    then show ?thesis using ingest_frame [OF 2(3)] 2(1,2) len by auto
  qed
qed

text \<open>C30. Bytes from a peer change the mempool only by pushing one reaction that passes the structural check, and
  leave the engine and the peers as they are. Over a peer connection the reaction is decoded from the bytes or
  from a message completed by them, and its sender is the architect or owns mass in the stored state. Over
  QUIC it is decoded from the bytes, and nothing is required of its sender.\<close>

theorem admitted_reactions:
  assumes "if quic then ingress_push_bytes N wall bs nd = (res, nd') else core_push_bytes N wall inst bs nd = (res', nd')"
    and "nd_mempool nd' \<noteq> nd_mempool nd"
  shows "\<exists>full rx. (full = bs \<or> \<not> quic \<and> (\<exists>env r'. from_envelope N bs = Some env
        \<and> feed (blake3 (pf_nodes (ne_pf N))) inst env (nd_reassembler nd) = (Inr (Some full), r')))
    \<and> length bs \<le> APP_MAX_MESSAGE \<and> check_reaction (ne_mp N) full = Some rx
    \<and> validate_structure (mp_sha3 (ne_mp N)) rx = Inr ()
    \<and> (quic \<or> public_key (sender rx) = eng_architect_pk (nd_engine nd) \<or> has_balance N nd (public_key (sender rx)))
    \<and> nd_mempool nd' = snd (push (ne_mp N) wall rx (nd_mempool nd))
    \<and> nd_engine nd' = nd_engine nd \<and> nd_dht nd' = nd_dht nd"
proof (cases quic)
  case True
  then have q: "ingress_push_bytes N wall bs nd = (res, nd')" using assms(1) by simp
  then obtain rx where "length bs \<le> APP_MAX_MESSAGE" "check_reaction (ne_mp N) bs = Some rx"
      "nd_mempool nd' = snd (push (ne_mp N) wall rx (nd_mempool nd))" "nd_engine nd' = nd_engine nd" "nd_dht nd' = nd_dht nd"
    using assms(2) by (auto simp: ingress_push_bytes_def broadcast_message_def split: if_splits option.splits prod.splits sum.splits)
  moreover have "validate_structure (mp_sha3 (ne_mp N)) rx = Inr ()"
    using assms(2) calculation(3) push_changes [of "ne_mp N" wall rx "nd_mempool nd"] by metis
  ultimately show ?thesis using True by blast
next
  case False
  then show ?thesis using core_push_changes [of N wall inst bs nd res' nd'] assms by simp
qed

lemma pool_rx_new:
  assumes "mempool_ok (ne_mp mem_env) bt_ordered (\<lambda>t. t) mp" and "\<And>sid. pool_data (\<lambda>t. t) mp sid = []"
    and "unat (max_sector_capacity mp) = 1000000"
  shows "\<exists>mp'. push (ne_mp mem_env) (Inr 5) (pool_rx 7) mp = (Inr True, mp') \<and> mp' \<noteq> mp"
proof -
  obtain mp' b where p: "push (ne_mp mem_env) (Inr 5) (pool_rx 7) mp = (Inr True, mp')"
      "pool_data (\<lambda>t. t) mp' = (pool_data (\<lambda>t. t) mp)(sector (sender (pool_rx 7)) := bt_insert (reaction_hash (pool_rx 7)) b [])"
    using tree_contract.push_new [OF mem_env_trees assms(1), of "pool_rx 7" 5] pool_rx_valid assms(2,3) by auto
  have "pool_data (\<lambda>t. t) mp' 1 \<noteq> pool_data (\<lambda>t. t) mp 1"
    using p(2) assms(2) pool_rx_valid(3) [of 7] by simp
  then show ?thesis using p(1) by auto
qed

theorem admitted_reactions_witness:
  "\<exists>mp nd r nd'. mempool_new (\<lambda>_. Inr []) = Inr mp
     \<and> nd = (mem_node mp)\<lparr>nd_engine := node_engine\<lparr>eng_architect_pk := replicate 2592 1\<rparr>\<rparr>
     \<and> core_push_bytes mem_env (Inr 5) 0 [7] nd = (r, nd')
     \<and> nd_mempool nd' = snd (push (ne_mp mem_env) (Inr 5) (pool_rx 7) mp)"
proof -
  obtain mp where mp: "mempool_new (\<lambda>_. Inr []) = Inr mp" "mempool_ok (mem_pool tail_hash) bt_ordered (\<lambda>t. t) mp"
    "\<And>sid. pool_data (\<lambda>t. t) mp sid = []" "unat (max_sector_capacity mp) = 1000000" by (rule mem_pool_fresh) auto
  have ok: "mempool_ok (ne_mp mem_env) bt_ordered (\<lambda>t. t) mp" using mp(2) by (rule mem_env_pool)
  define nd where "nd = (mem_node mp)\<lparr>nd_engine := node_engine\<lparr>eng_architect_pk := replicate 2592 1\<rparr>\<rparr>"
  obtain mp' where p: "push (ne_mp mem_env) (Inr 5) (pool_rx 7) mp = (Inr True, mp')" "mp' \<noteq> mp"
    using pool_rx_new [OF ok mp(3,4)] by blast
  obtain r nd' where c: "core_push_bytes mem_env (Inr 5) 0 [7] nd = (r, nd')" by fastforce
  have "public_key (sender (pool_rx 7)) = replicate 2592 1"
    by (simp add: pool_rx_def Let_def new_receiver_def new_materialized_def)
  then have "nd_mempool nd' = mp'"
    using c p(1) by (auto simp: core_push_bytes_def returns_def ingest_reaction_def nd_def mem_node_def APP_MAX_MESSAGE_def broadcast_message_def)
  then have "nd_mempool nd' \<noteq> nd_mempool nd" using p(2) by (simp add: nd_def mem_node_def)
  from admitted_reactions [of False, simplified, OF c this] p(1) mp(1) c show ?thesis
    by (intro exI [of _ mp] exI [of _ nd] exI [of _ r] exI [of _ nd']) (use \<open>nd_mempool nd' = mp'\<close> in \<open>simp add: nd_def\<close>)
qed

section \<open>Senders without mass\<close>

text \<open>A well-formed reaction whose sender owns nothing is handled differently by the two entries: over a
  peer connection it is dropped and still acknowledged to the submitter, while the QUIC entry admits it
  to the mempool.\<close>

theorem phantom_sender:
  assumes "tree_contract (ne_mp N) healthy contents" and "mempool_ok (ne_mp N) healthy contents (nd_mempool nd)"
    and "mp_sha3 (ne_mp N) = sha3_256 (ne_pf N)" and "filter_bytes_inner N bs = Inr rx" and "length bs \<le> APP_MAX_MESSAGE"
    and "is_f32 (energy rx)"
    and "public_key (sender rx) \<noteq> eng_architect_pk (nd_engine nd)" and "\<not> has_balance N nd (public_key (sender rx))"
    and "length (pool_data contents (nd_mempool nd) (sector (sender rx))) < unat (max_sector_capacity (nd_mempool nd))"
    and "bt_get (pool_data contents (nd_mempool nd) (sector (sender rx))) (reaction_hash rx) = None"
  shows "submit_reaction N (Inr ts) inst bs nd = (ReactionAck (blake3 (pf_nodes (ne_pf N)) bs), count_drop nd)
    \<and> (\<exists>nd'. ingress_push_bytes N (Inr ts) bs nd = (Inr True, nd')
         \<and> bt_get (pool_data contents (nd_mempool nd') (sector (sender rx))) (reaction_hash rx) \<noteq> None)"
proof -
  have c: "check_reaction (ne_mp N) bs = Some rx" "validate_structure (sha3_256 (ne_pf N)) rx = Inr ()"
    using assms(4) by (auto simp: filter_bytes_inner_def ok_or_def split: option.splits sum.splits if_splits)
  have "submit_reaction N (Inr ts) inst bs nd = (ReactionAck (blake3 (pf_nodes (ne_pf N)) bs), count_drop nd)"
    using assms(4,5,7,8) c(1) by (simp add: submit_reaction_def filter_bytes_def core_push_bytes_def returns_def ingest_reaction_def)
  moreover obtain mp' b where "push (ne_mp N) (Inr ts) rx (nd_mempool nd) = (Inr True, mp')"
      "pool_data contents mp' = (pool_data contents (nd_mempool nd))(sector (sender rx) :=
          bt_insert (reaction_hash rx) b (pool_data contents (nd_mempool nd) (sector (sender rx))))"
    using tree_contract.push_new [OF assms(1,2) _ assms(6,9,10), of ts] c(2) assms(3) by metis
  ultimately show ?thesis
    using assms(5) c(1) by (simp add: ingress_push_bytes_def broadcast_message_def)
qed

theorem phantom_sender_witness:
  "\<exists>mp nd'. mempool_new (\<lambda>_. Inr []) = Inr mp
     \<and> submit_reaction mem_env (Inr 5) 0 [7] (mem_node mp) = (ReactionAck (demo_hash [7]), count_drop (mem_node mp))
     \<and> ingress_push_bytes mem_env (Inr 5) [7] (mem_node mp) = (Inr True, nd')"
proof -
  obtain mp where mp: "mempool_new (\<lambda>_. Inr []) = Inr mp" "mempool_ok (mem_pool tail_hash) bt_ordered (\<lambda>t. t) mp"
    "\<And>sid. pool_data (\<lambda>t. t) mp sid = []" "unat (max_sector_capacity mp) = 1000000" by (rule mem_pool_fresh) auto
  have ok: "mempool_ok (ne_mp mem_env) bt_ordered (\<lambda>t. t) (nd_mempool (mem_node mp))"
    using mem_env_pool [OF mp(2)] by (simp add: mem_node_def)
  have "\<not> flt (f32_lit 10 1) f32_zero" by code_simp
  then have "\<not> flt (energy (pool_rx 7)) f32_zero" by (simp add: pool_rx_def Let_def)
  moreover have pk: "public_key (sender (pool_rx 7)) = replicate 2592 1"
    by (simp add: pool_rx_def Let_def new_receiver_def new_materialized_def)
  ultimately have f: "filter_bytes_inner mem_env [7] = Inr (pool_rx 7)"
    using pool_rx_valid(1) [of 7] by (simp add: filter_bytes_inner_def)
  have long: "replicate 2592 1 \<noteq> [b]" for b :: u8
    by (rule notI, drule arg_cong [where f = length]) simp
  then have "\<not> has_balance mem_env (mem_node mp) (replicate 2592 1)"
    by (simp add: has_balance_def mem_node_def node_engine_with_def mem_env_reads demo_state_def state_get_atom_def)
  then have "submit_reaction mem_env (Inr 5) 0 [7] (mem_node mp)
        = (ReactionAck (blake3 (pf_nodes (ne_pf mem_env)) [7]), count_drop (mem_node mp))
      \<and> (\<exists>nd'. ingress_push_bytes mem_env (Inr 5) [7] (mem_node mp) = (Inr True, nd')
         \<and> bt_get (pool_data (\<lambda>t. t) (nd_mempool nd') (sector (sender (pool_rx 7)))) (reaction_hash (pool_rx 7)) \<noteq> None)"
    using pool_rx_valid(2) mp(3,4) pk long
    by (intro phantom_sender [OF mem_env_trees ok _ f]) (simp_all add: mem_node_def node_engine_with_def APP_MAX_MESSAGE_def)
  then show ?thesis using mp(1) by (auto simp: mem_platform_with_def demo_codec_def)
qed

section \<open>Gossip\<close>

lemma remember_mem: "length seen < MAX_SEEN \<Longrightarrow> i \<in> set (remember N i seen)"
  by (simp add: remember_def Let_def)

lemma next_ttl_dec: "next_ttl ttl True = Some t \<longleftrightarrow> ttl = t + 1 \<and> 0 < t \<and> t < t + 1"
proof -
  have nz: "1 \<le> w \<longleftrightarrow> w \<noteq> 0" for w :: u8 by (simp add: word_le_nat_alt Suc_le_eq unat_gt_0)
  have "next_ttl ttl True = Some t \<longleftrightarrow> ttl \<noteq> 0 \<and> ttl - 1 = t \<and> t \<noteq> 0"
    by (auto simp: next_ttl_def checked_sub_def nz)
  also have "\<dots> \<longleftrightarrow> ttl = t + 1 \<and> 0 < t \<and> t < t + 1"
    using measure_unat [of ttl] by (auto simp: word_less_nat_alt unat_gt_0)
  finally show ?thesis .
qed

lemma next_ttl_keep: "next_ttl ttl False = Some ttl"
  by (simp add: next_ttl_def)

text \<open>A message is spread once: while the memory has room, spreading it again does nothing. Every copy goes
  to a known peer other than the source, a reaction with a smaller positive time to live and the same
  payload, and a crystal unchanged.\<close>

theorem gossip_spreads_once:
  assumes "length (nd_seen nd) < MAX_SEEN"
  shows "spread N msg src' (spread N msg src nd) = spread N msg src nd
    \<and> (\<forall>p m. SendPeer p m \<in> set (drop (length (nd_tasks nd)) (nd_tasks (spread N msg src nd))) \<longrightarrow>
         p \<in> set (get_peer_list (nd_dht nd)) \<and> src \<noteq> Some p
         \<and> (\<exists>data t. m = NewReaction data t \<and> msg = NewReaction data (t + 1) \<and> 0 < t \<and> t < t + 1
             \<or> m = NewCrystal data t \<and> msg = m))"
proof
  show "spread N msg src' (spread N msg src nd) = spread N msg src nd"
    using remember_mem [OF assms] by (auto simp: spread_def Let_def split: option.split)
next
  have "\<exists>data t. m = NewReaction data t \<and> msg = NewReaction data (t + 1) \<and> 0 < t \<and> t < t + 1 \<or> m = NewCrystal data t \<and> msg = m"
    if "message_ttl msg = Some (ttl, decay)" "next_ttl ttl decay = Some t" "m = with_ttl msg t" for m ttl decay t
    using that by (cases msg) (auto simp: message_ttl_def with_ttl_def next_ttl_dec next_ttl_keep)
  then show "\<forall>p m. SendPeer p m \<in> set (drop (length (nd_tasks nd)) (nd_tasks (spread N msg src nd))) \<longrightarrow>
         p \<in> set (get_peer_list (nd_dht nd)) \<and> src \<noteq> Some p
         \<and> (\<exists>data t. m = NewReaction data t \<and> msg = NewReaction data (t + 1) \<and> 0 < t \<and> t < t + 1
             \<or> m = NewCrystal data t \<and> msg = m)"
    unfolding spread_def Let_def
    by (auto split: option.splits if_splits simp: local_tasks_def split: PrimusMessage.splits)
qed

theorem gossip_spreads_once_witness:
  "\<forall>mp. let nd = (mem_node mp)\<lparr>nd_dht := register_peer_addr ''a:1'' (nd_dht (mem_node mp))\<rparr>
     in spread mem_env (NewReaction [7] 8) None (spread mem_env (NewReaction [7] 8) None nd) = spread mem_env (NewReaction [7] 8) None nd"
  unfolding Let_def by (intro allI conjunct1 [OF gossip_spreads_once]) (simp add: mem_node_def MAX_SEEN_def)

section \<open>Peers\<close>

lemma set_merge_peers: "set (merge_peers merged as) = set merged \<union> set as"
  by (induction merged "as" rule: merge_peers.induct) auto

text \<open>A peer that greets with its listener port is registered as address and port; the end of its session
  removes the bare address, so the peer stays registered.\<close>

theorem greeted_peer_stays:
  "peer_ip @ '':'' @ show_nat (unat lp) \<in> set (get_peer_list (nd_dht (session_end peer_ip
     (snd (snd (handle_message N wall inst peer_ip (PeerHandshake v nid ch te lp) nd))))))"
  by (auto simp: handle_message_def handle_handshake_def Let_def session_end_def get_peer_list_def set_merge_peers
      register_peer_addr_def remove_peer_addr_def set_sync_target_def split: prod.split)

section \<open>Synchronisation\<close>

text \<open>One unauthenticated greeting that claims a height more than five above the own one stops block
  production for good: in every state the node can reach from there it is synchronising, and a turn of
  the mining loop does nothing.\<close>

theorem handshake_stops_mining:
  assumes "node_contract N healthy contents"
    and "handle_message N wall inst peer_ip (PeerHandshake v nid ch te lp) nd = (err, sent, nd1)"
    and "current_crystal_index (state (nd_engine nd)) + 5 < ch"
    and "current_crystal_index (state (nd_engine nd)) < ch"
    and "(node_step N)\<^sup>*\<^sup>* nd1 nd2"
  shows "is_syncing (nd_engine nd2) \<and> mining_turn N now now' seed nd2 = nd2"
proof -
  have "is_syncing (nd_engine nd1)"
    using assms(2-4) by (auto simp: handle_message_def handle_handshake_def Let_def local_state_def set_sync_target_def split: prod.splits)
  then have "is_syncing (nd_engine nd2)"
    using node_contract.ev_run [OF assms(1,5)] by (simp add: evolves_def)
  then show ?thesis by (simp add: mining_turn_def)
qed

theorem handshake_stops_mining_witness:
  "\<exists>nd2. nd2 = session_end ''10.0.0.1'' (snd (snd (handle_message mem_env (Inr 5) 0 ''10.0.0.1''
       (PeerHandshake ''0.1.0'' ''x'' 100 f32_zero 9000) bare_node)))
     \<and> mining_turn mem_env (Inr 5) 6 [] nd2 = nd2"
proof -
  let ?m = "handle_message mem_env (Inr 5) 0 ''10.0.0.1'' (PeerHandshake ''0.1.0'' ''x'' 100 f32_zero 9000) bare_node"
  let ?nd2 = "session_end ''10.0.0.1'' (snd (snd ?m))"
  have m: "?m = (fst ?m, fst (snd ?m), snd (snd ?m))" by simp
  have run: "(node_step mem_env)\<^sup>*\<^sup>* (snd (snd ?m)) ?nd2" by (rule r_into_rtranclp) (rule node_step.closed)
  from handshake_stops_mining [OF mn.node_contract_axioms m _ _ run] have "mining_turn mem_env (Inr 5) 6 [] ?nd2 = ?nd2"
    by (simp add: mem_node_def node_engine_with_def demo_state_def state_new_def)
  then show ?thesis by blast
qed

end
