(* ===== verification/Primus_Noise.thy ===== *)
theory Primus_Noise
  imports Primus_Sdk
begin

text \<open>
  The Noise channel, \<open>primus-net-opt/src/noise.rs\<close> and \<open>transport.rs\<close>: the handshake with its binding of
  identities, and the stream of encrypted frames. The snow crate is a parameter: the steps of a handshake
  and the encryption under an explicit nonce. A transport below the stream answers polls with the elements
  of a list.
\<close>

section \<open>Constants\<close>

definition MAX_FRAME_SIZE :: nat where "MAX_FRAME_SIZE = 65535"
definition TAG_LEN :: nat where "TAG_LEN = 16"
definition MAX_PLAINTEXT :: nat where "MAX_PLAINTEXT = MAX_FRAME_SIZE - TAG_LEN"

section \<open>The transport below\<close>

datatype 'a poll = Ready 'a | Pending

text \<open>Answers to reads: bytes that arrived, nothing yet, or a failure; the end of the list is the end of the
  stream. Answers to writes: room for some bytes, none yet, or a failure.\<close>

datatype arrival = Data bytes | NotReady | ReadError string
datatype room = Accept nat | Blocked | WriteError string

fun inner_read :: "nat \<Rightarrow> arrival list \<Rightarrow> (string + bytes) poll \<times> arrival list" where
  "inner_read n [] = (Ready (Inr []), [])"
| "inner_read n (Data bs # xs) =
     (Ready (Inr (take n bs)), if length bs \<le> n then xs else Data (drop n bs) # xs)"
| "inner_read n (NotReady # xs) = (Pending, xs)"
| "inner_read n (ReadError e # xs) = (Ready (Inl e), xs)"

section \<open>The stream\<close>

record 'n noise_ops =
  write_message :: "'n \<Rightarrow> u64 \<Rightarrow> bytes \<Rightarrow> string + bytes"
  read_message :: "'n \<Rightarrow> u64 \<Rightarrow> bytes \<Rightarrow> string + bytes"

record 'n NoiseStream =
  ns_noise :: 'n
  read_nonce :: u64
  write_nonce :: u64
  read_buf :: bytes
  decrypt_buf :: bytes
  write_buf :: bytes
  write_consumed :: nat
  is_wasm :: bool
  incoming :: "arrival list"
  rooms :: "room list"
  sent :: bytes

definition noise_new :: "'n \<Rightarrow> arrival list \<Rightarrow> room list \<Rightarrow> 'n NoiseStream" where
  "noise_new z xs rs =
     \<lparr>ns_noise = z, read_nonce = 0, write_nonce = 0, read_buf = [], decrypt_buf = [], write_buf = [],
      write_consumed = 0, is_wasm = False, incoming = xs, rooms = rs, sent = []\<rparr>"

definition header_len :: "'n NoiseStream \<Rightarrow> nat" where
  "header_len s = (if is_wasm s then 2 + 6 else 2)"

definition frame_len :: "bytes \<Rightarrow> nat" where
  "frame_len bs = unat (from_be_bytes (take 2 bs) :: u16)"

fun arrival_bytes :: "arrival \<Rightarrow> bytes" where
  "arrival_bytes (Data bs) = bs"
| "arrival_bytes _ = []"

abbreviation arrived :: "arrival list \<Rightarrow> bytes" where
  "arrived xs \<equiv> concat (map arrival_bytes xs)"

lemma inner_read_bytes: "inner_read n xs = (Ready (Inr bs), ys) \<Longrightarrow> arrived xs = bs @ arrived ys \<and> length bs \<le> n"
  by (induction n xs rule: inner_read.induct) (auto split: if_splits)

text \<open>Reading: decrypted bytes first; otherwise the header, the body, and the next frame is decrypted.
  \<open>cap\<close> is the room in the buffer of the caller.\<close>

function poll_read :: "'n noise_ops \<Rightarrow> nat \<Rightarrow> 'n NoiseStream \<Rightarrow> (string + bytes) poll \<times> 'n NoiseStream" where
  "poll_read Z cap s =
     (if decrypt_buf s \<noteq> []
      then (Ready (Inr (take cap (decrypt_buf s))), s\<lparr>decrypt_buf := drop cap (decrypt_buf s)\<rparr>)
      else if length (read_buf s) < header_len s
      then (case inner_read (header_len s - length (read_buf s)) (incoming s) of
              (Ready (Inr bs), xs) \<Rightarrow>
                if bs = [] then (Ready (Inr []), s\<lparr>incoming := xs\<rparr>)
                else poll_read Z cap (s\<lparr>incoming := xs, read_buf := read_buf s @ bs\<rparr>)
            | (Ready (Inl e), xs) \<Rightarrow> (Ready (Inl e), s\<lparr>incoming := xs\<rparr>)
            | (Pending, xs) \<Rightarrow> (Pending, s\<lparr>incoming := xs\<rparr>))
      else
        let total_len = header_len s + frame_len (read_buf s)
        in if length (read_buf s) < total_len
           then (case inner_read (total_len - length (read_buf s)) (incoming s) of
                   (Ready (Inr bs), xs) \<Rightarrow>
                     if bs = [] then (Ready (Inl ''connection closed mid-frame''), s\<lparr>incoming := xs\<rparr>)
                     else poll_read Z cap (s\<lparr>incoming := xs, read_buf := read_buf s @ bs\<rparr>)
                 | (Ready (Inl e), xs) \<Rightarrow> (Ready (Inl e), s\<lparr>incoming := xs\<rparr>)
                 | (Pending, xs) \<Rightarrow> (Pending, s\<lparr>incoming := xs\<rparr>))
           else (case read_message Z (ns_noise s) (read_nonce s)
                        (take (frame_len (read_buf s)) (drop (header_len s) (read_buf s))) of
                   Inl e \<Rightarrow> (Ready (Inl e), s)
                 | Inr decrypted \<Rightarrow>
                     poll_read Z cap (s\<lparr>read_nonce := read_nonce s + 1, decrypt_buf := decrypted,
                                       read_buf := drop total_len (read_buf s)\<rparr>)))"
  by pat_completeness auto
termination
proof (relation "measure (\<lambda>(Z, cap, s). 2 * length (arrived (incoming s)) + length (read_buf s))", goal_cases)
  case (2 Z cap s x xs y bs)
  then show ?case using inner_read_bytes [of _ "incoming s" bs xs] by (cases bs) (fastforce, force)
next
  case (3 Z cap s x xb xs y bs)
  then show ?case using inner_read_bytes [of _ "incoming s" bs xs] by (cases bs) (fastforce, force)
next
  case (4 Z cap s x dec)
  then show ?case by (auto simp: header_len_def)
qed simp

declare poll_read.simps [simp del]

text \<open>Flushing: the rest of the buffer is offered to the transport until it is taken or the transport
  cannot take more.\<close>

function poll_flush :: "'n NoiseStream \<Rightarrow> (string + unit) poll \<times> 'n NoiseStream" where
  "poll_flush s =
     (if write_consumed s < length (write_buf s)
      then (case rooms s of
              [] \<Rightarrow> (Pending, s)
            | Accept n # rs \<Rightarrow>
                let data = take n (drop (write_consumed s) (write_buf s))
                in poll_flush (s\<lparr>rooms := rs, sent := sent s @ data, write_consumed := write_consumed s + length data\<rparr>)
            | Blocked # rs \<Rightarrow> (Pending, s\<lparr>rooms := rs\<rparr>)
            | WriteError e # rs \<Rightarrow> (Ready (Inl e), s\<lparr>rooms := rs\<rparr>))
      else
        let s1 = s\<lparr>write_buf := [], write_consumed := 0\<rparr>
        in case rooms s1 of
             [] \<Rightarrow> (Pending, s1)
           | Accept _ # rs \<Rightarrow> (Ready (Inr ()), s1\<lparr>rooms := rs\<rparr>)
           | Blocked # rs \<Rightarrow> (Pending, s1\<lparr>rooms := rs\<rparr>)
           | WriteError e # rs \<Rightarrow> (Ready (Inl e), s1\<lparr>rooms := rs\<rparr>))"
  by pat_completeness auto
termination by (relation "measure (\<lambda>s. length (rooms s))") auto

declare poll_flush.simps [simp del]

definition frame :: "bool \<Rightarrow> bytes \<Rightarrow> bytes" where
  "frame wasm c = to_be_bytes 2 (of_nat (length c) :: u16) @ (if wasm then replicate 6 0 else []) @ c"

definition encrypt_frame :: "'n noise_ops \<Rightarrow> bytes \<Rightarrow> 'n NoiseStream \<Rightarrow> (string + nat) poll \<times> 'n NoiseStream" where
  "encrypt_frame Z buf s =
     (let n = min (length buf) MAX_PLAINTEXT
      in case write_message Z (ns_noise s) (write_nonce s) (take n buf) of
           Inl e \<Rightarrow> (Ready (Inl e), s)
         | Inr encrypted \<Rightarrow>
             let s1 = s\<lparr>write_nonce := write_nonce s + 1, write_buf := write_buf s @ frame (is_wasm s) encrypted,
                        write_consumed := 0\<rparr>
             in (Ready (Inr n), snd (poll_flush s1)))"

definition poll_write :: "'n noise_ops \<Rightarrow> bytes \<Rightarrow> 'n NoiseStream \<Rightarrow> (string + nat) poll \<times> 'n NoiseStream" where
  "poll_write Z buf s =
     (if write_buf s \<noteq> []
      then (case poll_flush s of
              (Ready (Inr _), s1) \<Rightarrow> encrypt_frame Z buf s1
            | (Ready (Inl e), s1) \<Rightarrow> (Ready (Inl e), s1)
            | (Pending, s1) \<Rightarrow> (Pending, s1))
      else encrypt_frame Z buf s)"

section \<open>The handshake\<close>

text \<open>The steps of the Noise pattern XX by snow: every message carries a payload, and its first 32 bytes are
  an ephemeral key. \<open>hs_read\<close> has the capacity of the payload buffer. The payload codec is bincode.\<close>

record ('h, 'n, 'sg, 'k) hs_env =
  hs_initiator :: "bytes \<Rightarrow> string + 'h"
  hs_responder :: "bytes \<Rightarrow> string + 'h"
  hs_write :: "bytes \<Rightarrow> 'h \<Rightarrow> string + bytes \<times> 'h"
  hs_read :: "nat \<Rightarrow> bytes \<Rightarrow> 'h \<Rightarrow> string + bytes \<times> 'h"
  hs_transport :: "'h \<Rightarrow> string + 'n"
  hs_suite :: "('sg, 'k) dsa_suite"
  ser_payload :: "NoiseHandshakePayload \<Rightarrow> string + bytes"
  de_payload :: "bytes \<Rightarrow> string + NoiseHandshakePayload"

text \<open>A message is copied to the front of a buffer that is used again.\<close>

definition overlay :: "bytes \<Rightarrow> bytes \<Rightarrow> bytes" where
  "overlay buf msg = msg @ drop (length msg) buf"

definition load_signer :: "('h, 'n, 'sg, 'k) hs_env \<Rightarrow> bytes \<Rightarrow> string + 'k" where
  "load_signer H sk =
     (if length sk \<noteq> SK_BYTES then Inl ''ML-DSA signing key must be 4896 bytes'' else Inr (decode_sk (hs_suite H) sk))"

text \<open>The checks of a peer's payload: the signature of its record, and its signature of our ephemeral key.\<close>

definition check_identity :: "('h, 'n, 'sg, 'k) hs_env \<Rightarrow> bytes \<Rightarrow> NoiseHandshakePayload \<Rightarrow> string + unit" where
  "check_identity H ephemeral p =
     (if \<not> nr_verify (suite_dsa (hs_suite H)) (hs_nr p) then Inl ''Node Record self-signature verification failed''
      else if length (nr_public_key (hs_nr p)) \<noteq> PK_BYTES then Inl ''public key must be 2592 bytes''
      else if length (ephemeral_sig p) \<noteq> SIG_BYTES then Inl ''ephemeral signature must be 4627 bytes''
      else (case decode_sig (suite_dsa (hs_suite H)) (ephemeral_sig p) of
              None \<Rightarrow> Inl ''ephemeral signature is malformed''
            | Some sig \<Rightarrow>
                if verify_sig (suite_dsa (hs_suite H)) (nr_public_key (hs_nr p)) ephemeral sig then Inr ()
                else Inl ''identity binding check failed''))"

text \<open>The initiator up to its first message, and from the answer on. The state between is the signer, the
  ephemeral key, the buffer and the handshake.\<close>

definition initiator_start ::
  "('h, 'n, 'sg, 'k) hs_env \<Rightarrow> bytes \<Rightarrow> bytes \<Rightarrow> string + bytes \<times> ('k \<times> bytes \<times> bytes \<times> 'h)" where
  "initiator_start H static_key sk =
     and_then (hs_initiator H static_key) (\<lambda>h.
     and_then (load_signer H sk) (\<lambda>signer.
     and_then (hs_write H [] h) (\<lambda>(m1, h1).
       let buf = overlay (replicate MAX_FRAME_SIZE 0) m1
       in Inr (m1, signer, take 32 buf, buf, h1))))"

definition initiator_finish ::
  "('h, 'n, 'sg, 'k) hs_env \<Rightarrow> PrimusNR \<Rightarrow> 'k \<times> bytes \<times> bytes \<times> 'h \<Rightarrow> bytes \<Rightarrow> string + bytes \<times> 'n" where
  "initiator_finish H local_nr st m2 =
     (case st of (signer, initiator_e, buf, h1) \<Rightarrow>
        let buf1 = overlay buf m2; responder_e = take 32 buf1
        in and_then (hs_read H MAX_FRAME_SIZE m2 h1) (\<lambda>(raw, h2).
           and_then (de_payload H raw) (\<lambda>p.
           and_then (check_identity H initiator_e p) (\<lambda>_.
           and_then (ser_payload H \<lparr>hs_nr = local_nr, ephemeral_sig = sign_bytes (hs_suite H) signer responder_e\<rparr>) (\<lambda>nr_bytes.
           and_then (hs_write H nr_bytes h2) (\<lambda>(m3, h3).
           and_then (hs_transport H h3) (\<lambda>z. Inr (m3, z))))))))"

text \<open>The responder on the first message, and on the last one.\<close>

definition responder_reply ::
  "('h, 'n, 'sg, 'k) hs_env \<Rightarrow> bytes \<Rightarrow> PrimusNR \<Rightarrow> bytes \<Rightarrow> bytes \<Rightarrow> string + bytes \<times> (bytes \<times> 'h)" where
  "responder_reply H static_key local_nr sk m1 =
     and_then (hs_responder H static_key) (\<lambda>h.
     and_then (load_signer H sk) (\<lambda>signer.
       let buf = overlay (replicate MAX_FRAME_SIZE 0) m1; initiator_e = take 32 buf
       in and_then (hs_read H 0 m1 h) (\<lambda>(_, h1).
          and_then (ser_payload H \<lparr>hs_nr = local_nr, ephemeral_sig = sign_bytes (hs_suite H) signer initiator_e\<rparr>) (\<lambda>nr_bytes.
          and_then (hs_write H nr_bytes h1) (\<lambda>(m2, h2).
            Inr (m2, take 32 (overlay buf m2), h2))))))"

definition responder_finish ::
  "('h, 'n, 'sg, 'k) hs_env \<Rightarrow> bytes \<times> 'h \<Rightarrow> bytes \<Rightarrow> string + 'n" where
  "responder_finish H st m3 =
     (case st of (responder_e, h2) \<Rightarrow>
        and_then (hs_read H MAX_FRAME_SIZE m3 h2) (\<lambda>(raw, h3).
        and_then (de_payload H raw) (\<lambda>p.
        and_then (check_identity H responder_e p) (\<lambda>_. hs_transport H h3))))"

text \<open>The two sides as wholes: \<open>answer\<close> is what the other side sends after a message, or the failure of the
  transport. Each message travels in a frame with a length field of two bytes; the frames are those of the codec of
  tokio, and \<open>answer\<close> stands for them. Bytes that the codec read beyond the third message are dropped at
  \<open>into_inner\<close>; the stream of the model starts after the handshake with nothing read.\<close>

definition handshake_initiator ::
  "('h, 'n, 'sg, 'k) hs_env \<Rightarrow> bytes \<Rightarrow> PrimusNR \<Rightarrow> bytes \<Rightarrow> (bytes \<Rightarrow> string + bytes) \<Rightarrow> string + bytes \<times> 'n" where
  "handshake_initiator H static_key local_nr sk answer =
     and_then (initiator_start H static_key sk) (\<lambda>(m1, st).
     and_then (answer m1) (\<lambda>m2. initiator_finish H local_nr st m2))"

definition handshake_responder ::
  "('h, 'n, 'sg, 'k) hs_env \<Rightarrow> bytes \<Rightarrow> PrimusNR \<Rightarrow> bytes \<Rightarrow> string + bytes \<Rightarrow> (bytes \<Rightarrow> string + bytes) \<Rightarrow> string + 'n" where
  "handshake_responder H static_key local_nr sk first answer =
     and_then first (\<lambda>m1.
     and_then (responder_reply H static_key local_nr sk m1) (\<lambda>(m2, st).
     and_then (answer m2) (\<lambda>m3. responder_finish H st m3)))"

text \<open>The stream of an inbound connection.\<close>

record 'n PrimusTransportStream =
  pt_noise :: "'n NoiseStream"
  is_leaf :: bool

definition handle_inbound ::
  "('h, 'n, 'sg, 'k) hs_env \<Rightarrow> bool \<Rightarrow> bytes \<Rightarrow> PrimusNR \<Rightarrow> bytes \<Rightarrow> string + bytes \<Rightarrow> (bytes \<Rightarrow> string + bytes)
     \<Rightarrow> arrival list \<Rightarrow> room list \<Rightarrow> string + 'n PrimusTransportStream" where
  "handle_inbound H wasm noise_static local_nr sk first answer xs rs =
     and_then (handshake_responder H noise_static local_nr sk first answer) (\<lambda>z.
       Inr \<lparr>pt_noise = (noise_new z xs rs)\<lparr>is_wasm := wasm\<rparr>, is_leaf = wasm\<rparr>)"

end
