(* ===== verification/Primus_Server.thy ===== *)
theory Primus_Server
  imports Primus_Noise Primus_Node
begin

text \<open>
  The QUIC server, \<open>primus-net-opt/src/server.rs\<close>, with the answers to routing requests that
  \<open>primus-core/src/main.rs\<close> plugs into it. A session holds the channel of a finished handshake and the two
  counters of nonces; a uni-directional stream carries one gossip message. The framing codec of
  \<open>tokio_util\<close> is a parameter that is called with the configuration of the source.
\<close>

section \<open>Sessions\<close>

definition STREAM_TYPE_GOSSIP :: u8 where "STREAM_TYPE_GOSSIP = 1"
definition MAX_GOSSIP_PAYLOAD :: nat where "MAX_GOSSIP_PAYLOAD = 16 * 1024 * 1024"

record 'n PeerSession =
  se_noise :: 'n
  recv_nonce :: u64
  send_nonce :: u64

definition session_new :: "'n \<Rightarrow> 'n PeerSession" where
  "session_new z = \<lparr>se_noise = z, recv_nonce = 0, send_nonce = 0\<rparr>"

text \<open>The counter advances on failure too.\<close>

definition session_decrypt :: "'n noise_ops \<Rightarrow> bytes \<Rightarrow> 'n PeerSession \<Rightarrow> (string + bytes) \<times> 'n PeerSession" where
  "session_decrypt Z ciphertext s =
     (read_message Z (se_noise s) (recv_nonce s) ciphertext, s\<lparr>recv_nonce := recv_nonce s + 1\<rparr>)"

definition gossip_header :: "bytes \<Rightarrow> bytes" where
  "gossip_header ciphertext = [STREAM_TYPE_GOSSIP, 0] @ to_be_bytes 4 (of_nat (length ciphertext) :: u32) @ [0, 0]"

text \<open>\<open>opened\<close> tells whether the connection gives a stream; the result is what is written to it.\<close>

definition send_gossip ::
  "'n noise_ops \<Rightarrow> string + unit \<Rightarrow> bytes \<Rightarrow> 'n PeerSession \<Rightarrow> (string + bytes) \<times> 'n PeerSession" where
  "send_gossip Z opened msg s =
     (let s1 = s\<lparr>send_nonce := send_nonce s + 1\<rparr>
      in (and_then (write_message Z (se_noise s) (send_nonce s) msg) (\<lambda>ciphertext.
          and_then opened (\<lambda>_. Inr (gossip_header ciphertext @ ciphertext))), s1))"

section \<open>The server\<close>

text \<open>The configuration of \<open>LengthDelimitedCodec\<close>; \<open>num_skip\<close> is \<open>None\<close> where the source leaves the default.\<close>

record ld_config =
  length_field_offset :: nat
  length_field_length :: nat
  length_adjustment :: nat
  num_skip :: "nat option"
  max_frame_length :: nat

definition gossip_codec :: ld_config where
  "gossip_codec = \<lparr>length_field_offset = 2, length_field_length = 4, length_adjustment = 2, num_skip = None,
     max_frame_length = MAX_GOSSIP_PAYLOAD + 8\<rparr>"

record ('t, 'm, 'n) server_env =
  sv_node :: "('t, 'm) node_env"
  sv_cipher :: "'n noise_ops"
  next_frame :: "ld_config \<Rightarrow> bytes \<Rightarrow> (string + bytes) option"
  ser_kad :: "KademliaMsg \<Rightarrow> string + bytes"
  de_kad :: "bytes \<Rightarrow> string + KademliaMsg"

record ('t, 'm, 'n) server =
  core :: "('t, 'm) node"
  sessions :: "SocketAddr \<rightharpoonup> 'n PeerSession"
  sv_drops :: u64
  closed_conns :: "SocketAddr list"

text \<open>A connection whose handshake has succeeded.\<close>

definition connection_ready :: "SocketAddr \<Rightarrow> 'n \<Rightarrow> ('t, 'm, 'n) server \<Rightarrow> ('t, 'm, 'n) server" where
  "connection_ready addr z sv = sv\<lparr>sessions := (sessions sv)(addr \<mapsto> session_new z)\<rparr>"

text \<open>A new connection: the handshake on its first bi-directional stream decides whether it gets a session.
  A WebTransport connection (\<open>wasm\<close>) is treated alike.\<close>

definition accept_connection ::
  "('h, 'n, 'sg, 'k) hs_env \<Rightarrow> bool \<Rightarrow> bytes \<Rightarrow> PrimusNR \<Rightarrow> bytes \<Rightarrow> SocketAddr \<Rightarrow> string + bytes \<Rightarrow> (bytes \<Rightarrow> string + bytes)
     \<Rightarrow> ('t, 'm, 'n) server \<Rightarrow> (string + unit) \<times> ('t, 'm, 'n) server" where
  "accept_connection H wasm noise_static local_nr sk addr first answer sv =
     (case handle_inbound H wasm noise_static local_nr sk first answer [] [] of
        Inl e \<Rightarrow> (Inl e, sv)
      | Inr t \<Rightarrow> (Inr (), connection_ready addr (ns_noise (pt_noise t)) sv))"

definition handle_gossip_stream ::
  "('t, 'm, 'n) server_env \<Rightarrow> string + u64 \<Rightarrow> bytes \<Rightarrow> SocketAddr \<Rightarrow> ('t, 'm, 'n) server
     \<Rightarrow> (string + unit) \<times> ('t, 'm, 'n) server" where
  "handle_gossip_stream V wall stream addr sv =
     (case next_frame V gossip_codec stream of
        None \<Rightarrow> (Inl ''Gossip: stream closed before header'', sv)
      | Some (Inl e) \<Rightarrow> (Inl e, sv\<lparr>sv_drops := sv_drops sv + 1\<rparr>)
      | Some (Inr fr) \<Rightarrow>
          if length fr < 8 then (Inl ''Gossip: frame too short'', sv)
          else if fr ! 0 \<noteq> STREAM_TYPE_GOSSIP then (Inl ''Gossip: unexpected stream type'', sv)
          else (case sessions sv addr of
                  None \<Rightarrow> (Inl ''Gossip: received data before Noise handshake completed'', sv)
                | Some se \<Rightarrow>
                    (case session_decrypt (sv_cipher V) (drop 8 fr) se of
                       (r, se1) \<Rightarrow>
                         let sv1 = sv\<lparr>sessions := (sessions sv)(addr \<mapsto> se1)\<rparr>
                         in (case and_then r (de_message (sv_node V)) of
                               Inl e \<Rightarrow> (Inl e, sv1)
                             | Inr (NewReaction data _) \<Rightarrow>
                                 (case ingress_push_bytes (sv_node V) wall data (core sv1) of
                                    (Inl e, nd) \<Rightarrow> (Inl e, sv1\<lparr>core := nd\<rparr>)
                                  | (Inr _, nd) \<Rightarrow> (Inr (), sv1\<lparr>core := nd\<rparr>))
                             | Inr _ \<Rightarrow> (Inr (), sv1)))))"

text \<open>The task of an accepted uni-directional stream: a failure ends the session and the connection.
  \<open>is_known\<close> tells whether the session was there when the stream was accepted.\<close>

definition uni_stream ::
  "('t, 'm, 'n) server_env \<Rightarrow> string + u64 \<Rightarrow> bool \<Rightarrow> bytes \<Rightarrow> SocketAddr \<Rightarrow> ('t, 'm, 'n) server \<Rightarrow> ('t, 'm, 'n) server" where
  "uni_stream V wall is_known stream addr sv =
     (if \<not> is_known then sv
      else (case handle_gossip_stream V wall stream addr sv of
              (Inr _, sv1) \<Rightarrow> sv1
            | (Inl _, sv1) \<Rightarrow> sv1\<lparr>sessions := (sessions sv1)(addr := None), closed_conns := addr # closed_conns sv1\<rparr>))"

text \<open>A stream of routing requests, frame by frame: the answers sent and how the stream ended.\<close>

fun bridge_rpc ::
  "('t, 'm, 'n) server_env \<Rightarrow> PrimusDHT \<Rightarrow> (string + bytes) list \<Rightarrow> bytes list \<times> (string + unit)" where
  "bridge_rpc V dht [] = ([], Inr ())"
| "bridge_rpc V dht (Inl e # fs) = ([], Inl e)"
| "bridge_rpc V dht (Inr b # fs) =
     (case de_kad V b of
        Inl e \<Rightarrow> ([], Inl e)
      | Inr (FindNodeRequest target) \<Rightarrow>
          (case ser_kad V (FindNodeResponse (find_closest (sha3_256 (ne_pf (sv_node V))) target 20 dht)) of
             Inl e \<Rightarrow> ([], Inl e)
           | Inr rb \<Rightarrow> (case bridge_rpc V dht fs of (rs, r) \<Rightarrow> (rb # rs, r)))
      | Inr (FindNodeResponse _) \<Rightarrow> bridge_rpc V dht fs)"

text \<open>A later bi-directional stream of a native connection is answered while the session exists.\<close>

definition bi_stream ::
  "('t, 'm, 'n) server_env \<Rightarrow> PrimusDHT \<Rightarrow> SocketAddr \<Rightarrow> (string + bytes) list \<Rightarrow> ('t, 'm, 'n) server \<Rightarrow> bytes list" where
  "bi_stream V dht addr frames sv =
     (case sessions sv addr of None \<Rightarrow> [] | Some _ \<Rightarrow> fst (bridge_rpc V dht frames))"

section \<open>Runs of the server\<close>

inductive server_step ::
  "('h, 'n, 'sg, 'k) hs_env \<Rightarrow> ('t, 'm, 'n) server_env \<Rightarrow> ('t, 'm, 'n) server \<Rightarrow> ('t, 'm, 'n) server \<Rightarrow> bool" for H V where
  connected: "server_step H V sv (snd (accept_connection H wasm static nr sk addr first answer sv))"
| stream: "server_step H V sv (uni_stream V wall is_known bs addr sv)"
| other: "node_step (sv_node V) (core sv) nd \<Longrightarrow> server_step H V sv (sv\<lparr>core := nd\<rparr>)"

end
