(* ===== verification/Noise_Correct.thy ===== *)
theory Noise_Correct
  imports Primus_Noise
begin

text \<open>
  Lemmas on the Noise stream: what a sender has put on the wire after any sequence of writes and flushes,
  and what a receiver reads from any fragmentation of it.
\<close>

section \<open>Frames\<close>

definition header_size :: "bool \<Rightarrow> nat" where
  "header_size w = (if w then 8 else 2)"

lemma header_len_size: "header_len s = header_size (is_wasm s)"
  by (simp add: header_len_def header_size_def)

lemma header_size_ge: "2 \<le> header_size w"
  by (simp add: header_size_def)

lemma length_frame: "length (frame w c) = header_size w + length c"
  by (simp add: frame_def header_size_def)

lemma drop_frame: "drop (header_size w) (frame w c @ r) = c @ r"
  by (simp add: frame_def header_size_def)

lemma frame_len_frame:
  assumes "length c \<le> MAX_FRAME_SIZE" and "take 2 bs = take 2 (frame w c @ r)"
  shows "frame_len bs = length c"
proof -
  have "take 2 bs = to_be_bytes 2 (of_nat (length c) :: u16)" using assms(2) by (simp add: frame_def)
  moreover have "from_be_bytes (to_be_bytes 2 v) = v" for v :: u16
    by (simp add: from_be_bytes_def to_be_bytes_def from_to_le_bytes take_bit_word_eq_self)
  ultimately show ?thesis
    using assms(1) by (simp add: frame_len_def unat_of_nat MAX_FRAME_SIZE_def)
qed

fun wire :: "'n noise_ops \<Rightarrow> 'n \<Rightarrow> bool \<Rightarrow> u64 \<Rightarrow> bytes list \<Rightarrow> bytes" where
  "wire Z z w n [] = []"
| "wire Z z w n (p # ps) = (case write_message Z z n p of Inr c \<Rightarrow> frame w c | Inl _ \<Rightarrow> []) @ wire Z z w (n + 1) ps"

lemma wire_snoc:
  "wire Z z w n (ps @ [p]) = wire Z z w n ps @ (case write_message Z z (n + of_nat (length ps)) p of Inr c \<Rightarrow> frame w c | Inl _ \<Rightarrow> [])"
  by (induction ps arbitrary: n) (simp_all add: algebra_simps)

section \<open>Sending\<close>

definition pending :: "'n NoiseStream \<Rightarrow> bytes" where
  "pending s = sent s @ drop (write_consumed s) (write_buf s)"

lemma poll_flush_pending:
  "poll_flush s = (r, s') \<Longrightarrow> write_consumed s \<le> length (write_buf s) \<Longrightarrow>
     pending s' = pending s \<and> write_consumed s' \<le> length (write_buf s') \<and> ns_noise s' = ns_noise s
     \<and> write_nonce s' = write_nonce s \<and> is_wasm s' = is_wasm s \<and> (\<forall>u. r = Ready (Inr u) \<longrightarrow> write_buf s' = [] \<and> write_consumed s' = 0)"
proof (induction s arbitrary: r s' rule: poll_flush.induct)
  case (1 s)
  show ?case
  proof (cases "write_consumed s < length (write_buf s)")
    case True
    show ?thesis
    proof (cases "rooms s")
      case (Cons x rs)
      show ?thesis
      proof (cases x)
        case (Accept n)
        let ?d = "take n (drop (write_consumed s) (write_buf s))"
        let ?s1 = "s\<lparr>rooms := rs, sent := sent s @ ?d, write_consumed := write_consumed s + length ?d\<rparr>"
        have "poll_flush ?s1 = (r, s')"
          using "1.prems"(1) True Cons Accept by (simp add: poll_flush.simps [of s] Let_def)
        moreover have "pending ?s1 = pending s"
          using append_take_drop_id [of n "drop (write_consumed s) (write_buf s)"]
          by (simp add: pending_def min_def add.commute)
        ultimately show ?thesis
          using "1.IH" [OF True Cons Accept refl, of r s'] "1.prems"(2) True by (simp add: min_def split: if_splits)
      qed (use "1.prems" True Cons in \<open>simp_all add: poll_flush.simps [of s] pending_def, auto\<close>)
    qed (use "1.prems" True in \<open>simp add: poll_flush.simps [of s]\<close>)
  next
    case False
    with "1.prems" show ?thesis
      by (auto simp: poll_flush.simps [of s] Let_def pending_def split: list.splits room.splits)
  qed
qed

text \<open>A sequence of writes and flushes, with the plaintexts that were accepted.\<close>

datatype write_op = Offer bytes | Flush

fun writes :: "'n noise_ops \<Rightarrow> write_op list \<Rightarrow> 'n NoiseStream \<Rightarrow> bytes list \<times> 'n NoiseStream" where
  "writes Z [] s = ([], s)"
| "writes Z (Offer b # ops) s =
     (case poll_write Z b s of
        (Ready (Inr n), s1) \<Rightarrow> (case writes Z ops s1 of (ps, s2) \<Rightarrow> (take n b # ps, s2))
      | (_, s1) \<Rightarrow> writes Z ops s1)"
| "writes Z (Flush # ops) s = writes Z ops (snd (poll_flush s))"

definition sender_ok :: "'n noise_ops \<Rightarrow> 'n \<Rightarrow> bool \<Rightarrow> bytes list \<Rightarrow> 'n NoiseStream \<Rightarrow> bool" where
  "sender_ok Z z w ps s \<longleftrightarrow>
     pending s = wire Z z w 0 ps \<and> write_nonce s = of_nat (length ps) \<and> ns_noise s = z \<and> is_wasm s = w
     \<and> write_consumed s \<le> length (write_buf s) \<and> (\<forall>p \<in> set ps. length p \<le> MAX_PLAINTEXT)"

lemma sender_flush: "sender_ok Z z w ps s \<Longrightarrow> poll_flush s = (r, s') \<Longrightarrow> sender_ok Z z w ps s'"
  using poll_flush_pending [of s r s'] by (simp add: sender_ok_def)

lemma sender_encrypt:
  assumes "sender_ok Z z w ps s" and "write_buf s = []" and "encrypt_frame Z b s = (r, s')"
  shows "(\<exists>n. r = Ready (Inr n) \<and> sender_ok Z z w (ps @ [take n b]) s') \<or> (\<exists>e. r = Ready (Inl e)) \<and> sender_ok Z z w ps s'"
proof (cases "write_message Z z (write_nonce s) (take (min (length b) MAX_PLAINTEXT) b)")
  case (Inr c)
  let ?n = "min (length b) MAX_PLAINTEXT"
  let ?s1 = "s\<lparr>write_nonce := write_nonce s + 1, write_buf := frame w c, write_consumed := 0\<rparr>"
  have "sender_ok Z z w (ps @ [take ?n b]) ?s1"
    using assms(1,2) Inr by (auto simp: sender_ok_def wire_snoc pending_def)
  moreover have "r = Ready (Inr ?n)" "s' = snd (poll_flush ?s1)"
    using assms Inr by (auto simp: encrypt_frame_def Let_def sender_ok_def)
  ultimately show ?thesis using sender_flush [of Z z w "ps @ [take ?n b]" ?s1] by (metis prod.collapse)
qed (use assms in \<open>auto simp: encrypt_frame_def Let_def sender_ok_def\<close>)

lemma sender_write:
  assumes "sender_ok Z z w ps s" and "poll_write Z b s = (r, s')"
  shows "(\<exists>n. r = Ready (Inr n) \<and> sender_ok Z z w (ps @ [take n b]) s')
    \<or> (\<forall>n. r \<noteq> Ready (Inr n)) \<and> sender_ok Z z w ps s'"
proof (cases "write_buf s = []")
  case True
  then show ?thesis using sender_encrypt [OF assms(1)] assms(2) by (fastforce simp: poll_write_def)
next
  case False
  obtain q s1 where f: "poll_flush s = (q, s1)" by fastforce
  have ok: "sender_ok Z z w ps s1" by (rule sender_flush [OF assms(1) f])
  show ?thesis
  proof (cases "\<exists>u. q = Ready (Inr u)")
    case True
    then have "write_buf s1 = []" using poll_flush_pending [OF f] assms(1) by (auto simp: sender_ok_def)
    moreover have "encrypt_frame Z b s1 = (r, s')" using assms(2) False f True by (auto simp: poll_write_def)
    ultimately show ?thesis using sender_encrypt [OF ok] by blast
  next
    case other: False
    then have "(\<forall>n. r \<noteq> Ready (Inr n)) \<and> s' = s1"
      using assms(2) False f by (auto simp: poll_write_def split: poll.splits sum.splits)
    then show ?thesis using ok by blast
  qed
qed

lemma sender_writes:
  "sender_ok Z z w qs s \<Longrightarrow> writes Z ops s = (ps, s') \<Longrightarrow> sender_ok Z z w (qs @ ps) s'"
proof (induction ops arbitrary: s qs ps s')
  case (Cons x ops)
  show ?case
  proof (cases x)
    case (Offer b)
    obtain r s1 where p: "poll_write Z b s = (r, s1)" by fastforce
    obtain ps1 s2 where w: "writes Z ops s1 = (ps1, s2)" by fastforce
    from sender_write [OF Cons.prems(1) p] show ?thesis
    proof
      assume "\<exists>n. r = Ready (Inr n) \<and> sender_ok Z z w (qs @ [take n b]) s1"
      then obtain n where n: "r = Ready (Inr n)" "sender_ok Z z w (qs @ [take n b]) s1" by blast
      then show ?thesis using Cons.IH [OF n(2) w] Cons.prems(2) Offer p w by auto
    next
      assume "(\<forall>n. r \<noteq> Ready (Inr n)) \<and> sender_ok Z z w qs s1"
      then show ?thesis using Cons.IH [OF _ w] Cons.prems(2) Offer p w by (auto split: poll.splits sum.splits)
    qed
  next
    case Flush
    obtain r s1 where "poll_flush s = (r, s1)" by fastforce
    then show ?thesis using sender_flush [OF Cons.prems(1)] Cons.IH Cons.prems(2) Flush by auto
  qed
qed simp

section \<open>Receiving\<close>

text \<open>Bytes arrive in non-empty pieces and without failure.\<close>

definition undisturbed :: "arrival list \<Rightarrow> bool" where
  "undisturbed xs \<longleftrightarrow> (\<forall>x \<in> set xs. x \<noteq> Data [] \<and> (\<forall>e. x \<noteq> ReadError e))"

lemma inner_read_clean:
  assumes "undisturbed xs" and "0 < n"
  obtains (eof) "xs = []" "inner_read n xs = (Ready (Inr []), [])"
  | (wait) ys where "inner_read n xs = (Pending, ys)" "undisturbed ys" "arrived ys = arrived xs" "length ys < length xs"
  | (data) bs ys where "inner_read n xs = (Ready (Inr bs), ys)" "bs \<noteq> []" "undisturbed ys" "arrived xs = bs @ arrived ys"
      "length ys \<le> length xs" "length bs \<le> n"
proof (cases xs)
  case (Cons x ys)
  show ?thesis
  proof (cases x)
    case (Data bs)
    have "bs \<noteq> []" using assms(1) Cons Data by (auto simp: undisturbed_def)
    then show ?thesis
      using Cons Data assms data [of "take n bs" "if length bs \<le> n then ys else Data (drop n bs) # ys"]
      by (auto simp: undisturbed_def split: if_splits)
  qed (use assms Cons wait [of ys] in \<open>auto simp: undisturbed_def\<close>)
qed (use eof in simp)

locale noise_channel =
  fixes Z :: "'n noise_ops" and z z' :: 'n
  assumes cipher_law: "length p \<le> MAX_PLAINTEXT \<Longrightarrow>
    \<exists>c. write_message Z z n p = Inr c \<and> read_message Z z' n c = Inr p \<and> length c = length p + TAG_LEN"
begin

definition receiver_ok :: "bytes list \<Rightarrow> 'n NoiseStream \<Rightarrow> bool" where
  "receiver_ok ps t \<longleftrightarrow>
     ns_noise t = z' \<and> undisturbed (incoming t) \<and> (\<forall>p \<in> set ps. length p \<le> MAX_PLAINTEXT)
     \<and> read_buf t @ arrived (incoming t) = wire Z z (is_wasm t) (read_nonce t) ps"

abbreviation todo :: "bytes list \<Rightarrow> 'n NoiseStream \<Rightarrow> bytes" where
  "todo ps t \<equiv> decrypt_buf t @ concat ps"

definition read_step :: "bytes list \<Rightarrow> 'n NoiseStream \<Rightarrow> nat \<Rightarrow> (string + bytes) poll \<times> 'n NoiseStream \<Rightarrow> bool" where
  "read_step ps t cap res \<longleftrightarrow> (\<exists>ps' r t'. res = (r, t') \<and> receiver_ok ps' t'
     \<and> (r = Pending \<and> todo ps' t' = todo ps t \<and> length (incoming t') < length (incoming t)
        \<or> (\<exists>bs. r = Ready (Inr bs) \<and> bs @ todo ps' t' = todo ps t \<and> length (incoming t') \<le> length (incoming t)
             \<and> (bs = [] \<longrightarrow> 0 < cap \<longrightarrow> todo ps t = []))))"

text \<open>The next frame of a receiver.\<close>

lemma receiver_frame:
  assumes "receiver_ok (p # ps) t"
  obtains c where "read_buf t @ arrived (incoming t) = frame (is_wasm t) c @ wire Z z (is_wasm t) (read_nonce t + 1) ps"
    "read_message Z z' (read_nonce t) c = Inr p" "length c \<le> MAX_FRAME_SIZE"
proof -
  have "length p \<le> MAX_PLAINTEXT" using assms by (simp add: receiver_ok_def)
  from cipher_law [OF this, of "read_nonce t"] show thesis
    using that assms \<open>length p \<le> MAX_PLAINTEXT\<close>
    by (auto simp: receiver_ok_def MAX_PLAINTEXT_def MAX_FRAME_SIZE_def TAG_LEN_def)
qed

lemma receiver_more:
  assumes "receiver_ok ps t" and "inner_read n (incoming t) = (Ready (Inr bs), ys)" and "arrived (incoming t) = bs @ arrived ys" and "undisturbed ys"
  shows "receiver_ok ps (t\<lparr>incoming := ys, read_buf := read_buf t @ bs\<rparr>)"
  using assms by (simp add: receiver_ok_def)

lemma read_step_from:
  assumes "read_step ps1 t1 cap res" and "todo ps1 t1 = todo ps t" and "length (incoming t1) \<le> length (incoming t)"
  shows "read_step ps t cap res"
  using assms unfolding read_step_def by (elim exE conjE) (intro exI conjI, assumption, assumption, auto)

lemma read_step_pending:
  assumes "receiver_ok ps t" and "undisturbed ys" and "arrived ys = arrived (incoming t)" and "length ys < length (incoming t)"
  shows "read_step ps t cap (Pending, t\<lparr>incoming := ys\<rparr>)"
  using assms by (auto simp: read_step_def receiver_ok_def intro!: exI [of _ ps])

lemma header_needs_frame:
  assumes "receiver_ok ps t" and "arrived (incoming t) = []" and "length (read_buf t) < header_len t"
  shows "ps = []"
proof (cases ps)
  case (Cons p qs)
  with assms(1) obtain c where "read_buf t @ arrived (incoming t) = frame (is_wasm t) c @ wire Z z (is_wasm t) (read_nonce t + 1) qs"
    using receiver_frame by blast
  then have "header_size (is_wasm t) \<le> length (read_buf t)"
    using assms(2) by (metis append_Nil2 length_append length_frame le_add1 add.assoc)
  then show ?thesis using assms(3) by (simp add: header_len_size)
qed

text \<open>With the header read, the first frame determines how many bytes are missing.\<close>

lemma receiver_body:
  assumes "receiver_ok ps t" and "header_len t \<le> length (read_buf t)"
  obtains p qs c where "ps = p # qs" "read_buf t @ arrived (incoming t) = frame (is_wasm t) c @ wire Z z (is_wasm t) (read_nonce t + 1) qs"
    "read_message Z z' (read_nonce t) c = Inr p" "frame_len (read_buf t) = length c"
proof -
  have "2 \<le> length (read_buf t)" using assms(2) header_size_ge [of "is_wasm t"] by (simp add: header_len_size)
  then have "ps \<noteq> []" using assms(1) by (auto simp: receiver_ok_def)
  then obtain p qs where ps: "ps = p # qs" by (cases ps) auto
  obtain c where c: "read_buf t @ arrived (incoming t) = frame (is_wasm t) c @ wire Z z (is_wasm t) (read_nonce t + 1) qs"
      "read_message Z z' (read_nonce t) c = Inr p" "length c \<le> MAX_FRAME_SIZE"
    using receiver_frame assms(1) ps by blast
  have "take 2 (read_buf t) = take 2 (read_buf t @ arrived (incoming t))" using \<open>2 \<le> length (read_buf t)\<close> by simp
  then have "frame_len (read_buf t) = length c" using frame_len_frame [OF c(3)] c(1) by metis
  then show thesis using that ps c by blast
qed

lemma decrypt_step:
  assumes "read_buf t @ arrived (incoming t) = frame (is_wasm t) c @ rest" and "header_len t + length c \<le> length (read_buf t)"
  shows "take (length c) (drop (header_len t) (read_buf t)) = c"
    and "drop (header_len t + length c) (read_buf t) @ arrived (incoming t) = rest"
proof -
  have b: "read_buf t = frame (is_wasm t) c @ drop (header_len t + length c) (read_buf t)"
    using assms by (metis append_eq_append_conv_if append_take_drop_id header_len_size length_frame)
  show "take (length c) (drop (header_len t) (read_buf t)) = c"
    using drop_frame [of "is_wasm t" c] by (subst b) (simp only: header_len_size, simp)
  show "drop (header_len t + length c) (read_buf t) @ arrived (incoming t) = rest"
    using assms(1) b by (metis append_assoc same_append_eq)
qed

lemma poll_read_step:
  assumes "receiver_ok ps t"
  shows "read_step ps t cap (poll_read Z cap t)"
  using assms
proof (induction "2 * length (arrived (incoming t)) + length (read_buf t)" arbitrary: t ps rule: less_induct)
  case less
  note unf = poll_read.simps [of Z cap t]
  have cl: "undisturbed (incoming t)" using less.prems by (simp add: receiver_ok_def)
  show ?case
  proof (cases "decrypt_buf t = []")
    case False
    then show ?thesis
      using less.prems unfolding unf read_step_def by (auto simp: receiver_ok_def intro!: exI [of _ ps])
  next
    case dec: True
    have go: "read_step ps t cap (poll_read Z cap t1)"
      if "receiver_ok ps1 t1" "todo ps1 t1 = todo ps t" "length (incoming t1) \<le> length (incoming t)"
        "2 * length (arrived (incoming t1)) + length (read_buf t1) < 2 * length (arrived (incoming t)) + length (read_buf t)" for ps1 t1
      using read_step_from [OF less.hyps [OF that(4,1)] that(2,3)] .
    show ?thesis
    proof (cases "length (read_buf t) < header_len t")
      case hd: True
      then have "0 < header_len t - length (read_buf t)" by simp
      with cl show ?thesis
      proof (cases rule: inner_read_clean)
        case eof
        then have "ps = []" using header_needs_frame [OF less.prems _ hd] by simp
        then show ?thesis using less.prems eof dec hd unfolding unf read_step_def
          by (auto simp: receiver_ok_def intro!: exI [of _ "[]"])
      next
        case (wait ys)
        then show ?thesis using read_step_pending [OF less.prems] dec hd unfolding unf by simp
      next
        case (data bs ys)
        then show ?thesis using go [OF receiver_more [OF less.prems data(1,4,3)]] dec hd unfolding unf by simp
      qed
    next
      case False
      then obtain p qs c where f: "ps = p # qs"
          "read_buf t @ arrived (incoming t) = frame (is_wasm t) c @ wire Z z (is_wasm t) (read_nonce t + 1) qs"
          "read_message Z z' (read_nonce t) c = Inr p" "frame_len (read_buf t) = length c"
        using receiver_body [OF less.prems] by (metis not_less)
      show ?thesis
      proof (cases "length (read_buf t) < header_len t + length c")
        case body: True
        then have "0 < header_len t + length c - length (read_buf t)" by simp
        with cl show ?thesis
        proof (cases rule: inner_read_clean)
          case eof
          then have "header_len t + length c \<le> length (read_buf t)"
            using f(2) by (metis append_Nil2 concat.simps(1) header_len_size length_append length_frame le_add1 list.map(1))
          then show ?thesis using body by simp
        next
          case (wait ys)
          then show ?thesis using read_step_pending [OF less.prems] dec False body f(4) unfolding unf by (simp add: Let_def)
        next
          case (data bs ys)
          then show ?thesis
            using go [OF receiver_more [OF less.prems data(1,4,3)]] dec False body f(4) unfolding unf by (simp add: Let_def)
        qed
      next
        case full: False
        let ?t1 = "t\<lparr>read_nonce := read_nonce t + 1, decrypt_buf := p, read_buf := drop (header_len t + length c) (read_buf t)\<rparr>"
        have d: "take (length c) (drop (header_len t) (read_buf t)) = c"
          "drop (header_len t + length c) (read_buf t) @ arrived (incoming t) = wire Z z (is_wasm t) (read_nonce t + 1) qs"
          using decrypt_step [OF f(2)] full by simp_all
        have "receiver_ok qs ?t1" using less.prems f(1) d(2) by (simp add: receiver_ok_def)
        moreover have "0 < header_len t" using header_size_ge [of "is_wasm t"] by (simp add: header_len_size)
        moreover have "ns_noise t = z'" using less.prems by (simp add: receiver_ok_def)
        ultimately show ?thesis using go [of qs ?t1] dec False full f d(1) unfolding unf by (simp add: Let_def)
      qed
    qed
  qed
qed

end

text \<open>A sequence of reads with buffers of the given sizes, up to the first failure.\<close>

fun reads :: "'n noise_ops \<Rightarrow> nat list \<Rightarrow> 'n NoiseStream \<Rightarrow> string + bytes" where
  "reads Z [] t = Inr []"
| "reads Z (cap # caps) t =
     (case poll_read Z cap t of
        (Ready (Inr bs), t1) \<Rightarrow> and_then (reads Z caps t1) (\<lambda>rest. Inr (bs @ rest))
      | (Ready (Inl e), t1) \<Rightarrow> Inl e
      | (Pending, t1) \<Rightarrow> reads Z caps t1)"

context noise_channel
begin

lemma reads_deliver:
  assumes "receiver_ok ps t"
  shows "\<exists>out rest. reads Z caps t = Inr out \<and> todo ps t = out @ rest
    \<and> (list_all (\<lambda>c. 0 < c) caps \<longrightarrow> length (todo ps t) + length (incoming t) \<le> length caps \<longrightarrow> rest = [])"
  using assms
proof (induction caps arbitrary: ps t)
  case (Cons cap caps)
  obtain ps' r t' where st: "poll_read Z cap t = (r, t')" "receiver_ok ps' t'"
      "r = Pending \<and> todo ps' t' = todo ps t \<and> length (incoming t') < length (incoming t)
       \<or> (\<exists>bs. r = Ready (Inr bs) \<and> bs @ todo ps' t' = todo ps t \<and> length (incoming t') \<le> length (incoming t)
             \<and> (bs = [] \<longrightarrow> 0 < cap \<longrightarrow> todo ps t = []))"
    using poll_read_step [OF Cons.prems, of cap] unfolding read_step_def by blast
  obtain out rest where IH: "reads Z caps t' = Inr out" "todo ps' t' = out @ rest"
      "list_all (\<lambda>c. 0 < c) caps \<longrightarrow> length (todo ps' t') + length (incoming t') \<le> length caps \<longrightarrow> rest = []"
    using Cons.IH [OF st(2)] by blast
  from st(3) show ?case
  proof
    assume p: "r = Pending \<and> todo ps' t' = todo ps t \<and> length (incoming t') < length (incoming t)"
    then show ?thesis using st(1) IH by (intro exI [of _ out] exI [of _ rest]) auto
  next
    assume "\<exists>bs. r = Ready (Inr bs) \<and> bs @ todo ps' t' = todo ps t \<and> length (incoming t') \<le> length (incoming t)
             \<and> (bs = [] \<longrightarrow> 0 < cap \<longrightarrow> todo ps t = [])"
    then obtain bs where b: "r = Ready (Inr bs)" "bs @ todo ps' t' = todo ps t" "length (incoming t') \<le> length (incoming t)"
        "bs = [] \<Longrightarrow> 0 < cap \<Longrightarrow> todo ps t = []" by blast
    have len: "length (todo ps t) = length bs + length (todo ps' t')" using b(2) by (metis length_append)
    have all: "todo ps t = (bs @ out) @ rest" using b(2) IH(2) by simp
    have "rest = []" if "list_all (\<lambda>c. 0 < c) (cap # caps)" "length (todo ps t) + length (incoming t) \<le> length (cap # caps)"
    proof (cases bs)
      case Nil
      then have "todo ps t = []" using b(4) that(1) by simp
      then show ?thesis using all by simp
    next
      case (Cons x xs)
      then have "length (todo ps' t') + length (incoming t') \<le> length caps" using that(2) len b(3) by simp
      then show ?thesis using IH(3) that(1) by simp
    qed
    moreover have "reads Z (cap # caps) t = Inr (bs @ out)" using st(1) b(1) IH(1) by simp
    ultimately show ?thesis using all by blast
  qed
qed simp

end

end
