(* ===== verification/Noise_Claims.thy ===== *)
theory Noise_Claims
  imports Noise_Correct Sdk_Claims
begin

text \<open>
  The properties of the Noise channel: an honest handshake ends in matching channels, acceptance binds the
  channel to a signed identity, and the stream delivers what was written under any fragmentation. The
  contract of snow is interpreted on a channel in memory.
\<close>

section \<open>The contract of the handshake\<close>

text \<open>\<open>paired i w r\<close>: after \<open>i\<close> messages \<open>w\<close> writes the next one and \<open>r\<close> reads it.\<close>

locale hs_contract = dsa_contract "hs_suite H"
  for H :: "('h, 'n, 'sg, 'k) hs_env" +
  fixes Z :: "'n noise_ops" and paired :: "nat \<Rightarrow> 'h \<Rightarrow> 'h \<Rightarrow> bool"
  assumes start_law: "length k = 32 \<Longrightarrow> length k' = 32 \<Longrightarrow> \<exists>h g. hs_initiator H k = Inr h \<and> hs_responder H k' = Inr g \<and> paired 0 h g"
    and exchange_law: "paired i w r \<Longrightarrow> i < 3 \<Longrightarrow> length p \<le> 60000 \<Longrightarrow>
      \<exists>m w' r'. hs_write H p w = Inr (m, w') \<and> 32 \<le> length m \<and> length m \<le> MAX_FRAME_SIZE
        \<and> (\<forall>cap \<ge> length p. hs_read H cap m r = Inr (p, r')) \<and> paired (Suc i) r' w'"
    and transport_law: "paired 3 w r \<Longrightarrow>
      \<exists>z z'. hs_transport H w = Inr z \<and> hs_transport H r = Inr z' \<and> noise_channel Z z z' \<and> noise_channel Z z' z"
    and payload_codec: "nr_verify (suite_dsa (hs_suite H)) (hs_nr pl) \<Longrightarrow> length (ephemeral_sig pl) = SIG_BYTES \<Longrightarrow>
      \<exists>b. ser_payload H pl = Inr b \<and> de_payload H b = Inr pl \<and> length b \<le> 60000"
begin

definition identity :: "bytes \<Rightarrow> PrimusNR \<Rightarrow> bool" where
  "identity sk nr \<longleftrightarrow> nr_verify (suite_dsa (hs_suite H)) nr \<and>
     (\<exists>fill rng. sk = signing_key (hs_suite H) (key_gen (hs_suite H) fill rng)
        \<and> nr_public_key nr = verifying_key (hs_suite H) (key_gen (hs_suite H) fill rng))"

lemma signer_of: "identity sk nr \<Longrightarrow> load_signer H sk = Inr (decode_sk (hs_suite H) sk)"
  by (auto simp: identity_def load_signer_def sk_length)

lemma signed_payload:
  assumes "identity sk nr"
    and p_def: "p = \<lparr>hs_nr = nr, ephemeral_sig = sign_bytes (hs_suite H) (decode_sk (hs_suite H) sk) e\<rparr>"
  shows "check_identity H e p = Inr ()" and "\<exists>b. ser_payload H p = Inr b \<and> de_payload H b = Inr p \<and> length b \<le> 60000"
proof -
  obtain fill rng where k: "sk = signing_key (hs_suite H) (key_gen (hs_suite H) fill rng)"
      "nr_public_key nr = verifying_key (hs_suite H) (key_gen (hs_suite H) fill rng)" "nr_verify (suite_dsa (hs_suite H)) nr"
    using assms(1) by (auto simp: identity_def)
  show "check_identity H e p = Inr ()"
    using k sign_verify [of fill rng e] by (auto simp: p_def check_identity_def sk_codec vk_length sig_length)
  show "\<exists>b. ser_payload H p = Inr b \<and> de_payload H b = Inr p \<and> length b \<le> 60000"
    using k by (intro payload_codec) (simp_all add: p_def sk_codec sig_length)
qed

lemma first_key: "32 \<le> length m \<Longrightarrow> take 32 (overlay buf m) = take 32 m"
  by (simp add: overlay_def)

lemma completes:
  assumes "length k = 32" and "length k' = 32" and "identity sk nr" and "identity sk' nr'"
  shows "\<exists>m1 st m2 st' m3 z z'. initiator_start H k sk = Inr (m1, st) \<and> responder_reply H k' nr' sk' m1 = Inr (m2, st')
    \<and> initiator_finish H nr st m2 = Inr (m3, z) \<and> responder_finish H st' m3 = Inr z'
    \<and> noise_channel Z z z' \<and> noise_channel Z z' z"
proof -
  obtain h g where s: "hs_initiator H k = Inr h" "hs_responder H k' = Inr g" "paired 0 h g"
    using start_law [OF assms(1,2)] by blast
  obtain m1 h1 g1 where e1: "hs_write H [] h = Inr (m1, h1)" "32 \<le> length m1" "hs_read H 0 m1 g = Inr ([], g1)" "paired 1 g1 h1"
    using exchange_law [OF s(3), of "[]"] by auto
  let ?p2 = "\<lparr>hs_nr = nr', ephemeral_sig = sign_bytes (hs_suite H) (decode_sk (hs_suite H) sk') (take 32 m1)\<rparr>"
  obtain b2 where b2: "ser_payload H ?p2 = Inr b2" "de_payload H b2 = Inr ?p2" "length b2 \<le> 60000"
    using signed_payload(2) [OF assms(4) refl] by blast
  obtain m2 g2 h2 where e2: "hs_write H b2 g1 = Inr (m2, g2)" "32 \<le> length m2" "hs_read H MAX_FRAME_SIZE m2 h1 = Inr (b2, h2)" "paired 2 h2 g2"
    using exchange_law [OF e1(4), of b2] b2(3) by (auto simp: MAX_FRAME_SIZE_def numeral_2_eq_2)
  let ?p3 = "\<lparr>hs_nr = nr, ephemeral_sig = sign_bytes (hs_suite H) (decode_sk (hs_suite H) sk) (take 32 m2)\<rparr>"
  obtain b3 where b3: "ser_payload H ?p3 = Inr b3" "de_payload H b3 = Inr ?p3" "length b3 \<le> 60000"
    using signed_payload(2) [OF assms(3) refl] by blast
  obtain m3 h3 g3 where e3: "hs_write H b3 h2 = Inr (m3, h3)" "hs_read H MAX_FRAME_SIZE m3 g2 = Inr (b3, g3)" "paired 3 g3 h3"
    using exchange_law [OF e2(4), of b3] b3(3) by (auto simp: MAX_FRAME_SIZE_def numeral_3_eq_3)
  obtain z z' where t: "hs_transport H h3 = Inr z" "hs_transport H g3 = Inr z'" "noise_channel Z z z'" "noise_channel Z z' z"
    using transport_law [OF e3(3)] by blast
  have "initiator_start H k sk = Inr (m1, decode_sk (hs_suite H) sk, take 32 m1, overlay (replicate MAX_FRAME_SIZE 0) m1, h1)"
    using s(1) e1 signer_of [OF assms(3)] by (simp add: initiator_start_def Let_def first_key)
  moreover have "responder_reply H k' nr' sk' m1 = Inr (m2, take 32 m2, g2)"
    using s(2) e1 e2 b2 signer_of [OF assms(4)] by (simp add: responder_reply_def Let_def first_key)
  moreover have "initiator_finish H nr (decode_sk (hs_suite H) sk, take 32 m1, overlay (replicate MAX_FRAME_SIZE 0) m1, h1) m2 = Inr (m3, z)"
    using e2 b2 b3 e3 t signed_payload(1) [OF assms(4) refl] by (simp add: initiator_finish_def Let_def first_key)
  moreover have "responder_finish H (take 32 m2, g2) m3 = Inr z'"
    using e3 b3 t signed_payload(1) [OF assms(3) refl] by (simp add: responder_finish_def)
  ultimately show ?thesis using t(3,4) by blast
qed

end

section \<open>A channel in memory\<close>

definition mem_cipher :: "unit noise_ops" where
  "mem_cipher = \<lparr>write_message = (\<lambda>_ n p. if MAX_PLAINTEXT < length p then Inl ''too long'' else Inr (p @ to_le_bytes 8 n @ replicate 8 0)),
     read_message = (\<lambda>_ n c. if length c < TAG_LEN \<or> drop (length c - TAG_LEN) c \<noteq> to_le_bytes 8 n @ replicate 8 0
                             then Inl ''bad tag'' else Inr (take (length c - TAG_LEN) c))\<rparr>"

definition put_hs :: "NoiseHandshakePayload \<Rightarrow> string + bytes" where
  "put_hs p =
     (if length (nr_public_key (hs_nr p)) = PK_BYTES \<and> length (nr_signature (hs_nr p)) = SIG_BYTES \<and> length (ephemeral_sig p) = SIG_BYTES
      then Inr (nr_public_key (hs_nr p) @ nr_signature (hs_nr p) @ ephemeral_sig p
        @ to_le_bytes 16 (addr_ip (hs_nr p)) @ to_le_bytes 2 (addr_port (hs_nr p)) @ to_le_bytes 8 (nr_timestamp (hs_nr p)))
      else Inl ''size'')"

definition get_hs :: "bytes \<Rightarrow> string + NoiseHandshakePayload" where
  "get_hs bs =
     (let r = drop PK_BYTES bs; e = drop SIG_BYTES r; a = drop SIG_BYTES e
      in Inr \<lparr>hs_nr = \<lparr>nr_public_key = take PK_BYTES bs, addr_ip = from_le_bytes (take 16 a), addr_port = from_le_bytes (take 2 (drop 16 a)),
                       nr_signature = take SIG_BYTES r, nr_timestamp = from_le_bytes (drop 18 a)\<rparr>,
              ephemeral_sig = take SIG_BYTES e\<rparr>)"

lemma get_put_hs: "put_hs p = Inr b \<Longrightarrow> get_hs b = Inr p"
  by (cases p; cases "hs_nr p") (auto simp: put_hs_def get_hs_def Let_def from_to_le_bytes take_bit_word_eq_self split: if_splits)

definition mem_hs :: "(nat, unit, bytes, bytes) hs_env" where
  "mem_hs = \<lparr>hs_initiator = (\<lambda>_. Inr 0), hs_responder = (\<lambda>_. Inr 0),
     hs_write = (\<lambda>p h. Inr (replicate 32 (of_nat h) @ p, Suc h)),
     hs_read = (\<lambda>cap m h. if cap + 32 < length m then Inl ''buffer'' else Inr (drop 32 m, Suc h)),
     hs_transport = (\<lambda>_. Inr ()), hs_suite = mem_suite, ser_payload = put_hs, de_payload = get_hs\<rparr>"

interpretation mem_channel: noise_channel mem_cipher "()" "()"
  by unfold_locales (auto simp: mem_cipher_def TAG_LEN_def)

interpretation mh: hs_contract mem_hs mem_cipher "\<lambda>i w r. w = i \<and> r = i"
proof (intro hs_contract.intro hs_contract_axioms.intro)
  show "dsa_contract (hs_suite mem_hs)" using mem_dsa.dsa_contract_axioms by (simp add: mem_hs_def)
  show "\<exists>b. ser_payload mem_hs pl = Inr b \<and> de_payload mem_hs b = Inr pl \<and> length b \<le> 60000"
    if "nr_verify (suite_dsa (hs_suite mem_hs)) (hs_nr pl)" "length (ephemeral_sig pl) = SIG_BYTES" for pl
  proof -
    have "\<exists>b. put_hs pl = Inr b \<and> length b \<le> 60000"
      using that by (auto simp: nr_verify_def put_hs_def PK_BYTES_def SIG_BYTES_def split: if_splits)
    then show ?thesis using get_put_hs [of pl] by (auto simp: mem_hs_def)
  qed
qed (auto simp: mem_hs_def MAX_FRAME_SIZE_def mem_channel.noise_channel_axioms)

section \<open>Properties\<close>

text \<open>C23. The handshake between two honest nodes completes: each side accepts the other's record and its
  signature of the own ephemeral key, and both end with channels that decrypt each other's messages.\<close>

theorem handshake_completes:
  assumes "hs_contract H Z paired" and "length k = 32" and "length k' = 32"
    and "nr_verify (suite_dsa (hs_suite H)) nr" and "nr_verify (suite_dsa (hs_suite H)) nr'"
    and "sk = signing_key (hs_suite H) (key_gen (hs_suite H) fill rng)"
    and "nr_public_key nr = verifying_key (hs_suite H) (key_gen (hs_suite H) fill rng)"
    and "sk' = signing_key (hs_suite H) (key_gen (hs_suite H) fill' rng')"
    and "nr_public_key nr' = verifying_key (hs_suite H) (key_gen (hs_suite H) fill' rng')"
  shows "\<exists>m1 st m2 st' m3 z z'. initiator_start H k sk = Inr (m1, st) \<and> responder_reply H k' nr' sk' m1 = Inr (m2, st')
    \<and> initiator_finish H nr st m2 = Inr (m3, z) \<and> responder_finish H st' m3 = Inr z'
    \<and> handshake_initiator H k nr sk (\<lambda>_. Inr m2) = Inr (m3, z) \<and> handshake_responder H k' nr' sk' (Inr m1) (\<lambda>_. Inr m3) = Inr z'
    \<and> noise_channel Z z z' \<and> noise_channel Z z' z"
proof -
  have "hs_contract.identity H sk nr" "hs_contract.identity H sk' nr'"
    using assms(4-9) by (auto simp: hs_contract.identity_def [OF assms(1)])
  from hs_contract.completes [OF assms(1-3) this] show ?thesis
    by (fastforce simp: handshake_initiator_def handshake_responder_def)
qed

definition mem_record :: PrimusNR where
  "mem_record = (let nr = \<lparr>nr_public_key = padded PK_BYTES (padded 32 []), addr_ip = 1, addr_port = 9000, nr_signature = [], nr_timestamp = 0\<rparr>
     in nr\<lparr>nr_signature := padded SIG_BYTES (nr_public_key nr @ nr_message nr)\<rparr>)"

lemma mem_record_verifies: "nr_verify (suite_dsa mem_suite) mem_record" "nr_public_key mem_record = padded PK_BYTES (padded 32 [])"
  by (simp_all add: nr_verify_def mem_suite_def mem_record_def nr_message_def Let_def)

theorem handshake_completes_witness:
  "\<exists>m1 st m2 st' m3 z z'. initiator_start mem_hs (replicate 32 1) (padded SK_BYTES (padded 32 [])) = Inr (m1, st)
     \<and> responder_reply mem_hs (replicate 32 2) mem_record (padded SK_BYTES (padded 32 [])) m1 = Inr (m2, st')
     \<and> initiator_finish mem_hs mem_record st m2 = Inr (m3, z) \<and> responder_finish mem_hs st' m3 = Inr z'"
proof -
  let ?fill = "\<lambda>(n :: nat) (r :: SeededRng). ([] :: bytes, r)" and ?rng = "rng_new []"
  have k: "signing_key (hs_suite mem_hs) (key_gen (hs_suite mem_hs) ?fill ?rng) = padded SK_BYTES (padded 32 [])"
    "verifying_key (hs_suite mem_hs) (key_gen (hs_suite mem_hs) ?fill ?rng) = padded PK_BYTES (padded 32 [])"
    by (simp_all add: mem_hs_def mem_suite_def)
  have v: "nr_verify (suite_dsa (hs_suite mem_hs)) mem_record" using mem_record_verifies(1) by (simp add: mem_hs_def)
  have "\<exists>m1 st m2 st' m3 z z'. initiator_start mem_hs (replicate 32 1) (padded SK_BYTES (padded 32 [])) = Inr (m1, st)
     \<and> responder_reply mem_hs (replicate 32 2) mem_record (padded SK_BYTES (padded 32 [])) m1 = Inr (m2, st')
     \<and> initiator_finish mem_hs mem_record st m2 = Inr (m3, z) \<and> responder_finish mem_hs st' m3 = Inr z'
     \<and> handshake_initiator mem_hs (replicate 32 1) mem_record (padded SK_BYTES (padded 32 [])) (\<lambda>_. Inr m2) = Inr (m3, z)
     \<and> handshake_responder mem_hs (replicate 32 2) mem_record (padded SK_BYTES (padded 32 [])) (Inr m1) (\<lambda>_. Inr m3) = Inr z'
     \<and> noise_channel mem_cipher z z' \<and> noise_channel mem_cipher z' z"
    by (rule handshake_completes [OF mh.hs_contract_axioms _ _ v v, where fill = ?fill and rng = ?rng and fill' = ?fill and rng' = ?rng])
      (simp_all only: k mem_record_verifies(2) length_replicate)
  then show ?thesis by blast
qed

text \<open>C22. The stream delivers what was written. Whatever sequence of writes and flushes a sender makes and however
  its transport takes the bytes, once all of them are out, a receiver gets them back under any
  fragmentation and delay: reads never fail, what they return is a prefix of the accepted plaintexts, and
  after enough reads it is all of them.\<close>

theorem noise_stream_delivers:
  assumes "noise_channel Z z z'" and "writes Z ops ((noise_new z xs rs)\<lparr>is_wasm := w\<rparr>) = (ps, s)"
    and "write_consumed s = length (write_buf s)" and "arrived ys = sent s" and "undisturbed ys"
  shows "\<exists>out rest. reads Z caps ((noise_new z' ys rs')\<lparr>is_wasm := w\<rparr>) = Inr out \<and> concat ps = out @ rest
    \<and> (list_all (\<lambda>c. 0 < c) caps \<longrightarrow> length (concat ps) + length ys \<le> length caps \<longrightarrow> rest = [])"
proof -
  let ?t = "(noise_new z' ys rs')\<lparr>is_wasm := w\<rparr>"
  have "sender_ok Z z w [] ((noise_new z xs rs)\<lparr>is_wasm := w\<rparr>)" by (simp add: sender_ok_def noise_new_def pending_def)
  from sender_writes [OF this assms(2)] have "sent s = wire Z z w 0 ps" "\<forall>p \<in> set ps. length p \<le> MAX_PLAINTEXT"
    using assms(3) by (simp_all add: sender_ok_def pending_def)
  then have "noise_channel.receiver_ok Z z z' ps ?t"
    using assms(4,5) by (simp add: noise_channel.receiver_ok_def [OF assms(1)] noise_new_def)
  from noise_channel.reads_deliver [OF assms(1) this, of caps] show ?thesis by (simp add: noise_new_def)
qed

theorem noise_stream_delivers_witness:
  "reads mem_cipher [2, 2, 2, 2, 2, 2]
     ((noise_new () [Data [0], NotReady, Data [19, 1, 2, 3, 0, 0, 0, 0, 0, 0, 0, 0, 0, 0, 0, 0, 0, 0, 0, 0]] [])\<lparr>is_wasm := False\<rparr>)
   = Inr [1, 2, 3]"
proof -
  let ?ys = "[Data [0], NotReady, Data [19, 1, 2, 3, 0, 0, 0, 0, 0, 0, 0, 0, 0, 0, 0, 0, 0, 0, 0, 0]]"
  let ?s0 = "(noise_new () [] [Accept 4, Blocked, Accept 100, Accept 1])\<lparr>is_wasm := False\<rparr>"
  have "case writes mem_cipher [Offer [1, 2, 3], Flush] ?s0 of (ps, s) \<Rightarrow>
      ps = [[1, 2, 3]] \<and> write_consumed s = length (write_buf s) \<and> arrived ?ys = sent s"
    by (simp add: poll_write_def encrypt_frame_def mem_cipher_def noise_new_def poll_flush.simps frame_def MAX_PLAINTEXT_def
        MAX_FRAME_SIZE_def TAG_LEN_def to_be_bytes_def to_le_bytes_def) code_simp
  then obtain s where w: "writes mem_cipher [Offer [1, 2, 3], Flush] ?s0 = ([[1, 2, 3]], s)"
      "write_consumed s = length (write_buf s)" "arrived ?ys = sent s" by auto
  have "undisturbed ?ys" by (simp add: undisturbed_def)
  from noise_stream_delivers [OF mem_channel.noise_channel_axioms w this, of "[2, 2, 2, 2, 2, 2]" "[]"] show ?thesis
    by auto
qed

text \<open>A stream that is cut inside a header looks like one that has ended: the read succeeds with nothing.\<close>

theorem truncated_header_ends_stream:
  "fst (poll_read Z cap (noise_new z [Data [b]] rs)) = Ready (Inr [])"
  by (simp add: poll_read.simps [of Z cap "noise_new z [Data [b]] rs"])
    (simp add: poll_read.simps noise_new_def header_len_def)

end
