(* ===== verification/Server_Claims.thy ===== *)
theory Server_Claims
  imports Primus_Server Node_Claims Noise_Claims
begin

text \<open>
  The properties of the QUIC server: it keeps the invariant of the node, it refuses every gossip stream that
  a session of the same program sends, and it cannot decrypt streams that are handled out of order.
\<close>

section \<open>The invariant\<close>

lemma uni_stream_core:
  "core (uni_stream V wall kn bs addr sv) = core sv
   \<or> (\<exists>data r. ingress_push_bytes (sv_node V) wall data (core sv) = (r, core (uni_stream V wall kn bs addr sv)))"
  by (auto simp: uni_stream_def handle_gossip_stream_def Let_def split: option.splits sum.splits prod.splits PrimusMessage.splits if_splits)

text \<open>The server keeps the invariant of the node: whatever streams, connections and other steps of the node
  follow each other, mempool, routing table, peer list, gossip memory and reassembler stay consistent.\<close>

theorem server_keeps_node_ok:
  assumes "node_contract (sv_node V) healthy contents" and "(server_step H V)\<^sup>*\<^sup>* sv sv'"
    and "node_ok (sv_node V) healthy contents (core sv)"
  shows "node_ok (sv_node V) healthy contents (core sv')"
  using assms(2,3)
proof (induction rule: rtranclp_induct)
  case (step sv1 sv2)
  have "evolves (sv_node V) healthy contents (core sv1) (core sv2)"
    using step(2)
  proof cases
    case (stream wall kn bs addr)
    then show ?thesis
      using uni_stream_core [of V wall kn bs addr sv1] node_contract.ev_ingress [OF assms(1)] node_contract.ev_refl [OF assms(1)]
      by metis
  qed (use node_contract.ev_step [OF assms(1)] node_contract.ev_refl [OF assms(1)] in \<open>auto simp: accept_connection_def connection_ready_def split: sum.splits\<close>)
  then show ?case using step.IH step.prems by (simp add: evolves_def)
qed

section \<open>Gossip streams\<close>

text \<open>The documented behaviour of the codec, for length fields of four bytes in big-endian order: once they
  have arrived, \<open>num_skip\<close> bytes are dropped, by default those up to the end of the length field, and the frame
  is as many bytes as the field and the adjustment say.\<close>

definition documented_codec :: "(ld_config \<Rightarrow> bytes \<Rightarrow> (string + bytes) option) \<Rightarrow> bool" where
  "documented_codec nf \<longleftrightarrow> (\<forall>cfg bs. let n = unat (from_be_bytes (take 4 (drop (length_field_offset cfg) bs)) :: u32);
       head = length_field_offset cfg + 4; skip = (case num_skip cfg of None \<Rightarrow> head | Some k \<Rightarrow> k)
     in length_field_length cfg = 4 \<longrightarrow> max head (skip + n + length_adjustment cfg) \<le> length bs \<longrightarrow> n \<le> max_frame_length cfg \<longrightarrow>
        nf cfg bs = Some (Inr (take (n + length_adjustment cfg) (drop skip bs))))"

lemma gossip_frame:
  assumes "documented_codec nf" and "length c \<le> MAX_GOSSIP_PAYLOAD"
  shows "nf gossip_codec (gossip_header c @ c) = Some (Inr ([0, 0] @ c))"
proof -
  have "unat (from_be_bytes (to_be_bytes 4 (of_nat (length c) :: u32)) :: u32) = length c"
    using assms(2) by (simp add: from_be_bytes_def to_be_bytes_def from_to_le_bytes take_bit_word_eq_self unat_of_nat MAX_GOSSIP_PAYLOAD_def)
  moreover have "take 4 (drop 2 (gossip_header c @ c)) = to_be_bytes 4 (of_nat (length c) :: u32)"
    by (simp add: gossip_header_def)
  ultimately show ?thesis
    using assms(1) [unfolded documented_codec_def, rule_format, of gossip_codec "gossip_header c @ c"] assms(2)
    by (simp add: Let_def gossip_codec_def) (simp add: gossip_header_def)
qed

text \<open>C37. No gossip stream gets through. The codec drops the first six bytes of a stream by default, and the
  handler looks for the type of the stream in what is left: the stream of every message that a session sends
  is refused for its type, and the receiving side ends the session and closes the connection.\<close>

theorem gossip_stream_rejected:
  assumes "documented_codec (next_frame V)" and "send_gossip Z opened msg s = (Inr stream, s')"
    and "length stream \<le> MAX_GOSSIP_PAYLOAD" and "\<forall>n p c. write_message Z (se_noise s) n p = Inr c \<longrightarrow> TAG_LEN \<le> length c"
  shows "handle_gossip_stream V wall stream addr sv = (Inl ''Gossip: unexpected stream type'', sv)
    \<and> sessions (uni_stream V wall True stream addr sv) addr = None \<and> addr \<in> set (closed_conns (uni_stream V wall True stream addr sv))
    \<and> core (uni_stream V wall True stream addr sv) = core sv"
proof -
  obtain c where c: "write_message Z (se_noise s) (send_nonce s) msg = Inr c" "stream = gossip_header c @ c"
    using assms(2) by (auto simp: send_gossip_def Let_def result_simps)
  have "length c \<le> MAX_GOSSIP_PAYLOAD" using assms(3) c(2) by simp
  from gossip_frame [OF assms(1) this] have "next_frame V gossip_codec stream = Some (Inr ([0, 0] @ c))" using c(2) by simp
  moreover have "TAG_LEN \<le> length c" using assms(4) c(1) by blast
  ultimately have "handle_gossip_stream V wall stream addr sv = (Inl ''Gossip: unexpected stream type'', sv)"
    by (simp add: handle_gossip_stream_def STREAM_TYPE_GOSSIP_def TAG_LEN_def)
  then show ?thesis by (simp add: uni_stream_def)
qed

definition mem_next_frame :: "ld_config \<Rightarrow> bytes \<Rightarrow> (string + bytes) option" where
  "mem_next_frame cfg bs =
     (let n = unat (from_be_bytes (take 4 (drop (length_field_offset cfg) bs)) :: u32);
          head = length_field_offset cfg + 4; skip = (case num_skip cfg of None \<Rightarrow> head | Some k \<Rightarrow> k)
      in if length_field_length cfg = 4 \<and> max head (skip + n + length_adjustment cfg) \<le> length bs \<and> n \<le> max_frame_length cfg
         then Some (Inr (take (n + length_adjustment cfg) (drop skip bs)))
         else None)"

definition mem_server_env :: "((bytes \<times> bytes) list, (bytes, bytes) btree, unit) server_env" where
  "mem_server_env = \<lparr>sv_node = mem_env, sv_cipher = mem_cipher, next_frame = mem_next_frame,
     ser_kad = (\<lambda>_. Inr []), de_kad = (\<lambda>_. Inl ''empty'')\<rparr>"

definition mem_server :: "((bytes \<times> bytes) list, (bytes, bytes) btree, unit) server" where
  "mem_server = \<lparr>core = bare_node, sessions = [(V4 1, 9000) \<mapsto> session_new ()], sv_drops = 0, closed_conns = []\<rparr>"

theorem gossip_stream_rejected_witness:
  "\<exists>stream s'. send_gossip mem_cipher (Inr ()) [7] (session_new ()) = (Inr stream, s')
     \<and> handle_gossip_stream mem_server_env (Inr 5) stream (V4 1, 9000) mem_server = (Inl ''Gossip: unexpected stream type'', mem_server)"
proof -
  have d: "documented_codec (next_frame mem_server_env)"
    by (simp add: documented_codec_def mem_server_env_def mem_next_frame_def Let_def)
  obtain stream s' where s: "send_gossip mem_cipher (Inr ()) [7] (session_new ()) = (Inr stream, s')" "length stream \<le> MAX_GOSSIP_PAYLOAD"
    by (simp add: send_gossip_def mem_cipher_def MAX_PLAINTEXT_def MAX_FRAME_SIZE_def TAG_LEN_def gossip_header_def MAX_GOSSIP_PAYLOAD_def)
  have "\<forall>n p c. write_message mem_cipher (se_noise (session_new ())) n p = Inr c \<longrightarrow> TAG_LEN \<le> length c"
    by (auto simp: mem_cipher_def TAG_LEN_def split: if_splits)
  from gossip_stream_rejected [OF d s this, where wall = "Inr 5" and addr = "(V4 1, 9000)" and sv = mem_server] s(1) show ?thesis by blast
qed

text \<open>The receiver counts the streams in the order in which it handles them. Of two messages sent one after
  the other, the second cannot be decrypted when its stream is handled first, by a cipher that rejects
  wrong nonces.\<close>

theorem streams_out_of_order_fail:
  assumes "noise_channel Z z z'" and "\<And>n n' p c. n \<noteq> n' \<Longrightarrow> write_message Z z n p = Inr c \<Longrightarrow> \<exists>e. read_message Z z' n' c = Inl e"
    and "write_message Z z 0 m1 = Inr c1" and "write_message Z z 1 m2 = Inr c2" and "length m1 \<le> MAX_PLAINTEXT" and "length m2 \<le> MAX_PLAINTEXT"
  shows "fst (session_decrypt Z c1 (session_new z')) = Inr m1
    \<and> fst (session_decrypt Z c2 (snd (session_decrypt Z c1 (session_new z')))) = Inr m2
    \<and> (\<exists>e. fst (session_decrypt Z c2 (session_new z')) = Inl e)
    \<and> (\<exists>e. fst (session_decrypt Z c1 (snd (session_decrypt Z c2 (session_new z')))) = Inl e)"
proof -
  have "read_message Z z' 0 c1 = Inr m1" "read_message Z z' 1 c2 = Inr m2"
    using noise_channel.cipher_law [OF assms(1,5), of 0] noise_channel.cipher_law [OF assms(1,6), of 1] assms(3,4) by auto
  moreover have "\<exists>e. read_message Z z' 0 c2 = Inl e" "\<exists>e. read_message Z z' 1 c1 = Inl e"
    using assms(2) [of 1 0 m2 c2] assms(2) [of 0 1 m1 c1] assms(3,4) by simp_all
  ultimately show ?thesis by (simp add: session_decrypt_def session_new_def)
qed

end
