(* ===== verification/Stream_Actions.thy ===== *)
theory Stream_Actions
  imports Primus_Prelude
begin

text \<open>
  The vocabulary of the clients: an action runs on the state of a connection and returns a result or an
  error with the new state; it has no result (\<open>None\<close>) when it never returns, because it waits for bytes
  that never come or loops. A byte stream is given by its operations on an arbitrary state, so that one
  definition of a client runs against a pipe, a script or a modelled server.
\<close>

named_theorems act_simps \<open>execution of actions\<close>

section \<open>Actions\<close>

type_synonym ('s, 'e, 'a) act = "'s \<Rightarrow> (('e + 'a) \<times> 's) option"

definition act_return :: "'a \<Rightarrow> ('s, 'e, 'a) act" where
  "act_return x s = Some (Inr x, s)"

definition act_fail :: "'e \<Rightarrow> ('s, 'e, 'a) act" where
  "act_fail e s = Some (Inl e, s)"

definition act_bind :: "('s, 'e, 'a) act \<Rightarrow> ('a \<Rightarrow> ('s, 'e, 'b) act) \<Rightarrow> ('s, 'e, 'b) act" where
  "act_bind m f s =
     (case m s of
        None \<Rightarrow> None
      | Some (Inl e, s1) \<Rightarrow> Some (Inl e, s1)
      | Some (Inr x, s1) \<Rightarrow> f x s1)"

text \<open>A pure result, the \<open>map_err\<close> of the source, and an action on a part of the state.\<close>

definition act_lift :: "'e + 'a \<Rightarrow> ('s, 'e, 'a) act" where
  "act_lift r s = Some (r, s)"

definition act_map_err :: "('e \<Rightarrow> 'f) \<Rightarrow> ('s, 'e, 'a) act \<Rightarrow> ('s, 'f, 'a) act" where
  "act_map_err f m s =
     (case m s of
        None \<Rightarrow> None
      | Some (Inl e, s1) \<Rightarrow> Some (Inl (f e), s1)
      | Some (Inr x, s1) \<Rightarrow> Some (Inr x, s1))"

text \<open>The result is inspected and the action goes on in either case.\<close>

definition act_catch :: "('s, 'e, 'a) act \<Rightarrow> ('s, 'f, 'e + 'a) act" where
  "act_catch m s = (case m s of None \<Rightarrow> None | Some (r, s1) \<Rightarrow> Some (Inr r, s1))"

definition act_zoom :: "('s \<Rightarrow> 'w) \<Rightarrow> ('w \<Rightarrow> 's \<Rightarrow> 's) \<Rightarrow> ('w, 'e, 'a) act \<Rightarrow> ('s, 'e, 'a) act" where
  "act_zoom get put m s = (case m (get s) of None \<Rightarrow> None | Some (r, w) \<Rightarrow> Some (r, put w s))"

text \<open>An action under a time limit: where it would wait forever the limit ends it.\<close>

definition act_timeout :: "'e \<Rightarrow> ('s, 'e, 'a) act \<Rightarrow> ('s, 'e, 'a) act" where
  "act_timeout e m s = (case m s of None \<Rightarrow> Some (Inl e, s) | Some r \<Rightarrow> Some r)"

lemma act_run [act_simps]:
  "act_return x s = Some (Inr x, s)"
  "act_fail e s = Some (Inl e, s)"
  "act_lift r s = Some (r, s)"
  by (simp_all add: act_return_def act_fail_def act_lift_def)

lemma act_bind_run [act_simps]:
  "m s = Some (Inr x, s1) \<Longrightarrow> act_bind m f s = f x s1"
  "m s = Some (Inl e, s1) \<Longrightarrow> act_bind m f s = Some (Inl e, s1)"
  "m s = None \<Longrightarrow> act_bind m f s = None"
  by (simp_all add: act_bind_def)

lemma act_map_err_run [act_simps]:
  "m s = Some (Inr x, s1) \<Longrightarrow> act_map_err g m s = Some (Inr x, s1)"
  "m s = Some (Inl e, s1) \<Longrightarrow> act_map_err g m s = Some (Inl (g e), s1)"
  "m s = None \<Longrightarrow> act_map_err g m s = None"
  by (simp_all add: act_map_err_def)

lemma act_catch_run [act_simps]:
  "m s = Some (r, s1) \<Longrightarrow> act_catch m s = Some (Inr r, s1)"
  "m s = None \<Longrightarrow> act_catch m s = None"
  by (simp_all add: act_catch_def)

lemma act_zoom_run [act_simps]:
  "m (get s) = Some (r, w) \<Longrightarrow> act_zoom get put m s = Some (r, put w s)"
  "m (get s) = None \<Longrightarrow> act_zoom get put m s = None"
  by (simp_all add: act_zoom_def)

lemma act_bind_Some:
  "act_bind m f s = Some (Inr y, s2) \<longleftrightarrow> (\<exists>x s1. m s = Some (Inr x, s1) \<and> f x s1 = Some (Inr y, s2))"
  by (auto simp: act_bind_def split: option.splits sum.splits)

lemma act_bind_assoc: "act_bind (act_bind m f) g = act_bind m (\<lambda>x. act_bind (f x) g)"
  by (auto simp: fun_eq_iff act_bind_def split: option.splits sum.splits)

lemma act_bind_return [simp]: "act_bind m act_return = m"
  by (auto simp: fun_eq_iff act_bind_def act_return_def split: option.splits sum.splits)

section \<open>Byte streams\<close>

text \<open>\<open>stream_read n\<close> is \<open>read_exact\<close>: all \<open>n\<close> bytes, a failure, or no return.\<close>

record 'w stream_ops =
  stream_write :: "bytes \<Rightarrow> ('w, string, unit) act"
  stream_flush :: "('w, string, unit) act"
  stream_read :: "nat \<Rightarrow> ('w, string, bytes) act"

text \<open>A script: what the other side has sent is given, and what is written is recorded. At its end the
  connection stays open without bytes, or is closed.\<close>

record script =
  sc_in :: bytes
  sc_out :: bytes
  sc_closed :: bool

definition script_ops :: "script stream_ops" where
  "script_ops =
     \<lparr>stream_write = (\<lambda>bs s. Some (Inr (), s\<lparr>sc_out := sc_out s @ bs\<rparr>)),
      stream_flush = (\<lambda>s. Some (Inr (), s)),
      stream_read = (\<lambda>n s.
        if n \<le> length (sc_in s) then Some (Inr (take n (sc_in s)), s\<lparr>sc_in := drop n (sc_in s)\<rparr>)
        else if sc_closed s then Some (Inl ''early eof'', s\<lparr>sc_in := []\<rparr>)
        else None)\<rparr>"

lemma script_run [act_simps]:
  "stream_write script_ops bs s = Some (Inr (), s\<lparr>sc_out := sc_out s @ bs\<rparr>)"
  "stream_flush script_ops s = Some (Inr (), s)"
  "n \<le> length (sc_in s) \<Longrightarrow> stream_read script_ops n s = Some (Inr (take n (sc_in s)), s\<lparr>sc_in := drop n (sc_in s)\<rparr>)"
  by (simp_all add: script_ops_def)

section \<open>Lengths on the wire\<close>

lemma be_length:
  assumes "n < 2 ^ LENGTH('a)" and "LENGTH('a::len) = 8 * k"
  shows "unat (from_be_bytes (to_be_bytes k (of_nat n :: 'a word)) :: 'a word) = n"
  using assms by (simp add: from_be_bytes_def to_be_bytes_def from_to_le_bytes take_bit_word_eq_self unat_of_nat)

lemma le_length:
  assumes "n < 2 ^ LENGTH('a)" and "LENGTH('a::len) = 8 * k"
  shows "unat (from_le_bytes (to_le_bytes k (of_nat n :: 'a word)) :: 'a word) = n"
  using assms by (simp add: from_to_le_bytes take_bit_word_eq_self unat_of_nat)

end
