(* ===== verification/Primus_Client.thy ===== *)
theory Primus_Client
  imports Stream_Actions Primus_Noise Primus_Node Primus_Sdk
begin

text \<open>
  The client of a node, \<open>primus-client/src/rpc.rs\<close>: its messages, the two transports (plain TCP with a
  length prefix, and Noise records), and the queries. The byte stream is a parameter (\<open>stream_ops\<close>),
  so are snow and bincode. Reads have no time limit, as in the source: a query that is never answered
  never returns.
\<close>

section \<open>Messages\<close>

definition MAX_FRAME_BYTES :: u32 where "MAX_FRAME_BYTES = 16 * 1024 * 1024"
definition NOISE_KEY_LEN :: nat where "NOISE_KEY_LEN = 32"

datatype CliMessage =
    CliPing
  | CliPong
  | CliHandshake string string u64 f32 u16
  | CliGetPeers
  | CliPeersResponse "string list"
  | CliNewReaction bytes u8
  | CliNewCrystal bytes u8
  | CliGetCrystal u64
  | CliCrystalResponse bytes
  | CliSync
  | CliFetchState bytes
  | CliStateResponse u64 u64 hash32 string
  | CliSubmitReaction bytes
  | CliReactionAck hash32
  | CliNodeError string
  | CliGetProof bytes
  | CliProofResponse MerkleProof

record AtomState =
  at_mass :: u64
  at_nonce :: u64
  at_last_hash :: hash32
  at_element :: AtomElement

datatype PrimusSdkError =
    SequenceMismatch
  | ThermalThrottling u64
  | NodeUnreachable
  | SdkNodeError string
  | SdkTransport string
  | SdkProofTooOld u64 u64

section \<open>Noise records\<close>

record ('n, 'w) NoiseTransport =
  nt_stream :: 'w
  nt_noise :: 'n
  nt_send_nonce :: u64
  nt_recv_nonce :: u64
  nt_read_buf :: bytes

abbreviation on_nt_stream :: "('w, 'e, 'a) act \<Rightarrow> (('n, 'w) NoiseTransport, 'e, 'a) act" where
  "on_nt_stream m \<equiv> act_zoom nt_stream (\<lambda>w t. t\<lparr>nt_stream := w\<rparr>) m"

text \<open>One chunk: encrypted, counted, and written behind its length.\<close>

definition send_chunk :: "'n noise_ops \<Rightarrow> 'w stream_ops \<Rightarrow> bytes \<Rightarrow> (('n, 'w) NoiseTransport, PrimusSdkError, unit) act" where
  "send_chunk Z W chunk t =
     (case write_message Z (nt_noise t) (nt_send_nonce t) chunk of
        Inl e \<Rightarrow> Some (Inl (SdkTransport e), t)
      | Inr ciphertext \<Rightarrow>
          act_bind (act_map_err SdkTransport (on_nt_stream (stream_write W (to_be_bytes 2 (of_nat (length ciphertext) :: u16)))))
            (\<lambda>_. act_map_err SdkTransport (on_nt_stream (stream_write W ciphertext)))
            (t\<lparr>nt_send_nonce := nt_send_nonce t + 1\<rparr>))"

fun send_chunks :: "'n noise_ops \<Rightarrow> 'w stream_ops \<Rightarrow> bytes list \<Rightarrow> (('n, 'w) NoiseTransport, PrimusSdkError, unit) act" where
  "send_chunks Z W [] = act_return ()"
| "send_chunks Z W (c # cs) = act_bind (send_chunk Z W c) (\<lambda>_. send_chunks Z W cs)"

definition send_raw :: "'n noise_ops \<Rightarrow> 'w stream_ops \<Rightarrow> bytes \<Rightarrow> (('n, 'w) NoiseTransport, PrimusSdkError, unit) act" where
  "send_raw Z W plaintext =
     (let app_len = of_nat (length plaintext) :: u32
      in if MAX_FRAME_BYTES < app_len then act_fail (SdkTransport ''CLI: outgoing frame too large'')
         else act_bind (send_chunks Z W (chunks 65519 (to_be_bytes 4 app_len @ plaintext)))
                (\<lambda>_. act_map_err SdkTransport (on_nt_stream (stream_flush W))))"

text \<open>One record: its length, its bytes, and the plaintext behind the buffer.\<close>

definition read_record :: "'n noise_ops \<Rightarrow> 'w stream_ops \<Rightarrow> (('n, 'w) NoiseTransport, PrimusSdkError, unit) act" where
  "read_record Z W =
     act_bind (act_map_err (\<lambda>_. NodeUnreachable) (on_nt_stream (stream_read W 2))) (\<lambda>len_buf.
     act_bind (act_map_err SdkTransport (on_nt_stream (stream_read W (unat (from_be_bytes len_buf :: u16))))) (\<lambda>enc_buf t.
       case read_message Z (nt_noise t) (nt_recv_nonce t) enc_buf of
         Inl e \<Rightarrow> Some (Inl (SdkTransport e), t)
       | Inr out \<Rightarrow> Some (Inr (), t\<lparr>nt_recv_nonce := nt_recv_nonce t + 1, nt_read_buf := nt_read_buf t @ out\<rparr>)))"

text \<open>Records may be empty, so this loop need not end.\<close>

partial_function (option) fill_buf_to ::
  "'n noise_ops \<Rightarrow> 'w stream_ops \<Rightarrow> nat \<Rightarrow> ('n, 'w) NoiseTransport \<Rightarrow> ((PrimusSdkError + unit) \<times> ('n, 'w) NoiseTransport) option" where
  "fill_buf_to Z W target t =
     (if length (nt_read_buf t) < target
      then (case read_record Z W t of
              None \<Rightarrow> None
            | Some (Inl e, t1) \<Rightarrow> Some (Inl e, t1)
            | Some (Inr _, t1) \<Rightarrow> fill_buf_to Z W target t1)
      else Some (Inr (), t))"

declare fill_buf_to.simps [code]

definition recv_raw :: "'n noise_ops \<Rightarrow> 'w stream_ops \<Rightarrow> (('n, 'w) NoiseTransport, PrimusSdkError, bytes) act" where
  "recv_raw Z W =
     act_bind (fill_buf_to Z W 4) (\<lambda>_ t.
       let frame_len = unat (from_be_bytes (take 4 (nt_read_buf t)) :: u32)
       in if unat MAX_FRAME_BYTES < frame_len then Some (Inl (SdkTransport ''CLI: incoming frame too large''), t)
          else if frame_len = 0 then Some (Inl (SdkTransport ''CLI: empty frame''), t)
          else act_bind (fill_buf_to Z W (4 + frame_len)) (\<lambda>_ t1.
                 Some (Inr (take frame_len (drop 4 (nt_read_buf t1))),
                       t1\<lparr>nt_read_buf := drop (4 + frame_len) (nt_read_buf t1)\<rparr>)) t)"

section \<open>The client\<close>

datatype ('n, 'w) Transport = Noise "('n, 'w) NoiseTransport" | Plain 'w

record ('n, 'w) NodeClient =
  last_known_nr :: "PrimusNR option"
  transport :: "('n, 'w) Transport"

record ('sg, 'k, 'f, 'n, 'w) client_env =
  ce_sdk :: "('sg, 'k, 'f) sdk_env"
  ce_cipher :: "'n noise_ops"
  ce_stream :: "'w stream_ops"
  ser_cli :: "CliMessage \<Rightarrow> string + bytes"
  de_cli :: "bytes \<Rightarrow> string + CliMessage"

definition client_new :: "('n, 'w) Transport \<Rightarrow> ('n, 'w) NodeClient" where
  "client_new tr = \<lparr>last_known_nr = None, transport = tr\<rparr>"

text \<open>The handshake of the client: pattern XX has three messages, of which the initiator writes the
  first and the last one; all payloads are empty. A message is framed by its length in two bytes.\<close>

datatype connect_error = ConnectTimeout | ConnectionRefused | ConnectFailed string

definition handshake_send :: "('h, 'n, 'sg, 'k) hs_env \<Rightarrow> 'w stream_ops \<Rightarrow> 'h \<Rightarrow> ('w, string, 'h) act" where
  "handshake_send H W h =
     act_bind (act_lift (hs_write H [] h)) (\<lambda>(msg, h1).
     act_bind (stream_write W (to_be_bytes 2 (of_nat (length msg) :: u16))) (\<lambda>_.
     act_bind (stream_write W msg) (\<lambda>_.
     act_bind (stream_flush W) (\<lambda>_. act_return h1))))"

definition handshake_recv :: "('h, 'n, 'sg, 'k) hs_env \<Rightarrow> 'w stream_ops \<Rightarrow> 'h \<Rightarrow> ('w, string, 'h) act" where
  "handshake_recv H W h =
     act_bind (act_timeout ''Handshake read timeout'' (stream_read W 2)) (\<lambda>len_buf.
       let frame_len = unat (from_be_bytes len_buf :: u16)
       in act_bind (stream_read W frame_len) (\<lambda>frame.
          act_bind (act_lift (hs_read H frame_len frame h)) (\<lambda>(_, h1). act_return h1)))"

definition client_handshake :: "('h, 'n, 'sg, 'k) hs_env \<Rightarrow> 'w stream_ops \<Rightarrow> bytes \<Rightarrow> ('w, string, 'n) act" where
  "client_handshake H W static_key =
     act_bind (act_lift (hs_initiator H static_key)) (\<lambda>h.
     act_bind (handshake_send H W h) (\<lambda>h1.
     act_bind (handshake_recv H W h1) (\<lambda>h2.
     act_bind (handshake_send H W h2) (\<lambda>h3. act_lift (hs_transport H h3)))))"

text \<open>\<open>conn\<close> is the outcome of the attempt to connect.\<close>

definition new_with_noise ::
  "('h, 'n, 'sg, 'k) hs_env \<Rightarrow> 'w stream_ops \<Rightarrow> connect_error + 'w \<Rightarrow> bytes \<Rightarrow> (PrimusSdkError + ('n, 'w) NodeClient) option" where
  "new_with_noise H W conn static_key =
     (if length static_key \<noteq> NOISE_KEY_LEN then Some (Inl (SdkTransport ''Noise static key must be 32 bytes''))
      else case conn of
        Inl ConnectTimeout \<Rightarrow> Some (Inl NodeUnreachable)
      | Inl ConnectionRefused \<Rightarrow> Some (Inl NodeUnreachable)
      | Inl (ConnectFailed e) \<Rightarrow> Some (Inl (SdkTransport e))
      | Inr stream \<Rightarrow>
          (case client_handshake H W static_key stream of
             None \<Rightarrow> None
           | Some (Inl e, _) \<Rightarrow> Some (Inl (SdkTransport e))
           | Some (Inr z, stream1) \<Rightarrow>
               Some (Inr (client_new (Noise \<lparr>nt_stream = stream1, nt_noise = z, nt_send_nonce = 0, nt_recv_nonce = 0,
                                             nt_read_buf = []\<rparr>)))))"

definition new_plain :: "connect_error + 'w \<Rightarrow> PrimusSdkError + ('n, 'w) NodeClient" where
  "new_plain conn =
     (case conn of
        Inl ConnectTimeout \<Rightarrow> Inl NodeUnreachable
      | Inl ConnectionRefused \<Rightarrow> Inl (SdkTransport ''TCP connect failed: connection refused'')
      | Inl (ConnectFailed e) \<Rightarrow> Inl (SdkTransport e)
      | Inr stream \<Rightarrow> Inr (client_new (Plain stream)))"

text \<open>Plain TCP first, and Noise with a fresh key where that fails; \<open>conn'\<close> is the second attempt to
  connect and \<open>random_key\<close> the key of \<open>new_with_ephemeral_noise\<close>.\<close>

definition new_auto ::
  "('h, 'n, 'sg, 'k) hs_env \<Rightarrow> 'w stream_ops \<Rightarrow> connect_error + 'w \<Rightarrow> connect_error + 'w \<Rightarrow> bytes
     \<Rightarrow> (PrimusSdkError + ('n, 'w) NodeClient) option" where
  "new_auto H W conn conn' random_key =
     (case new_plain conn of Inr c \<Rightarrow> Some (Inr c) | Inl _ \<Rightarrow> new_with_noise H W conn' random_key)"

text \<open>The transport of a client is one of the two.\<close>

definition on_transport ::
  "(('n, 'w) NoiseTransport, 'e, 'a) act \<Rightarrow> ('w, 'e, 'a) act \<Rightarrow> (('n, 'w) NodeClient, 'e, 'a) act" where
  "on_transport m p c =
     (case transport c of
        Noise t \<Rightarrow> (case m t of None \<Rightarrow> None | Some (r, t1) \<Rightarrow> Some (r, c\<lparr>transport := Noise t1\<rparr>))
      | Plain w \<Rightarrow> (case p w of None \<Rightarrow> None | Some (r, w1) \<Rightarrow> Some (r, c\<lparr>transport := Plain w1\<rparr>)))"

definition send_plain :: "'w stream_ops \<Rightarrow> bytes \<Rightarrow> ('w, PrimusSdkError, unit) act" where
  "send_plain W bs =
     act_bind (act_map_err SdkTransport (stream_write W (to_be_bytes 4 (of_nat (length bs) :: u32)))) (\<lambda>_.
     act_bind (act_map_err SdkTransport (stream_write W bs)) (\<lambda>_.
       act_map_err SdkTransport (stream_flush W)))"

definition recv_plain :: "'w stream_ops \<Rightarrow> ('w, PrimusSdkError, bytes) act" where
  "recv_plain W =
     act_bind (act_map_err (\<lambda>_. NodeUnreachable) (stream_read W 4)) (\<lambda>len_buf.
       let len = unat (from_be_bytes len_buf :: u32)
       in if unat MAX_FRAME_BYTES < len then act_fail (SdkTransport ''Incoming frame too large'')
          else act_map_err SdkTransport (stream_read W len))"

definition send_msg :: "('sg, 'k, 'f, 'n, 'w) client_env \<Rightarrow> CliMessage \<Rightarrow> (('n, 'w) NodeClient, PrimusSdkError, unit) act" where
  "send_msg C msg =
     (case ser_cli C msg of
        Inl e \<Rightarrow> act_fail (SdkTransport e)
      | Inr bs \<Rightarrow> on_transport (send_raw (ce_cipher C) (ce_stream C) bs) (send_plain (ce_stream C) bs))"

definition recv_msg :: "('sg, 'k, 'f, 'n, 'w) client_env \<Rightarrow> (('n, 'w) NodeClient, PrimusSdkError, CliMessage) act" where
  "recv_msg C =
     act_bind (on_transport (recv_raw (ce_cipher C) (ce_stream C)) (recv_plain (ce_stream C))) (\<lambda>bs.
       act_map_err SdkTransport (act_lift (de_cli C bs)))"

section \<open>Queries\<close>

definition parse_element :: "string \<Rightarrow> AtomElement" where
  "parse_element s =
     (if s = ''Hydrogen'' then SdkHydrogen else if s = ''Carbon'' then SdkCarbon
      else if s = ''Oxygen'' then SdkOxygen else if s = ''Gold'' then SdkGold else SdkHydrogen)"

definition decoded_address :: "('sg, 'k, 'f, 'n, 'w) client_env \<Rightarrow> string \<Rightarrow> PrimusSdkError + bytes" where
  "decoded_address C address_hex =
     (case decode_address (ce_sdk C) address_hex of Inl e \<Rightarrow> Inl (SdkTransport e) | Inr bs \<Rightarrow> Inr bs)"

definition client_atom_state ::
  "('sg, 'k, 'f, 'n, 'w) client_env \<Rightarrow> string \<Rightarrow> (('n, 'w) NodeClient, PrimusSdkError, AtomState) act" where
  "client_atom_state C address_hex =
     act_bind (act_lift (decoded_address C address_hex)) (\<lambda>addr.
     act_bind (send_msg C (CliFetchState addr)) (\<lambda>_.
     act_bind (recv_msg C) (\<lambda>resp.
       case resp of
         CliStateResponse ms nc last_hash el \<Rightarrow>
           act_return \<lparr>at_mass = ms, at_nonce = nc, at_last_hash = last_hash, at_element = parse_element el\<rparr>
       | CliNodeError reason \<Rightarrow> act_fail (SdkNodeError reason)
       | _ \<Rightarrow> act_fail (SdkTransport ''Unexpected response''))))"

definition client_get_crystal ::
  "('sg, 'k, 'f, 'n, 'w) client_env \<Rightarrow> u64 \<Rightarrow> (('n, 'w) NodeClient, PrimusSdkError, bytes) act" where
  "client_get_crystal C height =
     act_bind (send_msg C (CliGetCrystal height)) (\<lambda>_.
     act_bind (recv_msg C) (\<lambda>resp.
       case resp of
         CliCrystalResponse bs \<Rightarrow> act_return bs
       | CliNodeError reason \<Rightarrow> act_fail (SdkNodeError reason)
       | _ \<Rightarrow> act_fail (SdkTransport ''Unexpected response'')))"

definition get_balance_proof ::
  "('sg, 'k, 'f, 'n, 'w) client_env \<Rightarrow> string \<Rightarrow> (('n, 'w) NodeClient, PrimusSdkError, MerkleProof) act" where
  "get_balance_proof C address_hex =
     act_bind (act_lift (decoded_address C address_hex)) (\<lambda>addr.
     act_bind (send_msg C (CliGetProof addr)) (\<lambda>_.
     act_bind (recv_msg C) (\<lambda>resp.
       case resp of
         CliProofResponse pf \<Rightarrow> act_return pf
       | CliNodeError reason \<Rightarrow> act_fail (SdkNodeError reason)
       | _ \<Rightarrow> act_fail (SdkTransport ''Unexpected response''))))"

fun contains :: "string \<Rightarrow> string \<Rightarrow> bool" where
  "contains pat [] = (pat = [])"
| "contains pat (c # cs) = (take (length pat) (c # cs) = pat \<or> contains pat cs)"

text \<open>One submission: the transaction is built anew with the time of the call, and the answer is awaited.
  The result is the hash of an accepted reaction.\<close>

definition submit_once ::
  "('sg, 'k, 'f, 'n, 'w) client_env \<Rightarrow> string + u64 \<Rightarrow> TransactionBuilder \<Rightarrow> (('n, 'w) NodeClient, PrimusSdkError, CliMessage) act" where
  "submit_once C now b =
     act_bind (act_map_err SdkTransport (act_lift (and_then (build (ce_sdk C) now b) (to_bytes (ce_sdk C))))) (\<lambda>bs.
     act_bind (send_msg C (CliSubmitReaction bs)) (\<lambda>_. recv_msg C))"

definition answered :: "CliMessage \<Rightarrow> (('n, 'w) NodeClient, PrimusSdkError, hash32) act" where
  "answered resp =
     (case resp of
        CliReactionAck h \<Rightarrow> act_return h
      | CliNodeError reason \<Rightarrow> act_fail (SdkNodeError reason)
      | _ \<Rightarrow> act_fail (SdkNodeError ''Unexpected response to SubmitReaction''))"

text \<open>After an answer that names a sequence mismatch the account is read again and the transaction is
  submitted a second and last time.\<close>

definition broadcast_tx ::
  "('sg, 'k, 'f, 'n, 'w) client_env \<Rightarrow> string + u64 \<Rightarrow> string + u64 \<Rightarrow> Wallet \<Rightarrow> TransactionBuilder
     \<Rightarrow> (('n, 'w) NodeClient, PrimusSdkError, hash32) act" where
  "broadcast_tx C now now' wallet b =
     act_bind (submit_once C now b) (\<lambda>resp.
       case resp of
         CliNodeError reason \<Rightarrow>
           if contains ''Sequence Mismatch'' reason
           then act_bind (client_atom_state C (address wallet)) (\<lambda>st.
                act_bind (submit_once C now' (builder_sender_last_hash (at_last_hash st) (builder_sender_nonce (at_nonce st) b)))
                  answered)
           else act_fail (SdkNodeError reason)
       | _ \<Rightarrow> answered resp)"

section \<open>The send command of the terminal client\<close>

text \<open>\<open>primus-cli/src/commands/tx.rs\<close>. An account that cannot be read is replaced by one with enough mass.
  The answer of the node is printed: the command succeeds whatever it says.\<close>

definition assumed_state :: "u64 \<Rightarrow> AtomState" where
  "assumed_state amount =
     \<lparr>at_mass = amount + PROTOCOL_MIN_FEE + 1000, at_nonce = 0, at_last_hash = zero_hash, at_element = SdkHydrogen\<rparr>"

definition transfer_builder :: "Wallet \<Rightarrow> bytes \<Rightarrow> u64 \<Rightarrow> AtomState \<Rightarrow> TransactionBuilder" where
  "transfer_builder w recipient amount st =
     builder_sender_element (at_element st) (builder_sender_nonce (at_nonce st)
       (builder_sender_last_hash (at_last_hash st) (builder_sender_mass (at_mass st)
         (builder_fee PROTOCOL_MIN_FEE (builder_amount amount (builder_recipient recipient (builder_new w)))))))"

datatype cli_error = CliText string | CliSdk PrimusSdkError

definition send_over ::
  "('sg, 'k, 'f, 'n, 'w) client_env \<Rightarrow> string + u64 \<Rightarrow> string + u64 \<Rightarrow> Wallet \<Rightarrow> bytes \<Rightarrow> u64
     \<Rightarrow> (('n, 'w) NodeClient, cli_error, PrimusSdkError + hash32) act" where
  "send_over C now now' w recipient amount =
     act_bind (act_catch (client_atom_state C (address w))) (\<lambda>r.
       let st = (case r of Inr st \<Rightarrow> st | Inl _ \<Rightarrow> assumed_state amount)
       in if at_mass st < amount + PROTOCOL_MIN_FEE then act_fail (CliText ''Insufficient mass'')
          else act_catch (broadcast_tx C now now' w (transfer_builder w recipient amount st)))"

text \<open>\<open>client\<close> is the outcome of \<open>new_auto\<close>, which is called once wallet and address are read; the last
  component is the connection at the end.\<close>

definition cli_send ::
  "('sg, 'k, 'f, 'n, 'w) client_env \<Rightarrow> 'f \<Rightarrow> string + u64 \<Rightarrow> string + u64 \<Rightarrow> string \<Rightarrow> u64 \<Rightarrow> string
     \<Rightarrow> (PrimusSdkError + ('n, 'w) NodeClient) option
     \<Rightarrow> ((cli_error + (PrimusSdkError + hash32)) \<times> ('n, 'w) NodeClient option) option" where
  "cli_send C fs now now' to_address amount wallet_path client =
     (case and_then (wallet_load (ce_sdk C) wallet_path fs) (\<lambda>w.
           and_then (decode_address (ce_sdk C) to_address) (\<lambda>recipient. Inr (w, recipient))) of
        Inl e \<Rightarrow> Some (Inl (CliText e), None)
      | Inr (w, recipient) \<Rightarrow>
          (case client of
             None \<Rightarrow> None
           | Some (Inl e) \<Rightarrow> Some (Inl (CliSdk e), None)
           | Some (Inr c) \<Rightarrow>
               (case send_over C now now' w recipient amount c of
                  None \<Rightarrow> None
                | Some (r, c1) \<Rightarrow> Some (r, Some c1))))"

end
