(* ===== verification/Client_Correct.thy ===== *)
theory Client_Correct
  imports Primus_Client Noise_Correct
begin

text \<open>
  Lemmas on the client: what its Noise records put on the wire and take from it, and its plain transport
  run against a model of the connection to a node.
\<close>

section \<open>Noise records\<close>

definition nt_new :: "'n \<Rightarrow> 'w \<Rightarrow> ('n, 'w) NoiseTransport" where
  "nt_new z w = \<lparr>nt_stream = w, nt_noise = z, nt_send_nonce = 0, nt_recv_nonce = 0, nt_read_buf = []\<rparr>"

definition app_frame :: "bytes \<Rightarrow> bytes" where
  "app_frame m = to_be_bytes 4 (of_nat (length m) :: u32) @ m"

abbreviation app_chunks :: "bytes \<Rightarrow> bytes list" where
  "app_chunks m \<equiv> chunks 65519 (app_frame m)"

fun send_all_raw :: "'n noise_ops \<Rightarrow> 'w stream_ops \<Rightarrow> bytes list \<Rightarrow> (('n, 'w) NoiseTransport, PrimusSdkError, unit) act" where
  "send_all_raw Z W [] = act_return ()"
| "send_all_raw Z W (m # ms) = act_bind (send_raw Z W m) (\<lambda>_. send_all_raw Z W ms)"

fun recv_all_raw :: "'n noise_ops \<Rightarrow> 'w stream_ops \<Rightarrow> nat \<Rightarrow> (('n, 'w) NoiseTransport, PrimusSdkError, bytes list) act" where
  "recv_all_raw Z W 0 = act_return []"
| "recv_all_raw Z W (Suc n) = act_bind (recv_raw Z W) (\<lambda>m. act_bind (recv_all_raw Z W n) (\<lambda>ms. act_return (m # ms)))"

lemma wire_append: "wire Z z w n (ps @ qs) = wire Z z w n ps @ wire Z z w (n + of_nat (length ps)) qs"
  by (induction ps arbitrary: n) (simp_all add: algebra_simps)

lemma app_chunks_small: "p \<in> set (app_chunks m) \<Longrightarrow> length p \<le> MAX_PLAINTEXT"
  using chunks_sizes [of p 65519] by (simp add: MAX_PLAINTEXT_def MAX_FRAME_SIZE_def TAG_LEN_def)

lemma concat_app_chunks: "concat (app_chunks m) = app_frame m"
  by (simp add: concat_chunks)

definition small :: "bytes \<Rightarrow> bool" where
  "small m \<longleftrightarrow> length m \<le> unat MAX_FRAME_BYTES"

lemma small_bounds: "small m \<longleftrightarrow> length m \<le> 16777216"
  by (simp add: small_def MAX_FRAME_BYTES_def)

lemma small_length: "small m \<Longrightarrow> unat (of_nat (length m) :: u32) = length m"
  by (simp add: small_bounds unat_of_nat)

lemma app_frame_length: "small m \<Longrightarrow> unat (from_be_bytes (take 4 (app_frame m @ r)) :: u32) = length m"
  using be_length [of "length m", where 'a = 32 and k = 4] by (simp add: app_frame_def small_bounds)

lemma app_frame_body: "drop 4 (app_frame m @ r) = m @ r" and app_frame_size: "length (app_frame m) = 4 + length m"
  by (simp_all add: app_frame_def)

lemma split_front: "xs @ ys = as @ bs \<Longrightarrow> length as \<le> length xs \<Longrightarrow> \<exists>q. xs = as @ q \<and> q @ ys = bs"
  by (auto simp: append_eq_append_conv2)

context noise_channel
begin

definition written :: "bytes list \<Rightarrow> ('n, script) NoiseTransport \<Rightarrow> ('n, script) NoiseTransport" where
  "written ps t = t\<lparr>nt_stream := (nt_stream t)\<lparr>sc_out := sc_out (nt_stream t) @ wire Z z False (nt_send_nonce t) ps\<rparr>,
     nt_send_nonce := nt_send_nonce t + of_nat (length ps)\<rparr>"

lemma written_simps [simp]:
  "written [] t = t" "nt_noise (written ps t) = nt_noise t" "written qs (written ps t) = written (ps @ qs) t"
  by (simp_all add: written_def wire_append algebra_simps)

lemma send_chunk_written:
  assumes "nt_noise t = z" and "length p \<le> MAX_PLAINTEXT"
  shows "send_chunk Z script_ops p t = Some (Inr (), written [p] t)"
proof -
  obtain c where "write_message Z z (nt_send_nonce t) p = Inr c" using cipher_law [OF assms(2)] by blast
  with assms(1) show ?thesis
    by (simp add: send_chunk_def act_bind_def act_map_err_def act_zoom_def script_ops_def written_def frame_def)
qed

lemma send_chunks_written:
  "nt_noise t = z \<Longrightarrow> (\<And>p. p \<in> set ps \<Longrightarrow> length p \<le> MAX_PLAINTEXT) \<Longrightarrow> send_chunks Z script_ops ps t = Some (Inr (), written ps t)"
proof (induction ps arbitrary: t)
  case (Cons p ps)
  then show ?case using Cons.IH [of "written [p] t"] by (simp add: act_bind_run(1) [OF send_chunk_written])
qed (simp add: act_simps)

lemma send_raw_written:
  assumes "nt_noise t = z" and "small m"
  shows "send_raw Z script_ops m t = Some (Inr (), written (app_chunks m) t)"
proof -
  have "\<not> MAX_FRAME_BYTES < (of_nat (length m) :: u32)"
    using small_length [OF assms(2)] assms(2) by (simp add: word_less_nat_alt small_def)
  then show ?thesis
    using send_chunks_written [OF assms(1) app_chunks_small]
    by (simp add: send_raw_def Let_def app_frame_def act_bind_run act_map_err_run act_zoom_def script_run)
qed

lemma send_all_written:
  "nt_noise t = z \<Longrightarrow> list_all small ms \<Longrightarrow> send_all_raw Z script_ops ms t = Some (Inr (), written (concat (map app_chunks ms)) t)"
  by (induction ms arbitrary: t) (simp_all add: act_run act_bind_run(1) [OF send_raw_written])

text \<open>A receiver that has the records \<open>ps\<close> before it; \<open>ahead\<close> is the plaintext it will see.\<close>

definition fed :: "bytes list \<Rightarrow> ('n, script) NoiseTransport \<Rightarrow> bool" where
  "fed ps t \<longleftrightarrow> nt_noise t = z' \<and> sc_in (nt_stream t) = wire Z z False (nt_recv_nonce t) ps \<and> (\<forall>p \<in> set ps. length p \<le> MAX_PLAINTEXT)"

definition ahead :: "bytes list \<Rightarrow> ('n, script) NoiseTransport \<Rightarrow> bytes" where
  "ahead ps t = nt_read_buf t @ concat ps"

lemma read_record_fed:
  assumes "fed (p # ps) t"
  shows "\<exists>t'. read_record Z script_ops t = Some (Inr (), t') \<and> fed ps t' \<and> nt_read_buf t' = nt_read_buf t @ p"
proof -
  obtain c where c: "write_message Z z (nt_recv_nonce t) p = Inr c" "read_message Z z' (nt_recv_nonce t) c = Inr p" "length c = length p + TAG_LEN"
    using cipher_law [of p] assms by (auto simp: fed_def)
  have len: "unat (from_be_bytes (to_be_bytes 2 (of_nat (length c) :: u16)) :: u16) = length c"
    using c(3) assms be_length [of "length c", where 'a = 16 and k = 2] by (simp add: fed_def MAX_PLAINTEXT_def MAX_FRAME_SIZE_def TAG_LEN_def)
  have "sc_in (nt_stream t) = to_be_bytes 2 (of_nat (length c) :: u16) @ c @ wire Z z False (nt_recv_nonce t + 1) ps"
    using assms c(1) by (simp add: fed_def frame_def)
  with c(2) len assms show ?thesis
    by (simp add: read_record_def act_bind_def act_map_err_def act_zoom_def script_ops_def fed_def)
qed

lemma fill_buf_fed:
  "fed ps t \<Longrightarrow> target \<le> length (ahead ps t) \<Longrightarrow>
     \<exists>ps' t'. fill_buf_to Z script_ops target t = Some (Inr (), t') \<and> fed ps' t' \<and> ahead ps' t' = ahead ps t \<and> target \<le> length (nt_read_buf t')"
proof (induction ps arbitrary: t)
  case (Cons p ps)
  show ?case
  proof (cases "length (nt_read_buf t) < target")
    case True
    obtain t1 where t1: "read_record Z script_ops t = Some (Inr (), t1)" "fed ps t1" "nt_read_buf t1 = nt_read_buf t @ p"
      using read_record_fed [OF Cons.prems(1)] by blast
    then have "ahead ps t1 = ahead (p # ps) t" by (simp add: ahead_def)
    with Cons.IH [OF t1(2)] Cons.prems(2) True t1(1) show ?thesis by (simp add: fill_buf_to.simps [of Z script_ops target t])
  qed (use Cons.prems in \<open>auto simp: fill_buf_to.simps [of Z script_ops target t]\<close>)
qed (auto simp: ahead_def fill_buf_to.simps)

lemma recv_raw_fed:
  assumes "fed ps t" and "ahead ps t = app_frame m @ r" and "small m" and "m \<noteq> []"
  shows "\<exists>ps' t'. recv_raw Z script_ops t = Some (Inr m, t') \<and> fed ps' t' \<and> ahead ps' t' = r"
proof -
  obtain ps1 t1 where 1: "fill_buf_to Z script_ops 4 t = Some (Inr (), t1)" "fed ps1 t1" "ahead ps1 t1 = app_frame m @ r" "4 \<le> length (nt_read_buf t1)"
    using fill_buf_fed [OF assms(1), of 4] assms(2) by (auto simp: app_frame_size)
  obtain ps2 t2 where 2: "fill_buf_to Z script_ops (4 + length m) t1 = Some (Inr (), t2)" "fed ps2 t2" "ahead ps2 t2 = app_frame m @ r"
      "4 + length m \<le> length (nt_read_buf t2)"
    using fill_buf_fed [OF 1(2), of "4 + length m"] 1(3) by (auto simp: app_frame_size)
  have "take 4 (nt_read_buf t1) = take 4 (app_frame m @ r)"
    using 1(3,4) by (metis ahead_def take_append diff_is_0_eq take0 append_Nil2)
  then have len: "unat (from_be_bytes (take 4 (nt_read_buf t1)) :: u32) = length m" using app_frame_length [OF assms(3)] by simp
  obtain q where q: "nt_read_buf t2 = app_frame m @ q" "q @ concat ps2 = r"
    using split_front [of "nt_read_buf t2" "concat ps2" "app_frame m" r] 2(3,4) by (auto simp: ahead_def app_frame_size)
  let ?t3 = "t2\<lparr>nt_read_buf := drop (4 + length m) (nt_read_buf t2)\<rparr>"
  have "take (length m) (drop 4 (nt_read_buf t2)) = m" "drop (4 + length m) (nt_read_buf t2) = q" by (simp_all add: q(1) app_frame_def)
  then have "recv_raw Z script_ops t = Some (Inr m, ?t3)"
    using 1(1) 2(1) len assms(3,4) by (simp add: recv_raw_def act_bind_run Let_def small_def)
  moreover have "fed ps2 ?t3" "ahead ps2 ?t3 = r" using 2(2) q(2) \<open>drop (4 + length m) (nt_read_buf t2) = q\<close> by (simp_all add: fed_def ahead_def)
  ultimately show ?thesis by blast
qed

lemma recv_all_fed:
  "fed ps t \<Longrightarrow> ahead ps t = concat (map app_frame ms) @ r \<Longrightarrow> list_all small ms \<Longrightarrow> [] \<notin> set ms \<Longrightarrow>
     \<exists>ps' t'. recv_all_raw Z script_ops (length ms) t = Some (Inr ms, t') \<and> fed ps' t' \<and> ahead ps' t' = r"
proof (induction ms arbitrary: ps t)
  case (Cons m ms)
  obtain ps1 t1 where 1: "recv_raw Z script_ops t = Some (Inr m, t1)" "fed ps1 t1" "ahead ps1 t1 = concat (map app_frame ms) @ r"
    using recv_raw_fed [of ps t m "concat (map app_frame ms) @ r"] Cons.prems by auto
  from Cons.IH [OF 1(2,3)] Cons.prems obtain ps2 t2 where
    "recv_all_raw Z script_ops (length ms) t1 = Some (Inr ms, t2)" "fed ps2 t2" "ahead ps2 t2 = r" by auto
  then show ?case using 1(1) by (auto simp: act_bind_run act_run)
qed (auto simp: act_run)

lemma concat_all_chunks: "concat (concat (map app_chunks ms)) = concat (map app_frame ms)"
  by (induction ms) (simp_all add: concat_app_chunks)

lemma raw_delivers:
  assumes "list_all small ms" and "[] \<notin> set ms"
  shows "\<exists>t t'. send_all_raw Z script_ops ms (nt_new z \<lparr>sc_in = [], sc_out = [], sc_closed = cl\<rparr>) = Some (Inr (), t)
    \<and> recv_all_raw Z script_ops (length ms) (nt_new z' \<lparr>sc_in = sc_out (nt_stream t), sc_out = [], sc_closed = cl\<rparr>) = Some (Inr ms, t')
    \<and> nt_read_buf t' = []"
proof -
  let ?ps = "concat (map app_chunks ms)"
  let ?s = "nt_new z \<lparr>sc_in = [], sc_out = [], sc_closed = cl\<rparr>"
  have s: "send_all_raw Z script_ops ms ?s = Some (Inr (), written ?ps ?s)"
    by (rule send_all_written) (use assms(1) in \<open>simp_all add: nt_new_def\<close>)
  let ?t = "nt_new z' \<lparr>sc_in = sc_out (nt_stream (written ?ps ?s)), sc_out = [], sc_closed = cl\<rparr>"
  have "fed ?ps ?t" using app_chunks_small by (auto simp: fed_def written_def nt_new_def)
  moreover have "ahead ?ps ?t = concat (map app_frame ms) @ []" by (simp add: ahead_def nt_new_def concat_all_chunks)
  ultimately obtain ps' t' where "recv_all_raw Z script_ops (length ms) ?t = Some (Inr ms, t')" "ahead ps' t' = []"
    using recv_all_fed [OF _ _ assms] by blast
  with s show ?thesis by (auto simp: ahead_def)
qed

end

section \<open>The connection to a node\<close>

text \<open>The far end of a plain connection: bytes that the node has received but not yet framed, bytes on their
  way to the client, and the state of the node's session. The framing is that of the codec of \<open>tokio_util\<close>
  with its defaults: four bytes of length in big-endian order.\<close>

record ('t, 'm) link =
  lk_node :: "('t, 'm) node"
  lk_in :: bytes
  lk_out :: bytes
  lk_session :: session

definition link_new :: "('t, 'm) node \<Rightarrow> ('t, 'm) link" where
  "link_new nd = \<lparr>lk_node = nd, lk_in = [], lk_out = [], lk_session = Open\<rparr>"

function pump :: "('t, 'm) node_env \<Rightarrow> string + u64 \<Rightarrow> int \<Rightarrow> string \<Rightarrow> ('t, 'm) link \<Rightarrow> ('t, 'm) link" where
  "pump N wall inst ip L =
     (let n = unat (from_be_bytes (take 4 (lk_in L)) :: u32)
      in if lk_session L \<noteq> Open \<or> length (lk_in L) < 4 then L
         else if unat MAX_FRAME_BYTES < n then L\<lparr>lk_session := Failed ''frame size too big''\<rparr>
         else if length (lk_in L) < 4 + n then L
         else (case handle_frame N wall inst ip (take n (drop 4 (lk_in L))) (lk_node L) of
                 (s, outs, nd) \<Rightarrow>
                   pump N wall inst ip (L\<lparr>lk_in := drop (4 + n) (lk_in L), lk_node := nd,
                     lk_out := lk_out L @ concat (map app_frame outs), lk_session := s\<rparr>)))"
  by pat_completeness auto
termination by (relation "measure (\<lambda>(N, wall, inst, ip, L). length (lk_in L))") auto

declare pump.simps [simp del]

definition node_stream :: "('t, 'm) node_env \<Rightarrow> string + u64 \<Rightarrow> int \<Rightarrow> string \<Rightarrow> ('t, 'm) link stream_ops" where
  "node_stream N wall inst ip =
     \<lparr>stream_write = (\<lambda>bs L. if lk_session L = Open then Some (Inr (), pump N wall inst ip (L\<lparr>lk_in := lk_in L @ bs\<rparr>))
                             else Some (Inl ''broken pipe'', L)),
      stream_flush = (\<lambda>L. Some (Inr (), L)),
      stream_read = (\<lambda>n L.
        if n \<le> length (lk_out L) then Some (Inr (take n (lk_out L)), L\<lparr>lk_out := drop n (lk_out L)\<rparr>)
        else case lk_session L of Failed _ \<Rightarrow> Some (Inl ''early eof'', L) | _ \<Rightarrow> None)\<rparr>"

lemma node_stream_write:
  "lk_session L = Open \<Longrightarrow> stream_write (node_stream N wall inst ip) bs L = Some (Inr (), pump N wall inst ip (L\<lparr>lk_in := lk_in L @ bs\<rparr>))"
  by (simp add: node_stream_def)

lemma node_stream_flush: "stream_flush (node_stream N wall inst ip) L = Some (Inr (), L)"
  by (simp add: node_stream_def)

text \<open>One request over an idle connection: the node handles one frame.\<close>

lemma send_plain_link:
  assumes "bs \<noteq> []" and "small bs" and "handle_frame N wall inst ip bs nd = (s, outs, nd')"
  shows "send_plain (node_stream N wall inst ip) bs (link_new nd) =
    Some (Inr (), \<lparr>lk_node = nd', lk_in = [], lk_out = concat (map app_frame outs), lk_session = s\<rparr>)"
proof -
  let ?h = "to_be_bytes 4 (of_nat (length bs) :: u32)"
  have len: "unat (from_be_bytes ?h :: u32) = length bs" using app_frame_length [OF assms(2), of "[]"] by (simp add: app_frame_def)
  have done': "pump N wall inst ip L = L" if "lk_in L = []" for L using that by (simp add: pump.simps)
  have 1: "pump N wall inst ip ((link_new nd)\<lparr>lk_in := ?h\<rparr>) = (link_new nd)\<lparr>lk_in := ?h\<rparr>"
    using assms(1,2) len by (simp add: pump.simps link_new_def small_def)
  let ?L = "\<lparr>lk_node = nd, lk_in = ?h @ bs, lk_out = [], lk_session = Open\<rparr>"
  have 2: "pump N wall inst ip ?L = \<lparr>lk_node = nd', lk_in = [], lk_out = concat (map app_frame outs), lk_session = s\<rparr>"
    using len assms by (simp add: pump.simps [of _ _ _ _ ?L] Let_def small_def done')
  show ?thesis
    using 1 2 by (simp add: send_plain_def act_bind_def act_map_err_def node_stream_def link_new_def)
qed

lemma recv_plain_link:
  assumes "small b"
  shows "recv_plain (node_stream N wall inst ip) \<lparr>lk_node = nd, lk_in = [], lk_out = app_frame b, lk_session = s\<rparr> =
    Some (Inr b, \<lparr>lk_node = nd, lk_in = [], lk_out = [], lk_session = s\<rparr>)"
proof -
  have "unat (from_be_bytes (to_be_bytes 4 (of_nat (length b) :: u32)) :: u32) = length b"
    using app_frame_length [OF assms, of "[]"] by (simp add: app_frame_def)
  with assms show ?thesis
    by (simp add: recv_plain_def act_bind_def act_map_err_def node_stream_def app_frame_def Let_def small_def)
qed

text \<open>The two enumerations of messages and the codec they share.\<close>

definition node_message :: "CliMessage \<Rightarrow> PrimusMessage option" where
  "node_message m = (case m of
     CliPing \<Rightarrow> Some Ping
   | CliPong \<Rightarrow> Some Pong
   | CliHandshake v i h e p \<Rightarrow> Some (PeerHandshake v i h e p)
   | CliGetPeers \<Rightarrow> Some GetPeers
   | CliPeersResponse ps \<Rightarrow> Some (PeersResponse ps)
   | CliNewReaction d t \<Rightarrow> Some (NewReaction d t)
   | CliNewCrystal d t \<Rightarrow> Some (NewCrystal d t)
   | CliGetCrystal i \<Rightarrow> Some (GetCrystal i)
   | CliCrystalResponse d \<Rightarrow> Some (CrystalResponse d)
   | CliSync \<Rightarrow> None
   | CliFetchState a \<Rightarrow> Some (FetchState a)
   | CliStateResponse ms nc h el \<Rightarrow> Some (StateResponse ms nc h el)
   | CliSubmitReaction d \<Rightarrow> Some (SubmitReaction d)
   | CliReactionAck h \<Rightarrow> Some (ReactionAck h)
   | CliNodeError e \<Rightarrow> Some (NodeError e)
   | CliGetProof a \<Rightarrow> Some (Primus_Node.GetProof a)
   | CliProofResponse p \<Rightarrow> Some (Primus_Node.ProofResponse p))"

text \<open>What both sides rely on: bincode gives corresponding variants the same bytes, and messages with short
  contents fit into a frame.\<close>

definition short_message :: "CliMessage \<Rightarrow> bool" where
  "short_message m = (case m of
     CliGetCrystal _ \<Rightarrow> True
   | CliFetchState a \<Rightarrow> length a \<le> 65536
   | CliGetProof a \<Rightarrow> length a \<le> 65536
   | CliSubmitReaction d \<Rightarrow> length d \<le> 65536
   | CliStateResponse _ _ h el \<Rightarrow> length h = 32 \<and> length el \<le> 16
   | CliReactionAck h \<Rightarrow> length h = 32
   | CliNodeError e \<Rightarrow> length e \<le> 65536
   | _ \<Rightarrow> False)"

locale wire_codec =
  fixes N :: "('t, 'm) node_env" and C :: "('sg, 'k, 'f, 'n, ('t, 'm) link) client_env"
  assumes request_law: "node_message m = Some pm \<Longrightarrow> short_message m \<Longrightarrow>
      \<exists>b. ser_cli C m = Inr b \<and> de_message N b = Inr pm \<and> b \<noteq> [] \<and> small b"
    and response_law: "node_message m = Some pm \<Longrightarrow> short_message m \<Longrightarrow>
      \<exists>b. ser_message N pm = Inr b \<and> de_cli C b = Inr m \<and> small b"
begin

lemma send_request:
  assumes "ce_stream C = node_stream N wall inst ip" and "node_message m = Some pm" and "short_message m"
    and "handle_message N wall inst ip pm nd = (s, outs, nd')"
  shows "send_msg C m (client_new (Plain (link_new nd))) =
    Some (Inr (), client_new (Plain \<lparr>lk_node = nd', lk_in = [], lk_out = concat (map app_frame outs), lk_session = s\<rparr>))"
proof -
  obtain b where b: "ser_cli C m = Inr b" "de_message N b = Inr pm" "b \<noteq> []" "small b" using request_law [OF assms(2,3)] by blast
  then have "handle_frame N wall inst ip b nd = (s, outs, nd')" using assms(4) by (simp add: handle_frame_def)
  from send_plain_link [OF b(3,4) this] show ?thesis
    using b(1) assms(1) by (simp add: send_msg_def on_transport_def client_new_def)
qed

lemma recv_response:
  assumes "ce_stream C = node_stream N wall inst ip" and "node_message m = Some pm" and "short_message m" and "ser_message N pm = Inr b"
  shows "recv_msg C (client_new (Plain \<lparr>lk_node = nd, lk_in = [], lk_out = app_frame b, lk_session = Open\<rparr>)) =
    Some (Inr m, client_new (Plain (link_new nd)))"
proof -
  have "de_cli C b = Inr m" "small b" using response_law [OF assms(2,3)] assms(4) by auto
  with recv_plain_link [OF this(2), of N wall inst ip nd Open] show ?thesis
    using assms(1) by (simp add: recv_msg_def act_bind_def on_transport_def client_new_def act_simps link_new_def)
qed

text \<open>A request that the node answers with one message.\<close>

lemma query_answered:
  assumes "ce_stream C = node_stream N wall inst ip" and "node_message m = Some pm" and "short_message m"
    and "node_message r = Some rm" and "short_message r"
    and "handle_message N wall inst ip pm nd = (case send_all N [rm] of (s, outs) \<Rightarrow> (s, outs, nd'))"
  shows "act_bind (send_msg C m) (\<lambda>_. act_bind (recv_msg C) f) (client_new (Plain (link_new nd))) = f r (client_new (Plain (link_new nd')))"
proof -
  obtain b where b: "ser_message N rm = Inr b" using response_law [OF assms(4,5)] by blast
  then have "handle_message N wall inst ip pm nd = (Open, [b], nd')" using assms(6) by simp
  from send_request [OF assms(1-3) this] recv_response [OF assms(1,4,5) b] show ?thesis
    by (simp add: act_bind_run)
qed

text \<open>A request that is not answered: the client waits forever.\<close>

lemma query_unanswered:
  assumes "ce_stream C = node_stream N wall inst ip" and "node_message m = Some pm" and "short_message m"
    and "handle_message N wall inst ip pm nd = (Open, [], nd')"
  shows "act_bind (send_msg C m) (\<lambda>_. act_bind (recv_msg C) f) (client_new (Plain (link_new nd))) = None"
  using send_request [OF assms] assms(1)
  by (simp add: act_bind_run) (simp add: act_bind_def recv_msg_def on_transport_def client_new_def recv_plain_def act_map_err_def node_stream_def)

end

end
