(* ===== verification/Client_Claims.thy ===== *)
theory Client_Claims
  imports Client_Correct Node_Claims Noise_Claims
begin

text \<open>
  The properties of the client: its Noise records deliver messages of any length, its queries report the
  state of the node, a transfer it sends reaches the mempool of the node, and a request that the node
  does not answer never returns.
\<close>

section \<open>Records\<close>

text \<open>The records of the client deliver: messages of any length up to the limit of a frame, cut into as many
  Noise messages as they need, are sent without failure, and a receiver gets back exactly these messages
  in this order, with nothing left over.\<close>

theorem client_records_deliver:
  assumes "noise_channel Z z z'" and "list_all (\<lambda>m. m \<noteq> [] \<and> length m \<le> unat MAX_FRAME_BYTES) ms"
  shows "\<exists>t t'. send_all_raw Z script_ops ms (nt_new z \<lparr>sc_in = [], sc_out = [], sc_closed = cl\<rparr>) = Some (Inr (), t)
    \<and> recv_all_raw Z script_ops (length ms) (nt_new z' \<lparr>sc_in = sc_out (nt_stream t), sc_out = [], sc_closed = cl\<rparr>) = Some (Inr ms, t')
    \<and> nt_read_buf t' = []"
  by (rule noise_channel.raw_delivers [OF assms(1)]) (use assms(2) in \<open>auto simp: list_all_iff small_def\<close>)

theorem client_records_deliver_witness:
  "\<exists>t t'. send_all_raw mem_cipher script_ops [replicate 70000 7, [1]] (nt_new () \<lparr>sc_in = [], sc_out = [], sc_closed = False\<rparr>) = Some (Inr (), t)
    \<and> recv_all_raw mem_cipher script_ops 2 (nt_new () \<lparr>sc_in = sc_out (nt_stream t), sc_out = [], sc_closed = False\<rparr>)
      = Some (Inr [replicate 70000 7, [1]], t')"
proof -
  have "list_all (\<lambda>m. m \<noteq> [] \<and> length m \<le> unat MAX_FRAME_BYTES) [replicate 70000 7, [1]]"
    by (simp add: MAX_FRAME_BYTES_def)
  from client_records_deliver [OF mem_channel.noise_channel_axioms this, of False] show ?thesis
    by (auto simp: numeral_2_eq_2)
qed

section \<open>Queries\<close>

lemma parse_debug_element: "map_element (parse_element (debug_element el)) = el"
  by (cases el) (simp_all add: parse_element_def debug_element_def)

lemma debug_element_short: "length (debug_element el) \<le> 16"
  by (cases el) (simp_all add: debug_element_def)

definition atom_state :: "Atom \<Rightarrow> AtomState" where
  "atom_state a = \<lparr>at_mass = mass a, at_nonce = nonce a, at_last_hash = last_reaction_hash a,
     at_element = parse_element (debug_element (element a))\<rparr>"

context wire_codec
begin

lemma reads_state:
  assumes "ce_stream C = node_stream N wall inst ip" and "decode_address (ce_sdk C) hex = Inr pk"
    and "\<And>a. state_get_atom (state (nd_engine nd)) pk = Some a \<Longrightarrow> length (last_reaction_hash a) = 32"
  shows "client_atom_state C hex (client_new (Plain (link_new nd))) =
    Some (case state_get_atom (state (nd_engine nd)) pk of
            Some a \<Rightarrow> Inr (atom_state a) | None \<Rightarrow> Inl (SdkNodeError ''Atom not found''), client_new (Plain (link_new nd)))"
proof -
  have pk: "length pk \<le> 65536" using assms(2) by (auto simp: decode_address_def result_simps PK_BYTES_def split: if_splits)
  let ?r = "case state_get_atom (state (nd_engine nd)) pk of
     Some a \<Rightarrow> CliStateResponse (mass a) (nonce a) (last_reaction_hash a) (debug_element (element a))
   | None \<Rightarrow> CliNodeError ''Atom not found''"
  let ?rm = "case get_atom_state nd pk of Inr (ms, nc, last_hash, el) \<Rightarrow> StateResponse ms nc last_hash el | Inl e \<Rightarrow> NodeError e"
  have r: "node_message ?r = Some ?rm" "short_message ?r"
    using assms(3) debug_element_short by (simp_all add: get_atom_state_def node_message_def short_message_def split: option.split)
  have m: "node_message (CliFetchState pk) = Some (FetchState pk)" "short_message (CliFetchState pk)"
    using pk by (simp_all add: node_message_def short_message_def)
  have h: "handle_message N wall inst ip (FetchState pk) nd = (case send_all N [?rm] of (s, outs) \<Rightarrow> (s, outs, nd))"
    by (simp add: handle_message_def)
  show ?thesis
    using assms(2) by (simp add: client_atom_state_def decoded_address_def act_bind_run(1) [of "act_lift _"] act_run query_answered [OF assms(1) m r h]
        atom_state_def split: option.split)
qed

lemma submits:
  assumes "ce_stream C = node_stream N wall inst ip" and "build (ce_sdk C) now b = Inr tx" and "to_bytes (ce_sdk C) tx = Inr bs" and "length bs \<le> 65536"
    and "submit_reaction N wall inst bs nd = (ReactionAck h, nd')" and "length h = 32"
  shows "broadcast_tx C now now' w b (client_new (Plain (link_new nd))) = Some (Inr h, client_new (Plain (link_new nd')))"
proof -
  have m: "node_message (CliSubmitReaction bs) = Some (SubmitReaction bs)" "short_message (CliSubmitReaction bs)"
    and r: "node_message (CliReactionAck h) = Some (ReactionAck h)" "short_message (CliReactionAck h)"
    using assms(4,6) by (simp_all add: node_message_def short_message_def)
  have hm: "handle_message N wall inst ip (SubmitReaction bs) nd = (case send_all N [ReactionAck h] of (s, outs) \<Rightarrow> (s, outs, nd'))"
    using assms(5) by (simp add: handle_message_def)
  have "submit_once C now b (client_new (Plain (link_new nd))) = Some (Inr (CliReactionAck h), client_new (Plain (link_new nd')))"
    using query_answered [OF assms(1) m r hm, of act_return] assms(2,3)
    by (simp add: submit_once_def act_bind_run act_map_err_run act_run)
  then show ?thesis by (simp add: broadcast_tx_def act_bind_run answered_def act_run)
qed

end

text \<open>A query of the client reports the account as the node holds it, its element included, or that there is
  none, and leaves the node as it was.\<close>

theorem client_reads_state:
  assumes "wire_codec N C" and "ce_stream C = node_stream N wall inst ip" and "decode_address (ce_sdk C) hex = Inr pk"
    and "state_get_atom (state (nd_engine nd)) pk = Some a" and "length (last_reaction_hash a) = 32"
  shows "\<exists>st. client_atom_state C hex (client_new (Plain (link_new nd))) = Some (Inr st, client_new (Plain (link_new nd)))
    \<and> at_mass st = mass a \<and> at_nonce st = nonce a \<and> at_last_hash st = last_reaction_hash a \<and> map_element (at_element st) = element a"
  using wire_codec.reads_state [OF assms(1-3), of nd] assms(4,5) by (simp add: atom_state_def parse_debug_element)

text \<open>A request for a crystal that the node does not have is not answered, and the client waits forever: the
  time-out of the connection is not applied to reads.\<close>

theorem missing_crystal_waits:
  assumes "wire_codec N C" and "ce_stream C = node_stream N wall inst ip" and "get_crystal_bytes N nd height = None"
  shows "client_get_crystal C height (client_new (Plain (link_new nd))) = None"
proof -
  have m: "node_message (CliGetCrystal height) = Some (GetCrystal height)" "short_message (CliGetCrystal height)"
    by (simp_all add: node_message_def short_message_def)
  have "handle_message N wall inst ip (GetCrystal height) nd = (Open, [], nd)" using assms(3) by (simp add: handle_message_def)
  from wire_codec.query_unanswered [OF assms(1,2) m this] show ?thesis by (simp add: client_get_crystal_def)
qed

section \<open>Transfers\<close>

lemmas builder_defs = transfer_builder_def builder_new_def builder_recipient_def builder_amount_def builder_fee_def
  builder_sender_mass_def builder_sender_last_hash_def builder_sender_nonce_def builder_sender_element_def

lemma filter_accepts:
  assumes "check_reaction (ne_mp N) bs = Some rx" and "validate_structure (sha3_256 (ne_pf N)) rx = Inr ()"
    and "public_key (sender rx) \<noteq> []" and "energy rx = float_of_word binary32 (f :: u64)"
  shows "fst (filter_bytes N bs d) = Inr rx"
proof -
  have "\<not> flt (energy rx) f32_zero" unfolding assms(4)
    using fnonneg_float_of_word [of binary32 f] by (cases "float_of_word binary32 f") (auto simp: fnonneg_def signed_mant_def zero_less_mult_iff mult_less_0_iff)
  with assms(1-3) show ?thesis by (simp add: filter_bytes_def filter_bytes_inner_def)
qed

lemma submit_admits:
  assumes "node_contract N healthy contents" and "mempool_ok (ne_mp N) healthy contents (nd_mempool nd)"
    and "check_reaction (ne_mp N) bs = Some rx" and "length bs \<le> 65536"
    and "validate_structure (mp_sha3 (ne_mp N)) rx = Inr ()" and "sha3_256 (ne_pf N) = mp_sha3 (ne_mp N)"
    and "public_key (sender rx) \<noteq> []" and "energy rx = float_of_word binary32 (f :: u64)"
    and "public_key (sender rx) = eng_architect_pk (nd_engine nd) \<or> has_balance N nd (public_key (sender rx))"
    and "length (pool_data contents (nd_mempool nd) (sector (sender rx))) < unat (max_sector_capacity (nd_mempool nd))"
    and "bt_get (pool_data contents (nd_mempool nd) (sector (sender rx))) (reaction_hash rx) = None"
  shows "\<exists>nd' b. submit_reaction N (Inr wall) inst bs nd = (ReactionAck (blake3 (pf_nodes (ne_pf N)) bs), nd')
    \<and> nd_engine nd' = nd_engine nd \<and> de_reaction (ne_mp N) b = Inr rx
    \<and> bt_get (pool_data contents (nd_mempool nd') (sector (sender rx))) (reaction_hash rx) = Some b"
proof -
  obtain mp b where p: "push (ne_mp N) (Inr wall) rx (nd_mempool nd) = (Inr True, mp)" "stored (ne_mp N) (sector (sender rx)) (reaction_hash rx) b rx"
      "bt_get (pool_data contents mp (sector (sender rx))) (reaction_hash rx) = Some b"
    using tree_contract.push_new [OF node_contract.axioms(1) [OF assms(1)] assms(2,5) _ assms(10,11), of wall]
      node_contract.float_law [OF assms(1,3)] by fastforce
  let ?nd' = "broadcast_message (NewReaction bs 8) (nd\<lparr>nd_mempool := mp\<rparr>)"
  have "fst (filter_bytes N bs 0) = Inr rx" using filter_accepts [OF assms(3) _ assms(7,8)] assms(5,6) by simp
  then have "submit_reaction N (Inr wall) inst bs nd = (ReactionAck (blake3 (pf_nodes (ne_pf N)) bs), ?nd')"
    using p(1) assms(3,4,9)
    by (auto simp: submit_reaction_def core_push_bytes_def returns_def ingest_reaction_def APP_MAX_MESSAGE_def)
  then show ?thesis using p(2,3) by (auto simp: stored_def broadcast_message_def)
qed

text \<open>What both clients rest on: the account is read as the node holds it, it covers amount and fee, and the
  node takes the transaction that is built from it.\<close>

lemma transfer_delivered:
  assumes "wire_codec N C" and "ce_stream C = node_stream N (Inr wall) inst ip" and "sdk_platform (ce_sdk C)"
    and "node_contract N healthy contents" and "mempool_ok (ne_mp N) healthy contents (nd_mempool nd)"
    and "sdk_sha3 (ce_sdk C) = mp_sha3 (ne_mp N)" and "sha3_256 (ne_pf N) = mp_sha3 (ne_mp N)"
    and "wallet_load (ce_sdk C) path fs = Inr w" and "decode_address (ce_sdk C) to_address = Inr recipient"
    and "state_get_atom (state (nd_engine nd)) (public_key_bytes w) = Some a" and "length (last_reaction_hash a) = 32"
    and "build (ce_sdk C) now (transfer_builder w recipient amount (atom_state a)) = Inr tx" and "rx = signed_reaction tx"
    and "rkyv_reaction (ce_sdk C) rx = Inr bs" and "check_reaction (ne_mp N) bs = Some rx" and "length bs \<le> 65536"
    and "length (blake3 (pf_nodes (ne_pf N)) bs) = 32"
    and "public_key_bytes w = eng_architect_pk (nd_engine nd) \<or> has_balance N nd (public_key_bytes w)"
    and "length (pool_data contents (nd_mempool nd) (sector (sender rx))) < unat (max_sector_capacity (nd_mempool nd))"
    and "bt_get (pool_data contents (nd_mempool nd) (sector (sender rx))) (reaction_hash rx) = None"
  obtains nd' b where
    "client_atom_state C (address w) (client_new (Plain (link_new nd))) = Some (Inr (atom_state a), client_new (Plain (link_new nd)))"
    "\<not> at_mass (atom_state a) < amount + PROTOCOL_MIN_FEE"
    "broadcast_tx C now now' w (transfer_builder w recipient amount (atom_state a)) (client_new (Plain (link_new nd))) =
       Some (Inr (blake3 (pf_nodes (ne_pf N)) bs), client_new (Plain (link_new nd')))"
    "bt_get (pool_data contents (nd_mempool nd') (sector (sender rx))) (reaction_hash rx) = Some b"
    "de_reaction (ne_mp N) b = Inr rx" "nd_engine nd' = nd_engine nd"
proof -
  obtain phrase idx where w: "from_mnemonic (ce_sdk C) phrase idx = Inr w"
    using assms(8) by (auto simp: wallet_load_def result_simps split: if_splits)
  let ?b = "transfer_builder w recipient amount (atom_state a)"
  have b: "tb_wallet ?b = w" "tb_recipient_pk ?b = Some recipient" "tb_fee ?b = PROTOCOL_MIN_FEE" "tb_amount ?b = amount" "tb_sender_mass ?b = mass a"
    by (simp_all add: builder_defs atom_state_def)
  have rec: "length recipient = PK_BYTES" using assms(9) by (auto simp: decode_address_def result_simps split: if_splits)
  note key = sdk_platform.wallet_key [OF assms(3) w]
  obtain ts where tx: "tx = built (ce_sdk C) ?b recipient ts" and cov: "unat amount + unat PROTOCOL_MIN_FEE \<le> unat (mass a)"
    using assms(12) b by (auto simp: build_eq)
  have valid: "validate_structure (mp_sha3 (ne_mp N)) rx = Inr ()"
    using built_transaction_accepted [OF assms(3) _ assms(12), of phrase idx "demo_ctx\<lparr>ctx_verify := core_verify (sdk_suite (ce_sdk C))\<rparr>"]
      w b rec assms(6,13) by simp
  have sender: "public_key (sender rx) = public_key_bytes w" "energy rx = float_of_word binary32 PROTOCOL_MIN_FEE"
    using b by (simp_all add: assms(13) tx signed_built)
  have "public_key (sender rx) \<noteq> []" using key(1) sender(1) by (auto simp: PK_BYTES_def)
  then obtain nd' b' where sub: "submit_reaction N (Inr wall) inst bs nd = (ReactionAck (blake3 (pf_nodes (ne_pf N)) bs), nd')"
      and nd': "nd_engine nd' = nd_engine nd" "de_reaction (ne_mp N) b' = Inr rx"
        "bt_get (pool_data contents (nd_mempool nd') (sector (sender rx))) (reaction_hash rx) = Some b'"
    using submit_admits [OF assms(4,5,15,16) valid assms(7) _ sender(2) _ assms(19,20)] assms(18) sender(1) by metis
  have st: "client_atom_state C (address w) (client_new (Plain (link_new nd))) = Some (Inr (atom_state a), client_new (Plain (link_new nd)))"
    using wire_codec.reads_state [OF assms(1,2) sdk_platform.address_decodes [OF assms(3) w], of nd] assms(10,11) by simp
  have "to_bytes (ce_sdk C) tx = Inr bs" using assms(13,14) by (simp add: to_bytes_def)
  note bc = wire_codec.submits [OF assms(1,2,12) this assms(16) sub assms(17)]
  have "\<not> at_mass (atom_state a) < amount + PROTOCOL_MIN_FEE"
    using cov by (simp add: atom_state_def word_less_nat_alt unat_word_ariths)
  with that st bc nd' show ?thesis by blast
qed

text \<open>C24. A transfer sent from the command line arrives: when the account is read as the node holds it and the
  builder accepts it, the node acknowledges the reaction, its mempool holds exactly this reaction, and the
  engine is unchanged. The account must own mass in the stored state, and the sector must have room.\<close>

theorem cli_send_admitted:
  assumes "wire_codec N C" and "ce_stream C = node_stream N (Inr wall) inst ip" and "sdk_platform (ce_sdk C)"
    and "node_contract N healthy contents" and "mempool_ok (ne_mp N) healthy contents (nd_mempool nd)"
    and "sdk_sha3 (ce_sdk C) = mp_sha3 (ne_mp N)" and "sha3_256 (ne_pf N) = mp_sha3 (ne_mp N)"
    and "wallet_load (ce_sdk C) path fs = Inr w" and "decode_address (ce_sdk C) to_address = Inr recipient"
    and "state_get_atom (state (nd_engine nd)) (public_key_bytes w) = Some a" and "length (last_reaction_hash a) = 32"
    and "build (ce_sdk C) now (transfer_builder w recipient amount (atom_state a)) = Inr tx" and "rx = signed_reaction tx"
    and "rkyv_reaction (ce_sdk C) rx = Inr bs" and "check_reaction (ne_mp N) bs = Some rx" and "length bs \<le> 65536"
    and "length (blake3 (pf_nodes (ne_pf N)) bs) = 32"
    and "public_key_bytes w = eng_architect_pk (nd_engine nd) \<or> has_balance N nd (public_key_bytes w)"
    and "length (pool_data contents (nd_mempool nd) (sector (sender rx))) < unat (max_sector_capacity (nd_mempool nd))"
    and "bt_get (pool_data contents (nd_mempool nd) (sector (sender rx))) (reaction_hash rx) = None"
  shows "\<exists>nd' b. cli_send C fs now now' to_address amount path (new_auto H (ce_stream C) (Inr (link_new nd)) conn' key) =
        Some (Inr (Inr (blake3 (pf_nodes (ne_pf N)) bs)), Some (client_new (Plain (link_new nd'))))
    \<and> bt_get (pool_data contents (nd_mempool nd') (sector (sender rx))) (reaction_hash rx) = Some b
    \<and> de_reaction (ne_mp N) b = Inr rx \<and> nd_engine nd' = nd_engine nd"
proof -
  obtain nd' b where t: "client_atom_state C (address w) (client_new (Plain (link_new nd))) = Some (Inr (atom_state a), client_new (Plain (link_new nd)))"
    "\<not> at_mass (atom_state a) < amount + PROTOCOL_MIN_FEE"
    "broadcast_tx C now now' w (transfer_builder w recipient amount (atom_state a)) (client_new (Plain (link_new nd))) =
       Some (Inr (blake3 (pf_nodes (ne_pf N)) bs), client_new (Plain (link_new nd')))"
    and nd': "bt_get (pool_data contents (nd_mempool nd') (sector (sender rx))) (reaction_hash rx) = Some b"
      "de_reaction (ne_mp N) b = Inr rx" "nd_engine nd' = nd_engine nd"
    by (rule transfer_delivered [OF assms])
  have "send_over C now now' w recipient amount (client_new (Plain (link_new nd))) =
      Some (Inr (Inr (blake3 (pf_nodes (ne_pf N)) bs)), client_new (Plain (link_new nd')))"
    using t by (simp add: send_over_def act_bind_run act_run act_catch_run Let_def)
  then have "cli_send C fs now now' to_address amount path (new_auto H (ce_stream C) (Inr (link_new nd)) conn' key) =
      Some (Inr (Inr (blake3 (pf_nodes (ne_pf N)) bs)), Some (client_new (Plain (link_new nd'))))"
    using assms(8,9) by (simp add: cli_send_def new_auto_def new_plain_def)
  then show ?thesis using nd' by blast
qed

section \<open>A codec and a connection in memory\<close>

definition put_cli :: "CliMessage \<Rightarrow> string + bytes" where
  "put_cli m = (if \<not> short_message m then Inl ''size'' else case m of
     CliGetCrystal i \<Rightarrow> Inr (7 # to_le_bytes 8 i)
   | CliFetchState a \<Rightarrow> Inr (10 # a)
   | CliStateResponse ms nc h el \<Rightarrow> Inr (11 # to_le_bytes 8 ms @ to_le_bytes 8 nc @ h @ map (\<lambda>c. of_nat (of_char c)) el)
   | CliSubmitReaction d \<Rightarrow> Inr (12 # d)
   | CliReactionAck h \<Rightarrow> Inr (13 # h)
   | CliNodeError e \<Rightarrow> Inr (14 # map (\<lambda>c. of_nat (of_char c)) e)
   | CliGetProof a \<Rightarrow> Inr (15 # a)
   | _ \<Rightarrow> Inl ''variant'')"

definition get_cli :: "bytes \<Rightarrow> string + CliMessage" where
  "get_cli bs = (case bs of
     [] \<Rightarrow> Inl ''empty''
   | t # r \<Rightarrow>
       if t = 7 then Inr (CliGetCrystal (from_le_bytes r))
       else if t = 10 then Inr (CliFetchState r)
       else if t = 11 then Inr (CliStateResponse (from_le_bytes (take 8 r)) (from_le_bytes (take 8 (drop 8 r))) (take 32 (drop 16 r))
                                 (map (\<lambda>b. char_of (unat b)) (drop 48 r)))
       else if t = 12 then Inr (CliSubmitReaction r)
       else if t = 13 then Inr (CliReactionAck r)
       else if t = 14 then Inr (CliNodeError (map (\<lambda>b. char_of (unat b)) r))
       else if t = 15 then Inr (CliGetProof r)
       else Inl ''variant'')"

lemma char_bytes: "map (\<lambda>b. char_of (unat b)) (map (\<lambda>c. (of_nat (of_char c) :: u8)) e) = e"
  by (induction e) (simp_all add: unat_of_nat of_char_mod_256)

lemma put_get_cli:
  assumes "short_message m" shows "\<exists>b. put_cli m = Inr b \<and> get_cli b = Inr m \<and> b \<noteq> [] \<and> small b"
  using assms by (cases m) (auto simp: short_message_def put_cli_def get_cli_def small_bounds char_bytes simp del: map_map)

definition cli_message :: "PrimusMessage \<Rightarrow> CliMessage option" where
  "cli_message pm = (case pm of
     GetCrystal i \<Rightarrow> Some (CliGetCrystal i)
   | FetchState a \<Rightarrow> Some (CliFetchState a)
   | StateResponse ms nc h el \<Rightarrow> Some (CliStateResponse ms nc h el)
   | SubmitReaction d \<Rightarrow> Some (CliSubmitReaction d)
   | ReactionAck h \<Rightarrow> Some (CliReactionAck h)
   | NodeError e \<Rightarrow> Some (CliNodeError e)
   | Primus_Node.GetProof a \<Rightarrow> Some (CliGetProof a)
   | _ \<Rightarrow> None)"

lemma cli_node_message: "short_message m \<Longrightarrow> node_message m = Some pm \<Longrightarrow> cli_message pm = Some m"
  by (cases m) (auto simp: short_message_def node_message_def cli_message_def)

definition mem_wire :: "('t, 'm) node_env \<Rightarrow> ('t, 'm) node_env" where
  "mem_wire N = N\<lparr>ser_message := (\<lambda>pm. case cli_message pm of None \<Rightarrow> Inl ''variant'' | Some m \<Rightarrow> put_cli m),
     de_message := (\<lambda>b. and_then (get_cli b) (\<lambda>m. ok_or ''variant'' (node_message m)))\<rparr>"

definition mem_client :: "('sg, 'k, 'f) sdk_env \<Rightarrow> 'w stream_ops \<Rightarrow> ('sg, 'k, 'f, unit, 'w) client_env" where
  "mem_client X W = \<lparr>ce_sdk = X, ce_cipher = mem_cipher, ce_stream = W, ser_cli = put_cli, de_cli = get_cli\<rparr>"

interpretation mw: wire_codec "mem_wire N" "mem_client X W" for N X W
proof
  fix m pm assume m: "node_message m = Some pm" "short_message m"
  then show "\<exists>b. ser_cli (mem_client X W) m = Inr b \<and> de_message (mem_wire N) b = Inr pm \<and> b \<noteq> [] \<and> small b"
    using put_get_cli by (fastforce simp: mem_client_def mem_wire_def)
  show "\<exists>b. ser_message (mem_wire N) pm = Inr b \<and> de_cli (mem_client X W) b = Inr m \<and> small b"
    using put_get_cli [OF m(2)] cli_node_message [OF m(2,1)] by (fastforce simp: mem_client_def mem_wire_def)
qed

text \<open>A node that holds the account of the example wallet, which is the architect.\<close>

definition send_state :: AtomState where "send_state = atom_state sdk_account"

definition send_tx :: Transaction where
  "send_tx = (case build (mem_sdk demo_hash) (Inr 7) (transfer_builder sdk_wallet_of (replicate PK_BYTES 7) 500 send_state) of Inr tx \<Rightarrow> tx)"

definition send_sdk :: "(bytes, bytes, string \<Rightarrow> bytes option) sdk_env" where
  "send_sdk = (mem_sdk demo_hash)\<lparr>rkyv_reaction := (\<lambda>_. Inr [9])\<rparr>"

definition send_env :: "((bytes \<times> bytes) list, (bytes, bytes) btree) node_env" where
  "send_env = mem_wire (mem_env\<lparr>ne_pf := mem_platform,
     ne_mp := (mem_pool demo_hash)\<lparr>check_reaction := (\<lambda>b. if b = [9] then Some (signed_reaction send_tx) else None)\<rparr>\<rparr>)"

definition send_node :: "(bytes, bytes) btree SectoralMempool \<Rightarrow> ((bytes \<times> bytes) list, (bytes, bytes) btree) node" where
  "send_node mp = (mem_node mp)\<lparr>nd_engine := node_engine\<lparr>eng_architect_pk := public_key_bytes sdk_wallet_of,
     storage := \<lparr>db = [], st_mpt = trie_new [], st_root = None, gc_log = []\<rparr>,
     state := (state node_engine)\<lparr>atoms := [(public_key_bytes sdk_wallet_of, sdk_account)]\<rparr>\<rparr>\<rparr>"

abbreviation send_client :: "(bytes, bytes, string \<Rightarrow> bytes option, unit, ((bytes \<times> bytes) list, (bytes, bytes) btree) link) client_env" where
  "send_client \<equiv> mem_client send_sdk (node_stream send_env (Inr 5) 0 ''10.0.0.1'')"

lemma send_sdk_platform: "sdk_platform send_sdk"
  using mem_wallet.sdk_platform_axioms [of demo_hash] by (simp add: sdk_platform_def sdk_platform_axioms_def send_sdk_def)

lemma send_sdk_fields:
  "sdk_sha3 send_sdk = sdk_sha3 (mem_sdk demo_hash)" "sdk_suite send_sdk = sdk_suite (mem_sdk demo_hash)"
  "parse_mnemonic send_sdk = parse_mnemonic (mem_sdk demo_hash)" "hex_encode send_sdk = hex_encode (mem_sdk demo_hash)"
  "hex_decode send_sdk = hex_decode (mem_sdk demo_hash)" "de_wallet send_sdk = de_wallet (mem_sdk demo_hash)"
  "fs_read send_sdk = fs_read (mem_sdk demo_hash)" "rkyv_reaction send_sdk rx = Inr [9]"
  by (simp_all add: send_sdk_def)

lemma send_sdk_ops:
  "build send_sdk = build (mem_sdk demo_hash)" "from_mnemonic send_sdk = from_mnemonic (mem_sdk demo_hash)"
  "wallet_load send_sdk = wallet_load (mem_sdk demo_hash)" "decode_address send_sdk = decode_address (mem_sdk demo_hash)"
  unfolding fun_eq_iff build_def wallet_load_def from_mnemonic_def decode_address_def wallet_sign_def send_sdk_fields by blast+

lemma send_builds: "build (mem_sdk demo_hash) (Inr 7) (transfer_builder sdk_wallet_of (replicate PK_BYTES 7) 500 send_state) = Inr send_tx"
proof -
  have "(0 :: u64) < 500" "unat (500 :: u64) = 500" "unat (510 :: u64) = 510" "PROTOCOL_MIN_FEE = 10" "unat (10 :: u64) = 10" by code_simp+
  then have "\<exists>tx. build (mem_sdk demo_hash) (Inr 7) (transfer_builder sdk_wallet_of (replicate PK_BYTES 7) 500 send_state) = Inr tx"
    unfolding build_eq by (simp add: builder_defs send_state_def atom_state_def sdk_account_def del: zero_less_numeral)
  then show ?thesis by (auto simp: send_tx_def)
qed

lemma send_node_account: "state_get_atom (state (nd_engine (send_node mp))) (public_key_bytes sdk_wallet_of) = Some sdk_account"
  by (simp add: send_node_def state_get_atom_def)

lemma sdk_account_hash: "length (last_reaction_hash sdk_account) = 32"
  by (simp add: sdk_account_def new_receiver_def new_materialized_def)

theorem client_reads_state_witness:
  "\<exists>mp st. mempool_new (\<lambda>_. Inr []) = Inr mp
     \<and> client_atom_state send_client (address sdk_wallet_of) (client_new (Plain (link_new (send_node mp))))
       = Some (Inr st, client_new (Plain (link_new (send_node mp))))
     \<and> at_mass st = 510"
proof -
  obtain mp where mp: "mempool_new (\<lambda>_. Inr []) = Inr (mp :: (bytes, bytes) btree SectoralMempool)"
    using mempool_new_mem [of "[]"] by auto
  have w: "wire_codec send_env send_client" unfolding send_env_def by (rule mw.wire_codec_axioms)
  have c: "ce_stream send_client = node_stream send_env (Inr 5) 0 ''10.0.0.1''" by (simp add: mem_client_def)
  have "from_mnemonic send_sdk ''abandon about'' 0 = Inr sdk_wallet_of" by (simp add: send_sdk_ops sdk_wallet)
  then have d: "decode_address (ce_sdk send_client) (address sdk_wallet_of) = Inr (public_key_bytes sdk_wallet_of)"
    using sdk_platform.address_decodes [OF send_sdk_platform] by (simp add: mem_client_def)
  have "mass sdk_account = 510" by (simp add: sdk_account_def)
  with client_reads_state [OF w c d send_node_account sdk_account_hash, of mp] mp show ?thesis by auto
qed

lemma send_no_crystal: "get_crystal_bytes send_env (send_node mp) i = None"
  by (simp add: get_crystal_bytes_def send_node_def send_env_def mem_wire_def get_crystal_def db_get_with_def db_get_def mem_platform_with_def mem_sled_def)

theorem missing_crystal_waits_witness:
  "\<exists>mp. mempool_new (\<lambda>_. Inr []) = Inr mp \<and> client_get_crystal send_client 77 (client_new (Plain (link_new (send_node mp)))) = None"
proof -
  obtain mp where mp: "mempool_new (\<lambda>_. Inr []) = Inr (mp :: (bytes, bytes) btree SectoralMempool)"
    using mempool_new_mem [of "[]"] by auto
  have w: "wire_codec send_env send_client" unfolding send_env_def by (rule mw.wire_codec_axioms)
  have c: "ce_stream send_client = node_stream send_env (Inr 5) 0 ''10.0.0.1''" by (simp add: mem_client_def)
  from missing_crystal_waits [OF w c send_no_crystal] mp show ?thesis by blast
qed

lemma send_env_contract: "node_contract send_env bt_ordered (\<lambda>t. t)"
proof -
  let ?b = "transfer_builder sdk_wallet_of (replicate PK_BYTES 7) 500 send_state"
  have b: "tb_recipient_pk ?b = Some (replicate PK_BYTES 7)" "tb_fee ?b = PROTOCOL_MIN_FEE"
    by (simp_all add: builder_defs)
  have "tree_contract (ne_mp send_env) bt_ordered (\<lambda>t. t)"
    using mm.tree_contract_axioms [of demo_hash] by (simp add: tree_contract_def send_env_def mem_wire_def)
  moreover obtain ts where tx: "send_tx = built (mem_sdk demo_hash) ?b (replicate PK_BYTES 7) ts"
    using send_builds b by (auto simp: build_eq)
  moreover have "is_f32 (float_of_word binary32 PROTOCOL_MIN_FEE)" by code_simp
  then have "is_f32 (energy (signed_reaction send_tx))" unfolding tx signed_built b .
  ultimately show ?thesis
    by (intro node_contract.intro node_contract_axioms.intro) (auto simp: send_env_def mem_wire_def mem_env_def split: if_splits)
qed

lemma send_wallet_saved:
  obtains fs where "wallet_save send_sdk path sdk_wallet_of Map.empty = (Inr (), fs)" "wallet_load send_sdk path fs = Inr sdk_wallet_of"
proof -
  have sw: "from_mnemonic send_sdk ''abandon about'' 0 = Inr sdk_wallet_of" by (simp add: send_sdk_ops sdk_wallet)
  obtain fs where f: "wallet_save send_sdk path sdk_wallet_of Map.empty = (Inr (), fs)"
    by (simp add: wallet_save_def send_sdk_def mem_sdk_def)
  with that sdk_platform.save_load [OF send_sdk_platform sw f] show ?thesis by blast
qed

lemma send_client_fields: "ce_stream send_client = node_stream send_env (Inr 5) 0 ''10.0.0.1''" "ce_sdk send_client = send_sdk"
  by (simp_all add: mem_client_def)

lemma send_ready:
  obtains mp where "mempool_new (\<lambda>_. Inr []) = Inr mp"
    "mempool_ok (ne_mp send_env) bt_ordered (\<lambda>t. t) (nd_mempool (send_node mp))"
    "public_key_bytes sdk_wallet_of = eng_architect_pk (nd_engine (send_node mp))"
    "\<And>sid. pool_data (\<lambda>t. t) (nd_mempool (send_node mp)) sid = []" "unat (max_sector_capacity (nd_mempool (send_node mp))) = 1000000"
proof -
  obtain mp where mp: "mempool_new (\<lambda>_. Inr []) = Inr mp" "mempool_ok (mem_pool demo_hash) bt_ordered (\<lambda>t. t) mp"
    "\<And>sid. pool_data (\<lambda>t. t) mp sid = []" "unat (max_sector_capacity mp) = 1000000" by (rule mem_pool_fresh) auto
  show ?thesis
    by (rule that [OF mp(1)])
      (use mp in \<open>simp_all add: mempool_ok_def sector_ok_def stored_def send_env_def mem_wire_def send_node_def mem_node_def\<close>)
qed

lemma send_facts:
  shows "wire_codec send_env send_client"
    and "sdk_sha3 (ce_sdk send_client) = mp_sha3 (ne_mp send_env)" and "sha3_256 (ne_pf send_env) = mp_sha3 (ne_mp send_env)"
    and "decode_address (ce_sdk send_client) (hex_encode send_sdk (replicate PK_BYTES 7)) = Inr (replicate PK_BYTES 7)"
    and "build (ce_sdk send_client) (Inr 7) (transfer_builder sdk_wallet_of (replicate PK_BYTES 7) 500 (atom_state sdk_account)) = Inr send_tx"
    and "rkyv_reaction (ce_sdk send_client) (signed_reaction send_tx) = Inr [9]"
    and "check_reaction (ne_mp send_env) [9] = Some (signed_reaction send_tx)"
    and "length [9 :: u8] \<le> 65536" and "length (blake3 (pf_nodes (ne_pf send_env)) [9]) = 32"
    and "blake3 (pf_nodes (ne_pf send_env)) [9] = demo_hash [9]"
proof -
  show "wire_codec send_env send_client" unfolding send_env_def by (rule mw.wire_codec_axioms)
  show "decode_address (ce_sdk send_client) (hex_encode send_sdk (replicate PK_BYTES 7)) = Inr (replicate PK_BYTES 7)"
    by (simp add: send_client_fields decode_address_def sdk_platform.hex_law [OF send_sdk_platform])
  show "build (ce_sdk send_client) (Inr 7) (transfer_builder sdk_wallet_of (replicate PK_BYTES 7) 500 (atom_state sdk_account)) = Inr send_tx"
    using send_builds by (simp add: send_client_fields send_sdk_ops send_state_def)
  show "sdk_sha3 (ce_sdk send_client) = mp_sha3 (ne_mp send_env)"
    unfolding send_client_fields by (simp add: send_sdk_fields mem_sdk_def send_env_def mem_wire_def)
  show "rkyv_reaction (ce_sdk send_client) (signed_reaction send_tx) = Inr [9]"
    by (simp add: send_client_fields send_sdk_fields(8))
qed (simp_all add: send_env_def mem_wire_def mem_platform_with_def demo_codec_def demo_hash_def)

theorem cli_send_admitted_witness:
  "\<exists>mp nd' fs. mempool_new (\<lambda>_. Inr []) = Inr mp \<and> wallet_save send_sdk ''wallet'' sdk_wallet_of Map.empty = (Inr (), fs)
     \<and> cli_send send_client fs (Inr 7) (Inr 8) (hex_encode send_sdk (replicate PK_BYTES 7)) 500 ''wallet''
        (new_auto mem_hs (ce_stream send_client) (Inr (link_new (send_node mp))) (Inl ConnectTimeout) [])
       = Some (Inr (Inr (demo_hash [9])), Some (client_new (Plain (link_new nd'))))"
proof -
  obtain mp where mp: "mempool_new (\<lambda>_. Inr []) = Inr mp"
    and ok: "mempool_ok (ne_mp send_env) bt_ordered (\<lambda>t. t) (nd_mempool (send_node mp))"
    and room: "public_key_bytes sdk_wallet_of = eng_architect_pk (nd_engine (send_node mp))"
      "\<And>sid. pool_data (\<lambda>t. t) (nd_mempool (send_node mp)) sid = []" "unat (max_sector_capacity (nd_mempool (send_node mp))) = 1000000"
    by (rule send_ready) blast
  obtain fs where f: "wallet_save send_sdk ''wallet'' sdk_wallet_of Map.empty = (Inr (), fs)"
    and l: "wallet_load (ce_sdk send_client) ''wallet'' fs = Inr sdk_wallet_of"
    by (metis send_wallet_saved send_client_fields(2))
  note p = cli_send_admitted [OF send_facts(1) send_client_fields(1) _ send_env_contract ok send_facts(2,3) l send_facts(4)
      send_node_account sdk_account_hash send_facts(5) refl send_facts(6-9)]
  obtain nd' where "cli_send send_client fs (Inr 7) (Inr 8) (hex_encode send_sdk (replicate PK_BYTES 7)) 500 ''wallet''
        (new_auto mem_hs (ce_stream send_client) (Inr (link_new (send_node mp))) (Inl ConnectTimeout) [])
       = Some (Inr (Inr (demo_hash [9])), Some (client_new (Plain (link_new nd'))))"
    using p [of "Inr 8" mem_hs "Inl ConnectTimeout" "[]"] room by (auto simp: send_facts(10) send_sdk_platform send_client_fields)
  with mp f show ?thesis by blast
qed

end
