(* ===== verification/Primus_Ipc.thy ===== *)
theory Primus_Ipc
  imports Stream_Actions Primus_Node Primus_Sdk
begin

text \<open>
  The local control socket of the node, \<open>primus-core/src/ipc.rs\<close>: a connection is a loop over requests with
  a length in little-endian order; an administrative request is accepted with a signature of the
  architect over the challenge that was issued on the same connection. The challenges are shared by
  the connections, each under the number of its connection.
\<close>

section \<open>The server\<close>

record IpcServer =
  ipc_architect_pk :: bytes
  challenges :: "u64 \<rightharpoonup> bytes"

definition ipc_new :: "bytes \<Rightarrow> IpcServer" where
  "ipc_new pk = \<lparr>ipc_architect_pk = pk, challenges = Map.empty\<rparr>"

text \<open>The signature scheme and the codec.\<close>

record ('sg, 'k) ipc_env =
  ipc_suite :: "('sg, 'k) dsa_suite"
  ser_request :: "IpcRequest \<Rightarrow> string + bytes"
  de_request :: "bytes \<Rightarrow> string + IpcRequest"
  ser_response :: "IpcResponse \<Rightarrow> string + bytes"
  de_response :: "bytes \<Rightarrow> string + IpcResponse"

definition MAX_IPC_BYTES :: nat where "MAX_IPC_BYTES = 1024 * 1024"

text \<open>The path of the socket. The directory is created and closed to other users first; the variables of
  the environment and the outcome of these calls are arguments.\<close>

definition get_secure_ipc_path :: "string option \<Rightarrow> string option \<Rightarrow> (string \<Rightarrow> string + unit) \<Rightarrow> u16 \<Rightarrow> string + string" where
  "get_secure_ipc_path xdg_runtime_dir home make_private port =
     (let dir = (case xdg_runtime_dir of
                   Some d \<Rightarrow> d
                 | None \<Rightarrow> (case home of Some h \<Rightarrow> h | None \<Rightarrow> ''/root'') @ ''/.primus/run'')
      in and_then (make_private dir) (\<lambda>_. Inr (dir @ ''/primus-'' @ show_nat (unat port) @ ''.sock'')))"

section \<open>Requests\<close>

definition status_report :: "nat \<Rightarrow> ('t, 'm) node \<Rightarrow> IpcResponse" where
  "status_report cached nd =
     StatusReport (current_crystal_index (state (nd_engine nd))) (length (get_peer_list (nd_dht nd))) cached (nd_drops nd)"

text \<open>The challenge of the connection, and a signature of the architect over it. The challenge stays.\<close>

definition authorize :: "('sg, 'k) ipc_env \<Rightarrow> u64 \<Rightarrow> bytes \<Rightarrow> IpcServer \<Rightarrow> string + unit" where
  "authorize X cid sg I =
     (case challenges I cid of
        None \<Rightarrow> Inl ''No challenge issued for this connection''
      | Some n \<Rightarrow>
          if core_verify (ipc_suite X) (ipc_architect_pk I) n sg then Inr () else Inl ''Invalid ML-DSA-87 signature'')"

datatype verdict = Reply IpcResponse | Shutdown

text \<open>\<open>rnd\<close> are the bytes of the thread's generator, \<open>cached\<close> is the number of cached connections, and \<open>nd\<close> is
  the node at the time of the request.\<close>

definition handle_request ::
  "('sg, 'k) ipc_env \<Rightarrow> ('t, 'm) node_env \<Rightarrow> u64 \<Rightarrow> bytes \<Rightarrow> nat \<Rightarrow> ('t, 'm) node \<Rightarrow> IpcRequest \<Rightarrow> IpcServer \<Rightarrow> verdict \<times> IpcServer" where
  "handle_request X N cid rnd cached nd req I =
     (case req of
        Status \<Rightarrow> (Reply (status_report cached nd), I)
      | GetChallenge \<Rightarrow> (Reply (Challenge rnd), I\<lparr>challenges := (challenges I)(cid \<mapsto> rnd)\<rparr>)
      | AdminShutdown sg \<Rightarrow>
          (case authorize X cid sg I of Inr _ \<Rightarrow> (Shutdown, I) | Inl e \<Rightarrow> (Reply (IpcError e), I))
      | AdminConnectPeer addr sg \<Rightarrow>
          (case authorize X cid sg I of Inr _ \<Rightarrow> (Reply IpcOk, I) | Inl e \<Rightarrow> (Reply (IpcError e), I))
      | Primus_Types.GetProof addr \<Rightarrow>
          (case on_get_proof N nd addr of
             Inr pf \<Rightarrow> (Reply (Primus_Types.ProofResponse pf), I)
           | Inl e \<Rightarrow> (Reply (IpcError e), I)))"

section \<open>Connections\<close>

definition write_response :: "'w stream_ops \<Rightarrow> bytes \<Rightarrow> ('w, string, unit) act" where
  "write_response W bs =
     act_bind (stream_write W (to_le_bytes 4 (of_nat (length bs) :: u32))) (\<lambda>_. stream_write W bs)"

text \<open>One turn of the loop, on the stream of the connection and the server: it served a request, the
  connection was closed, or the process ends.\<close>

datatype turn = Served IpcRequest | HungUp | ProcessExit bytes

abbreviation on_wire :: "('w, 'e, 'a) act \<Rightarrow> ('w \<times> IpcServer, 'e, 'a) act" where
  "on_wire m \<equiv> act_zoom fst (\<lambda>w s. (w, snd s)) m"

definition send_verdict :: "('sg, 'k) ipc_env \<Rightarrow> 'w stream_ops \<Rightarrow> IpcRequest \<Rightarrow> verdict \<Rightarrow> ('w, string, turn) act" where
  "send_verdict X W req v =
     (case v of
        Reply resp \<Rightarrow>
          act_bind (act_lift (ser_response X resp)) (\<lambda>bs.
          act_bind (write_response W bs) (\<lambda>_. act_return (Served req)))
      | Shutdown \<Rightarrow>
          act_bind (act_lift (ser_response X IpcOk)) (\<lambda>bs.
          act_bind (write_response W bs) (\<lambda>_.
          act_bind (act_catch (stream_flush W)) (\<lambda>_ :: string + unit.
            act_return (ProcessExit (case req of AdminShutdown sg \<Rightarrow> sg | _ \<Rightarrow> []))))))"

definition serve_request ::
  "('sg, 'k) ipc_env \<Rightarrow> ('t, 'm) node_env \<Rightarrow> 'w stream_ops \<Rightarrow> u64 \<Rightarrow> bytes \<Rightarrow> nat \<Rightarrow> ('t, 'm) node \<Rightarrow> IpcRequest
     \<Rightarrow> ('w \<times> IpcServer, string, turn) act" where
  "serve_request X N W cid rnd cached nd req s =
     (case handle_request X N cid rnd cached nd req (snd s) of
        (v, I1) \<Rightarrow> on_wire (send_verdict X W req v) (fst s, I1))"

definition connection_turn ::
  "('sg, 'k) ipc_env \<Rightarrow> ('t, 'm) node_env \<Rightarrow> 'w stream_ops \<Rightarrow> u64 \<Rightarrow> bytes \<Rightarrow> nat \<Rightarrow> ('t, 'm) node
     \<Rightarrow> ('w \<times> IpcServer, string, turn) act" where
  "connection_turn X N W cid rnd cached nd =
     act_bind (act_catch (on_wire (stream_read W 4))) (\<lambda>r.
       case r of
         Inl _ \<Rightarrow> (\<lambda>(w, I). Some (Inr HungUp, (w, I\<lparr>challenges := (challenges I)(cid := None)\<rparr>)))
       | Inr len_buf \<Rightarrow>
           let len = unat (from_le_bytes len_buf :: u32)
           in if MAX_IPC_BYTES < len then act_fail ''IPC request too large''
              else
                act_bind (on_wire (stream_read W len)) (\<lambda>buf.
                act_bind (act_lift (de_request X buf)) (serve_request X N W cid rnd cached nd)))"

text \<open>The loop of a connection: \<open>env i\<close> are random bytes, cache and node at its \<open>i\<close>-th turn. The result says
  whether the process ends; after an error the challenge stays in the table.\<close>

partial_function (option) handle_connection ::
  "('sg, 'k) ipc_env \<Rightarrow> ('t, 'm) node_env \<Rightarrow> 'w stream_ops \<Rightarrow> u64 \<Rightarrow> (nat \<Rightarrow> bytes \<times> nat \<times> ('t, 'm) node) \<Rightarrow> nat
     \<Rightarrow> 'w \<times> IpcServer \<Rightarrow> ((string + bool) \<times> 'w \<times> IpcServer) option" where
  "handle_connection X N W cid env i s =
     (case env i of (rnd, cached, nd) \<Rightarrow>
        (case connection_turn X N W cid rnd cached nd s of
           None \<Rightarrow> None
         | Some (Inl e, s1) \<Rightarrow> Some (Inl e, s1)
         | Some (Inr t, s1) \<Rightarrow>
             (case t of
                Served _ \<Rightarrow> handle_connection X N W cid env (Suc i) s1
              | HungUp \<Rightarrow> Some (Inr False, s1)
              | ProcessExit _ \<Rightarrow> Some (Inr True, s1))))"

declare handle_connection.simps [code]

section \<open>Many connections\<close>

text \<open>The accept loop and the tasks it spawns. A turn of a connection is one step: it touches the table of
  challenges at its own number only. The other ends of the streams act at any time. The counter of
  connections does not reach its largest value.\<close>

record 'w ipc_run =
  run_server :: IpcServer
  run_streams :: "u64 \<rightharpoonup> 'w"
  conn_id_gen :: u64
  run_over :: bool

datatype ipc_event = EvServed u64 IpcRequest bytes | EvExit u64 bytes

inductive ipc_runs :: "('sg, 'k) ipc_env \<Rightarrow> ('t, 'm) node_env \<Rightarrow> 'w stream_ops \<Rightarrow> bytes \<Rightarrow> ipc_event list \<Rightarrow> 'w ipc_run \<Rightarrow> bool"
  for X :: "('sg, 'k) ipc_env" and N :: "('t, 'm) node_env" and W :: "'w stream_ops" and pk :: bytes where
  start: "ipc_runs X N W pk [] \<lparr>run_server = ipc_new pk, run_streams = Map.empty, conn_id_gen = 0, run_over = False\<rparr>"
| accept: "ipc_runs X N W pk tr R \<Longrightarrow> \<not> run_over R \<Longrightarrow> conn_id_gen R \<noteq> - 1 \<Longrightarrow>
    ipc_runs X N W pk tr (R\<lparr>run_streams := (run_streams R)(conn_id_gen R + 1 \<mapsto> w), conn_id_gen := conn_id_gen R + 1\<rparr>)"
| other_end: "ipc_runs X N W pk tr R \<Longrightarrow> run_streams R cid = Some w \<Longrightarrow>
    ipc_runs X N W pk tr (R\<lparr>run_streams := (run_streams R)(cid \<mapsto> w')\<rparr>)"
| served: "ipc_runs X N W pk tr R \<Longrightarrow> run_streams R cid = Some w \<Longrightarrow>
    connection_turn X N W cid rnd cached nd (w, run_server R) = Some (Inr (Served req), (w', I')) \<Longrightarrow>
    ipc_runs X N W pk (tr @ [EvServed cid req rnd]) (R\<lparr>run_server := I', run_streams := (run_streams R)(cid \<mapsto> w')\<rparr>)"
| hung_up: "ipc_runs X N W pk tr R \<Longrightarrow> run_streams R cid = Some w \<Longrightarrow>
    connection_turn X N W cid rnd cached nd (w, run_server R) = Some (Inr HungUp, (w', I')) \<Longrightarrow>
    ipc_runs X N W pk tr (R\<lparr>run_server := I', run_streams := (run_streams R)(cid := None)\<rparr>)"
| failed: "ipc_runs X N W pk tr R \<Longrightarrow> run_streams R cid = Some w \<Longrightarrow>
    connection_turn X N W cid rnd cached nd (w, run_server R) = Some (Inl e, (w', I')) \<Longrightarrow>
    ipc_runs X N W pk tr (R\<lparr>run_server := I', run_streams := (run_streams R)(cid := None)\<rparr>)"
| exited: "ipc_runs X N W pk tr R \<Longrightarrow> run_streams R cid = Some w \<Longrightarrow>
    connection_turn X N W cid rnd cached nd (w, run_server R) = Some (Inr (ProcessExit sg), (w', I')) \<Longrightarrow>
    ipc_runs X N W pk (tr @ [EvExit cid sg]) (R\<lparr>run_server := I', run_streams := Map.empty, run_over := True\<rparr>)"

end
