(* ===== verification/Primus_Admin.thy ===== *)
theory Primus_Admin
  imports Primus_Ipc Primus_Client
begin

text \<open>
  The commands of the terminal client that use the control socket or a wallet: \<open>primus-cli/src/admin.rs\<close>,
  \<open>commands/wallet.rs\<close>, the balance command of \<open>commands/tx.rs\<close> and the checks of \<open>utils.rs\<close>. What a command
  prints is its result.
\<close>

section \<open>Requests and responses\<close>

definition send_ipc_request :: "('sg, 'k) ipc_env \<Rightarrow> 'v stream_ops \<Rightarrow> IpcRequest \<Rightarrow> ('v, string, unit) act" where
  "send_ipc_request X V req =
     act_bind (act_lift (ser_request X req)) (\<lambda>bs.
     act_bind (stream_write V (to_le_bytes 4 (of_nat (length bs) :: u32))) (\<lambda>_.
     act_bind (stream_write V bs) (\<lambda>_. stream_flush V)))"

definition receive_response :: "('sg, 'k) ipc_env \<Rightarrow> 'v stream_ops \<Rightarrow> ('v, string, IpcResponse) act" where
  "receive_response X V =
     act_bind (stream_read V 4) (\<lambda>len_buf.
       let len = unat (from_le_bytes len_buf :: u32)
       in if MAX_IPC_BYTES < len then act_fail ''IPC response too large''
          else act_bind (stream_read V len) (\<lambda>buf. act_lift (de_response X buf)))"

definition get_challenge :: "('sg, 'k) ipc_env \<Rightarrow> 'v stream_ops \<Rightarrow> ('v, string, bytes) act" where
  "get_challenge X V =
     act_bind (send_ipc_request X V GetChallenge) (\<lambda>_.
     act_bind (receive_response X V) (\<lambda>resp.
       case resp of
         Challenge n \<Rightarrow> act_return n
       | IpcError e \<Rightarrow> act_fail e
       | _ \<Rightarrow> act_fail ''Unexpected response to GetChallenge''))"

text \<open>Whatever the challenge is, it is signed as it is.\<close>

definition sign_challenge :: "('sg, 'k, 'f) sdk_env \<Rightarrow> 'f \<Rightarrow> string \<Rightarrow> bytes \<Rightarrow> string + bytes" where
  "sign_challenge S fs wallet_path challenge =
     and_then (wallet_load S wallet_path fs) (\<lambda>w. Inr (wallet_sign S w challenge))"

section \<open>Administrative commands\<close>

text \<open>The socket must belong to the user; \<open>conn\<close> is the outcome of the attempt to connect.\<close>

definition verify_ipc_ownership :: "string + u32 \<Rightarrow> string + u32 \<Rightarrow> string + unit" where
  "verify_ipc_ownership socket_uid my_uid =
     and_then socket_uid (\<lambda>su.
     and_then my_uid (\<lambda>mu.
       if su \<noteq> mu then Inl ''Security exception: IPC socket is not owned by the current user'' else Inr ()))"

definition connect_ipc :: "string + string \<Rightarrow> (string \<Rightarrow> string + u32) \<Rightarrow> string + u32 \<Rightarrow> (string \<Rightarrow> string + 'v) \<Rightarrow> string + 'v" where
  "connect_ipc ipc_path owner_uid my_uid connect =
     and_then ipc_path (\<lambda>path.
     and_then (verify_ipc_ownership (owner_uid path) my_uid) (\<lambda>_. connect path))"

definition accepted :: "IpcResponse \<Rightarrow> ('v, string, unit) act" where
  "accepted resp =
     (case resp of
        IpcOk \<Rightarrow> act_return ()
      | IpcError e \<Rightarrow> act_fail (''Node rejected command: '' @ e)
      | _ \<Rightarrow> act_fail ''Unexpected response from node'')"

definition admin_shutdown :: "('sg, 'k) ipc_env \<Rightarrow> ('sg, 'k, 'f) sdk_env \<Rightarrow> 'v stream_ops \<Rightarrow> 'f \<Rightarrow> string \<Rightarrow> ('v, string, unit) act" where
  "admin_shutdown X S V fs wallet_path =
     act_bind (get_challenge X V) (\<lambda>challenge.
     act_bind (act_lift (sign_challenge S fs wallet_path challenge)) (\<lambda>sg.
     act_bind (send_ipc_request X V (AdminShutdown sg)) (\<lambda>_.
     act_bind (receive_response X V) accepted)))"

definition admin_connect_peer ::
  "('sg, 'k) ipc_env \<Rightarrow> ('sg, 'k, 'f) sdk_env \<Rightarrow> 'v stream_ops \<Rightarrow> 'f \<Rightarrow> string \<Rightarrow> string \<Rightarrow> ('v, string, unit) act" where
  "admin_connect_peer X S V fs addr wallet_path =
     act_bind (get_challenge X V) (\<lambda>challenge.
     act_bind (act_lift (sign_challenge S fs wallet_path challenge)) (\<lambda>sg.
     act_bind (send_ipc_request X V (AdminConnectPeer addr sg)) (\<lambda>_.
     act_bind (receive_response X V) accepted)))"

definition admin_status :: "('sg, 'k) ipc_env \<Rightarrow> 'v stream_ops \<Rightarrow> ('v, string, u64 \<times> nat \<times> nat \<times> u64) act" where
  "admin_status X V =
     act_bind (send_ipc_request X V Status) (\<lambda>_.
     act_bind (receive_response X V) (\<lambda>resp.
       case resp of
         StatusReport height peers cache_size drops \<Rightarrow> act_return (height, peers, cache_size, drops)
       | IpcError e \<Rightarrow> act_fail (''Node rejected command: '' @ e)
       | _ \<Rightarrow> act_fail ''Unexpected response from node''))"

section \<open>Wallets\<close>

definition cli_wallet_create :: "('sg, 'k, 'f) sdk_env \<Rightarrow> (nat \<Rightarrow> bytes) \<Rightarrow> string \<Rightarrow> 'f \<Rightarrow> (string + string \<times> string) \<times> 'f" where
  "cli_wallet_create S random path fs =
     (case wallet_generate S random 24 0 of
        Inl e \<Rightarrow> (Inl e, fs)
      | Inr w \<Rightarrow>
          (case wallet_save S path w fs of
             (Inl e, fs1) \<Rightarrow> (Inl e, fs1)
           | (Inr _, fs1) \<Rightarrow> (Inr (address w, mnemonic_phrase w), fs1)))"

definition cli_wallet_show :: "('sg, 'k, 'f) sdk_env \<Rightarrow> string \<Rightarrow> 'f \<Rightarrow> string + string" where
  "cli_wallet_show S path fs = and_then (wallet_load S path fs) (\<lambda>w. Inr (address w))"

section \<open>The balance command\<close>

text \<open>Without a proof the account is queried and an error is only printed. With a proof three connections
  are used: the client, the control socket for the height, and a second client for the crystal at this
  height, whose root is trusted.\<close>

definition cli_balance ::
  "('sg, 'k, 'f, 'n, 'w) client_env \<Rightarrow> string \<Rightarrow> (('n, 'w) NodeClient, cli_error, PrimusSdkError + AtomState) act" where
  "cli_balance C addr = act_catch (client_atom_state C addr)"

record ('n, 'w, 'v) balance_conns =
  bc_client :: "('n, 'w) NodeClient"
  bc_ipc :: 'v
  bc_local :: "('n, 'w) NodeClient"

datatype balance_error = BalanceText string | BalanceSdk PrimusSdkError | BalanceProof ProofError

definition cli_balance_proved ::
  "('sg, 'k) ipc_env \<Rightarrow> ('sg, 'k, 'f, 'n, 'w) client_env \<Rightarrow> 'v stream_ops \<Rightarrow> (bytes \<Rightarrow> string + Crystal) \<Rightarrow> proof_codec \<Rightarrow> string
     \<Rightarrow> (('n, 'w, 'v) balance_conns, balance_error, Atom option) act" where
  "cli_balance_proved X C V de_crystal_bytes PC addr =
     act_bind (act_map_err BalanceText (act_zoom bc_ipc (\<lambda>v s. s\<lparr>bc_ipc := v\<rparr>) (send_ipc_request X V Status))) (\<lambda>_.
     act_bind (act_map_err BalanceText (act_zoom bc_ipc (\<lambda>v s. s\<lparr>bc_ipc := v\<rparr>) (receive_response X V))) (\<lambda>resp.
       case resp of
         StatusReport height _ _ _ \<Rightarrow>
           act_bind (act_map_err BalanceSdk (act_zoom bc_local (\<lambda>c s. s\<lparr>bc_local := c\<rparr>) (client_get_crystal C height))) (\<lambda>crystal_bytes.
           act_bind (act_map_err BalanceText (act_lift (de_crystal_bytes crystal_bytes))) (\<lambda>crystal.
           act_bind (act_map_err BalanceSdk (act_zoom bc_client (\<lambda>c s. s\<lparr>bc_client := c\<rparr>) (get_balance_proof C addr))) (\<lambda>pf.
             act_map_err BalanceProof (act_lift (verify_balance_proof PC pf (state_root crystal) height height)))))
       | _ \<Rightarrow> act_fail (BalanceText ''Failed to fetch trusted root via IPC'')))"

end
