(* ===== verification/Ipc_Correct.thy ===== *)
theory Ipc_Correct
  imports Primus_Admin
begin

text \<open>
  Lemmas on the control socket: what a turn of a connection does, the invariant of all connections, and
  the exchange of a request and its answer between a command and the server.
\<close>

section \<open>Turns\<close>

lemma handle_request_server:
  assumes "handle_request X N cid rnd cached nd req I = (v, I')"
  shows "ipc_architect_pk I' = ipc_architect_pk I" "c \<noteq> cid \<Longrightarrow> challenges I' c = challenges I c"
    "challenges I' cid = (if req = GetChallenge then Some rnd else challenges I cid)"
    "v = Shutdown \<longleftrightarrow> (\<exists>sg n. req = AdminShutdown sg \<and> challenges I cid = Some n
       \<and> core_verify (ipc_suite X) (ipc_architect_pk I) n sg)"
  using assms by (auto simp: handle_request_def authorize_def split: IpcRequest.splits sum.splits option.splits if_splits)

lemma send_verdict_result:
  assumes "send_verdict X W req v w = Some (Inr t, w')"
  shows "t = (case v of Reply _ \<Rightarrow> Served req | Shutdown \<Rightarrow> ProcessExit (case req of AdminShutdown sg \<Rightarrow> sg | _ \<Rightarrow> []))"
  using assms by (cases v) (auto simp: send_verdict_def act_bind_Some act_run)

text \<open>The possible ends of a turn.\<close>

lemma connection_turn_cases:
  assumes "connection_turn X N W cid rnd cached nd (w, I) = Some (r, (w', I'))"
  obtains (hung) "r = Inr HungUp" "I' = I\<lparr>challenges := (challenges I)(cid := None)\<rparr>"
    | (error) e where "r = Inl e" "I' = I"
    | (unsent) e req v where "r = Inl e" "handle_request X N cid rnd cached nd req I = (v, I')"
    | (served) req resp where "r = Inr (Served req)" "handle_request X N cid rnd cached nd req I = (Reply resp, I')"
    | (exit) sg where "r = Inr (ProcessExit sg)" "handle_request X N cid rnd cached nd (AdminShutdown sg) I = (Shutdown, I')"
proof -
  have "r = Inr HungUp \<and> I' = I\<lparr>challenges := (challenges I)(cid := None)\<rparr> \<or> (\<exists>e. r = Inl e \<and> I' = I)
      \<or> (\<exists>req w1. serve_request X N W cid rnd cached nd req (w1, I) = Some (r, (w', I')))"
    using assms by (auto simp: connection_turn_def act_bind_def act_catch_def act_zoom_def act_lift_def act_fail_def Let_def
        split: option.splits sum.splits if_splits)
  then consider "r = Inr HungUp" "I' = I\<lparr>challenges := (challenges I)(cid := None)\<rparr>" | e where "r = Inl e" "I' = I"
    | req w1 where "serve_request X N W cid rnd cached nd req (w1, I) = Some (r, (w', I'))" by blast
  then show thesis
  proof cases
    case (3 req w1)
    obtain v where v: "handle_request X N cid rnd cached nd req I = (v, I')" "send_verdict X W req v w1 = Some (r, w')"
      using 3 by (auto simp: serve_request_def act_zoom_def split: prod.splits option.splits)
    show thesis
    proof (cases r)
      case (Inl e)
      with v(1) that(3) show thesis by blast
    next
      case (Inr t)
      note t = send_verdict_result [OF v(2) [unfolded Inr]]
      show thesis
      proof (cases v)
        case (Reply resp)
        with t v(1) Inr that(4) show thesis by simp
      next
        case Shutdown
        with handle_request_server(4) [OF v(1)] obtain sg where "req = AdminShutdown sg" by blast
        with t v(1) Inr Shutdown that(5) show thesis by simp
      qed
    qed
  qed (use that in blast)+
qed

section \<open>All connections\<close>

definition last_challenge :: "ipc_event list \<Rightarrow> u64 \<Rightarrow> bytes option" where
  "last_challenge tr cid =
     foldl (\<lambda>a e. case e of EvServed c req n \<Rightarrow> if c = cid \<and> req = GetChallenge then Some n else a | _ \<Rightarrow> a) None tr"

lemma last_challenge_simps [simp]:
  "last_challenge [] cid = None"
  "last_challenge (tr @ [EvServed c req n]) cid = (if c = cid \<and> req = GetChallenge then Some n else last_challenge tr cid)"
  "last_challenge (tr @ [EvExit c sg]) cid = last_challenge tr cid"
  by (simp_all add: last_challenge_def)

text \<open>The challenge of an open connection is the last one issued on it, and numbers above the counter are
  unused.\<close>

definition run_ok :: "bytes \<Rightarrow> ipc_event list \<Rightarrow> 'w ipc_run \<Rightarrow> bool" where
  "run_ok pk tr R \<longleftrightarrow>
     ipc_architect_pk (run_server R) = pk
     \<and> (\<forall>cid. run_streams R cid \<noteq> None \<or> challenges (run_server R) cid \<noteq> None \<longrightarrow> cid \<le> conn_id_gen R)
     \<and> (\<forall>cid n. run_streams R cid \<noteq> None \<and> challenges (run_server R) cid = Some n \<longrightarrow> last_challenge tr cid = Some n)
     \<and> (run_over R \<longrightarrow> run_streams R = Map.empty)
     \<and> (\<not> run_over R \<longrightarrow> (\<forall>cid sg. EvExit cid sg \<notin> set tr))"

lemma run_ok: "ipc_runs X N W pk tr R \<Longrightarrow> run_ok pk tr R"
proof (induction rule: ipc_runs.induct)
  case start
  show ?case by (simp add: run_ok_def ipc_new_def)
next
  case (accept tr R w)
  have "conn_id_gen R + 1 \<noteq> 0" using accept.hyps(3) by (auto simp: add_eq_0_iff2)
  then have u: "unat (conn_id_gen R + 1) = Suc (unat (conn_id_gen R))" using unatSuc [of "conn_id_gen R"] by (simp add: add.commute)
  have le: "cid \<le> conn_id_gen R + 1" if "cid \<le> conn_id_gen R" for cid
    using that u by (simp add: word_le_nat_alt)
  have "\<not> conn_id_gen R + 1 \<le> conn_id_gen R" using u by (simp add: word_le_nat_alt)
  then have "challenges (run_server R) (conn_id_gen R + 1) = None"
    using accept.IH unfolding run_ok_def by blast
  then show ?case using accept.IH accept.hyps(2) le by (simp add: run_ok_def)
next
  case (other_end tr R cid w w')
  then show ?case by (auto simp: run_ok_def)
next
  case (served tr R cid w rnd cached nd req w' I')
  from served.hyps(3) obtain resp where h: "handle_request X N cid rnd cached nd req (run_server R) = (Reply resp, I')"
    by (cases rule: connection_turn_cases) auto
  note s = handle_request_server [OF h]
  show ?case using served s by (auto simp: run_ok_def)
next
  case (hung_up tr R cid w rnd cached nd w' I')
  from hung_up.hyps(3) have "I' = (run_server R)\<lparr>challenges := (challenges (run_server R))(cid := None)\<rparr>"
    by (cases rule: connection_turn_cases) auto
  with hung_up show ?case by (auto simp: run_ok_def)
next
  case (failed tr R cid w rnd cached nd e w' I')
  have "ipc_architect_pk I' = pk \<and> (\<forall>c. c \<noteq> cid \<longrightarrow> challenges I' c = challenges (run_server R) c)"
    using failed.hyps(3) failed.IH by (cases rule: connection_turn_cases) (auto simp: run_ok_def dest: handle_request_server)
  with failed show ?case by (auto simp: run_ok_def)
next
  case (exited tr R cid w rnd cached nd sg w' I')
  from exited.hyps(3) have h: "handle_request X N cid rnd cached nd (AdminShutdown sg) (run_server R) = (Shutdown, I')"
    by (cases rule: connection_turn_cases) auto
  have "challenges I' c = challenges (run_server R) c" for c
    using handle_request_server(2,3) [OF h] by (cases "c = cid") simp_all
  then show ?case using exited handle_request_server(1) [OF h] by (auto simp: run_ok_def)
qed

lemma exit_event:
  assumes "ipc_runs X N W pk tr R" and "EvExit cid sg \<in> set tr"
  shows "\<exists>tr1 n. tr = tr1 @ [EvExit cid sg] \<and> last_challenge tr1 cid = Some n \<and> core_verify (ipc_suite X) pk n sg"
  using assms
proof (induction rule: ipc_runs.induct)
  case (served tr R cid' w rnd cached nd req w' I')
  then have "run_over R" using run_ok [OF served.hyps(1)] by (auto simp: run_ok_def)
  then show ?case using run_ok [OF served.hyps(1)] served.hyps(2) by (simp add: run_ok_def)
next
  case (exited tr R cid' w rnd cached nd sg' w' I')
  note ok = run_ok [OF exited.hyps(1), unfolded run_ok_def]
  have "EvExit cid sg \<notin> set tr" using ok exited.hyps(2) by auto
  with exited.prems have eq: "cid' = cid" "sg' = sg" by auto
  from exited.hyps(3) have "handle_request X N cid' rnd cached nd (AdminShutdown sg') (run_server R) = (Shutdown, I')"
    by (cases rule: connection_turn_cases) auto
  from handle_request_server(4) [OF this] obtain n where "challenges (run_server R) cid = Some n" "core_verify (ipc_suite X) pk n sg"
    using eq ok by auto
  with ok exited.hyps(2) eq show ?case by auto
qed auto

text \<open>The loop of a connection is such a run: when it ends the process, the run has the event.\<close>

lemma connection_exits:
  assumes "handle_connection X N W cid env i s = Some y" and "fst y = Inr True"
    and "ipc_runs X N W pk tr R" and "run_streams R cid = Some (fst s)" and "run_server R = snd s"
  shows "\<exists>tr' sg R'. ipc_runs X N W pk (tr @ tr' @ [EvExit cid sg]) R'"
proof -
  from assms(1) have "fst y = Inr True \<longrightarrow> (\<forall>tr R. ipc_runs X N W pk tr R \<longrightarrow> run_streams R cid = Some (fst s) \<longrightarrow> run_server R = snd s
      \<longrightarrow> (\<exists>tr' sg R'. ipc_runs X N W pk (tr @ tr' @ [EvExit cid sg]) R'))"
  proof (induction rule: handle_connection.raw_induct [rotated, consumes 1, case_names 1])
    case (1 f X N W cid env i s y)
    obtain rnd cached nd where e: "env i = (rnd, cached, nd)" by (cases "env i") auto
    obtain r s1 where t: "connection_turn X N W cid rnd cached nd s = Some (r, s1)"
      using 1(2) e by (cases "connection_turn X N W cid rnd cached nd s") auto
    show ?case
    proof (intro allI impI)
      fix tr R assume y: "fst y = Inr True" and R: "ipc_runs X N W pk tr R" "run_streams R cid = Some (fst s)" "run_server R = snd s"
      have step: "connection_turn X N W cid rnd cached nd (fst s, run_server R) = Some (r, (fst s1, snd s1))" using t R(3) by simp
      consider (served) req where "r = Inr (Served req)" "f X N W cid env (Suc i) s1 = Some y"
        | (exit) sg where "r = Inr (ProcessExit sg)"
        using 1(2) e t y by (auto split: sum.splits turn.splits)
      then show "\<exists>tr' sg R'. ipc_runs X N W pk (tr @ tr' @ [EvExit cid sg]) R'"
      proof cases
        case (served req)
        let ?R = "R\<lparr>run_server := snd s1, run_streams := (run_streams R)(cid \<mapsto> fst s1)\<rparr>"
        have "ipc_runs X N W pk (tr @ [EvServed cid req rnd]) ?R"
          using ipc_runs.served [OF R(1,2) step [unfolded served(1)]] .
        then have "\<exists>tr' sg R'. ipc_runs X N W pk ((tr @ [EvServed cid req rnd]) @ tr' @ [EvExit cid sg]) R'"
          using 1(1) [OF served(2), rule_format, of "tr @ [EvServed cid req rnd]" ?R] y by simp
        then show ?thesis by (metis append_assoc)
      next
        case (exit sg)
        from ipc_runs.exited [OF R(1,2) step [unfolded exit]] show ?thesis by (metis append_Nil)
      qed
    qed
  qed
  then show ?thesis using assms(2-5) by blast
qed

section \<open>A command and the server\<close>

text \<open>One connection with the server at its other end: the server takes its turns whenever bytes arrive.
  \<open>sc_in\<close> are the bytes on the way to the server and \<open>sc_out\<close> those on the way back; \<open>il_end\<close> is the end of
  the connection.\<close>

record ipc_link =
  il_server :: IpcServer
  il_script :: script
  il_turns :: nat
  il_end :: "(string + turn) option"

definition ipc_idle :: "IpcServer \<Rightarrow> nat \<Rightarrow> ipc_link" where
  "ipc_idle I k = \<lparr>il_server = I, il_script = \<lparr>sc_in = [], sc_out = [], sc_closed = False\<rparr>, il_turns = k, il_end = None\<rparr>"

text \<open>The fuel is the number of bytes: a turn consumes at least the length of its request.\<close>

fun ipc_pump :: "('sg, 'k) ipc_env \<Rightarrow> ('t, 'm) node_env \<Rightarrow> u64 \<Rightarrow> (nat \<Rightarrow> bytes \<times> nat \<times> ('t, 'm) node) \<Rightarrow> nat \<Rightarrow> ipc_link \<Rightarrow> ipc_link" where
  "ipc_pump X N cid env 0 L = L"
| "ipc_pump X N cid env (Suc fuel) L =
     (case env (il_turns L) of (rnd, cached, nd) \<Rightarrow>
        (case connection_turn X N script_ops cid rnd cached nd (il_script L, il_server L) of
           None \<Rightarrow> L
         | Some (r, (sc, I)) \<Rightarrow>
             let L1 = L\<lparr>il_server := I, il_script := sc, il_turns := Suc (il_turns L)\<rparr>
             in (case r of Inr (Served _) \<Rightarrow> ipc_pump X N cid env fuel L1 | _ \<Rightarrow> L1\<lparr>il_end := Some r\<rparr>)))"

definition ipc_stream :: "('sg, 'k) ipc_env \<Rightarrow> ('t, 'm) node_env \<Rightarrow> u64 \<Rightarrow> (nat \<Rightarrow> bytes \<times> nat \<times> ('t, 'm) node) \<Rightarrow> ipc_link stream_ops" where
  "ipc_stream X N cid env =
     \<lparr>stream_write = (\<lambda>bs L.
        let sc = il_script L; sc1 = sc\<lparr>sc_in := sc_in sc @ bs\<rparr>
        in if il_end L = None then Some (Inr (), ipc_pump X N cid env (length (sc_in sc1)) (L\<lparr>il_script := sc1\<rparr>))
           else Some (Inl ''broken pipe'', L)),
      stream_flush = (\<lambda>L. Some (Inr (), L)),
      stream_read = (\<lambda>n L.
        let sc = il_script L
        in if n \<le> length (sc_out sc) then Some (Inr (take n (sc_out sc)), L\<lparr>il_script := sc\<lparr>sc_out := drop n (sc_out sc)\<rparr>\<rparr>)
           else if il_end L = None then None else Some (Inl ''early eof'', L))\<rparr>"

definition ipc_frame :: "bytes \<Rightarrow> bytes" where
  "ipc_frame bs = to_le_bytes 4 (of_nat (length bs) :: u32) @ bs"

lemma ipc_frame_length:
  assumes "length bs \<le> MAX_IPC_BYTES"
  shows "unat (from_le_bytes (to_le_bytes 4 (of_nat (length bs) :: u32)) :: u32) = length bs"
  using assms by (simp add: le_length MAX_IPC_BYTES_def)

text \<open>The server on a script: a turn waits for a whole request and then answers it.\<close>

lemma turn_waits:
  assumes "bs \<noteq> []" and "length bs \<le> MAX_IPC_BYTES"
  shows "connection_turn X N script_ops cid rnd cached nd (\<lparr>sc_in = [], sc_out = out, sc_closed = False\<rparr>, I) = None"
    and "connection_turn X N script_ops cid rnd cached nd
      (\<lparr>sc_in = to_le_bytes 4 (of_nat (length bs) :: u32), sc_out = out, sc_closed = False\<rparr>, I) = None"
  using assms ipc_frame_length [OF assms(2)]
  by (simp_all add: connection_turn_def act_bind_def act_catch_def act_zoom_def script_ops_def Let_def)

lemma turn_serves:
  assumes "de_request X bs = Inr req" and "length bs \<le> MAX_IPC_BYTES"
    and "handle_request X N cid rnd cached nd req I = (v, I')" and "ser_response X (case v of Reply r \<Rightarrow> r | Shutdown \<Rightarrow> IpcOk) = Inr b"
  shows "connection_turn X N script_ops cid rnd cached nd (\<lparr>sc_in = ipc_frame bs, sc_out = [], sc_closed = False\<rparr>, I) =
    Some (Inr (case v of Reply _ \<Rightarrow> Served req | Shutdown \<Rightarrow> ProcessExit (case req of AdminShutdown sg \<Rightarrow> sg | _ \<Rightarrow> [])),
          (\<lparr>sc_in = [], sc_out = ipc_frame b, sc_closed = False\<rparr>, I'))"
  using assms ipc_frame_length [OF assms(2)]
  by (cases v) (simp_all add: connection_turn_def act_bind_def act_catch_def act_zoom_def act_lift_def act_return_def script_ops_def Let_def
      ipc_frame_def serve_request_def send_verdict_def write_response_def)

definition short_request :: "IpcRequest \<Rightarrow> bool" where
  "short_request req = (case req of
     AdminShutdown sg \<Rightarrow> length sg \<le> 65536
   | AdminConnectPeer addr sg \<Rightarrow> length addr \<le> 65536 \<and> length sg \<le> 65536
   | Primus_Types.GetProof addr \<Rightarrow> length addr \<le> 65536
   | _ \<Rightarrow> True)"

definition short_response :: "IpcResponse \<Rightarrow> bool" where
  "short_response resp = (case resp of
     IpcError e \<Rightarrow> length e \<le> 65536
   | Challenge n \<Rightarrow> length n \<le> 65536
   | StatusReport _ peers cache_size _ \<Rightarrow> peers < 2 ^ 64 \<and> cache_size < 2 ^ 64
   | Primus_Types.ProofResponse _ \<Rightarrow> False
   | _ \<Rightarrow> True)"

text \<open>What the two sides rely on: bincode restores requests and responses, and short ones fit the limit.\<close>

locale ipc_codec =
  fixes X :: "('sg, 'k) ipc_env"
  assumes request_law: "short_request req \<Longrightarrow> \<exists>b. ser_request X req = Inr b \<and> de_request X b = Inr req \<and> b \<noteq> [] \<and> length b \<le> MAX_IPC_BYTES"
    and response_law: "short_response resp \<Longrightarrow> \<exists>b. ser_response X resp = Inr b \<and> de_response X b = Inr resp \<and> length b \<le> MAX_IPC_BYTES"
begin

lemma request_handled:
  assumes "short_request req" and "env k = (rnd, cached, nd)" and "handle_request X N cid rnd cached nd req I = (v, I')"
    and "short_response (case v of Reply r \<Rightarrow> r | Shutdown \<Rightarrow> IpcOk)"
  shows "act_bind (send_ipc_request X (ipc_stream X N cid env) req) (\<lambda>_. receive_response X (ipc_stream X N cid env)) (ipc_idle I k) =
    Some (Inr (case v of Reply r \<Rightarrow> r | Shutdown \<Rightarrow> IpcOk),
      (ipc_idle I' (Suc k))\<lparr>il_end := (case v of Reply _ \<Rightarrow> None | Shutdown \<Rightarrow> Some (Inr (ProcessExit (case req of AdminShutdown sg \<Rightarrow> sg | _ \<Rightarrow> []))))\<rparr>)"
proof -
  obtain bs where bs: "ser_request X req = Inr bs" "de_request X bs = Inr req" "bs \<noteq> []" "length bs \<le> MAX_IPC_BYTES"
    using request_law [OF assms(1)] by blast
  obtain b where b: "ser_response X (case v of Reply r \<Rightarrow> r | Shutdown \<Rightarrow> IpcOk) = Inr b"
      "de_response X b = Inr (case v of Reply r \<Rightarrow> r | Shutdown \<Rightarrow> IpcOk)" "length b \<le> MAX_IPC_BYTES"
    using response_law [OF assms(4)] by blast
  let ?W = "ipc_stream X N cid env" and ?h = "to_le_bytes 4 (of_nat (length bs) :: u32)"
  define L1 where "L1 = (ipc_idle I k)\<lparr>il_script := \<lparr>sc_in = ?h, sc_out = [], sc_closed = False\<rparr>\<rparr>"
  define L2 where "L2 = \<lparr>il_server = I', il_script = \<lparr>sc_in = [], sc_out = ipc_frame b, sc_closed = False\<rparr>, il_turns = Suc k,
     il_end = (case v of Reply _ \<Rightarrow> None | Shutdown \<Rightarrow> Some (Inr (ProcessExit (case req of AdminShutdown sg \<Rightarrow> sg | _ \<Rightarrow> []))))\<rparr>"
  have four: "4 + n = Suc (Suc (Suc (Suc n)))" for n :: nat by simp
  have w1: "stream_write ?W ?h (ipc_idle I k) = Some (Inr (), L1)"
    using assms(2) ipc_pump.simps(2) [of X N cid env 3]
    by (simp add: ipc_stream_def ipc_idle_def L1_def Let_def turn_waits(2) [OF bs(3,4)] del: ipc_pump.simps)
  have w2: "stream_write ?W bs L1 = Some (Inr (), L2)"
    using assms(2) turn_serves [OF bs(2,4) assms(3) b(1)]
    by (cases v) (simp_all add: ipc_stream_def ipc_idle_def L1_def L2_def Let_def ipc_frame_def four turn_waits(1) [OF bs(3,4)] split: prod.split)
  have "send_ipc_request X ?W req (ipc_idle I k) = Some (Inr (), L2)"
    using bs(1) w1 w2 by (simp add: send_ipc_request_def act_bind_def act_lift_def) (simp add: ipc_stream_def)
  moreover have "receive_response X ?W L2 = Some (Inr (case v of Reply r \<Rightarrow> r | Shutdown \<Rightarrow> IpcOk),
      (ipc_idle I' (Suc k))\<lparr>il_end := il_end L2\<rparr>)"
    using b(2,3) ipc_frame_length [OF b(3)]
    by (simp add: receive_response_def act_bind_def act_lift_def ipc_stream_def L2_def ipc_frame_def Let_def ipc_idle_def)
  ultimately show ?thesis by (simp add: act_bind_def L2_def)
qed

end

end
