(* ===== verification/Ipc_Claims.thy ===== *)
theory Ipc_Claims
  imports Ipc_Correct Client_Claims
begin

text \<open>
  The properties of the control socket: the process ends only on a signature of the architect over the
  challenge of the connection, the shutdown command of the architect works, and the command signs
  whatever it is given as a challenge.
\<close>

section \<open>Shutdown\<close>

text \<open>C25. The process ends only on the authority of the architect: in every run of the control socket, whatever
  is sent over any number of connections, a shutdown is the last event, and its signature verifies under
  the architect's key for the challenge issued last on the same connection.\<close>

theorem shutdown_authenticated:
  assumes "ipc_runs X N W pk tr R" and "EvExit cid sg \<in> set tr"
  shows "\<exists>tr1 n. tr = tr1 @ [EvExit cid sg] \<and> last_challenge tr1 cid = Some n \<and> core_verify (ipc_suite X) pk n sg"
  by (rule exit_event [OF assms])

lemma wallet_signature:
  assumes "sdk_platform S" and "wallet_load S path fs = Inr w"
  shows "core_verify (sdk_suite S) (public_key_bytes w) msg (wallet_sign S w msg)" "length (wallet_sign S w msg) = SIG_BYTES"
proof -
  obtain phrase idx where "from_mnemonic S phrase idx = Inr w"
    using assms(2) by (auto simp: wallet_load_def result_simps split: if_splits)
  from sdk_platform.wallet_key [OF assms(1) this]
  show "core_verify (sdk_suite S) (public_key_bytes w) msg (wallet_sign S w msg)" "length (wallet_sign S w msg) = SIG_BYTES"
    by (simp_all add: core_verify_def dsa_verify_def)
qed

text \<open>C26. The shutdown command does what it says: it ends the process exactly when the signature of its wallet
  verifies under the key of the server, which it does when the wallet is the architect's; otherwise the
  node rejects it and goes on.\<close>

theorem admin_shutdown_works:
  assumes "ipc_codec X" and "sdk_platform S" and "ipc_suite X = sdk_suite S" and "wallet_load S path fs = Inr w"
    and "env 0 = (rnd, cached, nd)" and "length rnd = 32"
  shows "\<exists>L. admin_shutdown X S (ipc_stream X N cid env) fs path (ipc_idle (ipc_new pk) 0) =
      Some (if core_verify (ipc_suite X) pk rnd (wallet_sign S w rnd) then Inr ()
            else Inl ''Node rejected command: Invalid ML-DSA-87 signature'', L)
    \<and> (il_end L = Some (Inr (ProcessExit (wallet_sign S w rnd))) \<longleftrightarrow> core_verify (ipc_suite X) pk rnd (wallet_sign S w rnd))
    \<and> (pk = public_key_bytes w \<longrightarrow> core_verify (ipc_suite X) pk rnd (wallet_sign S w rnd))"
proof -
  let ?V = "ipc_stream X N cid env" and ?sg = "wallet_sign S w rnd" and ?I = "(ipc_new pk)\<lparr>challenges := [cid \<mapsto> rnd]\<rparr>"
  let ?ok = "core_verify (ipc_suite X) pk rnd ?sg"
  obtain rnd1 cached1 nd1 where e1: "env 1 = (rnd1, cached1, nd1)" by (cases "env 1") auto
  have "short_request GetChallenge" "short_response (Challenge rnd)" and sh: "short_request (AdminShutdown ?sg)"
    using assms(6) wallet_signature(2) [OF assms(2,4), of rnd] by (simp_all add: short_request_def short_response_def SIG_BYTES_def)
  then have "get_challenge X ?V (ipc_idle (ipc_new pk) 0) = Some (Inr rnd, ipc_idle ?I 1)"
    using ipc_codec.request_handled [OF assms(1), where req = GetChallenge and k = 0 and env = env and N = N and cid = cid
        and I = "ipc_new pk" and v = "Reply (Challenge rnd)" and I' = ?I] assms(5)
    by (simp add: get_challenge_def act_bind_assoc [symmetric] act_bind_run(1) act_run handle_request_def ipc_new_def ipc_idle_def)
  moreover define v where "v = (if ?ok then Shutdown else Reply (IpcError ''Invalid ML-DSA-87 signature''))"
  have "handle_request X N cid rnd1 cached1 nd1 (AdminShutdown ?sg) ?I = (v, ?I)"
    by (simp add: v_def handle_request_def authorize_def ipc_new_def)
  from ipc_codec.request_handled [OF assms(1) sh, where k = 1 and env = env, OF e1 this]
  have "act_bind (send_ipc_request X ?V (AdminShutdown ?sg)) (\<lambda>_. receive_response X ?V) (ipc_idle ?I 1) =
      Some (Inr (if ?ok then IpcOk else IpcError ''Invalid ML-DSA-87 signature''),
        (ipc_idle ?I 2)\<lparr>il_end := (if ?ok then Some (Inr (ProcessExit ?sg)) else None)\<rparr>)"
    by (simp add: v_def short_response_def numeral_2_eq_2)
  ultimately have "admin_shutdown X S ?V fs path (ipc_idle (ipc_new pk) 0) =
      Some (if ?ok then Inr () else Inl ''Node rejected command: Invalid ML-DSA-87 signature'',
        (ipc_idle ?I 2)\<lparr>il_end := (if ?ok then Some (Inr (ProcessExit ?sg)) else None)\<rparr>)"
    using assms(4) act_bind_assoc [of "send_ipc_request X ?V (AdminShutdown ?sg)" "\<lambda>_. receive_response X ?V" accepted, symmetric]
    by (simp add: admin_shutdown_def sign_challenge_def act_bind_run(1) [of "get_challenge X ?V"] act_bind_run(1) [of "act_lift _"]
        act_bind_run(1) [of "act_bind _ _"] act_run accepted_def)
  then show ?thesis using wallet_signature(1) [OF assms(2,4), of rnd] assms(3) by simp
qed

section \<open>What the command signs\<close>

text \<open>The shutdown command signs any challenge: whoever answers on the socket with the digest of a reaction of
  the wallet's account obtains a signature with which this reaction passes the signature check of
  the virtual machine.\<close>

theorem admin_signs_reactions:
  assumes "ipc_codec X" and "sdk_platform S" and "wallet_load S path fs = Inr w" and "public_key (sender rx) = public_key_bytes w"
    and "length (signing_digest h rx) = 32" and "ctx_verify ctx = core_verify (sdk_suite S)"
  shows "\<exists>answer sc pre b sg. admin_shutdown X S script_ops fs path \<lparr>sc_in = answer, sc_out = [], sc_closed = True\<rparr> = Some (Inl ''early eof'', sc)
    \<and> sc_out sc = pre @ ipc_frame b \<and> de_request X b = Inr (AdminShutdown sg)
    \<and> signature_gate h ctx (rx\<lparr>signature := sg\<rparr>) = Inr ()"
proof -
  let ?d = "signing_digest h rx" let ?sg = "wallet_sign S w ?d"
  obtain a where a: "ser_response X (Challenge ?d) = Inr a" "de_response X a = Inr (Challenge ?d)" "length a \<le> MAX_IPC_BYTES"
    using ipc_codec.response_law [OF assms(1), of "Challenge ?d"] assms(5) by (auto simp: short_response_def)
  obtain g where g: "ser_request X GetChallenge = Inr g"
    using ipc_codec.request_law [OF assms(1), of GetChallenge] by (auto simp: short_request_def)
  obtain b where b: "ser_request X (AdminShutdown ?sg) = Inr b" "de_request X b = Inr (AdminShutdown ?sg)"
    using ipc_codec.request_law [OF assms(1), of "AdminShutdown ?sg"] wallet_signature(2) [OF assms(2,3), of ?d]
    by (auto simp: short_request_def SIG_BYTES_def)
  have "admin_shutdown X S script_ops fs path \<lparr>sc_in = ipc_frame a, sc_out = [], sc_closed = True\<rparr> =
      Some (Inl ''early eof'', \<lparr>sc_in = [], sc_out = ipc_frame g @ ipc_frame b, sc_closed = True\<rparr>)"
    using a g b(1) assms(3) ipc_frame_length [OF a(3)]
    by (simp add: admin_shutdown_def get_challenge_def send_ipc_request_def receive_response_def act_bind_def act_lift_def act_return_def
        script_ops_def ipc_frame_def Let_def sign_challenge_def)
  moreover have "signature_gate h ctx (rx\<lparr>signature := ?sg\<rparr>) = Inr ()"
    using assms(4,6) wallet_signature(1) [OF assms(2,3), of ?d] by (simp add: signature_gate_def signing_digest_def signing_input_def)
  ultimately show ?thesis using b(2) by fastforce
qed

section \<open>A codec in memory\<close>

definition put_request :: "IpcRequest \<Rightarrow> string + bytes" where
  "put_request req = (if \<not> short_request req then Inl ''size'' else Inr (case req of
     Status \<Rightarrow> [0]
   | GetChallenge \<Rightarrow> [1]
   | AdminShutdown sg \<Rightarrow> 2 # sg
   | AdminConnectPeer addr sg \<Rightarrow> 3 # to_le_bytes 8 (of_nat (length addr) :: u64) @ map (\<lambda>c. of_nat (of_char c)) addr @ sg
   | Primus_Types.GetProof addr \<Rightarrow> 4 # addr))"

definition get_request :: "bytes \<Rightarrow> string + IpcRequest" where
  "get_request bs = (case bs of
     [] \<Rightarrow> Inl ''empty''
   | t # r \<Rightarrow>
       if t = 0 then Inr Status else if t = 1 then Inr GetChallenge else if t = 2 then Inr (AdminShutdown r)
       else if t = 3 then
         (let n = unat (from_le_bytes (take 8 r) :: u64)
          in Inr (AdminConnectPeer (map (\<lambda>b. char_of (unat b)) (take n (drop 8 r))) (drop (8 + n) r)))
       else if t = 4 then Inr (Primus_Types.GetProof r) else Inl ''variant'')"

definition put_response :: "IpcResponse \<Rightarrow> string + bytes" where
  "put_response resp = (if \<not> short_response resp then Inl ''size'' else Inr (case resp of
     IpcOk \<Rightarrow> [0]
   | IpcError e \<Rightarrow> 1 # map (\<lambda>c. of_nat (of_char c)) e
   | Challenge n \<Rightarrow> 2 # n
   | StatusReport h p c d \<Rightarrow> 3 # to_le_bytes 8 h @ to_le_bytes 8 (of_nat p :: u64) @ to_le_bytes 8 (of_nat c :: u64) @ to_le_bytes 8 d
   | Primus_Types.ProofResponse _ \<Rightarrow> []))"

definition get_response :: "bytes \<Rightarrow> string + IpcResponse" where
  "get_response bs = (case bs of
     [] \<Rightarrow> Inl ''empty''
   | t # r \<Rightarrow>
       if t = 0 then Inr IpcOk else if t = 1 then Inr (IpcError (map (\<lambda>b. char_of (unat b)) r)) else if t = 2 then Inr (Challenge r)
       else if t = 3 then Inr (StatusReport (from_le_bytes (take 8 r)) (unat (from_le_bytes (take 8 (drop 8 r)) :: u64))
         (unat (from_le_bytes (take 8 (drop 16 r)) :: u64)) (from_le_bytes (drop 24 r)))
       else Inl ''variant'')"

definition mem_ipc :: "(bytes, bytes) ipc_env" where
  "mem_ipc = \<lparr>ipc_suite = mem_suite, ser_request = put_request, de_request = get_request,
     ser_response = put_response, de_response = get_response\<rparr>"

interpretation mi: ipc_codec mem_ipc
proof
  fix req assume "short_request req"
  then show "\<exists>b. ser_request mem_ipc req = Inr b \<and> de_request mem_ipc b = Inr req \<and> b \<noteq> [] \<and> length b \<le> MAX_IPC_BYTES"
    by (cases req) (auto simp: mem_ipc_def put_request_def get_request_def short_request_def MAX_IPC_BYTES_def Let_def char_bytes unat_of_nat simp del: map_map)
next
  fix resp assume "short_response resp"
  then show "\<exists>b. ser_response mem_ipc resp = Inr b \<and> de_response mem_ipc b = Inr resp \<and> length b \<le> MAX_IPC_BYTES"
    by (cases resp) (auto simp: mem_ipc_def put_response_def get_response_def short_response_def MAX_IPC_BYTES_def char_bytes
        from_to_le_bytes take_bit_word_eq_self unat_of_nat simp del: map_map)
qed

lemma send_wallet_loads: "\<exists>fs. wallet_save send_sdk ''wallet'' sdk_wallet_of Map.empty = (Inr (), fs) \<and> wallet_load send_sdk ''wallet'' fs = Inr sdk_wallet_of"
proof -
  obtain fs where f: "wallet_save send_sdk ''wallet'' sdk_wallet_of Map.empty = (Inr (), fs)"
    by (simp add: wallet_save_def send_sdk_def mem_sdk_def)
  have "from_mnemonic send_sdk ''abandon about'' 0 = Inr sdk_wallet_of" by (simp add: send_sdk_ops sdk_wallet)
  from sdk_platform.save_load [OF send_sdk_platform this f] f show ?thesis by blast
qed

lemma send_suites: "sdk_suite send_sdk = mem_suite" "ipc_suite mem_ipc = mem_suite"
  by (simp_all add: send_sdk_fields mem_sdk_def mem_ipc_def)

text \<open>A run with one connection, on which the architect shuts the node down.\<close>

lemma run_shutdown:
  assumes "ipc_codec X" and "length rnd = 32" and "length sg = SIG_BYTES" and "core_verify (ipc_suite X) pk rnd sg"
  shows "\<exists>R. ipc_runs X N script_ops pk [EvServed 1 GetChallenge rnd, EvExit 1 sg] R"
proof -
  obtain g b a c where g: "de_request X g = Inr GetChallenge" "length g \<le> MAX_IPC_BYTES"
      and b: "de_request X b = Inr (AdminShutdown sg)" "length b \<le> MAX_IPC_BYTES"
      and a: "ser_response X (Challenge rnd) = Inr a" and c: "ser_response X IpcOk = Inr c"
    using ipc_codec.request_law [OF assms(1), of GetChallenge] ipc_codec.request_law [OF assms(1), of "AdminShutdown sg"]
      ipc_codec.response_law [OF assms(1), of "Challenge rnd"] ipc_codec.response_law [OF assms(1), of IpcOk] assms(2,3)
    by (auto simp: short_request_def short_response_def SIG_BYTES_def)
  let ?s = "\<lambda>i. \<lparr>sc_in = i, sc_out = [], sc_closed = False\<rparr>"
  let ?I = "\<lparr>ipc_architect_pk = pk, challenges = [1 \<mapsto> rnd]\<rparr>"
  have h1: "handle_request X N 1 rnd 0 nd GetChallenge (ipc_new pk) = (Reply (Challenge rnd), ?I)" for nd
    by (simp add: handle_request_def ipc_new_def)
  have h2: "handle_request X N 1 rnd 0 nd (AdminShutdown sg) ?I = (Shutdown, ?I)" for nd
    using assms(4) by (simp add: handle_request_def authorize_def)
  let ?R = "\<lambda>I w. \<lparr>run_server = I, run_streams = [1 \<mapsto> w], conn_id_gen = 1, run_over = False\<rparr>"
  let ?w = "\<lparr>sc_in = [], sc_out = ipc_frame a, sc_closed = False\<rparr>"
  have t1: "connection_turn X N script_ops 1 rnd 0 nd (?s (ipc_frame g), run_server (?R (ipc_new pk) w)) = Some (Inr (Served GetChallenge), (?w, ?I))"
    and t2: "connection_turn X N script_ops 1 rnd 0 nd (?s (ipc_frame b), run_server (?R ?I w)) =
      Some (Inr (ProcessExit sg), (\<lparr>sc_in = [], sc_out = ipc_frame c, sc_closed = False\<rparr>, ?I))" for nd w
    using turn_serves [OF g h1, of a nd] turn_serves [OF b h2, of c nd] a c by simp_all
  have "ipc_runs X N script_ops pk [] (?R (ipc_new pk) (?s (ipc_frame g)))"
    using ipc_runs.accept [OF ipc_runs.start [of X N script_ops pk], where w = "?s (ipc_frame g)"] by simp
  from ipc_runs.served [OF this _ t1] have "ipc_runs X N script_ops pk [EvServed 1 GetChallenge rnd] (?R ?I ?w)" by simp
  from ipc_runs.other_end [OF this, of 1 ?w "?s (ipc_frame b)"]
  have "ipc_runs X N script_ops pk [EvServed 1 GetChallenge rnd] (?R ?I (?s (ipc_frame b)))" by simp
  from ipc_runs.exited [OF this _ t2] show ?thesis by auto
qed

theorem shutdown_authenticated_witness:
  "\<exists>R. ipc_runs mem_ipc send_env script_ops (public_key_bytes sdk_wallet_of)
      [EvServed 1 GetChallenge (replicate 32 5), EvExit 1 (wallet_sign send_sdk sdk_wallet_of (replicate 32 5))] R
    \<and> core_verify mem_suite (public_key_bytes sdk_wallet_of) (replicate 32 5) (wallet_sign send_sdk sdk_wallet_of (replicate 32 5))"
proof -
  let ?n = "replicate 32 5" let ?sg = "wallet_sign send_sdk sdk_wallet_of ?n"
  obtain fs where "wallet_load send_sdk ''wallet'' fs = Inr sdk_wallet_of" using send_wallet_loads by blast
  note sg = wallet_signature [OF send_sdk_platform this, unfolded send_suites]
  obtain R where R: "ipc_runs mem_ipc send_env script_ops (public_key_bytes sdk_wallet_of) [EvServed 1 GetChallenge ?n, EvExit 1 ?sg] R"
    using run_shutdown [OF mi.ipc_codec_axioms, of ?n ?sg "public_key_bytes sdk_wallet_of" send_env] sg by (auto simp: send_suites)
  from shutdown_authenticated [OF R, of 1 ?sg] R show ?thesis by (auto simp: last_challenge_def send_suites)
qed

theorem admin_shutdown_works_witness:
  "\<exists>fs L. wallet_save send_sdk ''wallet'' sdk_wallet_of Map.empty = (Inr (), fs)
     \<and> admin_shutdown mem_ipc send_sdk (ipc_stream mem_ipc send_env 1 (\<lambda>i. (replicate 32 5, 0, send_node \<lparr>sectors = [], max_sector_capacity = 0\<rparr>))) fs ''wallet''
         (ipc_idle (ipc_new (public_key_bytes sdk_wallet_of)) 0) = Some (Inr (), L)
     \<and> il_end L = Some (Inr (ProcessExit (wallet_sign send_sdk sdk_wallet_of (replicate 32 5))))"
proof -
  obtain fs where f: "wallet_save send_sdk ''wallet'' sdk_wallet_of Map.empty = (Inr (), fs)" "wallet_load send_sdk ''wallet'' fs = Inr sdk_wallet_of"
    using send_wallet_loads by blast
  from admin_shutdown_works [OF mi.ipc_codec_axioms send_sdk_platform _ f(2), of "\<lambda>i. (replicate 32 5, 0, send_node \<lparr>sectors = [], max_sector_capacity = 0\<rparr>)"
      "replicate 32 5" 0 "send_node \<lparr>sectors = [], max_sector_capacity = 0\<rparr>" send_env 1 "public_key_bytes sdk_wallet_of"] f(1)
  show ?thesis by (fastforce simp: send_suites)
qed

theorem admin_signs_reactions_witness:
  "\<exists>fs answer sc pre b sg. wallet_load send_sdk ''wallet'' fs = Inr sdk_wallet_of
     \<and> admin_shutdown mem_ipc send_sdk script_ops fs ''wallet'' \<lparr>sc_in = answer, sc_out = [], sc_closed = True\<rparr> = Some (Inl ''early eof'', sc)
     \<and> sc_out sc = pre @ ipc_frame b \<and> de_request mem_ipc b = Inr (AdminShutdown sg)
     \<and> signature_gate demo_hash (demo_ctx\<lparr>ctx_verify := core_verify mem_suite\<rparr>)
         (example_reaction\<lparr>sender := new_receiver (public_key_bytes sdk_wallet_of), signature := sg\<rparr>) = Inr ()"
proof -
  obtain fs where f: "wallet_load send_sdk ''wallet'' fs = Inr sdk_wallet_of" using send_wallet_loads by blast
  have "public_key (sender (example_reaction\<lparr>sender := new_receiver (public_key_bytes sdk_wallet_of)\<rparr>)) = public_key_bytes sdk_wallet_of"
    "length (signing_digest demo_hash (example_reaction\<lparr>sender := new_receiver (public_key_bytes sdk_wallet_of)\<rparr>)) = 32"
    by (simp_all add: new_receiver_def new_materialized_def signing_digest_def demo_hash_def Let_def)
  from admin_signs_reactions [OF mi.ipc_codec_axioms send_sdk_platform f this, of "demo_ctx\<lparr>ctx_verify := core_verify mem_suite\<rparr>"] f
  have "\<exists>answer sc pre b sg. admin_shutdown mem_ipc send_sdk script_ops fs ''wallet'' \<lparr>sc_in = answer, sc_out = [], sc_closed = True\<rparr> = Some (Inl ''early eof'', sc)
     \<and> sc_out sc = pre @ ipc_frame b \<and> de_request mem_ipc b = Inr (AdminShutdown sg)
     \<and> signature_gate demo_hash (demo_ctx\<lparr>ctx_verify := core_verify mem_suite\<rparr>)
         (example_reaction\<lparr>sender := new_receiver (public_key_bytes sdk_wallet_of), signature := sg\<rparr>) = Inr ()" by (simp add: send_suites)
  with f
  show ?thesis unfolding send_suites by blast
qed

end
