(* ===== verification/Rust_Text.thy ===== *)
theory Rust_Text
  imports Primus_Dht
begin

text \<open>
  What the source uses of the text functions of the standard library: trimming and splitting, the
  parsing of integers, and the parsing of IP and socket addresses. White space is that of ASCII. Scope
  numbers of IPv6 socket addresses are not read.
\<close>

section \<open>Trimming and splitting\<close>

definition is_space :: "char \<Rightarrow> bool" where
  "is_space c = (let n = of_char c :: nat in (9 \<le> n \<and> n \<le> 13) \<or> n = 32)"

definition trim_start_by :: "(char \<Rightarrow> bool) \<Rightarrow> string \<Rightarrow> string" where
  "trim_start_by p s = dropWhile p s"

definition trim_end_by :: "(char \<Rightarrow> bool) \<Rightarrow> string \<Rightarrow> string" where
  "trim_end_by p s = rev (dropWhile p (rev s))"

definition trim_by :: "(char \<Rightarrow> bool) \<Rightarrow> string \<Rightarrow> string" where
  "trim_by p s = trim_end_by p (trim_start_by p s)"

abbreviation trim :: "string \<Rightarrow> string" where
  "trim \<equiv> trim_by is_space"

definition strip_text_prefix :: "string \<Rightarrow> string \<Rightarrow> string option" where
  "strip_text_prefix p s = (if take (length p) s = p then Some (drop (length p) s) else None)"

abbreviation text_starts_with :: "string \<Rightarrow> string \<Rightarrow> bool" where
  "text_starts_with p s \<equiv> strip_text_prefix p s \<noteq> None"

fun split_on :: "char \<Rightarrow> string \<Rightarrow> string list" where
  "split_on c [] = [[]]"
| "split_on c (x # xs) =
     (if x = c then [] # split_on c xs
      else (case split_on c xs of [] \<Rightarrow> [[x]] | y # ys \<Rightarrow> (x # y) # ys))"

function split_whitespace :: "string \<Rightarrow> string list" where
  "split_whitespace s =
     (case dropWhile is_space s of
        [] \<Rightarrow> []
      | c # r \<Rightarrow> (c # takeWhile (Not \<circ> is_space) r) # split_whitespace (dropWhile (Not \<circ> is_space) r))"
  by pat_completeness auto
termination
proof (relation "measure length")
  fix s :: string and c r assume "dropWhile is_space s = c # r"
  then have "length (c # r) \<le> length s" by (metis length_dropWhile_le)
  moreover have "length (dropWhile (Not \<circ> is_space) r) \<le> length r" by (rule length_dropWhile_le)
  ultimately show "(dropWhile (Not \<circ> is_space) r, s) \<in> measure length" by simp
qed simp

declare split_whitespace.simps [simp del]

definition newline :: char where "newline = CHR 0x0A"
definition carriage_return :: char where "carriage_return = CHR 0x0D"

text \<open>The lines of a text: each ends at a newline, a carriage return before it is dropped, and what follows
  the last newline is a line if it is not empty.\<close>

definition strip_cr :: "string \<Rightarrow> string" where
  "strip_cr l = (if l \<noteq> [] \<and> last l = carriage_return then butlast l else l)"

definition text_lines :: "string \<Rightarrow> string list" where
  "text_lines s =
     (let parts = split_on newline s
      in map strip_cr (butlast parts) @ (if last parts = [] then [] else [last parts]))"

section \<open>Integers\<close>

definition digit_value :: "nat \<Rightarrow> char \<Rightarrow> nat option" where
  "digit_value radix c =
     (let n = of_char c;
          v = (if 48 \<le> n \<and> n \<le> 57 then n - 48 else if 97 \<le> n \<and> n \<le> 102 then n - 87
               else if 65 \<le> n \<and> n \<le> 70 then n - 55 else radix)
      in if v < radix then Some v else None)"

definition digits_value :: "nat \<Rightarrow> string \<Rightarrow> nat" where
  "digits_value radix ds = foldl (\<lambda>a c. a * radix + the (digit_value radix c)) 0 ds"

definition is_digit :: "nat \<Rightarrow> char \<Rightarrow> bool" where
  "is_digit radix c = (digit_value radix c \<noteq> None)"

text \<open>\<open>FromStr\<close> of an unsigned integer below \<open>bound\<close>.\<close>

definition parse_uint :: "nat \<Rightarrow> string \<Rightarrow> nat option" where
  "parse_uint bound s =
     (let t = (case s of c # r \<Rightarrow> if c = CHR ''+'' \<and> r \<noteq> [] then r else s | [] \<Rightarrow> s)
      in if t = [] \<or> \<not> list_all (is_digit 10) t then None
         else if bound \<le> digits_value 10 t then None else Some (digits_value 10 t))"

section \<open>Addresses\<close>

text \<open>The parser of the standard library: a reader consumes a prefix of the text or fails. A number has at
  most \<open>maxd\<close> digits, and no leading zero unless \<open>allow_zero\<close>.\<close>

type_synonym 'a reader = "string \<Rightarrow> ('a \<times> string) option"

definition read_number :: "nat \<Rightarrow> nat option \<Rightarrow> bool \<Rightarrow> nat \<Rightarrow> nat reader" where
  "read_number radix maxd allow_zero bound s =
     (let ds = takeWhile (is_digit radix) s; v = digits_value radix ds
      in if ds = [] \<or> (case maxd of Some m \<Rightarrow> m < length ds | None \<Rightarrow> False) \<or> bound \<le> v
            \<or> (\<not> allow_zero \<and> hd ds = CHR ''0'' \<and> 1 < length ds)
         then None else Some (v, drop (length ds) s))"

definition read_char :: "char \<Rightarrow> unit reader" where
  "read_char c s = (case s of x # r \<Rightarrow> if x = c then Some ((), r) else None | [] \<Rightarrow> None)"

definition read_separator :: "char \<Rightarrow> nat \<Rightarrow> 'a reader \<Rightarrow> 'a reader" where
  "read_separator sep i p s = (if i = 0 then p s else Option.bind (read_char sep s) (\<lambda>(_, r). p r))"

fun read_octets :: "nat \<Rightarrow> nat \<Rightarrow> nat list reader" where
  "read_octets 0 i s = Some ([], s)"
| "read_octets (Suc k) i s =
     Option.bind (read_separator (CHR ''.'') i (read_number 10 (Some 3) False 256) s) (\<lambda>(v, r).
     Option.bind (read_octets k (Suc i) r) (\<lambda>(vs, r'). Some (v # vs, r')))"

definition read_ipv4 :: "u32 reader" where
  "read_ipv4 s = map_option (\<lambda>(vs, r). (from_be_bytes (map of_nat vs), r)) (read_octets 4 0 s)"

text \<open>Up to \<open>k\<close> groups of an IPv6 address, the last two of which may be written as an IPv4 address.\<close>

fun read_groups :: "nat \<Rightarrow> nat \<Rightarrow> string \<Rightarrow> nat list \<times> bool \<times> string" where
  "read_groups 0 i s = ([], False, s)"
| "read_groups (Suc k) i s =
     (case (if 0 < k then read_separator (CHR '':'') i read_ipv4 s else None) of
        Some (v4, r) \<Rightarrow> ([unat (drop_bit 16 v4), unat (take_bit 16 v4)], True, r)
      | None \<Rightarrow>
          (case read_separator (CHR '':'') i (read_number 16 (Some 4) True 65536) s of
             None \<Rightarrow> ([], False, s)
           | Some (g, r) \<Rightarrow> (case read_groups k (Suc i) r of (gs, v4, r') \<Rightarrow> (g # gs, v4, r'))))"

definition ipv6_of_groups :: "nat list \<Rightarrow> u128" where
  "ipv6_of_groups gs = foldl (\<lambda>a g. a * 65536 + of_nat g) 0 gs"

definition read_ipv6 :: "u128 reader" where
  "read_ipv6 s =
     (case read_groups 8 0 s of (head, head_ipv4, r) \<Rightarrow>
        if length head = 8 then Some (ipv6_of_groups head, r)
        else if head_ipv4 then None
        else
          Option.bind (read_char (CHR '':'') r) (\<lambda>(_, r1).
          Option.bind (read_char (CHR '':'') r1) (\<lambda>(_, r2).
            case read_groups (8 - (length head + 1)) 0 r2 of (tail, _, r3) \<Rightarrow>
              Some (ipv6_of_groups (head @ replicate (8 - length head - length tail) 0 @ tail), r3))))"

definition read_port :: "u16 reader" where
  "read_port s = Option.bind (read_char (CHR '':'') s) (\<lambda>(_, r).
     map_option (\<lambda>(v, r'). (of_nat v, r')) (read_number 10 None True 65536 r))"

definition read_ip :: "IpAddr reader" where
  "read_ip s = (case read_ipv4 s of Some (v, r) \<Rightarrow> Some (V4 v, r) | None \<Rightarrow> map_option (\<lambda>(v, r). (V6 v, r)) (read_ipv6 s))"

definition read_socket_v4 :: "SocketAddr reader" where
  "read_socket_v4 s = Option.bind (read_ipv4 s) (\<lambda>(v, r). map_option (\<lambda>(p, r'). ((V4 v, p), r')) (read_port r))"

definition read_socket_v6 :: "SocketAddr reader" where
  "read_socket_v6 s =
     Option.bind (read_char (CHR ''['') s) (\<lambda>(_, r).
     Option.bind (read_ipv6 r) (\<lambda>(v, r1).
     Option.bind (read_char (CHR '']'') r1) (\<lambda>(_, r2).
       map_option (\<lambda>(p, r3). ((V6 v, p), r3)) (read_port r2))))"

definition read_socket :: "SocketAddr reader" where
  "read_socket s = (case read_socket_v4 s of Some x \<Rightarrow> Some x | None \<Rightarrow> read_socket_v6 s)"

definition parse_with :: "'a reader \<Rightarrow> string \<Rightarrow> 'a option" where
  "parse_with p s = (case p s of Some (x, []) \<Rightarrow> Some x | _ \<Rightarrow> None)"

abbreviation parse_ip :: "string \<Rightarrow> IpAddr option" where "parse_ip \<equiv> parse_with read_ip"
abbreviation parse_addr :: "string \<Rightarrow> SocketAddr option" where "parse_addr \<equiv> parse_with read_socket"

section \<open>Words\<close>

lemma split_first_word:
  assumes "\<not> is_space c" and "list_all (Not \<circ> is_space) w" and "r = [] \<or> is_space (hd r)"
  shows "split_whitespace (c # w @ r) = (c # w) # split_whitespace r"
proof -
  have w: "\<forall>x \<in> set w. (Not \<circ> is_space) x" using assms(2) by (simp add: list_all_iff)
  have "takeWhile (Not \<circ> is_space) (w @ r) = w" "dropWhile (Not \<circ> is_space) (w @ r) = r"
    using w assms(3) by (cases r; simp add: takeWhile_append2 dropWhile_append2)+
  then show ?thesis using assms(1) by (subst split_whitespace.simps) simp
qed

lemma split_space: "is_space c \<Longrightarrow> split_whitespace (c # r) = split_whitespace r"
  by (subst (1 2) split_whitespace.simps) simp

lemma space_is_space: "is_space (CHR '' '')"
  by code_simp

lemma split_prefix:
  assumes "list_all (Not \<circ> is_space) w" and "w \<noteq> []"
  shows "split_whitespace (w @ CHR '' '' # r) = w # split_whitespace r"
  using assms split_first_word [of "hd w" "tl w" "CHR '' '' # r"] split_space [OF space_is_space, of r] space_is_space
  by (cases w) auto

lemma split_word: "list_all (Not \<circ> is_space) w \<Longrightarrow> w \<noteq> [] \<Longrightarrow> split_whitespace w = [w]"
  using split_first_word [of "hd w" "tl w" "[]"] by (cases w) (auto simp: split_whitespace.simps [of "[]"])

lemma strip_text_prefixD: "strip_text_prefix p s = Some r \<Longrightarrow> s = p @ r"
  by (auto simp: strip_text_prefix_def split: if_splits) (metis append_take_drop_id)

end
