(* ===== verification/Primus_Setup.thy ===== *)
theory Primus_Setup
  imports Rust_Text
begin

text \<open>
  The configuration of the node, \<open>primus-core/src/setup.rs\<close>: the file, its parser, and the wizard of the
  first run. The lines typed by the operator are a list; after its end every prompt reads nothing.
\<close>

section \<open>The configuration\<close>

record NodeConfig =
  is_seed :: bool
  public_ip :: "IpAddr option"
  cfg_port :: u16
  seed_peers :: "SocketAddr list"
  tls_domain :: "string option"

definition quote :: char where "quote = CHR 0x22"

definition quoted :: "string \<Rightarrow> string" where
  "quoted s = quote # s @ [quote]"

fun join_text :: "string \<Rightarrow> string list \<Rightarrow> string" where
  "join_text sep [] = []"
| "join_text sep [s] = s"
| "join_text sep (s # ss) = s @ sep @ join_text sep ss"

definition config_lines :: "NodeConfig \<Rightarrow> string list" where
  "config_lines c =
     [''# Primus-Core node configuration '' @ [CHR 0xE2, CHR 0x80, CHR 0x94] @ '' auto-generated by setup wizard.'',
      ''# Edit manually or delete to re-run the wizard on next startup.'',
      [],
      ''is_seed = '' @ (if is_seed c then ''true'' else ''false''),
      ''public_ip = '' @ quoted (case public_ip c of Some ip \<Rightarrow> show_ip ip | None \<Rightarrow> []),
      ''port = '' @ show_nat (unat (cfg_port c)),
      ''seed_peers = ['' @ join_text '', '' (map (\<lambda>a. quoted (show_addr a)) (seed_peers c)) @ '']'',
      ''tls_domain = '' @ quoted (case tls_domain c of Some d \<Rightarrow> d | None \<Rightarrow> ''localhost'')]"

definition config_text :: "NodeConfig \<Rightarrow> string" where
  "config_text c = concat (map (\<lambda>l. l @ [newline]) (config_lines c))"

text \<open>A failed write is only reported.\<close>

definition config_save :: "(string \<Rightarrow> 'f \<Rightarrow> (string + unit) \<times> 'f) \<Rightarrow> NodeConfig \<Rightarrow> 'f \<Rightarrow> 'f" where
  "config_save write c fs = snd (write (config_text c) fs)"

definition default_config :: NodeConfig where
  "default_config = \<lparr>is_seed = False, public_ip = None, cfg_port = 9000, seed_peers = [], tls_domain = None\<rparr>"

fun add_peers :: "string list \<Rightarrow> SocketAddr list \<Rightarrow> SocketAddr list" where
  "add_peers [] ps = ps"
| "add_peers (entry # es) ps =
     add_peers es (case parse_addr (trim_by (\<lambda>c. c = quote) (trim entry)) of Some a \<Rightarrow> ps @ [a] | None \<Rightarrow> ps)"

definition parse_line :: "NodeConfig \<Rightarrow> string \<Rightarrow> NodeConfig" where
  "parse_line c raw =
     (let line = trim raw
      in if text_starts_with ''#'' line \<or> line = [] then c
         else case strip_text_prefix ''is_seed = '' line of
           Some val \<Rightarrow> c\<lparr>is_seed := trim val = ''true''\<rparr>
         | None \<Rightarrow>
         (case strip_text_prefix ''public_ip = '' line of
           Some val \<Rightarrow>
             (let s = trim_by (\<lambda>c. c = quote) (trim val) in if s \<noteq> [] then c\<lparr>public_ip := parse_ip s\<rparr> else c)
         | None \<Rightarrow>
         (case strip_text_prefix ''port = '' line of
           Some val \<Rightarrow> c\<lparr>cfg_port := (case parse_uint 65536 (trim val) of Some n \<Rightarrow> of_nat n | None \<Rightarrow> 9000)\<rparr>
         | None \<Rightarrow>
         (case strip_text_prefix ''seed_peers = ['' line of
           Some val \<Rightarrow>
             c\<lparr>seed_peers := add_peers (split_on (CHR '','') (trim_end_by (\<lambda>c. c = CHR '']'') (trim val))) (seed_peers c)\<rparr>
         | None \<Rightarrow>
         (case strip_text_prefix ''tls_domain = '' line of
           Some val \<Rightarrow>
             (let s = trim_by (\<lambda>c. c = quote) (trim val)
              in if s \<noteq> [] \<and> s \<noteq> ''localhost'' then c\<lparr>tls_domain := Some s\<rparr> else c)
         | None \<Rightarrow> c)))))"

definition parse_toml :: "string \<Rightarrow> NodeConfig option" where
  "parse_toml text = Some (foldl parse_line default_config (text_lines text))"

text \<open>\<open>None\<close> when there is no file or it cannot be read.\<close>

definition config_load :: "(string option) option \<Rightarrow> NodeConfig option" where
  "config_load file = (case file of None \<Rightarrow> None | Some None \<Rightarrow> None | Some (Some text) \<Rightarrow> parse_toml text)"

section \<open>Prompts\<close>

definition prompt_line :: "string list \<Rightarrow> string \<times> string list" where
  "prompt_line ls = (case ls of [] \<Rightarrow> ([], []) | l # r \<Rightarrow> (trim l, r))"

definition to_lowercase :: "string \<Rightarrow> string" where
  "to_lowercase s = map (\<lambda>c. let n = of_char c :: nat in if 65 \<le> n \<and> n \<le> 90 then char_of (n + 32) else c) s"

fun prompt_yes_no :: "bool \<Rightarrow> string list \<Rightarrow> bool \<times> string list" where
  "prompt_yes_no default_yes [] = (default_yes, [])"
| "prompt_yes_no default_yes (l # ls) =
     (let answer = to_lowercase (trim l)
      in if answer = [] then (default_yes, ls)
         else if answer = ''y'' \<or> answer = ''yes'' then (True, ls)
         else if answer = ''n'' \<or> answer = ''no'' then (False, ls)
         else prompt_yes_no default_yes ls)"

fun prompt_ip :: "string list \<Rightarrow> IpAddr option \<times> string list" where
  "prompt_ip [] = (None, [])"
| "prompt_ip (l # ls) =
     (if trim l = [] then (None, ls) else (case parse_ip (trim l) of Some ip \<Rightarrow> (Some ip, ls) | None \<Rightarrow> prompt_ip ls))"

fun prompt_peers :: "SocketAddr list \<Rightarrow> string list \<Rightarrow> SocketAddr list \<times> string list" where
  "prompt_peers ps [] = (ps, [])"
| "prompt_peers ps (l # ls) =
     (if trim l = [] then (ps, ls)
      else prompt_peers (case parse_addr (trim l) of Some a \<Rightarrow> ps @ [a] | None \<Rightarrow> ps) ls)"

section \<open>The own address\<close>

definition is_loopback :: "IpAddr \<Rightarrow> bool" where
  "is_loopback ip = (case ip of V4 v \<Rightarrow> drop_bit 24 v = 127 | V6 v \<Rightarrow> v = 1)"

definition is_unspecified :: "IpAddr \<Rightarrow> bool" where
  "is_unspecified ip = (case ip of V4 v \<Rightarrow> v = 0 | V6 v \<Rightarrow> v = 0)"

fun find_text :: "string \<Rightarrow> string \<Rightarrow> string option" where
  "find_text pat [] = (if pat = [] then Some [] else None)"
| "find_text pat (c # cs) =
     (case strip_text_prefix pat (c # cs) of Some rest \<Rightarrow> Some rest | None \<Rightarrow> find_text pat cs)"

text \<open>\<open>socket_ip\<close> is the local address of a datagram socket, where there is one, and \<open>route\<close> the output of
  \<open>ip route get\<close>.\<close>

definition detect_public_ip :: "IpAddr option \<Rightarrow> string option \<Rightarrow> IpAddr option" where
  "detect_public_ip socket_ip route =
     (case (case socket_ip of Some ip \<Rightarrow> if \<not> is_loopback ip \<and> \<not> is_unspecified ip then Some ip else None | None \<Rightarrow> None) of
        Some ip \<Rightarrow> Some ip
      | None \<Rightarrow>
          Option.bind route (\<lambda>text.
          Option.bind (find_text ''src '' text) (\<lambda>rest.
            parse_ip (case split_whitespace rest of w # _ \<Rightarrow> w | [] \<Rightarrow> []))))"

section \<open>The wizard\<close>

definition wizard_ip :: "IpAddr option \<Rightarrow> string list \<Rightarrow> IpAddr option \<times> string list" where
  "wizard_ip auto_ip ls =
     (case auto_ip of
        Some ip \<Rightarrow> (case prompt_yes_no True ls of (use_auto, ls1) \<Rightarrow> if use_auto then (Some ip, ls1) else prompt_ip ls1)
      | None \<Rightarrow> prompt_ip ls)"

definition run_wizard ::
  "(string \<Rightarrow> 'f \<Rightarrow> (string + unit) \<times> 'f) \<Rightarrow> IpAddr option \<Rightarrow> u16 \<Rightarrow> string list \<Rightarrow> 'f \<Rightarrow> NodeConfig \<times> 'f" where
  "run_wizard write auto_ip port ls fs =
     (let (seed, ls1) = prompt_yes_no False ls;
          (ip, ls2) = (if seed then wizard_ip auto_ip ls1 else (None, ls1));
          (peers, ls3) = prompt_peers [] ls2;
          c = \<lparr>is_seed = seed, public_ip = ip, cfg_port = port, seed_peers = peers, tls_domain = None\<rparr>
      in (c, config_save write c fs))"

end
