(* ===== verification/Setup_Claims.thy ===== *)
theory Setup_Claims
  imports Primus_Setup
begin

text \<open>
  The configuration survives a restart: addresses and numbers are parsed back from the text they are
  printed as, and so is the file the wizard writes.
\<close>

section \<open>Numbers\<close>

definition digit_char :: "nat \<Rightarrow> char" where "digit_char d = char_of (48 + d)"

lemma show_nat_induct [case_names digit more]:
  assumes "\<And>d. d < 10 \<Longrightarrow> P d [digit_char d]" and "\<And>n d s. d < 10 \<Longrightarrow> 0 < n \<Longrightarrow> P n s \<Longrightarrow> P (10 * n + d) (s @ [digit_char d])"
  shows "P n (show_nat n)"
proof (induction n rule: show_nat.induct)
  case (1 n)
  show ?case
  proof (cases "n < 10")
    case True
    then show ?thesis using assms(1) [of n] by (simp add: show_nat.simps [of n] digit_char_def)
  next
    case False
    have "P (10 * (n div 10) + n mod 10) (show_nat (n div 10) @ [digit_char (n mod 10)])"
      by (rule assms(2)) (use False 1 in auto)
    then show ?thesis using False by (simp add: show_nat.simps [of n] digit_char_def)
  qed
qed

lemma digit_char_value: "d < 10 \<Longrightarrow> digit_value 10 (digit_char d) = Some d"
  by (simp add: digit_value_def digit_char_def Let_def of_char_of)

lemma digit_char_code: "d < 10 \<Longrightarrow> (of_char (digit_char d) :: nat) = 48 + d"
  by (simp add: digit_char_def of_char_of)

lemma show_nat_digits: "\<forall>c \<in> set (show_nat n). \<exists>d<10. c = digit_char d"
  by (induction n rule: show_nat_induct) auto

lemma show_nat_is_digit: "list_all (is_digit 10) (show_nat n)"
  using show_nat_digits [of n] by (auto simp: list_all_iff is_digit_def digit_char_value)

lemma show_nat_char: "c \<in> set (show_nat n) \<Longrightarrow> 48 \<le> (of_char c :: nat) \<and> (of_char c :: nat) \<le> 57"
  using show_nat_digits [of n] digit_char_code by fastforce

lemma show_nat_nonempty: "show_nat n \<noteq> []"
  by (induction n rule: show_nat_induct) auto

lemma show_nat_value: "digits_value 10 (show_nat n) = n"
  by (induction n rule: show_nat_induct) (auto simp: digits_value_def digit_char_value)

lemma show_nat_zero: "hd (show_nat n) = CHR ''0'' \<Longrightarrow> n = 0"
proof -
  have "show_nat n \<noteq> [] \<and> (hd (show_nat n) = CHR ''0'' \<longrightarrow> n = 0)"
  proof (induction n rule: show_nat_induct)
    case (digit d)
    then show ?case using digit_char_code [of d] by auto
  qed auto
  then show "hd (show_nat n) = CHR ''0'' \<Longrightarrow> n = 0" by simp
qed

lemma show_nat_length: "n < 10 ^ k \<Longrightarrow> 0 < k \<Longrightarrow> length (show_nat n) \<le> k"
proof (induction n arbitrary: k rule: show_nat.induct)
  case (1 n)
  show ?case
  proof (cases "n < 10")
    case False
    then obtain k' where k: "k = Suc k'" "0 < k'" using 1(2,3) by (cases k; cases "k - 1") auto
    then have "n div 10 < 10 ^ k'" using 1(2) by auto
    with 1(1) [OF False _ k(2)] False k(1) show ?thesis by (simp add: show_nat.simps [of n])
  qed (use 1(3) in \<open>simp add: show_nat.simps [of n]\<close>)
qed

lemma parse_show_nat: "n < b \<Longrightarrow> parse_uint b (show_nat n) = Some n"
proof -
  assume "n < b"
  moreover have "hd (show_nat n) \<noteq> CHR ''+''"
    using show_nat_char [of "hd (show_nat n)" n] show_nat_nonempty [of n] by auto
  ultimately show ?thesis
    using show_nat_is_digit [of n] show_nat_nonempty [of n] show_nat_value [of n]
    by (cases "show_nat n") (auto simp: parse_uint_def Let_def)
qed

lemma read_show_nat:
  assumes "n < b" and "r = [] \<or> \<not> is_digit 10 (hd r)" and "case maxd of Some m \<Rightarrow> length (show_nat n) \<le> m | None \<Rightarrow> True"
  shows "read_number 10 maxd z b (show_nat n @ r) = Some (n, r)"
proof -
  have t: "takeWhile (is_digit 10) (show_nat n @ r) = show_nat n"
    using show_nat_is_digit [of n] assms(2) by (cases r) (auto simp: list_all_iff takeWhile_append)
  have "length (show_nat n) = 1" if "hd (show_nat n) = CHR ''0''"
    using show_nat_zero [OF that] by (simp add: show_nat.simps)
  then show ?thesis
    using assms show_nat_nonempty [of n] by (auto simp: read_number_def t show_nat_value Let_def split: option.splits)
qed

section \<open>Addresses\<close>

lemma read_octet:
  assumes "r = [] \<or> \<not> is_digit 10 (hd r)"
  shows "read_number 10 (Some 3) False 256 (show_nat (unat (b :: u8)) @ r) = Some (unat b, r)"
  using assms unsigned_less [of b, where ?'a = nat] show_nat_length [of "unat b" 3] by (intro read_show_nat) auto

lemma separators: "\<not> is_digit 10 (CHR ''.'')" "\<not> is_digit 10 (CHR '':'')"
  by (simp_all add: is_digit_def digit_value_def Let_def)

lemma read_show_ipv4:
  assumes "r = [] \<or> \<not> is_digit 10 (hd r)"
  shows "read_ipv4 (show_ipv4 v @ r) = Some (v, r)"
proof -
  obtain a b c d where q: "to_be_bytes 4 v = [a, b, c, d]"
    using length_to_be_bytes [of 4 v] by (auto simp: length_Suc_conv numeral_eq_Suc simp del: length_to_be_bytes)
  have "from_be_bytes [a, b, c, d] = v"
    unfolding q [symmetric] by (simp add: from_be_bytes_def to_be_bytes_def from_to_le_bytes take_bit_word_eq_self)
  moreover have sh: "show_ipv4 v @ r = show_nat (unat a) @ CHR ''.'' # show_nat (unat b) @ CHR ''.'' # show_nat (unat c) @ CHR ''.'' # show_nat (unat d) @ r"
    by (simp add: show_ipv4_def q)
  have four: "(4 :: nat) = Suc (Suc (Suc (Suc 0)))" by simp
  have "read_octets 4 0 (show_ipv4 v @ r) = Some (map unat [a, b, c, d], r)"
    unfolding four sh using assms by (simp add: read_separator_def read_char_def read_octet separators)
  ultimately show ?thesis by (simp add: read_ipv4_def)
qed

lemma parse_show_ip: "parse_ip (show_ip (V4 v)) = Some (V4 v)"
  using read_show_ipv4 [of "[]" v] by (simp add: parse_with_def read_ip_def show_ip_def)

lemma parse_show_addr: "parse_addr (show_addr (V4 v, p)) = Some (V4 v, p)"
proof -
  have "read_number 10 None True 65536 (show_nat (unat p) @ []) = Some (unat p, [])"
    using unsigned_less [of p, where ?'a = nat] by (intro read_show_nat) auto
  moreover have "read_ipv4 (show_ipv4 v @ '':'' @ show_nat (unat p)) = Some (v, '':'' @ show_nat (unat p))"
    by (rule read_show_ipv4) (simp add: separators)
  ultimately show ?thesis
    by (simp add: parse_with_def read_socket_def read_socket_v4_def show_addr_def read_port_def read_char_def)
qed

definition addr_char :: "char \<Rightarrow> bool" where
  "addr_char c = (c = CHR ''.'' \<or> c = CHR '':'' \<or> (48 \<le> (of_char c :: nat) \<and> (of_char c :: nat) \<le> 57))"

lemma addr_char_other: "addr_char c \<Longrightarrow> c \<noteq> quote \<and> c \<noteq> CHR '','' \<and> c \<noteq> newline \<and> c \<noteq> carriage_return \<and> c \<noteq> CHR '']''"
  by (auto simp: addr_char_def quote_def newline_def carriage_return_def)

lemma show_ipv4_chars: "list_all addr_char (show_ipv4 v)"
proof -
  have "list_all addr_char (join_with (CHR ''.'') (map (\<lambda>b. show_nat (unat b)) bs))" for bs :: bytes
  proof (induction bs rule: induct_list012)
    case (3 x y zs)
    then show ?case using show_nat_char by (auto simp: list_all_iff addr_char_def)
  qed (use show_nat_char in \<open>auto simp: list_all_iff addr_char_def\<close>)
  then show ?thesis by (simp add: show_ipv4_def)
qed

lemma show_ipv4_nonempty: "show_ipv4 v \<noteq> []"
proof
  assume "show_ipv4 v = []"
  with read_show_ipv4 [of "[]" v] have "read_ipv4 [] = Some (v, [])" by simp
  then show False by (simp add: read_ipv4_def numeral_eq_Suc read_separator_def read_number_def)
qed

lemma show_addr_chars: "list_all addr_char (show_addr (V4 v, p))" "show_addr (V4 v, p) \<noteq> []"
  using show_ipv4_chars [of v] show_nat_char by (auto simp: show_addr_def list_all_iff addr_char_def)

section \<open>Text\<close>

lemma trim_by_id: "s \<noteq> [] \<Longrightarrow> \<not> p (hd s) \<Longrightarrow> \<not> p (last s) \<Longrightarrow> trim_by p s = s"
proof -
  assume s: "s \<noteq> []" "\<not> p (hd s)" "\<not> p (last s)"
  have "dropWhile p s = s" using s by (cases s) auto
  moreover have "dropWhile p (rev s) = rev s" using s by (cases s rule: rev_cases) auto
  ultimately show ?thesis by (simp add: trim_by_def trim_start_by_def trim_end_by_def)
qed

lemma trim_by_none: "\<forall>c \<in> set s. \<not> p c \<Longrightarrow> trim_by p s = s"
  by (cases "s = []") (simp_all add: trim_by_id, simp add: trim_by_def trim_start_by_def trim_end_by_def)

lemma strip_text_prefix_append [simp]: "strip_text_prefix p (p @ s) = Some s"
  by (simp add: strip_text_prefix_def)

lemma trim_quoted: "trim (quoted s) = quoted s"
  by (rule trim_by_id) (simp_all add: quoted_def quote_def is_space_def Let_def of_char_of)

lemma unquote:
  assumes "s = [] \<or> hd s \<noteq> quote \<and> last s \<noteq> quote"
  shows "trim_by (\<lambda>c. c = quote) (quoted s) = s"
proof (cases "s = []")
  case False
  then have "dropWhile (\<lambda>c. c = quote) (s @ [quote]) = s @ [quote]" using assms by (cases s) auto
  moreover have "dropWhile (\<lambda>c. c = quote) (rev s) = rev s" using assms False by (cases s rule: rev_cases) auto
  ultimately show ?thesis by (simp add: trim_by_def trim_start_by_def trim_end_by_def quoted_def)
qed (simp add: trim_by_def trim_start_by_def trim_end_by_def quoted_def)

lemma split_on_none: "c \<notin> set s \<Longrightarrow> split_on c s = [s]"
  by (induction s) auto

lemma split_on_append: "c \<notin> set s \<Longrightarrow> split_on c (s @ c # r) = s # split_on c r"
  by (induction s) auto

lemma text_lines_lines:
  assumes "\<forall>l \<in> set ls. newline \<notin> set l \<and> (l = [] \<or> last l \<noteq> carriage_return)"
  shows "text_lines (concat (map (\<lambda>l. l @ [newline]) ls)) = ls"
proof -
  have "split_on newline (concat (map (\<lambda>l. l @ [newline]) ls)) = ls @ [[]]"
    using assms by (induction ls) (auto simp: split_on_append)
  moreover have "map strip_cr ls = ls" using assms by (induction ls) (auto simp: strip_cr_def)
  ultimately show ?thesis by (simp add: text_lines_def)
qed

lemma entries_parsed:
  assumes "\<forall>a \<in> set as. \<exists>v p. a = (V4 v, p)"
  shows "add_peers (split_on (CHR '','') (join_text '', '' (map (\<lambda>a. quoted (show_addr a)) as))) ps = ps @ as"
proof -
  have entry: "CHR '','' \<notin> set (quoted (show_addr (V4 v, p)))" "parse_addr (trim_by (\<lambda>c. c = quote) (trim (quoted (show_addr (V4 v, p))))) = Some (V4 v, p)"
    "trim (CHR '' '' # quoted (show_addr (V4 v, p))) = trim (quoted (show_addr (V4 v, p)))" for v p
  proof -
    have c: "addr_char c" if "c \<in> set (show_addr (V4 v, p))" for c using show_addr_chars(1) [of v p] that by (auto simp: list_all_iff)
    then show "CHR '','' \<notin> set (quoted (show_addr (V4 v, p)))" using addr_char_other by (auto simp: quoted_def quote_def)
    have "hd (show_addr (V4 v, p)) \<noteq> quote \<and> last (show_addr (V4 v, p)) \<noteq> quote"
      using c [OF hd_in_set] c [OF last_in_set] show_addr_chars(2) addr_char_other by blast
    then show "parse_addr (trim_by (\<lambda>c. c = quote) (trim (quoted (show_addr (V4 v, p))))) = Some (V4 v, p)"
      by (simp add: trim_quoted unquote parse_show_addr)
    show "trim (CHR '' '' # quoted (show_addr (V4 v, p))) = trim (quoted (show_addr (V4 v, p)))"
      by (simp add: trim_by_def trim_start_by_def is_space_def Let_def)
  qed
  have rest: "add_peers (split_on (CHR '','') (CHR '' '' # join_text '', '' (map (\<lambda>a. quoted (show_addr a)) as))) ps = ps @ as"
    if "as \<noteq> []" "\<forall>a \<in> set as. \<exists>v p. a = (V4 v, p)" for as ps
    using that
  proof (induction as arbitrary: ps rule: induct_list012)
    case (2 a)
    then obtain v p where "a = (V4 v, p)" by auto
    then show ?case using entry [of v p] by (simp add: split_on_none)
  next
    case (3 a b as)
    then obtain v p where a: "a = (V4 v, p)" by auto
    have "CHR '','' \<notin> set (CHR '' '' # quoted (show_addr (V4 v, p)))" using entry(1) by simp
    from split_on_append [OF this] have
      "split_on (CHR '','') (CHR '' '' # quoted (show_addr (V4 v, p)) @ CHR '','' # r) = (CHR '' '' # quoted (show_addr (V4 v, p))) # split_on (CHR '','') r" for r
      by simp
    then show ?case using 3 entry(2,3) [of v p] by (simp add: a)
  qed simp
  show ?thesis
  proof (cases as)
    case Nil
    then show ?thesis by (simp add: parse_with_def read_socket_def read_socket_v4_def read_ipv4_def numeral_eq_Suc read_separator_def read_number_def
          read_socket_v6_def read_char_def trim_by_def trim_start_by_def trim_end_by_def)
  next
    case (Cons a as')
    then obtain v p where a: "a = (V4 v, p)" using assms by auto
    show ?thesis
    proof (cases "as' = []")
      case True
      then show ?thesis using Cons a entry [of v p] by (simp add: split_on_none)
    next
      case False
      then have j: "join_text '', '' (map (\<lambda>a. quoted (show_addr a)) as) = quoted (show_addr a) @ CHR '','' # CHR '' '' # join_text '', '' (map (\<lambda>a. quoted (show_addr a)) as')"
        using Cons by (cases as') simp_all
      show ?thesis using rest [OF False] assms Cons entry(2) [of v p] split_on_append [OF entry(1)] unfolding j by (simp add: a)
    qed
  qed
qed

section \<open>The file\<close>

text \<open>The lines of the file, read one after the other.\<close>

lemma parse_comment: "parse_line c (CHR ''#'' # l) = c" "parse_line c [] = c"
proof -
  have "\<not> is_space (CHR ''#'')" by (simp add: is_space_def Let_def)
  then have "\<exists>l'. trim (CHR ''#'' # l) = CHR ''#'' # l'"
    by (auto simp: trim_by_def trim_start_by_def trim_end_by_def dropWhile_append intro: exI [of _ "rev (dropWhile is_space (rev l))"])
  then show "parse_line c (CHR ''#'' # l) = c" by (auto simp: parse_line_def strip_text_prefix_def)
qed (simp add: parse_line_def trim_by_def trim_start_by_def trim_end_by_def)

lemma parse_key:
  assumes "v \<noteq> []" and "\<not> is_space (hd v)" and "\<not> is_space (last v)"
  shows "parse_line c (''is_seed = '' @ v) = c\<lparr>is_seed := v = ''true''\<rparr>"
    and "parse_line c (''public_ip = '' @ v) = (let s = trim_by (\<lambda>c. c = quote) v in if s \<noteq> [] then c\<lparr>public_ip := parse_ip s\<rparr> else c)"
    and "parse_line c (''port = '' @ v) = c\<lparr>cfg_port := (case parse_uint 65536 v of Some n \<Rightarrow> of_nat n | None \<Rightarrow> 9000)\<rparr>"
    and "parse_line c (''seed_peers = ['' @ v) = c\<lparr>seed_peers := add_peers (split_on (CHR '','') (trim_end_by (\<lambda>c. c = CHR '']'') v)) (seed_peers c)\<rparr>"
    and "parse_line c (''tls_domain = '' @ v) = (let s = trim_by (\<lambda>c. c = quote) v in if s \<noteq> [] \<and> s \<noteq> ''localhost'' then c\<lparr>tls_domain := Some s\<rparr> else c)"
proof -
  have v: "trim v = v" using assms by (intro trim_by_id)
  have t: "trim (k @ v) = k @ v" if "k \<noteq> []" "\<not> is_space (hd k)" for k
    using assms that by (intro trim_by_id) auto
  have sp: "\<not> is_space (CHR ''i'')" "\<not> is_space (CHR ''p'')" "\<not> is_space (CHR ''s'')" "\<not> is_space (CHR ''t'')"
    by (simp_all add: is_space_def Let_def)
  show "parse_line c (''is_seed = '' @ v) = c\<lparr>is_seed := v = ''true''\<rparr>"
    using t [of "''is_seed = ''"] sp v by (simp add: parse_line_def strip_text_prefix_def)
  show "parse_line c (''public_ip = '' @ v) = (let s = trim_by (\<lambda>c. c = quote) v in if s \<noteq> [] then c\<lparr>public_ip := parse_ip s\<rparr> else c)"
    using t [of "''public_ip = ''"] sp v by (simp add: parse_line_def strip_text_prefix_def)
  show "parse_line c (''port = '' @ v) = c\<lparr>cfg_port := (case parse_uint 65536 v of Some n \<Rightarrow> of_nat n | None \<Rightarrow> 9000)\<rparr>"
    using t [of "''port = ''"] sp v by (simp add: parse_line_def strip_text_prefix_def)
  show "parse_line c (''seed_peers = ['' @ v) = c\<lparr>seed_peers := add_peers (split_on (CHR '','') (trim_end_by (\<lambda>c. c = CHR '']'') v)) (seed_peers c)\<rparr>"
    using t [of "''seed_peers = [''"] sp v by (simp add: parse_line_def strip_text_prefix_def)
  show "parse_line c (''tls_domain = '' @ v) = (let s = trim_by (\<lambda>c. c = quote) v in if s \<noteq> [] \<and> s \<noteq> ''localhost'' then c\<lparr>tls_domain := Some s\<rparr> else c)"
    using t [of "''tls_domain = ''"] sp v by (simp add: parse_line_def strip_text_prefix_def)
qed

lemma join_text_set: "set (join_text sep ss) \<subseteq> set sep \<union> (\<Union>s \<in> set ss. set s)"
  by (induction sep ss rule: join_text.induct) auto

lemma join_quoted_ends:
  "as \<noteq> [] \<Longrightarrow> join_text '', '' (map (\<lambda>a. quoted (show_addr a)) as) \<noteq> []
     \<and> hd (join_text '', '' (map (\<lambda>a. quoted (show_addr a)) as)) = quote \<and> last (join_text '', '' (map (\<lambda>a. quoted (show_addr a)) as)) = quote"
  by (induction as rule: induct_list012) (simp_all add: quoted_def)

definition plain_config :: "NodeConfig \<Rightarrow> bool" where
  "plain_config c \<longleftrightarrow>
     (\<forall>ip. public_ip c = Some ip \<longrightarrow> (\<exists>v. ip = V4 v)) \<and> (\<forall>a \<in> set (seed_peers c). \<exists>v p. a = (V4 v, p))
     \<and> (\<forall>d. tls_domain c = Some d \<longrightarrow> d \<noteq> [] \<and> d \<noteq> ''localhost'' \<and> hd d \<noteq> quote \<and> last d \<noteq> quote \<and> newline \<notin> set d)"

definition line_ok :: "string \<Rightarrow> bool" where
  "line_ok l \<longleftrightarrow> newline \<notin> set l \<and> (l = [] \<or> last l \<noteq> carriage_return)"

lemma line_ok_append: "newline \<notin> set k \<Longrightarrow> line_ok v \<Longrightarrow> v \<noteq> [] \<Longrightarrow> line_ok (k @ v)"
  by (simp add: line_ok_def)

lemma line_ok_quoted: "newline \<notin> set s \<Longrightarrow> line_ok (quoted s)"
  by (simp add: line_ok_def quoted_def quote_def newline_def carriage_return_def)

lemma line_ok_show_nat: "line_ok (show_nat n)"
  using show_nat_char [of newline n] show_nat_char [of "last (show_nat n)" n] show_nat_nonempty [of n]
  by (auto simp: line_ok_def newline_def carriage_return_def)

lemma config_lines_ok:
  assumes "plain_config c" shows "list_all line_ok (config_lines c)"
proof -
  have ad: "newline \<notin> set (quoted (show_addr (V4 v, p)))" for v p
    using show_addr_chars(1) [of v p] addr_char_other by (auto simp: list_all_iff quoted_def quote_def newline_def)
  have "newline \<notin> set (join_text '', '' (map (\<lambda>a. quoted (show_addr a)) (seed_peers c)))"
    using join_text_set [of "'', ''" "map (\<lambda>a. quoted (show_addr a)) (seed_peers c)"] assms ad
    by (fastforce simp: plain_config_def newline_def)
  then have peers: "line_ok (join_text '', '' (map (\<lambda>a. quoted (show_addr a)) (seed_peers c)) @ '']'')"
    by (intro line_ok_append) (simp_all add: line_ok_def newline_def carriage_return_def)
  have ip: "newline \<notin> set (case public_ip c of Some ip \<Rightarrow> show_ip ip | None \<Rightarrow> [])"
  proof (cases "public_ip c")
    case (Some i)
    then obtain v where "i = V4 v" using assms by (auto simp: plain_config_def)
    with Some show ?thesis using show_ipv4_chars [of v] addr_char_other by (auto simp: show_ip_def list_all_iff)
  qed simp
  have dom: "newline \<notin> set (case tls_domain c of Some d \<Rightarrow> d | None \<Rightarrow> ''localhost'')"
    using assms by (auto simp: plain_config_def newline_def split: option.split)
  note val = line_ok_append [OF _ line_ok_quoted [OF ip]] line_ok_append [OF _ line_ok_quoted [OF dom]] line_ok_append [OF _ peers]
    line_ok_append [OF _ line_ok_show_nat show_nat_nonempty]
  show ?thesis
    unfolding config_lines_def list.pred_inject
    by (intro conjI; (rule val)?) (simp_all add: line_ok_def newline_def carriage_return_def quoted_def)
qed

lemma config_parsed:
  assumes "plain_config c"
  shows "foldl parse_line default_config (config_lines c) = c"
proof -
  have sq: "\<not> is_space quote" "\<not> is_space (CHR '']'')" "\<not> is_space (CHR ''t'')" "\<not> is_space (CHR ''f'')" "\<not> is_space (CHR ''e'')"
    by (simp_all add: is_space_def quote_def Let_def)
  have v: "quoted s \<noteq> []" "\<not> is_space (hd (quoted s))" "\<not> is_space (last (quoted s))" for s
    using sq by (simp_all add: quoted_def)
  let ?b = "if is_seed c then ''true'' else ''false''"
  have b: "?b \<noteq> []" "\<not> is_space (hd ?b)" "\<not> is_space (last ?b)" using sq by simp_all
  have n: "show_nat k \<noteq> []" "\<not> is_space (hd (show_nat k))" "\<not> is_space (last (show_nat k))" for k
    using show_nat_nonempty [of k] show_nat_char [of "hd (show_nat k)" k] show_nat_char [of "last (show_nat k)" k]
    by (auto simp: is_space_def Let_def)
  let ?j = "join_text '', '' (map (\<lambda>a. quoted (show_addr a)) (seed_peers c))"
  have j: "?j @ '']'' \<noteq> []" "\<not> is_space (hd (?j @ '']''))" "\<not> is_space (last (?j @ '']''))"
    using sq join_quoted_ends [of "seed_peers c"] by (cases "seed_peers c = []"; simp)+
  have te: "trim_end_by (\<lambda>c. c = CHR '']'') (?j @ '']'') = ?j"
  proof (cases "seed_peers c = []")
    case False
    then have "rev ?j \<noteq> []" "hd (rev ?j) \<noteq> CHR '']''" using join_quoted_ends [OF False] by (auto simp: hd_rev quote_def)
    then have "dropWhile (\<lambda>c. c = CHR '']'') (rev ?j) = rev ?j" by (cases "rev ?j") auto
    then show ?thesis by (simp add: trim_end_by_def)
  qed (simp add: trim_end_by_def)
  have peers: "add_peers (split_on (CHR '','') ?j) [] = seed_peers c"
    using entries_parsed [of "seed_peers c" "[]"] assms by (simp add: plain_config_def)
  have port: "parse_uint 65536 (show_nat (unat (cfg_port c))) = Some (unat (cfg_port c))"
    using parse_show_nat [of "unat (cfg_port c)" 65536] unsigned_less [of "cfg_port c", where ?'a = nat] by simp
  have ip: "trim_by (\<lambda>c. c = quote) (quoted (show_ip (V4 v))) = show_ip (V4 v)" for v
    using show_ipv4_chars [of v] addr_char_other show_ipv4_nonempty [of v] by (intro unquote) (auto simp: show_ip_def list_all_iff)
  have dom: "trim_by (\<lambda>c. c = quote) (quoted ''localhost'') = ''localhost''" by (rule unquote) (simp add: quote_def)
  have c1: "parse_line d (''# Primus-Core node configuration '' @ x) = d" and c2: "parse_line d ''# Edit manually or delete to re-run the wizard on next startup.'' = d" for d x
    using parse_comment(1) [of d "'' Primus-Core node configuration '' @ x"] parse_comment(1) by simp_all
  have ipstep: "(let s = trim_by (\<lambda>c. c = quote) (quoted (case public_ip c of Some ip \<Rightarrow> show_ip ip | None \<Rightarrow> []))
      in if s \<noteq> [] then d\<lparr>public_ip := parse_ip s\<rparr> else d) = (case public_ip c of Some ip \<Rightarrow> d\<lparr>public_ip := Some ip\<rparr> | None \<Rightarrow> d)" for d
  proof (cases "public_ip c")
    case (Some i)
    then obtain v where i: "i = V4 v" using assms by (auto simp: plain_config_def)
    have "show_ip (V4 v) \<noteq> []" using show_ipv4_nonempty by (simp add: show_ip_def)
    with Some show ?thesis by (simp add: i ip parse_show_ip)
  qed (simp add: unquote)
  have domstep: "(let s = trim_by (\<lambda>c. c = quote) (quoted (case tls_domain c of Some d \<Rightarrow> d | None \<Rightarrow> ''localhost''))
      in if s \<noteq> [] \<and> s \<noteq> ''localhost'' then d\<lparr>tls_domain := Some s\<rparr> else d) = (case tls_domain c of Some s \<Rightarrow> d\<lparr>tls_domain := Some s\<rparr> | None \<Rightarrow> d)" for d
  proof (cases "tls_domain c")
    case (Some s)
    then have "s \<noteq> []" "s \<noteq> ''localhost''" "trim_by (\<lambda>c. c = quote) (quoted s) = s"
      using assms by (auto simp: plain_config_def intro: unquote)
    with Some show ?thesis by simp
  qed (simp add: dom)
  have bit: "?b = ''true'' \<longleftrightarrow> is_seed c" by simp
  note keys = parse_key(1) [OF b] parse_key(2,5) [OF v] parse_key(3) [OF n] parse_key(4) [OF j]
  have "seed_peers (case public_ip c of Some ip \<Rightarrow> d\<lparr>public_ip := Some ip\<rparr> | None \<Rightarrow> d) = seed_peers d" for d
    by (simp split: option.split)
  then show ?thesis
    unfolding config_lines_def foldl.simps c1 c2 parse_comment(2) keys te port bit ipstep domstep
    by (cases "public_ip c"; cases "tls_domain c") (simp_all add: default_config_def peers)
qed

lemma config_round_trip:
  assumes "plain_config c"
  shows "config_load (Some (Some (config_text c))) = Some c"
  using text_lines_lines [of "config_lines c"] config_lines_ok [OF assms] config_parsed [OF assms]
  by (simp add: config_load_def parse_toml_def config_text_def list_all_iff line_ok_def)

text \<open>C29. The set-up is done once: whatever the operator types, the configuration the wizard returns is the one
  that the next start reads from the file it wrote, for IPv4 addresses.\<close>

theorem wizard_config_reloads:
  assumes "run_wizard write auto_ip port ls fs = (c, fs')" and "write (config_text c) fs = (Inr (), fs1)" and "read fs1 = Some (Some (config_text c))"
    and "\<forall>ip. public_ip c = Some ip \<longrightarrow> (\<exists>v. ip = V4 v)" and "\<forall>a \<in> set (seed_peers c). \<exists>v p. a = (V4 v, p)"
  shows "config_load (read fs') = Some c"
proof -
  have "tls_domain c = None" "fs' = snd (write (config_text c) fs)"
    using assms(1) by (auto simp: run_wizard_def config_save_def Let_def split: prod.splits)
  moreover from this assms(4,5) have "plain_config c" by (simp add: plain_config_def)
  ultimately show ?thesis using config_round_trip [of c] assms(2,3) by simp
qed

lemma typed_addr:
  "trim (show_ip (V4 v)) = show_ip (V4 v)" "show_ip (V4 v) \<noteq> []" "trim (show_addr (V4 v, p)) = show_addr (V4 v, p)"
proof -
  have "\<not> is_space c" if "addr_char c" for c using that by (auto simp: addr_char_def is_space_def Let_def)
  then show "trim (show_ip (V4 v)) = show_ip (V4 v)" "trim (show_addr (V4 v, p)) = show_addr (V4 v, p)"
    using show_ipv4_chars [of v] show_addr_chars(1) [of v p] by (auto intro!: trim_by_none simp: show_ip_def list_all_iff)
  show "show_ip (V4 v) \<noteq> []" using show_ipv4_nonempty by (simp add: show_ip_def)
qed

theorem wizard_config_reloads_witness:
  "\<exists>c fs'. run_wizard (\<lambda>t fs. (Inr (), Some (Some t))) (Some (V4 1)) 9000
       [''YES'', ''maybe'', ''n'', show_ip (V4 3405803786), show_addr (V4 16909060, 9001)] None = (c, fs')
     \<and> public_ip c = Some (V4 3405803786) \<and> seed_peers c = [(V4 16909060, 9001)] \<and> config_load fs' = Some c"
proof -
  let ?ls = "[show_ip (V4 3405803786), show_addr (V4 16909060, 9001)]"
  let ?c = "\<lparr>is_seed = True, public_ip = Some (V4 3405803786), cfg_port = 9000, seed_peers = [(V4 16909060, 9001)], tls_domain = None\<rparr>"
  have a: "to_lowercase (trim ''YES'') = ''yes''" "to_lowercase (trim ''maybe'') = ''maybe''" "to_lowercase (trim ''n'') = ''n''" by code_simp+
  have p: "prompt_yes_no False (''YES'' # ls) = (True, ls)" "prompt_yes_no True (''maybe'' # ''n'' # ls) = (False, ls)" for ls
    using a by simp_all
  have "prompt_ip ?ls = (Some (V4 3405803786), [show_addr (V4 16909060, 9001)])"
    "prompt_peers [] [show_addr (V4 16909060, 9001)] = ([(V4 16909060, 9001)], [])"
    by (simp_all add: typed_addr parse_show_ip parse_show_addr show_addr_chars(2))
  then have "run_wizard (\<lambda>t fs. (Inr (), Some (Some t))) (Some (V4 1)) 9000 (''YES'' # ''maybe'' # ''n'' # ?ls) None = (?c, Some (Some (config_text ?c)))"
    by (simp add: run_wizard_def config_save_def wizard_ip_def p Let_def del: prompt_ip.simps prompt_peers.simps prompt_yes_no.simps)
  from wizard_config_reloads [OF this, of "Some (Some (config_text ?c))" "\<lambda>f. f"] this show ?thesis by simp
qed

end
