(* ===== verification/Primus_Console.thy ===== *)
theory Primus_Console
  imports Primus_Setup Primus_Node Primus_Sdk
begin

text \<open>
  The start-up and the console of the node, \<open>primus-core/src/main.rs\<close>: the identities, the node record, the
  peers dialled first, and the commands an operator types. What a command prints is its reply; a panic or an
  exit of the process is an error.
\<close>

section \<open>Identities\<close>

record architect_id =
  id_wallet :: Wallet
  id_pk :: bytes
  id_sk :: bytes
  legacy_mode :: bool

definition wallet_identity :: "('sg, 'k, 'f) sdk_env \<Rightarrow> Wallet \<Rightarrow> architect_id" where
  "wallet_identity X w = \<lparr>id_wallet = w, id_pk = public_key_bytes w, id_sk = get_secret_key_bytes X w, legacy_mode = False\<rparr>"

text \<open>The wallet of the architect, else the legacy key with a wallet that has nothing to do with it, else a new
  wallet from the phrase that is typed or from the generator.\<close>

definition load_architect ::
  "('sg, 'k, 'f) sdk_env \<Rightarrow> (string \<Rightarrow> 'f \<Rightarrow> bool) \<Rightarrow> string \<Rightarrow> string \<Rightarrow> string \<Rightarrow> (nat \<Rightarrow> bytes) \<Rightarrow> 'f
     \<Rightarrow> (string + architect_id) \<times> 'f" where
  "load_architect X exists wallet_path legacy_key_path phrase_line random fs =
     (if exists wallet_path fs then
        (case wallet_load X wallet_path fs of Inl e \<Rightarrow> (Inl e, fs) | Inr w \<Rightarrow> (Inr (wallet_identity X w), fs))
      else if exists legacy_key_path fs then
        (case load_master_key X legacy_key_path fs of
           Inl e \<Rightarrow> (Inl e, fs)
         | Inr keys \<Rightarrow>
             (case wallet_generate X random 12 0 of
                Inl e \<Rightarrow> (Inl e, fs)
              | Inr placeholder \<Rightarrow>
                  (Inr \<lparr>id_wallet = placeholder, id_pk = arch_pk keys, id_sk = arch_sk keys, legacy_mode = True\<rparr>, fs)))
      else
        let phrase_input = trim phrase_line
        in case (if phrase_input = [] then wallet_generate X random 24 0 else from_mnemonic X phrase_input 0) of
             Inl e \<Rightarrow> (Inl e, fs)
           | Inr w \<Rightarrow>
               (case wallet_save X wallet_path w fs of
                  (Inl e, fs1) \<Rightarrow> (Inl e, fs1)
                | (Inr _, fs1) \<Rightarrow> (Inr (wallet_identity X w), fs1)))"

definition load_operator :: "('sg, 'k, 'f) sdk_env \<Rightarrow> (string \<Rightarrow> 'f \<Rightarrow> bool) \<Rightarrow> string \<Rightarrow> 'f \<Rightarrow> string + Wallet" where
  "load_operator X exists path fs = (if exists path fs then wallet_load X path fs else Inl ''operator.wallet not found'')"

section \<open>The node record\<close>

definition effective_quic_port :: "u16 option \<Rightarrow> u16 \<Rightarrow> u16" where
  "effective_quic_port quic_port my_port = (case quic_port of Some p \<Rightarrow> p | None \<Rightarrow> saturating_add my_port 10000)"

text \<open>The address is the external one found by UPnP, or no address at all. The record is signed with the
  wallet, whatever the key of the architect is.\<close>

definition local_record :: "('sg, 'k, 'f) sdk_env \<Rightarrow> architect_id \<Rightarrow> IpAddr option \<Rightarrow> u16 \<Rightarrow> u64 \<Rightarrow> PrimusNR" where
  "local_record X i external_ip quic_port now =
     (let local_addr = (case external_ip of Some ip \<Rightarrow> ip | None \<Rightarrow> V4 0, quic_port);
          ip = (case fst local_addr of V4 v4 \<Rightarrow> to_ipv6_mapped v4 | V6 v6 \<Rightarrow> v6);
          sign_payload = id_pk i @ to_be_bytes 16 ip @ to_be_bytes 2 (snd local_addr) @ to_le_bytes 8 now
      in from_socket_addr (id_pk i) local_addr (wallet_sign X (id_wallet i) sign_payload) now)"

definition bootstrap_peers :: "string option \<Rightarrow> NodeConfig \<Rightarrow> string list" where
  "bootstrap_peers peer cfg = (case peer of Some a \<Rightarrow> [a] | None \<Rightarrow> []) @ map show_addr (seed_peers cfg)"

section \<open>Replies\<close>

datatype reply =
    BalanceOf string u64 Element u64
  | AtomNotFound string "(string \<times> u64 \<times> Element) list"
  | ArchitectHas "(u64 \<times> Element \<times> u64) option"
  | OperatorHas "(u64 \<times> Element \<times> u64) option"
  | StateRoot u64 string
  | Snapshot u64 nat f32 f32 f32 bool bool
  | StatusLine u64 nat f32 f32
  | PeerList "string list"
  | Connecting string
  | Queued u64 u64
  | DuplicateReaction
  | InjectionQueued
  | HelpText
  | UnknownCommand string
  | Refused string

text \<open>The console works on the identities, the path of the legacy key, and the decoder that the adapter of the
  SDK uses.\<close>

record ('sg, 'k, 'f) console_env =
  con_sdk :: "('sg, 'k, 'f) sdk_env"
  con_id :: architect_id
  con_operator :: Wallet
  legacy_key_string :: string
  bincode_reaction :: "bytes \<Rightarrow> string + SignedReaction"

section \<open>Queries\<close>

definition atom_facts :: "Atom \<Rightarrow> u64 \<times> Element \<times> u64" where
  "atom_facts a = (mass a, element a, nonce a)"

definition console_balance :: "('sg, 'k, 'f) console_env \<Rightarrow> string list \<Rightarrow> ('t, 'm) node \<Rightarrow> reply list" where
  "console_balance C parts nd =
     (let st = state (nd_engine nd)
      in if 2 \<le> length parts
         then (case decode_address (con_sdk C) (parts ! 1) of
                 Inl e \<Rightarrow> [Refused e]
               | Inr pk \<Rightarrow>
                   (case state_get_atom st pk of
                      Some a \<Rightarrow> [BalanceOf (parts ! 1) (mass a) (element a) (nonce a)]
                    | None \<Rightarrow>
                        [AtomNotFound (parts ! 1)
                           (map (\<lambda>(pk, a). (hex_encode (con_sdk C) pk, mass a, element a)) (filter (\<lambda>(pk, a). 0 < mass a) (atoms st)))]))
         else [ArchitectHas (map_option atom_facts (state_get_atom st (id_pk (con_id C)))),
               OperatorHas (map_option atom_facts (state_get_atom st (public_key_bytes (con_operator C))))])"

definition console_snapshot :: "('sg, 'k, 'f) console_env \<Rightarrow> ('t, 'm) node \<Rightarrow> reply" where
  "console_snapshot C nd =
     (let E = nd_engine nd
      in Snapshot (current_crystal_index (state E)) (length (atoms (state E))) (gm_entropy (global_metrics (state E)))
           (ch_temperature (chamber E)) (epoch_difficulty E) (is_syncing E) (legacy_mode (con_id C)))"

section \<open>Transfers\<close>

definition sdk_tx_to_reaction_result :: "('sg, 'k, 'f) console_env \<Rightarrow> Transaction \<Rightarrow> string + SignedReaction" where
  "sdk_tx_to_reaction_result C tx = and_then (to_bytes (con_sdk C) tx) (bincode_reaction C)"

definition sdk_element :: "Element \<Rightarrow> AtomElement" where
  "sdk_element e = (case e of Hydrogen \<Rightarrow> SdkHydrogen | Carbon \<Rightarrow> SdkCarbon | Oxygen \<Rightarrow> SdkOxygen | Gold \<Rightarrow> SdkGold)"

text \<open>The account of the architect, if it covers the amount and the fee; their sum is not checked for
  overflow.\<close>

definition funded_sender :: "('sg, 'k, 'f) console_env \<Rightarrow> u64 \<Rightarrow> ('t, 'm) node \<Rightarrow> string + Atom" where
  "funded_sender C amount nd =
     (case state_get_atom (state (nd_engine nd)) (id_pk (con_id C)) of
        None \<Rightarrow> Inl ''Architect atom not found''
      | Some a \<Rightarrow> if mass a < amount + PROTOCOL_MIN_FEE then Inl ''Insufficient mass'' else Inr a)"

definition legacy_transfer ::
  "('sg, 'k, 'f) console_env \<Rightarrow> 'f \<Rightarrow> u64 option \<Rightarrow> bytes \<Rightarrow> u64 \<Rightarrow> ('t, 'm) node \<Rightarrow> string + SignedReaction" where
  "legacy_transfer C fs clock recipient_pk amount nd =
     and_then (load_master_key (con_sdk C) (legacy_key_string C) fs) (\<lambda>keys.
     and_then (funded_sender C amount nd) (\<lambda>a.
       build_transfer (sdk_sha3 (con_sdk C)) (core_sign (sdk_suite (con_sdk C))) clock a recipient_pk amount PROTOCOL_MIN_FEE (arch_sk keys)))"

definition sdk_transfer ::
  "('sg, 'k, 'f) console_env \<Rightarrow> string + u64 \<Rightarrow> bytes \<Rightarrow> u64 \<Rightarrow> ('t, 'm) node \<Rightarrow> string + SignedReaction" where
  "sdk_transfer C now recipient_pk amount nd =
     and_then (funded_sender C amount nd) (\<lambda>a.
     and_then (build (con_sdk C) now
         (builder_sender_element (sdk_element (element a)) (builder_sender_nonce (nonce a)
           (builder_sender_last_hash (last_reaction_hash a) (builder_sender_mass (mass a)
             (builder_fee PROTOCOL_MIN_FEE (builder_amount amount (builder_recipient recipient_pk (builder_new (id_wallet (con_id C)))))))))))
       (sdk_tx_to_reaction_result C))"

definition queue_reaction ::
  "('t, 'm) node_env \<Rightarrow> string + u64 \<Rightarrow> reply \<Rightarrow> reply \<Rightarrow> SignedReaction \<Rightarrow> ('t, 'm) node \<Rightarrow> reply list \<times> ('t, 'm) node" where
  "queue_reaction N wall queued duplicate rx nd =
     (case push (ne_mp N) wall rx (nd_mempool nd) of
        (Inr True, mp) \<Rightarrow> ([queued], nd\<lparr>nd_mempool := mp\<rparr>)
      | (Inr False, mp) \<Rightarrow> ([duplicate], nd\<lparr>nd_mempool := mp\<rparr>)
      | (Inl e, mp) \<Rightarrow> ([Refused e], nd\<lparr>nd_mempool := mp\<rparr>))"

definition console_send ::
  "('sg, 'k, 'f) console_env \<Rightarrow> ('t, 'm) node_env \<Rightarrow> 'f \<Rightarrow> u64 option \<Rightarrow> string + u64 \<Rightarrow> string + u64 \<Rightarrow> string list
     \<Rightarrow> ('t, 'm) node \<Rightarrow> reply list \<times> ('t, 'm) node" where
  "console_send C N fs clock now wall parts nd =
     (if length parts \<noteq> 3 then ([Refused ''Usage: send <recipient_hex> <amount>''], nd)
      else case decode_address (con_sdk C) (parts ! 1) of
        Inl e \<Rightarrow> ([Refused e], nd)
      | Inr recipient_pk \<Rightarrow>
          (case parse_uint (2 ^ 64) (parts ! 2) of
             None \<Rightarrow> ([Refused ''Invalid amount''], nd)
           | Some n \<Rightarrow>
               if n = 0 then ([Refused ''Amount must be > 0''], nd)
               else case (if legacy_mode (con_id C) then legacy_transfer C fs clock recipient_pk (of_nat n) nd
                          else sdk_transfer C now recipient_pk (of_nat n) nd) of
                 Inl e \<Rightarrow> ([Refused e], nd)
               | Inr rx \<Rightarrow> queue_reaction N wall (Queued (of_nat n) PROTOCOL_MIN_FEE) DuplicateReaction rx nd))"

definition console_injection :: "(bytes \<Rightarrow> hash32) \<Rightarrow> bytes \<Rightarrow> u64 \<Rightarrow> SignedReaction" where
  "console_injection sha3 pk now =
     (let rx = \<lparr>sender = new_materialized pk Hydrogen, receiver = new_materialized pk Hydrogen, reaction_hash = zero_hash,
                energy = float_of_word binary32 PROTOCOL_MIN_FEE, timestamp = now, signature = [], payload = Generic\<rparr>
      in rx\<lparr>reaction_hash := compute_reaction_hash sha3 rx\<rparr>)"

section \<open>Commands\<close>

text \<open>\<open>next_line\<close> is read by the connect command where it has no argument.\<close>

definition console_connect :: "string list \<Rightarrow> string option \<Rightarrow> ('t, 'm) node \<Rightarrow> reply list \<times> ('t, 'm) node" where
  "console_connect parts next_line nd =
     (case (if 2 \<le> length parts then Some (parts ! 1) else map_option trim next_line) of
        None \<Rightarrow> ([Refused ''Failed to read address''], nd)
      | Some addr \<Rightarrow>
          if addr = [] then ([Refused ''Usage: connect <IP:Port>''], nd)
          else if parse_addr addr = None then ([Refused ''Invalid address''], nd)
          else ([Connecting addr], nd\<lparr>nd_tasks := nd_tasks nd @ [ConnectPeer addr]\<rparr>))"

definition console_command ::
  "('sg, 'k, 'f) console_env \<Rightarrow> ('t, 'm) node_env \<Rightarrow> 'f \<Rightarrow> u64 option \<Rightarrow> u64 \<Rightarrow> string + u64 \<Rightarrow> string + u64 \<Rightarrow> string option
     \<Rightarrow> string \<Rightarrow> ('t, 'm) node \<Rightarrow> reply list \<times> ('t, 'm) node" where
  "console_command C N fs clock secs now wall next_line line nd =
     (let cmd = trim line; parts = split_whitespace cmd; st = state (nd_engine nd)
      in if cmd = ''balance'' \<or> text_starts_with ''balance '' cmd then (console_balance C parts nd, nd)
         else if cmd = ''root'' then
           ([StateRoot (current_crystal_index st) (hex_encode (con_sdk C) (current_root (storage (nd_engine nd))))], nd)
         else if cmd = ''inspect'' then ([console_snapshot C nd], nd)
         else if cmd = ''status'' then
           ([StatusLine (current_crystal_index st) (length (atoms st)) (ch_temperature (chamber (nd_engine nd))) (ch_entropy (chamber (nd_engine nd)))], nd)
         else if cmd = ''peers'' then ([PeerList (get_peer_list (nd_dht nd))], nd)
         else if cmd = ''connect'' \<or> text_starts_with ''connect '' cmd then console_connect parts next_line nd
         else if text_starts_with ''send '' cmd then console_send C N fs clock now wall parts nd
         else if cmd = ''inject'' then
           queue_reaction N wall InjectionQueued InjectionQueued (console_injection (sdk_sha3 (con_sdk C)) (id_pk (con_id C)) secs) nd
         else if cmd = ''help'' then ([HelpText], nd)
         else if cmd \<noteq> [] then ([UnknownCommand cmd], nd)
         else ([], nd))"

end
