(* ===== verification/Console_Claims.thy ===== *)
theory Console_Claims
  imports Primus_Console Setup_Claims Ipc_Claims
begin

text \<open>
  The properties of start-up and console: the identity of the architect is stable and its node record
  verifies, what the commands can change, and that the inject command never succeeds.
\<close>

section \<open>Identity\<close>

lemma load_architect_wallet:
  assumes "load_architect X exists wp lp line random fs = (Inr i, fs')" and "\<not> legacy_mode i"
  obtains (loaded) w where "exists wp fs" "wallet_load X wp fs = Inr w" "i = wallet_identity X w" "fs' = fs"
    | (created) w phrase where "from_mnemonic X phrase 0 = Inr w" "wallet_save X wp w fs = (Inr (), fs')" "i = wallet_identity X w"
proof (cases "exists wp fs")
  case True
  then show thesis using assms(1) loaded by (auto simp: load_architect_def split: sum.splits)
next
  case False
  have "\<not> exists lp fs" using assms False by (auto simp: load_architect_def split: if_splits sum.splits)
  then obtain w where w: "(if trim line = [] then wallet_generate X random 24 0 else from_mnemonic X (trim line) 0) = Inr w"
      "wallet_save X wp w fs = (Inr (), fs')" "i = wallet_identity X w"
    using assms(1) False
    by (cases "if trim line = [] then wallet_generate X random 24 0 else from_mnemonic X (trim line) 0")
      (auto simp: load_architect_def Let_def split: prod.splits sum.splits)
  then have "\<exists>phrase. from_mnemonic X phrase 0 = Inr w" by (auto simp: wallet_generate_def result_simps split: if_splits)
  then show thesis using created w by blast
qed

text \<open>C28. An architect with a wallet keeps its identity: unless the start falls back to a legacy key file, the node
  record it announces verifies under its key, and when the node starts again, on the files the first start
  left, it has the same identity, whatever is typed. With a legacy key (\<open>legacy_mode\<close>) the record is signed by
  a placeholder wallet that is generated at every start, and neither holds.\<close>

theorem architect_identity_stable:
  assumes "sdk_platform X" and "\<forall>path bs fs fs'. fs_write X path bs fs = (Inr (), fs') \<longrightarrow> exists path fs'"
    and "load_architect X exists wp lp line random fs = (Inr i, fs')" and "\<not> legacy_mode i"
  shows "nr_verify (suite_dsa (sdk_suite X)) (local_record X i external_ip port now)
    \<and> load_architect X exists wp lp line' random' fs' = (Inr i, fs')"
proof -
  obtain w where w: "wallet_load X wp fs' = Inr w" "i = wallet_identity X w" "exists wp fs'"
    using assms(3,4)
  proof (cases rule: load_architect_wallet)
    case (created w phrase)
    have "exists wp fs'" using created(2) assms(2) by (auto simp: wallet_save_def split: sum.splits)
    with created sdk_platform.save_load [OF assms(1) created(1,2)] that show thesis by blast
  qed (use that in blast)
  let ?nr = "local_record X i external_ip port now"
  have "nr_public_key ?nr = public_key_bytes w" "nr_signature ?nr = wallet_sign X w (nr_message ?nr)"
    by (simp_all add: w(2) wallet_identity_def local_record_def nr_message_def from_socket_addr_def Let_def)
  then have "nr_verify (suite_dsa (sdk_suite X)) ?nr"
    using wallet_signature(1) [OF assms(1) w(1), of "nr_message ?nr"] by (auto simp: nr_verify_def core_verify_def split: if_splits option.splits)
  with w show ?thesis by (simp add: load_architect_def)
qed

section \<open>Commands\<close>





lemma injection_invalid: "push M wall (console_injection h pk s) mp = (Inl ''Mempool: Structural validation failed'', mp)"
  by (simp add: push_def validate_structure_def console_injection_def requires_signature_verification_def Let_def SIG_BYTES_def)




text \<open>The inject command never queues its reaction: it has no signature, and a reaction without one is not
  well formed.\<close>

theorem inject_refused:
  "console_command C N fs clock secs now wall next_line ''inject'' nd = ([Refused ''Mempool: Structural validation failed''], nd)"
proof -
  have "trim ''inject'' = ''inject''" by code_simp
  then show ?thesis by (simp add: console_command_def Let_def strip_text_prefix_def queue_reaction_def injection_invalid)
qed

section \<open>A first start\<close>

theorem architect_identity_stable_witness:
  "\<exists>i fs'. load_architect send_sdk (\<lambda>p fs. fs p \<noteq> None) ''master.wallet'' ''master.key'' ''abandon about'' (\<lambda>_. []) Map.empty = (Inr i, fs')
     \<and> nr_verify (suite_dsa mem_suite) (local_record send_sdk i (Some (V4 16909060)) (effective_quic_port None 60000) 77)
     \<and> load_architect send_sdk (\<lambda>p fs. fs p \<noteq> None) ''master.wallet'' ''master.key'' [] (\<lambda>_. []) fs' = (Inr i, fs')"
proof -
  have t: "trim ''abandon about'' = ''abandon about''" by code_simp
  obtain fs' where f: "wallet_save send_sdk ''master.wallet'' sdk_wallet_of Map.empty = (Inr (), fs')"
    by (simp add: wallet_save_def send_sdk_def mem_sdk_def)
  let ?i = "wallet_identity send_sdk sdk_wallet_of"
  have l: "load_architect send_sdk (\<lambda>p fs. fs p \<noteq> None) ''master.wallet'' ''master.key'' ''abandon about'' (\<lambda>_. []) Map.empty = (Inr ?i, fs')"
    using f by (simp add: load_architect_def t send_sdk_ops(2) sdk_wallet)
  have e: "\<forall>path bs fs fs'. fs_write send_sdk path bs fs = (Inr (), fs') \<longrightarrow> fs' path \<noteq> None"
    by (auto simp: send_sdk_def mem_sdk_def)
  have "\<not> legacy_mode ?i" by (simp add: wallet_identity_def)
  from architect_identity_stable [OF send_sdk_platform e l this] l show ?thesis unfolding send_suites by blast
qed







end
