(* ===== verification/Primus_Discovery.thy ===== *)
theory Primus_Discovery
  imports Setup_Claims
begin

text \<open>
  The discovery of peers on the local network, \<open>primus-net-opt/src/discovery.rs\<close>: what a node announces and
  to which ports, and what it does with the announcements it receives, and the port mappings of \<open>nat.rs\<close>.
  Announcements are the texts received, in their order of arrival; the socket is not modelled.
\<close>

section \<open>Announcements\<close>

definition MAX_KNOWN_PEERS :: nat where "MAX_KNOWN_PEERS = 10000"
definition DISCOVERY_EVICT_COUNT :: nat where "DISCOVERY_EVICT_COUNT = 1000"

record PrimusDiscovery =
  disc_port :: u16
  bind_ip :: string

definition discovery_new :: "u16 \<Rightarrow> string option \<Rightarrow> PrimusDiscovery" where
  "discovery_new port ip = \<lparr>disc_port = port, bind_ip = (case ip of Some i \<Rightarrow> i | None \<Rightarrow> ''0.0.0.0'')\<rparr>"

definition listen_addr :: "PrimusDiscovery \<Rightarrow> string" where
  "listen_addr d = bind_ip d @ '':'' @ show_nat (unat (disc_port d))"

definition beacon_message :: "u16 \<Rightarrow> string" where
  "beacon_message port = ''PRIMUS_PEER:'' @ show_nat (unat port)"

text \<open>The ports a beacon is sent to; their order is that of a hash set.\<close>

definition beacon_ports :: "u16 \<Rightarrow> nat set" where
  "beacon_ports port = {9000 .. 9010} \<union> {unat port ..< unat (saturating_add port 16)}"

section \<open>The listener\<close>

definition beacon_port :: "string \<Rightarrow> u16 option" where
  "beacon_port data =
     Option.bind (strip_text_prefix ''PRIMUS_PEER:'' data) (\<lambda>p. map_option of_nat (parse_uint 65536 (trim p)))"

definition beacon_target :: "u16 \<Rightarrow> IpAddr \<times> string \<Rightarrow> string option" where
  "beacon_target my_port packet =
     (case beacon_port (snd packet) of
        None \<Rightarrow> None
      | Some p \<Rightarrow> if p = my_port then None else Some (show_ip (fst packet) @ '':'' @ show_nat (unat p)))"

text \<open>\<open>order\<close> is the order in which the hash set is iterated when entries are evicted. The result is the
  address to connect to.\<close>

definition remember_peer :: "(string list \<Rightarrow> string list) \<Rightarrow> string \<Rightarrow> string list \<Rightarrow> string list" where
  "remember_peer order addr known =
     (let kept = (if MAX_KNOWN_PEERS \<le> length known
                  then filter (\<lambda>k. k \<notin> set (take DISCOVERY_EVICT_COUNT (order known))) known else known)
      in kept @ [addr])"

definition listen_step :: "(string list \<Rightarrow> string list) \<Rightarrow> u16 \<Rightarrow> IpAddr \<times> string \<Rightarrow> string list \<Rightarrow> string option \<times> string list" where
  "listen_step order my_port packet known =
     (case beacon_target my_port packet of
        None \<Rightarrow> (None, known)
      | Some addr \<Rightarrow>
          if addr \<in> set known then (None, known) else (Some addr, remember_peer order addr known))"

fun listen_all :: "(string list \<Rightarrow> string list) \<Rightarrow> u16 \<Rightarrow> (IpAddr \<times> string) list \<Rightarrow> string list \<Rightarrow> string list \<times> string list" where
  "listen_all order my_port [] known = ([], known)"
| "listen_all order my_port (p # ps) known =
     (case listen_step order my_port p known of (c, known1) \<Rightarrow>
        case listen_all order my_port ps known1 of (cs, known2) \<Rightarrow>
          ((case c of Some a \<Rightarrow> a # cs | None \<Rightarrow> cs), known2))"

section \<open>Port mappings\<close>

text \<open>\<open>NatService\<close> of \<open>primus-net-opt/src/nat.rs\<close>. The gateway of \<open>igd_next\<close> is a parameter: the outcome of the
  search, its mappings and its answer for the external address.\<close>

datatype mapping_protocol = MapTcp | MapUdp

record 'g nat_env =
  search_gateway :: "string + 'g"
  local_ip :: "string + IpAddr"
  add_port :: "mapping_protocol \<Rightarrow> u16 \<Rightarrow> SocketAddr \<Rightarrow> u32 \<Rightarrow> string \<Rightarrow> 'g \<Rightarrow> (string + unit) \<times> 'g"
  external_ip :: "'g \<Rightarrow> string + IpAddr"

text \<open>The second component is the gateway at the end, if one was found.\<close>

definition open_world :: "'g nat_env \<Rightarrow> u16 \<Rightarrow> (string + IpAddr) \<times> 'g option" where
  "open_world E port =
     (case search_gateway E of
        Inl e \<Rightarrow> (Inl (''UPnP Discovery failed: '' @ e), None)
      | Inr g \<Rightarrow>
          (case local_ip E of
             Inl e \<Rightarrow> (Inl (''Failed to determine local IP: '' @ e), Some g)
           | Inr (V6 _) \<Rightarrow> (Inl ''IPv6 mapping is not yet supported for Primus-Grade nodes'', Some g)
           | Inr (V4 v) \<Rightarrow>
               (case add_port E MapTcp port (V4 v, port) 0 ''Primus-Node-TCP'' g of
                  (Inl e, g1) \<Rightarrow> (Inl (''TCP Port Mapping failed: '' @ e), Some g1)
                | (Inr _, g1) \<Rightarrow>
                    (case add_port E MapUdp port (V4 v, port) 0 ''Primus-Node-UDP'' g1 of
                       (Inl e, g2) \<Rightarrow> (Inl (''UDP Port Mapping failed: '' @ e), Some g2)
                     | (Inr _, g2) \<Rightarrow>
                         (case external_ip E g2 of
                            Inl e \<Rightarrow> (Inl (''Failed to get external IP: '' @ e), Some g2)
                          | Inr ip \<Rightarrow> (Inr ip, Some g2))))))"

section \<open>Properties\<close>

text \<open>A reported external address means that the gateway took both mappings to this host.\<close>

lemma open_world_ok:
  assumes "open_world E port = (Inr ip, Some g2)"
  obtains v g g1 where "local_ip E = Inr (V4 v)" "search_gateway E = Inr g"
    "add_port E MapTcp port (V4 v, port) 0 ''Primus-Node-TCP'' g = (Inr (), g1)"
    "add_port E MapUdp port (V4 v, port) 0 ''Primus-Node-UDP'' g1 = (Inr (), g2)" "external_ip E g2 = Inr ip"
  using assms by (auto simp: open_world_def split: sum.splits IpAddr.splits prod.splits)

lemma beacon_port_message: "beacon_port (beacon_message p) = Some p"
proof -
  have "\<not> is_space c" if "c \<in> set (show_nat (unat p))" for c
    using show_nat_char [OF that] by (auto simp: is_space_def Let_def)
  then have "trim (show_nat (unat p)) = show_nat (unat p)" by (auto intro: trim_by_none)
  moreover have "parse_uint 65536 (show_nat (unat p)) = Some (unat p)"
    using parse_show_nat [of "unat p" 65536] unsigned_less [of p, where ?'a = nat] by simp
  ultimately show ?thesis by (simp add: beacon_port_def beacon_message_def strip_text_prefix_def)
qed

lemma remember_bounds:
  assumes "distinct known" and "length known \<le> MAX_KNOWN_PEERS" and "addr \<notin> set known"
    and "set (order known) = set known" and "distinct (order known)"
  shows "distinct (remember_peer order addr known) \<and> length (remember_peer order addr known) \<le> MAX_KNOWN_PEERS
    \<and> addr \<in> set (remember_peer order addr known)"
proof (cases "MAX_KNOWN_PEERS \<le> length known")
  case True
  let ?e = "set (take DISCOVERY_EVICT_COUNT (order known))"
  have "length (order known) = length known" using assms(1,4,5) by (metis distinct_card)
  then have "card ?e = DISCOVERY_EVICT_COUNT"
    using True assms(5) by (simp add: distinct_card MAX_KNOWN_PEERS_def DISCOVERY_EVICT_COUNT_def)
  moreover have "length (filter (\<lambda>k. k \<notin> ?e) known) = card (set known - ?e)"
    using assms(1) by (simp add: distinct_card [symmetric] set_diff_eq Collect_conj_eq [symmetric] Int_def) 
  moreover have "?e \<subseteq> set known" using assms(4) set_take_subset by fast
  ultimately have "length (filter (\<lambda>k. k \<notin> ?e) known) = length known - DISCOVERY_EVICT_COUNT"
    using assms(1) by (simp add: card_Diff_subset distinct_card)
  then show ?thesis
    using assms(1-3) True by (auto simp: remember_peer_def DISCOVERY_EVICT_COUNT_def MAX_KNOWN_PEERS_def)
qed (use assms(1,3) in \<open>auto simp: remember_peer_def\<close>)

definition fresh_targets :: "string list \<Rightarrow> string list \<Rightarrow> string list" where
  "fresh_targets known as = filter (\<lambda>a. a \<notin> set known) (rev (remdups (rev as)))"

lemma fresh_targets_Cons: "fresh_targets known (a # as) = (if a \<in> set known then fresh_targets known as else a # fresh_targets (known @ [a]) as)"
proof -
  have "rev (remdups (rev (a # as))) = a # filter (\<lambda>b. b \<noteq> a) (rev (remdups (rev as)))" for as :: "string list"
  proof (induction as rule: rev_induct)
    case (snoc x xs)
    then show ?case by (cases "x \<in> set xs"; cases "x = a") auto
  qed simp
  then show ?thesis by (auto simp: fresh_targets_def intro: filter_cong)
qed

lemma listen_connects:
  assumes "distinct known" and "card (set known \<union> set (List.map_filter (beacon_target my_port) ps)) \<le> MAX_KNOWN_PEERS"
  shows "fst (listen_all order my_port ps known) = fresh_targets known (List.map_filter (beacon_target my_port) ps)"
  using assms
proof (induction ps arbitrary: known)
  case (Cons p ps)
  show ?case
  proof (cases "beacon_target my_port p")
    case None
    then show ?thesis using Cons by (simp add: listen_step_def map_filter_simps split: prod.split)
  next
    case (Some a)
    let ?ts = "List.map_filter (beacon_target my_port) ps"
    have set: "set known \<union> set (List.map_filter (beacon_target my_port) (p # ps)) = insert a (set known \<union> set ?ts)"
      using Some by (auto simp: map_filter_simps)
    have "length known < MAX_KNOWN_PEERS" if "a \<notin> set known"
    proof -
      have "card (insert a (set known)) \<le> MAX_KNOWN_PEERS"
        using Cons.prems(2) card_mono [of "insert a (set known \<union> set ?ts)" "insert a (set known)"] unfolding set by fastforce
      then show ?thesis using that Cons.prems(1) by (simp add: distinct_card)
    qed
    then have r: "remember_peer order a known = known @ [a]" if "a \<notin> set known"
      using that by (simp add: remember_peer_def)
    have "a \<in> set known \<Longrightarrow> fst (listen_all order my_port ps known) = fresh_targets known ?ts"
      using Cons.IH [OF Cons.prems(1)] Cons.prems(2) unfolding set by (simp add: insert_absorb)
    moreover have "a \<notin> set known \<Longrightarrow> fst (listen_all order my_port ps (known @ [a])) = fresh_targets (known @ [a]) ?ts"
      using Cons.IH [of "known @ [a]"] Cons.prems unfolding set by simp
    ultimately show ?thesis
      using Some r by (auto simp: listen_step_def map_filter_simps fresh_targets_Cons split: prod.split)
  qed
qed (simp add: fresh_targets_def map_filter_simps)

lemma known_bounded:
  assumes "\<And>xs. set (order xs) = set xs" and "\<And>xs. distinct xs \<Longrightarrow> distinct (order xs)"
    and "distinct known" and "length known \<le> MAX_KNOWN_PEERS"
  shows "distinct (snd (listen_all order my_port ps known)) \<and> length (snd (listen_all order my_port ps known)) \<le> MAX_KNOWN_PEERS"
  using assms(3,4)
proof (induction ps arbitrary: known)
  case (Cons p ps)
  have "distinct (snd (listen_step order my_port p known)) \<and> length (snd (listen_step order my_port p known)) \<le> MAX_KNOWN_PEERS"
    using Cons.prems remember_bounds [of known _ order, OF Cons.prems _ assms(1) assms(2) [OF Cons.prems(1)]]
    by (auto simp: listen_step_def split: option.split)
  then show ?case using Cons.IH [of "snd (listen_step order my_port p known)"] by (auto split: prod.split)
qed simp

text \<open>C38. The listener never remembers more than its limit of peers and none of them twice, whatever is
  announced and in whatever order the hash set gives up its entries. As long as the announcements name no
  more different addresses than the limit, however often they are repeated, it connects exactly once to
  every announced address, in the order of the first announcements. An announcement of the own port number is
  taken for an own one and ignored, so peers that listen on the same port are not connected.\<close>

theorem discovery_connects_once:
  assumes "\<And>xs. set (order xs) = set xs" and "\<And>xs. distinct xs \<Longrightarrow> distinct (order xs)"
  shows "distinct (snd (listen_all order my_port ps [])) \<and> length (snd (listen_all order my_port ps [])) \<le> MAX_KNOWN_PEERS
    \<and> (card (set (List.map_filter (beacon_target my_port) ps)) \<le> MAX_KNOWN_PEERS \<longrightarrow>
         distinct (fst (listen_all order my_port ps []))
         \<and> fst (listen_all order my_port ps []) = rev (remdups (rev (List.map_filter (beacon_target my_port) ps))))
    \<and> beacon_target my_port (ip, beacon_message p) =
        (if p = my_port then None else Some (show_ip ip @ '':'' @ show_nat (unat p)))"
proof -
  have "fst (listen_all order my_port ps []) = rev (remdups (rev (List.map_filter (beacon_target my_port) ps)))"
    if "card (set (List.map_filter (beacon_target my_port) ps)) \<le> MAX_KNOWN_PEERS"
    using listen_connects [of "[]" my_port ps order] that by (simp add: fresh_targets_def)
  moreover have "beacon_target my_port (ip, beacon_message p) = (if p = my_port then None else Some (show_ip ip @ '':'' @ show_nat (unat p)))"
    by (simp add: beacon_target_def beacon_port_message)
  ultimately show ?thesis using known_bounded [OF assms, of "[]" my_port ps] by simp
qed

theorem discovery_connects_once_witness:
  "fst (listen_all rev 9000 [(V4 5, beacon_message 9001), (V4 6, beacon_message 9000), (V4 5, beacon_message 9001)] [])
     = [show_ip (V4 5) @ '':'' @ show_nat (unat (9001 :: u16))]"
proof -
  let ?ps = "[(V4 5, beacon_message 9001), (V4 6, beacon_message 9000), (V4 5, beacon_message 9001)]"
  note d = discovery_connects_once [of rev 9000 ?ps, OF set_rev distinct_rev [THEN iffD2]]
  have t: "beacon_target 9000 (ip, beacon_message p) = (if p = 9000 then None else Some (show_ip ip @ '':'' @ show_nat (unat p)))" for ip p
    using d by blast
  then have "List.map_filter (beacon_target 9000) ?ps =
      [show_ip (V4 5) @ '':'' @ show_nat (unat (9001 :: u16)), show_ip (V4 5) @ '':'' @ show_nat (unat (9001 :: u16))]"
    by (simp add: map_filter_simps)
  moreover have "card (set [x, x]) \<le> MAX_KNOWN_PEERS" for x :: string by (simp add: MAX_KNOWN_PEERS_def)
  ultimately show ?thesis using d by simp
qed

end
