(* ===== verification/Primus_Tui.thy ===== *)
theory Primus_Tui
  imports Primus_Client Rust_Text
begin

text \<open>
  The terminal client, \<open>primus-client/src/main.rs\<close>: the state of its screen, the keys, the task in the
  background that talks to the node, and the two channels between them. The drawing is not modelled.
\<close>

section \<open>The address of the node\<close>

definition config_host_line :: "string \<times> u16 \<Rightarrow> string \<Rightarrow> string \<times> u16" where
  "config_host_line s raw =
     (let line = trim raw
      in case strip_text_prefix ''public_ip = '' line of
           Some val \<Rightarrow> (let h = trim_by (\<lambda>c. c = CHR 0x22) (trim val) in if h \<noteq> [] then (h, snd s) else s)
         | None \<Rightarrow>
             (case strip_text_prefix ''port = '' line of
                Some val \<Rightarrow> (fst s, case parse_uint 65536 (trim val) of Some n \<Rightarrow> of_nat n | None \<Rightarrow> 9000)
              | None \<Rightarrow> s))"

definition load_node_addr_from_config :: "string option \<Rightarrow> (string \<times> u16) option" where
  "load_node_addr_from_config file =
     Option.bind file (\<lambda>text.
       case foldl config_host_line ([], 9000) (text_lines text) of (host, port) \<Rightarrow>
         if host \<noteq> [] then Some (host, port) else None)"

definition split_once :: "char \<Rightarrow> string \<Rightarrow> (string \<times> string) option" where
  "split_once c s = (case dropWhile (\<lambda>x. x \<noteq> c) s of [] \<Rightarrow> None | _ # r \<Rightarrow> Some (takeWhile (\<lambda>x. x \<noteq> c) s, r))"

fun node_arg :: "string list \<Rightarrow> (string \<times> u16) option" where
  "node_arg (a # s # r) =
     (if a = ''--node''
      then (case parse_addr s of
              Some sock \<Rightarrow> Some (show_ip (fst sock), snd sock)
            | None \<Rightarrow>
                map_option (\<lambda>(h, p). (h, case parse_uint 65536 p of Some n \<Rightarrow> of_nat n | None \<Rightarrow> 9000)) (split_once (CHR '':'') s))
      else node_arg (s # r))"
| "node_arg _ = None"

text \<open>\<open>args\<close> are the arguments without the name of the program.\<close>

definition node_addr_of :: "string list \<Rightarrow> string option \<Rightarrow> string \<times> u16" where
  "node_addr_of args file =
     (case node_arg args of
        Some a \<Rightarrow> a
      | None \<Rightarrow> (case load_node_addr_from_config file of Some a \<Rightarrow> a | None \<Rightarrow> (''127.0.0.1'', 9000)))"

section \<open>The screen\<close>

datatype AppTab = Dashboard | SendTab | LogsTab

datatype AppEvent = TickEvent | NodeStatus string | BalanceUpdate u64 | LogMsg string | WalletLoaded string

datatype UiCommand = SendTx string u64 | GenerateWallet

record App =
  tab :: AppTab
  address_input :: string
  amount_input :: string
  is_typing_address :: bool
  app_logs :: "string list"
  balance :: "u64 option"
  app_status :: string
  wallet_address :: string
  node_addr :: string

definition app_new :: "string \<Rightarrow> App" where
  "app_new addr =
     \<lparr>tab = Dashboard, address_input = [], amount_input = [], is_typing_address = True, app_logs = [''Client started.''],
      balance = None, app_status = ''Connecting...'', wallet_address = ''Not loaded'', node_addr = addr\<rparr>"

definition next_tab :: "App \<Rightarrow> App" where
  "next_tab app = app\<lparr>tab := (case tab app of Dashboard \<Rightarrow> SendTab | SendTab \<Rightarrow> LogsTab | LogsTab \<Rightarrow> Dashboard)\<rparr>"

definition app_event :: "AppEvent \<Rightarrow> App \<Rightarrow> App" where
  "app_event ev app =
     (case ev of
        NodeStatus s \<Rightarrow> app\<lparr>app_status := s\<rparr>
      | BalanceUpdate b \<Rightarrow> app\<lparr>balance := Some b\<rparr>
      | WalletLoaded a \<Rightarrow> app\<lparr>wallet_address := a\<rparr>
      | LogMsg msg \<Rightarrow>
          (let ls = app_logs app @ [msg] in app\<lparr>app_logs := if 50 < length ls then tl ls else ls\<rparr>)
      | TickEvent \<Rightarrow> app)"

section \<open>Keys\<close>

datatype key = KeyChar char | KeyTab | KeyBackspace | KeyEnter | KeyDown | KeyUp | KeyOther

text \<open>The channel of commands holds ten; a command that does not fit is dropped.\<close>

definition try_send :: "UiCommand \<Rightarrow> UiCommand list \<Rightarrow> UiCommand list" where
  "try_send c q = (if length q < 10 then q @ [c] else q)"

text \<open>\<open>None\<close> ends the client.\<close>

definition press_key :: "key \<Rightarrow> App \<times> UiCommand list \<Rightarrow> (App \<times> UiCommand list) option" where
  "press_key k s =
     (case s of (app, q) \<Rightarrow>
        (case k of
           KeyChar c \<Rightarrow>
             if c = CHR ''q'' then None
             else if tab app = SendTab then
               Some (if is_typing_address app then app\<lparr>address_input := address_input app @ [c]\<rparr>
                     else app\<lparr>amount_input := amount_input app @ [c]\<rparr>, q)
             else if c = CHR ''g'' then Some (app, try_send GenerateWallet q)
             else Some (app, q)
         | KeyTab \<Rightarrow> Some (next_tab app, q)
         | KeyBackspace \<Rightarrow>
             if tab app = SendTab then
               Some (if is_typing_address app then app\<lparr>address_input := butlast (address_input app)\<rparr>
                     else app\<lparr>amount_input := butlast (amount_input app)\<rparr>, q)
             else Some (app, q)
         | KeyEnter \<Rightarrow>
             if tab app = SendTab then
               (case parse_uint (2 ^ 64) (amount_input app) of
                  Some n \<Rightarrow>
                    Some (app\<lparr>amount_input := [], address_input := [], tab := LogsTab\<rparr>, try_send (SendTx (address_input app) (of_nat n)) q)
                | None \<Rightarrow> Some (app\<lparr>app_logs := app_logs app @ [''Invalid amount!'']\<rparr>, q))
             else Some (app, q)
         | KeyDown \<Rightarrow> Some (if tab app = SendTab then app\<lparr>is_typing_address := \<not> is_typing_address app\<rparr> else app, q)
         | KeyUp \<Rightarrow> Some (if tab app = SendTab then app\<lparr>is_typing_address := \<not> is_typing_address app\<rparr> else app, q)
         | KeyOther \<Rightarrow> Some (app, q)))"

text \<open>One turn of the loop: the waiting events, then at most one key.\<close>

definition app_turn :: "AppEvent list \<Rightarrow> key option \<Rightarrow> App \<times> UiCommand list \<Rightarrow> (App \<times> UiCommand list) option" where
  "app_turn evs k s =
     (case s of (app, q) \<Rightarrow>
        let app1 = foldl (\<lambda>a e. app_event e a) app evs
        in (case k of None \<Rightarrow> Some (app1, q) | Some key \<Rightarrow> press_key key (app1, q)))"

fun press_keys :: "key list \<Rightarrow> App \<times> UiCommand list \<Rightarrow> (App \<times> UiCommand list) option" where
  "press_keys [] s = Some s"
| "press_keys (k # ks) s = (case app_turn [] (Some k) s of None \<Rightarrow> None | Some s1 \<Rightarrow> press_keys ks s1)"

section \<open>The background task\<close>

definition show_sdk_error :: "PrimusSdkError \<Rightarrow> string" where
  "show_sdk_error e = (case e of
     SequenceMismatch \<Rightarrow> ''Node rejected transaction due to sequence mismatch''
   | ThermalThrottling secs \<Rightarrow> ''Node returned thermal throttle signal. Cooldown: '' @ show_nat (unat secs) @ ''s''
   | NodeUnreachable \<Rightarrow> ''Node is unreachable''
   | SdkNodeError reason \<Rightarrow> ''Generic node error: '' @ reason
   | SdkTransport err \<Rightarrow> ''Transport error: '' @ err
   | SdkProofTooOld ph ch \<Rightarrow>
       ''Merkle proof is too old (proof height: '' @ show_nat (unat ph) @ '', current height: '' @ show_nat (unat ch) @ '')'')"

text \<open>The first four bytes of a hash in hexadecimal.\<close>

definition show_accepted :: "hash32 \<Rightarrow> string" where
  "show_accepted h =
     ''Accepted (hash: ['' @ concat (map (\<lambda>i. (if i = 0 then [] else '', '') @ (if h ! i < 16 then ''0'' else []) @ show_hex (unat (h ! i)))
       [0 ..< 4]) @ ''])''"

record worker =
  wk_wallet :: "Wallet option"
  wk_addr :: "string option"

definition worker_start :: "('sg, 'k, 'f) sdk_env \<Rightarrow> 'f \<Rightarrow> AppEvent list \<times> worker" where
  "worker_start X fs =
     (case wallet_load X ''my.wallet'' fs of
        Inr w \<Rightarrow> ([WalletLoaded (address w)], \<lparr>wk_wallet = Some w, wk_addr = Some (address w)\<rparr>)
      | Inl _ \<Rightarrow>
          ([LogMsg ''my.wallet not found. Press 'g' to generate a new wallet.''], \<lparr>wk_wallet = None, wk_addr = None\<rparr>))"

text \<open>\<open>client\<close> is the outcome of \<open>new_auto\<close>; the result has the client at the end, which is then dropped.\<close>

definition worker_tick ::
  "('sg, 'k, 'f, 'n, 'w) client_env \<Rightarrow> string \<times> u16 \<Rightarrow> worker \<Rightarrow> (PrimusSdkError + ('n, 'w) NodeClient) option
     \<Rightarrow> (AppEvent list \<times> ('n, 'w) NodeClient option) option" where
  "worker_tick C addr wk client =
     (case client of
        None \<Rightarrow> None
      | Some (Inl _) \<Rightarrow> Some ([NodeStatus ''Disconnected''], None)
      | Some (Inr c) \<Rightarrow>
          (let on = NodeStatus (''Connected ('' @ fst addr @ '':'' @ show_nat (unat (snd addr)) @ '')'')
           in case wk_addr wk of
                None \<Rightarrow> Some ([on], Some c)
              | Some a \<Rightarrow>
                  (case client_atom_state C a c of
                     None \<Rightarrow> None
                   | Some (Inr st, c1) \<Rightarrow> Some ([on, BalanceUpdate (at_mass st)], Some c1)
                   | Some (Inl e, c1) \<Rightarrow> Some ([on, LogMsg (''Error fetching state: '' @ show_sdk_error e)], Some c1))))"

text \<open>The sum of amount and fee wraps around, as in a release build.\<close>

definition send_with ::
  "('sg, 'k, 'f, 'n, 'w) client_env \<Rightarrow> string + u64 \<Rightarrow> string + u64 \<Rightarrow> Wallet \<Rightarrow> string \<Rightarrow> u64 \<Rightarrow> ('n, 'w) NodeClient
     \<Rightarrow> (AppEvent list \<times> ('n, 'w) NodeClient) option" where
  "send_with C now now' w to_addr amount c =
     (case client_atom_state C (address w) c of
        None \<Rightarrow> None
      | Some (Inl e, c1) \<Rightarrow> Some ([LogMsg (''Failed to get sender state: '' @ show_sdk_error e)], c1)
      | Some (Inr st, c1) \<Rightarrow>
          if at_mass st < amount + PROTOCOL_MIN_FEE then Some ([LogMsg ''Insufficient balance!''], c1)
          else (case decode_address (ce_sdk C) to_addr of
                  Inl _ \<Rightarrow> Some ([LogMsg ''Invalid recipient address format!''], c1)
                | Inr recipient_pk \<Rightarrow>
                    (case broadcast_tx C now now' w (transfer_builder w recipient_pk amount st) c1 of
                       None \<Rightarrow> None
                     | Some (Inr h, c2) \<Rightarrow> Some ([LogMsg (''Tx Broadcasted: '' @ show_accepted h)], c2)
                     | Some (Inl e, c2) \<Rightarrow> Some ([LogMsg (''Broadcast Error: '' @ show_sdk_error e)], c2))))"

definition worker_send ::
  "('sg, 'k, 'f, 'n, 'w) client_env \<Rightarrow> string + u64 \<Rightarrow> string + u64 \<Rightarrow> worker \<Rightarrow> string \<Rightarrow> u64
     \<Rightarrow> (PrimusSdkError + ('n, 'w) NodeClient) option \<Rightarrow> (AppEvent list \<times> ('n, 'w) NodeClient option) option" where
  "worker_send C now now' wk to_addr amount client =
     (case wk_wallet wk of
        None \<Rightarrow> Some ([LogMsg ''Cannot send: No wallet loaded!''], None)
      | Some w \<Rightarrow>
          (let started = LogMsg (''Sending '' @ show_nat (unat amount) @ '' mass to '' @ to_addr @ ''...'')
           in case client of
                None \<Rightarrow> None
              | Some (Inl _) \<Rightarrow> Some ([started, LogMsg ''Cannot send: Node disconnected.''], None)
              | Some (Inr c) \<Rightarrow>
                  (case send_with C now now' w to_addr amount c of
                     None \<Rightarrow> None
                   | Some (evs, c1) \<Rightarrow> Some (started # evs, Some c1))))"

definition worker_generate :: "('sg, 'k, 'f) sdk_env \<Rightarrow> (nat \<Rightarrow> bytes) \<Rightarrow> worker \<Rightarrow> 'f \<Rightarrow> AppEvent list \<times> worker \<times> 'f" where
  "worker_generate X random wk fs =
     (case wk_wallet wk of
        Some _ \<Rightarrow> ([LogMsg (map char_of [226, 154, 160, 239, 184, 143 :: nat] @ '' Wallet already exists.'')], wk, fs)
      | None \<Rightarrow>
          (case wallet_generate X random 12 0 of
             Inl e \<Rightarrow> ([LogMsg ''Generating wallet...'', LogMsg (''Failed to generate wallet: '' @ e)], wk, fs)
           | Inr w \<Rightarrow>
               (case wallet_save X ''my.wallet'' w fs of
                  (Inl e, fs1) \<Rightarrow> ([LogMsg ''Generating wallet...'', LogMsg (''Failed to save wallet: '' @ e)], wk, fs1)
                | (Inr _, fs1) \<Rightarrow>
                    ([LogMsg ''Generating wallet...'', WalletLoaded (address w),
                      LogMsg (map char_of [226, 156, 133 :: nat] @ '' Wallet created! Mnemonic: '' @ mnemonic_phrase w)],
                     \<lparr>wk_wallet = Some w, wk_addr = Some (address w)\<rparr>, fs1))))"

end
