(* ===== verification/Tui_Claims.thy ===== *)
theory Tui_Claims
  imports Primus_Tui Client_Claims Setup_Claims
begin

text \<open>
  What the terminal client promises: its log is bounded unless wrong amounts are typed, and a transfer that
  is typed in arrives in the mempool of the node.
\<close>

section \<open>Typing\<close>

lemma press_keys_append: "press_keys (ks @ ls) s = Option.bind (press_keys ks s) (press_keys ls)"
  by (induction ks arbitrary: s) (auto split: option.split)

lemma type_text:
  assumes "tab app = SendTab" and "CHR ''q'' \<notin> set cs"
  shows "press_keys (map KeyChar cs) (app, q) =
    Some (if is_typing_address app then app\<lparr>address_input := address_input app @ cs\<rparr> else app\<lparr>amount_input := amount_input app @ cs\<rparr>, q)"
  using assms
proof (induction cs arbitrary: app)
  case (Cons c cs)
  let ?a = "if is_typing_address app then app\<lparr>address_input := address_input app @ [c]\<rparr> else app\<lparr>amount_input := amount_input app @ [c]\<rparr>"
  have "press_keys (map KeyChar (c # cs)) (app, q) = press_keys (map KeyChar cs) (?a, q)"
    using Cons.prems by (auto simp: app_turn_def press_key_def)
  also have "\<dots> = Some (if is_typing_address ?a then ?a\<lparr>address_input := address_input ?a @ cs\<rparr>
      else ?a\<lparr>amount_input := amount_input ?a @ cs\<rparr>, q)"
    using Cons.prems by (intro Cons.IH) auto
  finally show ?case by simp
qed simp

definition typed_transfer :: "string \<Rightarrow> u64 \<Rightarrow> key list" where
  "typed_transfer to amount = KeyTab # map KeyChar to @ KeyDown # map KeyChar (show_nat (unat amount)) @ [KeyEnter]"

lemma typed_transfer_command:
  assumes "CHR ''q'' \<notin> set to"
  shows "\<exists>app. press_keys (typed_transfer to amount) (app_new addr, []) = Some (app, [SendTx to amount])
    \<and> tab app = LogsTab \<and> address_input app = [] \<and> amount_input app = []"
proof -
  have "CHR ''q'' \<notin> set (show_nat (unat amount))" by (auto dest: show_nat_char)
  moreover have "parse_uint (2 ^ 64) (show_nat (unat amount)) = Some (unat amount)"
    using parse_show_nat [of "unat amount" "2 ^ 64"] unsigned_less [of amount, where ?'a = nat] by simp
  ultimately show ?thesis
    using assms
    by (simp add: typed_transfer_def press_keys_append type_text app_new_def next_tab_def app_turn_def press_key_def try_send_def)
qed

section \<open>The log\<close>

text \<open>Messages from the background keep the log at fifty lines, a wrong amount adds a line at every Enter.\<close>

lemma app_event_logs: "length (app_logs (app_event ev app)) \<le> max 50 (length (app_logs app))"
  by (auto simp: app_event_def Let_def split: AppEvent.split)

lemma press_key_logs:
  "press_key k (app, q) = Some (app1, q1) \<Longrightarrow> length (app_logs app1) \<le> Suc (length (app_logs app)) \<and> length q1 \<le> max 10 (length q)"
  by (auto simp: press_key_def next_tab_def try_send_def split: key.splits if_splits option.splits)

lemma wrong_amounts_fill_log:
  assumes "tab app = SendTab" and "amount_input app = []"
  shows "press_keys (replicate n KeyEnter) (app, q) = Some (app\<lparr>app_logs := app_logs app @ replicate n ''Invalid amount!''\<rparr>, q)"
  using assms
proof (induction n arbitrary: app)
  case (Suc n)
  have "press_keys (replicate (Suc n) KeyEnter) (app, q) = press_keys (replicate n KeyEnter) (app\<lparr>app_logs := app_logs app @ [''Invalid amount!'']\<rparr>, q)"
    using Suc.prems by (simp add: app_turn_def press_key_def parse_uint_def)
  then show ?case using Suc by simp
qed simp

section \<open>A transfer\<close>

text \<open>C36. A transfer typed into the terminal client arrives: the keys leave one command for the task in the
  background, which reads the account, sends the signed reaction and reports that it was accepted; the
  mempool of the node then holds this reaction and the engine is unchanged.\<close>

theorem tui_transfer_admitted:
  assumes "wire_codec N C" and "ce_stream C = node_stream N (Inr wall) inst ip" and "sdk_platform (ce_sdk C)"
    and "node_contract N healthy contents" and "mempool_ok (ne_mp N) healthy contents (nd_mempool nd)"
    and "sdk_sha3 (ce_sdk C) = mp_sha3 (ne_mp N)" and "sha3_256 (ne_pf N) = mp_sha3 (ne_mp N)"
    and "wallet_load (ce_sdk C) ''my.wallet'' fs = Inr w" and "decode_address (ce_sdk C) to_addr = Inr recipient"
    and "state_get_atom (state (nd_engine nd)) (public_key_bytes w) = Some a" and "length (last_reaction_hash a) = 32"
    and "build (ce_sdk C) now (transfer_builder w recipient amount (atom_state a)) = Inr tx" and "rx = signed_reaction tx"
    and "rkyv_reaction (ce_sdk C) rx = Inr bs" and "check_reaction (ne_mp N) bs = Some rx" and "length bs \<le> 65536"
    and "length (blake3 (pf_nodes (ne_pf N)) bs) = 32"
    and "public_key_bytes w = eng_architect_pk (nd_engine nd) \<or> has_balance N nd (public_key_bytes w)"
    and "length (pool_data contents (nd_mempool nd) (sector (sender rx))) < unat (max_sector_capacity (nd_mempool nd))"
    and "bt_get (pool_data contents (nd_mempool nd) (sector (sender rx))) (reaction_hash rx) = None"
    and "CHR ''q'' \<notin> set to_addr"
  shows "(\<exists>app. press_keys (typed_transfer to_addr amount) (app_new addr, []) = Some (app, [SendTx to_addr amount]) \<and> tab app = LogsTab)
    \<and> (\<exists>nd' b. worker_send C now now' (snd (worker_start (ce_sdk C) fs)) to_addr amount (new_auto H (ce_stream C) (Inr (link_new nd)) conn' key)
          = Some ([LogMsg (''Sending '' @ show_nat (unat amount) @ '' mass to '' @ to_addr @ ''...''),
                   LogMsg (''Tx Broadcasted: '' @ show_accepted (blake3 (pf_nodes (ne_pf N)) bs))], Some (client_new (Plain (link_new nd'))))
        \<and> bt_get (pool_data contents (nd_mempool nd') (sector (sender rx))) (reaction_hash rx) = Some b
        \<and> de_reaction (ne_mp N) b = Inr rx \<and> nd_engine nd' = nd_engine nd)"
proof -
  obtain nd' b where t: "client_atom_state C (address w) (client_new (Plain (link_new nd))) = Some (Inr (atom_state a), client_new (Plain (link_new nd)))"
    "\<not> at_mass (atom_state a) < amount + PROTOCOL_MIN_FEE"
    "broadcast_tx C now now' w (transfer_builder w recipient amount (atom_state a)) (client_new (Plain (link_new nd))) =
       Some (Inr (blake3 (pf_nodes (ne_pf N)) bs), client_new (Plain (link_new nd')))"
    and nd': "bt_get (pool_data contents (nd_mempool nd') (sector (sender rx))) (reaction_hash rx) = Some b"
      "de_reaction (ne_mp N) b = Inr rx" "nd_engine nd' = nd_engine nd"
    by (rule transfer_delivered [OF assms(1-20)])
  have "worker_send C now now' (snd (worker_start (ce_sdk C) fs)) to_addr amount (new_auto H (ce_stream C) (Inr (link_new nd)) conn' key)
      = Some ([LogMsg (''Sending '' @ show_nat (unat amount) @ '' mass to '' @ to_addr @ ''...''),
               LogMsg (''Tx Broadcasted: '' @ show_accepted (blake3 (pf_nodes (ne_pf N)) bs))], Some (client_new (Plain (link_new nd'))))"
    using t assms(8,9) by (simp add: worker_send_def worker_start_def send_with_def new_auto_def new_plain_def Let_def)
  then show ?thesis using nd' typed_transfer_command [OF assms(21), of amount addr] by blast
qed

theorem tui_transfer_admitted_witness:
  "\<exists>app mp fs nd'. mempool_new (\<lambda>_. Inr []) = Inr mp \<and> wallet_save send_sdk ''my.wallet'' sdk_wallet_of Map.empty = (Inr (), fs)
     \<and> press_keys (typed_transfer (hex_encode send_sdk (replicate PK_BYTES 7)) 500) (app_new ''127.0.0.1:9000'', [])
         = Some (app, [SendTx (hex_encode send_sdk (replicate PK_BYTES 7)) 500])
     \<and> map_option snd (worker_send send_client (Inr 7) (Inr 8) (snd (worker_start (ce_sdk send_client) fs))
           (hex_encode send_sdk (replicate PK_BYTES 7)) 500
           (new_auto mem_hs (ce_stream send_client) (Inr (link_new (send_node mp))) (Inl ConnectTimeout) []))
       = Some (Some (client_new (Plain (link_new nd'))))"
proof -
  obtain mp where mp: "mempool_new (\<lambda>_. Inr []) = Inr mp"
    and ok: "mempool_ok (ne_mp send_env) bt_ordered (\<lambda>t. t) (nd_mempool (send_node mp))"
    and room: "public_key_bytes sdk_wallet_of = eng_architect_pk (nd_engine (send_node mp))"
      "\<And>sid. pool_data (\<lambda>t. t) (nd_mempool (send_node mp)) sid = []" "unat (max_sector_capacity (nd_mempool (send_node mp))) = 1000000"
    by (rule send_ready) blast
  obtain fs where f: "wallet_save send_sdk ''my.wallet'' sdk_wallet_of Map.empty = (Inr (), fs)"
    and l: "wallet_load (ce_sdk send_client) ''my.wallet'' fs = Inr sdk_wallet_of"
    by (metis send_wallet_saved send_client_fields(2))
  have "CHR ''q'' \<noteq> char_of (7 :: nat)" by code_simp
  then have no_q: "CHR ''q'' \<notin> set (hex_encode send_sdk (replicate PK_BYTES 7))"
    by (simp add: send_sdk_fields mem_sdk_def)
  note p = tui_transfer_admitted [OF send_facts(1) send_client_fields(1) _ send_env_contract ok send_facts(2,3) l send_facts(4)
      send_node_account sdk_account_hash send_facts(5) refl send_facts(6-9)]
  show ?thesis
    using p [of "''127.0.0.1:9000''" "Inr 8" mem_hs "Inl ConnectTimeout" "[]"] room no_q mp f send_sdk_platform
    by (simp add: send_client_fields del: map_option_eq_Some) fastforce
qed

end
