(* ===== verification/Spec2Isabelle.thy ===== *)
theory Spec2Isabelle
  imports Primus_Pvm Primus_Wasm Mpt_Claims Chunk_Framing Primus_Chamber Processor_Claims Engine_Claims
    Mempool_Claims Dht_Claims Sdk_Claims Node_Claims Server_Claims Client_Claims Ipc_Claims Setup_Claims Console_Claims
    Primus_Discovery Tui_Claims
begin

text \<open>
  A verification of Primus, a block chain node in Rust: accounts are atoms, transactions are signed
  reactions, blocks are crystals, and the state is a Merkle-Patricia trie over an embedded database.

  \<^bold>\<open>The parts of the program and the theories that model them.\<close>

  \<^item> \<open>primus-types\<close>: the wire types, the signing digest, structural validation, node records
    (\<open>Primus_Types\<close>). Strings, byte orders, results and ordered maps are in \<open>Primus_Prelude\<close>; \<open>f32\<close> and
    \<open>f64\<close> with rounding, conversion and comparison in \<open>Rust_Float\<close>, as exact rationals rounded to
    nearest even.
  \<^item> \<open>primus-vm\<close>: the execution of a batch of reactions (\<open>Primus_Pvm\<close>: \<open>pvm.rs\<close>, \<open>context.rs\<close>,
    \<open>physics.rs\<close>), and contracts (\<open>Primus_Wasm\<close>: \<open>dispatch.rs\<close>, \<open>wasm/\<close>).
  \<^item> \<open>primus-storage\<close>: the trie (\<open>Primus_Mpt\<close>: \<open>mpt.rs\<close>, \<open>mpt_store.rs\<close>; lemmas in \<open>Mpt_Tree\<close>,
    \<open>Mpt_Correct\<close>, \<open>Mpt_Proofs\<close>, \<open>Mpt_Gc\<close>), undo logs (\<open>Primus_State\<close>), the mempool
    (\<open>Primus_Mempool\<close>: \<open>mempool_v2.rs\<close>; lemmas in \<open>Mempool_Correct\<close>).
  \<^item> \<open>primus-core\<close>: the reaction chamber, gravity, proof of work (\<open>Primus_Chamber\<close>), the chunk protocol
    (\<open>Chunk_Framing\<close>: \<open>framing.rs\<close>), the storage (\<open>Primus_Storage\<close>: \<open>storage.rs\<close>; lemmas in
    \<open>Storage_Correct\<close>), the acceptance of crystals and reorganisations (\<open>Primus_Processor\<close>:
    \<open>processor.rs\<close>; lemmas in \<open>Processor_Correct\<close>), the engine (\<open>Primus_Engine\<close>: \<open>engine.rs\<close>), and the
    bridge, the mining loop and the shutdown of \<open>main.rs\<close> (\<open>Primus_Node\<close>), and the control socket
    (\<open>Primus_Ipc\<close>: \<open>ipc.rs\<close>; lemmas in \<open>Ipc_Correct\<close>), the configuration and its wizard (\<open>Primus_Setup\<close>:
    \<open>setup.rs\<close>, over the text functions of \<open>Rust_Text\<close>), and the identities, the node record and the console of
    \<open>main.rs\<close> (\<open>Primus_Console\<close>).
  \<^item> \<open>primus-net-opt\<close>: the Kademlia table and lookup (\<open>Primus_Dht\<close>: \<open>dht.rs\<close>, \<open>lib.rs\<close>; lemmas in
    \<open>Dht_Correct\<close>), shield, gossip and message handler (\<open>Primus_Node\<close>: \<open>gravity_shield.rs\<close>,
    \<open>gossip.rs\<close>, \<open>network.rs\<close>; lemmas in \<open>Node_Correct\<close>), the Noise handshake and the encrypted stream
    (\<open>Primus_Noise\<close>: \<open>noise.rs\<close>, \<open>transport.rs\<close>; lemmas in \<open>Noise_Correct\<close>), the sessions and streams of the
    QUIC server (\<open>Primus_Server\<close>: \<open>server.rs\<close>), and the discovery of peers with the port mappings
    (\<open>Primus_Discovery\<close>: \<open>discovery.rs\<close>, \<open>nat.rs\<close>).
  \<^item> \<open>primus-sdk\<close>: keys, wallets, transactions and the verifier of balance proofs (\<open>Primus_Sdk\<close>).
  \<^item> \<open>primus-client\<close>, \<open>primus-cli\<close>: the client of a node with its transports and queries, and the send command
    (\<open>Primus_Client\<close>: \<open>rpc.rs\<close>, \<open>commands/tx.rs\<close>; lemmas in \<open>Client_Correct\<close>), the administrative, wallet and balance
    commands (\<open>Primus_Admin\<close>: \<open>admin.rs\<close>, \<open>commands/\<close>, \<open>utils.rs\<close>), as actions on a connection
    (\<open>Stream_Actions\<close>): an action returns a result, an error, or nothing when it waits forever. The screen, the
    keys and the background task of the terminal client are in \<open>Primus_Tui\<close> (\<open>primus-client/src/main.rs\<close>).

  \<^bold>\<open>How they interact.\<close> A frame from a peer is decoded and handled (\<open>handle_frame\<close>); reactions and crystals
  are handed to spawned tasks (\<open>nd_tasks\<close>), which run in any order (\<open>node_step\<close>). A reaction passes the
  checks of the bridge into the mempool (\<open>core_push_bytes\<close>, \<open>push\<close>); a turn of the mining loop drains the
  mempool (\<open>drain_resonant\<close>), executes the batch in the virtual machine (\<open>execute_payload\<close>), commits the
  changes to the trie and the database and appends a crystal (\<open>mine_block\<close>,
  \<open>finalize_solidification\<close>). A crystal of a peer is verified and applied the same way, after a
  reorganisation if it belongs to a better branch (\<open>process_network_crystal\<close>, \<open>perform_reorg\<close>).

  \<^bold>\<open>The state.\<close> The records keep the fields of the Rust structs: \<open>Atom\<close>, \<open>SignedReaction\<close>, \<open>Crystal\<close>,
  \<open>StateTree\<close>, \<open>PrimusStorage\<close>, \<open>PrimusEngine\<close>, \<open>SectoralMempool\<close>, \<open>RoutingTable\<close>, \<open>node\<close>. Integers are words of
  their width, with checked, saturating and wrapping arithmetic as in the source. Fallible operations
  return a sum whose left side is the error; an operation that changes state before it fails returns the
  changed state with the error. Each operation of the source is one definition.

  \<^bold>\<open>Code outside the repository\<close> is a parameter: the hash functions, ML-DSA, the codecs of bincode and
  rkyv, the sled database and its trees, wasmtime, snow, the codec of tokio, the file system, the clocks,
  the answers of other nodes. What is relied on is a locale: \<open>sled_contract\<close> and \<open>core_platform\<close> for the database and the
  codecs, \<open>tree_contract\<close> for the trees of the mempool, \<open>dsa_contract\<close> and \<open>sdk_platform\<close> for the SDK,
  \<open>node_contract\<close> for the node, \<open>noise_channel\<close> and \<open>hs_contract\<close> for snow,
  \<open>wire_codec\<close> and \<open>ipc_codec\<close> for the encodings that client and node share. Each is interpreted on an implementation in memory
  (\<open>Memory_Platform\<close>, \<open>Mempool_Claims\<close>, \<open>Sdk_Claims\<close>, \<open>Node_Claims\<close>, \<open>Noise_Claims\<close>, \<open>Client_Claims\<close>, \<open>Ipc_Claims\<close>), on which the witnesses run; \<open>Demo_Node\<close>
  is a node with two accounts and a block.

  \<^bold>\<open>What is shown.\<close> \<open>Primus_Pvm\<close>: a batch conserves mass, accepts only signed reactions with consecutive
  nonces, and stays below its heat limit. \<open>Primus_Wasm\<close>: contracts are bounded by gas, events and the mass of
  the caller, and without contract calls the dispatcher is the virtual machine. \<open>Mpt_Claims\<close>: the trie
  refines a finite map, its root depends on the contents only, proofs of honest tries verify, collection
  of old roots keeps the current trie. \<open>Processor_Claims\<close>: solidification succeeds on a healthy
  platform and keeps memory and disk in agreement, and a reorganisation returns to the fork point.
  \<open>Engine_Claims\<close>: genesis and mining. \<open>Mempool_Claims\<close>: admission and draining by energy. \<open>Dht_Claims\<close>: the table
  is well formed under every interleaving of insertions, lookups end and closest peers are the nearest. \<open>Sdk_Claims\<close>: wallets round-trip,
  and a block with a built transaction executes and moves the amount. \<open>Node_Claims\<close>: the invariant of
  every interleaving of the node's tasks, admission of reactions over TCP and QUIC, chunked crystals, gossip. \<open>Noise_Claims\<close>: honest
  handshakes complete, and the stream delivers what was written under any fragmentation. \<open>Server_Claims\<close>: the
  server keeps the invariant of the node, and no gossip stream of the program passes its codec. \<open>Client_Claims\<close>: over a connection
  to a modelled node (\<open>node_stream\<close>), a transfer of the command line reaches the mempool. \<open>Tui_Claims\<close>: so does
  one that is typed into the terminal client. \<open>Primus_Discovery\<close>: the memory of the listener is bounded, and it connects once
  to every announced address of another port while the addresses fit its memory. \<open>Ipc_Claims\<close>: the control
  socket ends the process on a signature of the architect only. \<open>Setup_Claims\<close>: the configuration survives
  a restart. \<open>Console_Claims\<close>: so does the identity of an architect with a wallet; which console commands can
  change what, and that they keep the invariant of the node. Defects are theorems too: replay by counting up the nonce, forged proofs, the greeting that stops mining, the
  nested chunk that blocks reassembly.

  \<^bold>\<open>Bounds.\<close> A trie operation recurses at most \<open>MPT_FUEL\<close> = 66 levels: a key has 64 nibbles, each level
  consumes one, and the lemmas show that the fuel is never used up on well-formed tries. The search for a
  nonce stops after \<open>MAX_NONCE_ATTEMPTS\<close> as in the source. Three loops are
  \<open>partial_function (option)\<close>: the lookup of the hash table, which is proved to return; the reading of records
  by the client (\<open>fill_buf_to\<close>), which is proved to return on the records of a sender; and the loop of the
  control socket (\<open>handle_connection\<close>), whose steps are also given one by one (\<open>connection_turn\<close>). All other recursion is structural or has a
  measure.

  \<^bold>\<open>Not modelled.\<close> The endpoints of QUIC and WebTransport with their certificates, the UDP
  socket of the discovery, the wiring of tasks at the start of the node, the argument parsing of the command line
  and the drawing of the screens: they are input and output around third-party crates. Of the node, the cache of
  connections and the time-outs of single requests are left out, and of the
  handshake the frames of its messages with their read buffer. Threads that compute in parallel are
  modelled by their sequential result where the source joins them.
\<close>

end
